(* ===== verification/PyStr.thy ===== *)
theory PyStr
  imports Main "HOL-Library.Sublist" "HOL-Library.Char_ord" "HOL-Library.List_Lexorder"
begin

text \<open>
  The part of Python's \<open>str\<close> that the program uses, as functions on \<^typ>\<open>string\<close>.
  A value of type \<^typ>\<open>string\<close> is read as a Python string whose code points are below 256
  (one \<^typ>\<open>char\<close> is one code point, so \<open>len\<close> is \<^const>\<open>length\<close>); its UTF-8
  encoding takes one byte for a code point below 128 and two bytes for the others.
  White space, line boundaries and lower case are those of Python for these code points.
\<close>

named_theorems pystr_simps \<open>evaluation rules of the string functions\<close>

type_synonym pystr = string

subsection \<open>Character classes\<close>

definition py_isspace :: "char \<Rightarrow> bool" where
  "py_isspace c = (let n = (of_char c :: nat) in
     (9 \<le> n \<and> n \<le> 13) \<or> (28 \<le> n \<and> n \<le> 32) \<or> n = 133 \<or> n = 160)"

definition py_isdigit :: "char \<Rightarrow> bool" where
  "py_isdigit c = (let n = (of_char c :: nat) in 48 \<le> n \<and> n \<le> 57)"

definition py_linebreak :: "char \<Rightarrow> bool" where
  "py_linebreak c = (let n = (of_char c :: nat) in
     (10 \<le> n \<and> n \<le> 13) \<or> (28 \<le> n \<and> n \<le> 30) \<or> n = 133)"

definition py_lower_char :: "char \<Rightarrow> char" where
  "py_lower_char c = (let n = (of_char c :: nat) in
     if (65 \<le> n \<and> n \<le> 90) \<or> (192 \<le> n \<and> n \<le> 222 \<and> n \<noteq> 215) then char_of (n + 32) else c)"

definition py_lower :: "pystr \<Rightarrow> pystr" where
  "py_lower s = map py_lower_char s"

definition utf8_char_len :: "char \<Rightarrow> nat" where
  "utf8_char_len c = (if (of_char c :: nat) < 128 then 1 else 2)"

definition utf8_len :: "pystr \<Rightarrow> nat" where
  "utf8_len s = sum_list (map utf8_char_len s)"

subsection \<open>Stripping, splitting, joining\<close>

definition py_rstrip_of :: "(char \<Rightarrow> bool) \<Rightarrow> pystr \<Rightarrow> pystr" where
  "py_rstrip_of P s = rev (dropWhile P (rev s))"

definition py_strip :: "pystr \<Rightarrow> pystr" where
  "py_strip s = py_rstrip_of py_isspace (dropWhile py_isspace s)"

definition py_startswith :: "pystr \<Rightarrow> pystr \<Rightarrow> bool" where
  "py_startswith s p = prefix p s"

definition py_endswith :: "pystr \<Rightarrow> pystr \<Rightarrow> bool" where
  "py_endswith s p = suffix p s"

definition py_in :: "pystr \<Rightarrow> pystr \<Rightarrow> bool" where
  "py_in p s = sublist p s"

text \<open>\<open>s.split(c)\<close> for a one-character separator: never the empty list.\<close>

fun py_split_ch :: "char \<Rightarrow> pystr \<Rightarrow> pystr list" where
  "py_split_ch c [] = [[]]"
| "py_split_ch c (x # xs) =
     (if x = c then [] # py_split_ch c xs
      else (case py_split_ch c xs of [] \<Rightarrow> [[x]] | w # ws \<Rightarrow> (x # w) # ws))"

text \<open>\<open>s.split()\<close>: the maximal runs of characters that are not white space.\<close>

fun py_words_aux :: "pystr \<Rightarrow> pystr \<Rightarrow> pystr list" where
  "py_words_aux acc [] = (if acc = [] then [] else [rev acc])"
| "py_words_aux acc (x # xs) =
     (if py_isspace x then (if acc = [] then py_words_aux [] xs else rev acc # py_words_aux [] xs)
      else py_words_aux (x # acc) xs)"

definition py_words :: "pystr \<Rightarrow> pystr list" where
  "py_words s = py_words_aux [] s"

fun py_join :: "pystr \<Rightarrow> pystr list \<Rightarrow> pystr" where
  "py_join sep [] = []"
| "py_join sep [x] = x"
| "py_join sep (x # y # zs) = x @ sep @ py_join sep (y # zs)"

text \<open>
  \<open>s.splitlines(keepends=True)\<close>: a line ends after a line boundary, and a carriage return
  directly followed by a newline is one boundary.  \<open>py_splitlines\<close> drops the boundaries.
\<close>

fun py_splitlines_keep_aux :: "pystr \<Rightarrow> pystr \<Rightarrow> pystr list" where
  "py_splitlines_keep_aux acc [] = (if acc = [] then [] else [rev acc])"
| "py_splitlines_keep_aux acc [x] = [rev (x # acc)]"
| "py_splitlines_keep_aux acc (x # y # zs) =
     (if x = CHR 0x0D \<and> y = CHR 0x0A then rev (y # x # acc) # py_splitlines_keep_aux [] zs
      else if py_linebreak x then rev (x # acc) # py_splitlines_keep_aux [] (y # zs)
      else py_splitlines_keep_aux (x # acc) (y # zs))"

definition py_splitlines_keep :: "pystr \<Rightarrow> pystr list" where
  "py_splitlines_keep s = py_splitlines_keep_aux [] s"

definition py_splitlines :: "pystr \<Rightarrow> pystr list" where
  "py_splitlines s = map (py_rstrip_of py_linebreak) (py_splitlines_keep s)"

subsection \<open>Searching and slicing\<close>

text \<open>\<open>s.rfind(c)\<close> for one character, \<open>-1\<close> when it does not occur.\<close>

fun py_rfind_ch :: "char \<Rightarrow> pystr \<Rightarrow> int" where
  "py_rfind_ch c [] = -1"
| "py_rfind_ch c (x # xs) =
     (let r = py_rfind_ch c xs in if r \<ge> 0 then r + 1 else if x = c then 0 else -1)"

text \<open>\<open>s[:n]\<close> and \<open>s[n:]\<close>, where a negative bound counts from the end.\<close>

definition py_upto :: "'a list \<Rightarrow> int \<Rightarrow> 'a list" where
  "py_upto xs n = take (if n < 0 then length xs - nat (- n) else nat n) xs"

definition py_from :: "'a list \<Rightarrow> int \<Rightarrow> 'a list" where
  "py_from xs n = drop (if n < 0 then length xs - nat (- n) else nat n) xs"

text \<open>\<open>s.replace(c, d)\<close> for one-character strings.\<close>

definition py_replace_ch :: "char \<Rightarrow> char \<Rightarrow> pystr \<Rightarrow> pystr" where
  "py_replace_ch c d s = map (\<lambda>x. if x = c then d else x) s"

subsection \<open>Decimal numbers\<close>

fun nat_str :: "nat \<Rightarrow> pystr" where
  "nat_str n = (if n < 10 then [char_of (48 + n)]
                else nat_str (n div 10) @ [char_of (48 + n mod 10)])"

declare nat_str.simps [simp del]

definition int_str :: "int \<Rightarrow> pystr" where
  "int_str i = (if i < 0 then CHR ''-'' # nat_str (nat (- i)) else nat_str (nat i))"

text \<open>\<open>int(s)\<close> on a string of decimal digits.\<close>

definition parse_nat :: "pystr \<Rightarrow> nat" where
  "parse_nat s = foldl (\<lambda>n c. 10 * n + ((of_char c :: nat) - 48)) 0 s"

subsection \<open>Facts shared by the components\<close>

lemma py_in_refl [simp]: "py_in s s"
  by (simp add: py_in_def)

lemma py_in_append: "py_in s (u @ s @ v)"
  by (auto simp: py_in_def sublist_def)

lemma py_startswith_iff: "py_startswith s p \<longleftrightarrow> (\<exists>r. s = p @ r)"
  by (auto simp: py_startswith_def prefix_def)

lemma py_startswith_append [simp]: "py_startswith (p @ r) p"
  by (simp add: py_startswith_def)

lemma set_py_rstrip_of: "set (py_rstrip_of P s) \<subseteq> set s"
  unfolding py_rstrip_of_def by (metis set_dropWhileD set_rev subsetI)

lemma py_rstrip_of_last: "py_rstrip_of P s \<noteq> [] \<Longrightarrow> \<not> P (last (py_rstrip_of P s))"
  unfolding py_rstrip_of_def by (simp add: last_rev hd_dropWhile)

lemma py_rstrip_of_none: "\<forall>c \<in> set s. \<not> P c \<Longrightarrow> py_rstrip_of P s = s"
proof -
  assume "\<forall>c \<in> set s. \<not> P c"
  then have "dropWhile P (rev s) = rev s"
    by (cases "rev s") (auto simp: dropWhile_eq_self_iff)
  then show ?thesis by (simp add: py_rstrip_of_def)
qed

lemma py_rstrip_of_snoc:
  "P c \<Longrightarrow> py_rstrip_of P (s @ [c]) = py_rstrip_of P s"
  by (simp add: py_rstrip_of_def)

lemma py_split_ch_nonempty [simp]: "py_split_ch c s \<noteq> []"
  by (induction s) (auto split: list.splits)

lemma py_split_ch_free: "w \<in> set (py_split_ch c s) \<Longrightarrow> c \<notin> set w"
  by (induction s arbitrary: w) (auto split: if_splits list.splits)

lemma py_join_Cons: "ws \<noteq> [] \<Longrightarrow> py_join sep (w # ws) = w @ sep @ py_join sep ws"
  by (cases ws) auto

text \<open>Splitting at a character and joining with it gives the string back.\<close>

lemma py_join_split_ch: "py_join [c] (py_split_ch c s) = s"
proof (induction s)
  case Nil
  show ?case by simp
next
  case (Cons x xs)
  obtain w ws where W: "py_split_ch c xs = w # ws"
    by (meson neq_Nil_conv py_split_ch_nonempty)
  show ?case
    using Cons.IH W by (cases ws) (auto simp: py_join_Cons)
qed

lemma py_split_ch_no: "c \<notin> set s \<Longrightarrow> py_split_ch c s = [s]"
  by (induction s) auto

lemma py_split_ch_append: "c \<notin> set w \<Longrightarrow> py_split_ch c (w @ c # s) = w # py_split_ch c s"
  by (induction w) auto

text \<open>Splitting a non-empty list of lines, none holding the separator, undoes the join.\<close>

lemma py_split_join:
  "ws \<noteq> [] \<Longrightarrow> \<forall>w \<in> set ws. c \<notin> set w \<Longrightarrow> py_split_ch c (py_join [c] ws) = ws"
proof (induction ws rule: induct_list012)
  case 1
  then show ?case by simp
next
  case (2 x)
  then show ?case by (simp add: py_split_ch_no)
next
  case (3 x y zs)
  then show ?case by (simp add: py_split_ch_append)
qed

lemma length_py_upto: "length (py_upto xs n) \<le> length xs"
  by (simp add: py_upto_def)

lemma py_upto_nonneg: "0 \<le> n \<Longrightarrow> length (py_upto xs n) \<le> nat n"
  by (simp add: py_upto_def)

lemma set_py_replace_ch: "c \<noteq> d \<Longrightarrow> c \<notin> set (py_replace_ch c d s)"
  by (auto simp: py_replace_ch_def)

lemma py_replace_ch_keep: "x \<noteq> d \<Longrightarrow> x \<notin> set s \<Longrightarrow> x \<notin> set (py_replace_ch c d s)"
  by (auto simp: py_replace_ch_def)

lemma utf8_len_append [simp]: "utf8_len (s @ t) = utf8_len s + utf8_len t"
  by (simp add: utf8_len_def)

lemma utf8_len_Nil [simp]: "utf8_len [] = 0"
  by (simp add: utf8_len_def)

lemma utf8_len_Cons [simp]: "utf8_len (c # s) = utf8_char_len c + utf8_len s"
  by (simp add: utf8_len_def)

lemma length_le_utf8_len: "length s \<le> utf8_len s"
  by (induction s) (auto simp: utf8_char_len_def)

lemma utf8_len_ascii: "\<forall>c \<in> set s. (of_char c :: nat) < 128 \<Longrightarrow> utf8_len s = length s"
  by (induction s) (auto simp: utf8_char_len_def)

lemma utf8_len_le_double: "utf8_len s \<le> 2 * length s"
  by (induction s) (auto simp: utf8_char_len_def)

subsection \<open>Decimal numbers read back\<close>

lemma nat_str_nonempty [simp]: "nat_str n \<noteq> []"
  by (subst nat_str.simps) simp

lemma of_char_digit: "d < 10 \<Longrightarrow> (of_char (char_of (48 + d :: nat)) :: nat) = 48 + d"
  by simp

lemma parse_nat_snoc: "parse_nat (s @ [c]) = 10 * parse_nat s + ((of_char c :: nat) - 48)"
  by (simp add: parse_nat_def)

lemma parse_nat_str [simp]: "parse_nat (nat_str n) = n"
proof (induction n rule: nat_str.induct)
  case (1 n)
  show ?case
  proof (cases "n < 10")
    case True
    then show ?thesis by (subst nat_str.simps) (simp add: parse_nat_def)
  next
    case False
    have "parse_nat (nat_str n) = 10 * (n div 10) + n mod 10"
      using False 1 by (subst nat_str.simps) (simp add: parse_nat_snoc)
    then show ?thesis by simp
  qed
qed

lemma nat_str_inj [simp]: "nat_str m = nat_str n \<longleftrightarrow> m = n"
  by (metis parse_nat_str)

lemma nat_str_digits: "c \<in> set (nat_str n) \<Longrightarrow> py_isdigit c"
proof (induction n rule: nat_str.induct)
  case (1 n)
  show ?case
  proof (cases "n < 10")
    case True
    with 1(2) show ?thesis by (subst (asm) nat_str.simps) (auto simp: py_isdigit_def)
  next
    case False
    with 1(2) have "c \<in> set (nat_str (n div 10)) \<or> c = char_of (48 + n mod 10)"
      by (subst (asm) nat_str.simps) auto
    with False 1(1) show ?thesis by (auto simp: py_isdigit_def)
  qed
qed

lemma splitlines_keep_line:
  "\<forall>c \<in> set l. \<not> py_linebreak c \<Longrightarrow>
   py_splitlines_keep_aux acc (l @ CHR 0x0A # rest) = (rev acc @ l @ [CHR 0x0A]) # py_splitlines_keep_aux [] rest"
proof (induction l arbitrary: acc)
  case Nil
  have "py_linebreak (CHR 0x0A)" by (simp add: py_linebreak_def)
  then show ?case by (cases rest) simp_all
next
  case (Cons c l)
  have "py_linebreak (CHR 0x0D)" by (simp add: py_linebreak_def)
  with Cons have c: "\<not> py_linebreak c" "c \<noteq> CHR 0x0D" by auto
  have IH: "py_splitlines_keep_aux (c # acc) (l @ CHR 0x0A # rest) =
      (rev (c # acc) @ l @ [CHR 0x0A]) # py_splitlines_keep_aux [] rest"
    using Cons by simp
  obtain y ys where "l @ CHR 0x0A # rest = y # ys" by (cases l) auto
  then show ?case using IH c by simp
qed

lemma splitlines_line:
  assumes "\<forall>c \<in> set l. \<not> py_linebreak c"
  shows "py_splitlines (l @ CHR 0x0A # rest) = l # py_splitlines rest"
proof -
  have "py_rstrip_of py_linebreak (l @ [CHR 0x0A]) = l"
    using py_rstrip_of_snoc[of py_linebreak "CHR 0x0A" l] py_rstrip_of_none[OF assms]
    by (simp add: py_linebreak_def)
  then show ?thesis
    using splitlines_keep_line[OF assms, of "[]" rest] by (simp add: py_splitlines_def py_splitlines_keep_def)
qed

lemmas pystr_eval = py_isspace_def py_isdigit_def py_linebreak_def py_lower_char_def py_lower_def
  utf8_char_len_def py_rstrip_of_def py_strip_def py_startswith_def py_endswith_def py_in_def
  py_words_def py_splitlines_keep_def py_splitlines_def py_upto_def py_from_def py_replace_ch_def

declare pystr_eval [pystr_simps]

end
