(* ===== verification/PyJson.thy ===== *)
theory PyJson
  imports PyStr "HOL-Library.AList"
begin

text \<open>
  The dynamically typed values the program passes around: what \<open>json.loads\<close> returns,
  without floating-point numbers.  A \<open>dict\<close> is an association list in insertion order;
  \<open>dset\<close> overwrites an existing key in place and appends a new one, as Python does.
  Also here: truth of a value (\<open>bool(x)\<close>), \<open>str(x)\<close> with \<open>repr\<close> of nested values,
  \<open>json.dumps\<close>, and the error and option conventions the components share.
\<close>

named_theorems dict_simps \<open>lookups in updated dictionaries\<close>

datatype json =
    JNull
  | JBool bool
  | JNum int
  | JStr pystr
  | JList "json list"
  | JDict "(pystr \<times> json) list"

type_synonym dict = "(pystr \<times> json) list"

subsection \<open>Dictionaries\<close>

definition dget :: "dict \<Rightarrow> pystr \<Rightarrow> json option" where
  "dget d k = map_of d k"

definition dget_or :: "dict \<Rightarrow> pystr \<Rightarrow> json \<Rightarrow> json" where
  "dget_or d k v = (case map_of d k of None \<Rightarrow> v | Some x \<Rightarrow> x)"

abbreviation dget_null :: "dict \<Rightarrow> pystr \<Rightarrow> json" where
  "dget_null d k \<equiv> dget_or d k JNull"

definition dhas :: "dict \<Rightarrow> pystr \<Rightarrow> bool" where
  "dhas d k = (map_of d k \<noteq> None)"

definition dset :: "pystr \<Rightarrow> json \<Rightarrow> dict \<Rightarrow> dict" where
  "dset k v d = AList.update k v d"

text \<open>\<open>{**d, **e}\<close> and \<open>d.update(e)\<close>: the entries of \<open>e\<close> win.\<close>

definition dmerge :: "dict \<Rightarrow> dict \<Rightarrow> dict" where
  "dmerge d e = fold (\<lambda>(k, v). dset k v) e d"

definition dpop :: "pystr \<Rightarrow> dict \<Rightarrow> dict" where
  "dpop k d = filter (\<lambda>p. fst p \<noteq> k) d"

definition dkeys :: "dict \<Rightarrow> pystr list" where
  "dkeys d = map fst d"

lemma dget_eq: "dget d k = map_of d k"
  by (simp add: dget_def)

lemma dget_or_dget: "dget_or d k v = (case dget d k of None \<Rightarrow> v | Some x \<Rightarrow> x)"
  by (simp add: dget_or_def dget_def)

lemma dget_Nil [simp]: "dget [] k = None"
  by (simp add: dget_def)

lemma dget_Cons [simp]: "dget ((a, v) # d) k = (if k = a then Some v else dget d k)"
  by (simp add: dget_def)

lemma dget_or_Nil [simp]: "dget_or [] k x = x"
  by (simp add: dget_or_def)

lemma dget_or_Cons [simp]: "dget_or ((a, v) # d) k x = (if k = a then v else dget_or d k x)"
  by (simp add: dget_or_def)

lemma dhas_iff: "dhas d k \<longleftrightarrow> dget d k \<noteq> None"
  by (simp add: dhas_def dget_def)

lemma dget_None_iff: "dget d k = None \<longleftrightarrow> k \<notin> set (map fst d)"
  by (simp add: dget_def map_of_eq_None_iff)

lemma dget_dset [dict_simps]: "dget (dset k v d) k' = (if k' = k then Some v else dget d k')"
  by (simp add: dget_def dset_def update_conv')

lemma dget_or_dset [dict_simps]:
  "dget_or (dset k v d) k' x = (if k' = k then v else dget_or d k' x)"
  by (simp add: dget_or_dget dget_dset)

lemma dhas_dset [dict_simps]: "dhas (dset k v d) k' \<longleftrightarrow> k' = k \<or> dhas d k'"
  by (simp add: dhas_def dset_def update_conv')

lemma dget_dpop [dict_simps]: "dget (dpop k d) k' = (if k' = k then None else dget d k')"
  by (induction d) (auto simp: dget_def dpop_def)

lemma distinct_dset: "distinct (map fst d) \<Longrightarrow> distinct (map fst (dset k v d))"
  by (simp add: dset_def distinct_update)

lemma dmerge_Nil [simp]: "dmerge d [] = d"
  by (simp add: dmerge_def)

lemma dmerge_Cons [simp]: "dmerge d ((k, v) # e) = dmerge (dset k v d) e"
  by (simp add: dmerge_def)

lemma dget_dmerge:
  "distinct (map fst e) \<Longrightarrow>
     dget (dmerge d e) k = (case dget e k of None \<Rightarrow> dget d k | Some v \<Rightarrow> Some v)"
proof (induction e arbitrary: d)
  case Nil
  then show ?case by simp
next
  case (Cons p e)
  obtain a v where [simp]: "p = (a, v)" by (cases p)
  have IH: "dget (dmerge (dset a v d) e) k =
      (case dget e k of None \<Rightarrow> dget (dset a v d) k | Some v \<Rightarrow> Some v)"
    using Cons by simp
  have "k = a \<Longrightarrow> dget e k = None"
    using Cons.prems by (simp add: dget_None_iff)
  then show ?case
    using IH by (cases "k = a") (auto simp: dget_dset split: option.splits)
qed

text \<open>Keys outside the second operand keep their value, whatever the operand's order.\<close>

lemma dget_dmerge_other: "k \<notin> set (map fst e) \<Longrightarrow> dget (dmerge d e) k = dget d k"
  by (induction e arbitrary: d) (auto simp: dget_dset)

lemma dget_dmerge_cong: "dget d k = dget d' k \<Longrightarrow> dget (dmerge d e) k = dget (dmerge d' e) k"
  by (induction e arbitrary: d d') (auto simp: dget_dset)

lemma dmerge_single [dict_simps]: "dget (dmerge d [(k, v)]) k' = dget (dset k v d) k'"
  by simp

subsection \<open>Truth, type tests, \<open>x or y\<close>\<close>

fun truthy :: "json \<Rightarrow> bool" where
  "truthy JNull = False"
| "truthy (JBool b) = b"
| "truthy (JNum i) = (i \<noteq> 0)"
| "truthy (JStr s) = (s \<noteq> [])"
| "truthy (JList xs) = (xs \<noteq> [])"
| "truthy (JDict d) = (d \<noteq> [])"

definition jor :: "json \<Rightarrow> json \<Rightarrow> json" where
  "jor x y = (if truthy x then x else y)"

fun is_jstr :: "json \<Rightarrow> bool" where
  "is_jstr (JStr _) = True"
| "is_jstr _ = False"

fun is_jdict :: "json \<Rightarrow> bool" where
  "is_jdict (JDict _) = True"
| "is_jdict _ = False"

fun is_jlist :: "json \<Rightarrow> bool" where
  "is_jlist (JList _) = True"
| "is_jlist _ = False"

text \<open>\<open>isinstance(x, int)\<close>: a \<open>bool\<close> is an \<open>int\<close> in Python, worth 0 or 1.\<close>

fun as_int :: "json \<Rightarrow> int option" where
  "as_int (JNum i) = Some i"
| "as_int (JBool b) = Some (if b then 1 else 0)"
| "as_int _ = None"

fun the_jdict :: "json \<Rightarrow> dict" where
  "the_jdict (JDict d) = d"
| "the_jdict _ = []"

fun the_jlist :: "json \<Rightarrow> json list" where
  "the_jlist (JList xs) = xs"
| "the_jlist _ = []"

lemma truthy_jor [simp]: "truthy (jor x y) \<longleftrightarrow> truthy x \<or> truthy y"
  by (simp add: jor_def)

subsection \<open>\<open>str\<close> and \<open>repr\<close>\<close>

definition hex_digit :: "nat \<Rightarrow> char" where
  "hex_digit n = char_of (if n < 10 then 48 + n else 87 + n)"

definition repr_char :: "char \<Rightarrow> char \<Rightarrow> pystr" where
  "repr_char q c = (let n = (of_char c :: nat) in
     if c = CHR 0x5C then [CHR 0x5C, CHR 0x5C]
     else if c = q then [CHR 0x5C, q]
     else if n = 10 then [CHR 0x5C, CHR ''n'']
     else if n = 13 then [CHR 0x5C, CHR ''r'']
     else if n = 9 then [CHR 0x5C, CHR ''t'']
     else if n < 32 \<or> (127 \<le> n \<and> n \<le> 160) \<or> n = 173
       then [CHR 0x5C, CHR ''x'', hex_digit (n div 16), hex_digit (n mod 16)]
     else [c])"

definition repr_str :: "pystr \<Rightarrow> pystr" where
  "repr_str s =
     (let q = (if CHR 0x27 \<in> set s \<and> CHR 0x22 \<notin> set s then CHR 0x22 else CHR 0x27)
      in q # concat (map (repr_char q) s) @ [q])"

fun py_repr :: "json \<Rightarrow> pystr" where
  "py_repr JNull = ''None''"
| "py_repr (JBool b) = (if b then ''True'' else ''False'')"
| "py_repr (JNum i) = int_str i"
| "py_repr (JStr s) = repr_str s"
| "py_repr (JList xs) = ''['' @ py_join '', '' (map py_repr xs) @ '']''"
| "py_repr (JDict d) =
     ''{'' @ py_join '', '' (map (\<lambda>(k, v). repr_str k @ '': '' @ py_repr v) d) @ ''}''"

fun py_str :: "json \<Rightarrow> pystr" where
  "py_str (JStr s) = s"
| "py_str v = py_repr v"

subsection \<open>\<open>json.dumps(x, ensure_ascii=False)\<close>\<close>

definition json_char :: "char \<Rightarrow> pystr" where
  "json_char c = (let n = (of_char c :: nat) in
     if n = 34 then [CHR 0x5C, CHR 0x22]
     else if n = 92 then [CHR 0x5C, CHR 0x5C]
     else if n = 10 then [CHR 0x5C, CHR ''n'']
     else if n = 13 then [CHR 0x5C, CHR ''r'']
     else if n = 9 then [CHR 0x5C, CHR ''t'']
     else if n = 12 then [CHR 0x5C, CHR ''f'']
     else if n = 8 then [CHR 0x5C, CHR ''b'']
     else if n < 32 then [CHR 0x5C, CHR ''u'', CHR ''0'', CHR ''0'', hex_digit (n div 16), hex_digit (n mod 16)]
     else [c])"

definition json_str :: "pystr \<Rightarrow> pystr" where
  "json_str s = CHR 0x22 # concat (map json_char s) @ [CHR 0x22]"

fun json_dumps :: "json \<Rightarrow> pystr" where
  "json_dumps JNull = ''null''"
| "json_dumps (JBool b) = (if b then ''true'' else ''false'')"
| "json_dumps (JNum i) = int_str i"
| "json_dumps (JStr s) = json_str s"
| "json_dumps (JList xs) = ''['' @ py_join '', '' (map json_dumps xs) @ '']''"
| "json_dumps (JDict d) =
     ''{'' @ py_join '', '' (map (\<lambda>(k, v). json_str k @ '': '' @ json_dumps v) d) @ ''}''"

text \<open>\<open>sort_keys=True\<close>: every dictionary of the value in key order, code point by code point.\<close>

fun sort_dict :: "json \<Rightarrow> json" where
  "sort_dict (JList xs) = JList (map sort_dict xs)"
| "sort_dict (JDict d) = JDict (sort_key fst (map (\<lambda>(k, v). (k, sort_dict v)) d))"
| "sort_dict v = v"

definition json_dumps_sorted :: "json \<Rightarrow> pystr" where
  "json_dumps_sorted v = json_dumps (sort_dict v)"

subsection \<open>Errors as values\<close>

text \<open>The Python exceptions the modelled code raises, with their message where it has one.\<close>

datatype py_error =
    ValueError pystr
  | KeyError pystr
  | TypeError pystr
  | PermissionError pystr
  | StopIteration pystr
  | RuntimeError pystr
  | AttributeError pystr

type_synonym 'a result = "py_error + 'a"

fun bind_result :: "'a result \<Rightarrow> ('a \<Rightarrow> 'b result) \<Rightarrow> 'b result" where
  "bind_result (Inl e) f = Inl e"
| "bind_result (Inr x) f = f x"

lemma bind_result_Inr_iff [simp]:
  "bind_result r f = Inr y \<longleftrightarrow> (\<exists>x. r = Inr x \<and> f x = Inr y)"
  by (cases r) auto

lemma bind_result_Inl_iff [simp]:
  "bind_result r f = Inl e \<longleftrightarrow> r = Inl e \<or> (\<exists>x. r = Inr x \<and> f x = Inl e)"
  by (cases r) auto

end
