(* ===== verification/EventBus.thy ===== *)
theory EventBus
  imports PyJson
begin

text \<open>
  The in-memory event bus (\<open>kun_runtime/event_bus.py\<close>) and the recorder that stamps events
  (\<open>kun_runtime/event_recorder.py\<close>).  Each subscriber queue is a cell of an explicit store
  (\<open>queues\<close>), because the publisher and the subscriber share the \<open>asyncio.Queue\<close> object; \<open>None\<close>
  in a queue is the sentinel.  The asynchronous generator \<open>subscribe\<close> is cut at its yields:
  \<open>subscribe_open\<close> runs up to the first one, \<open>subscribe_next\<close> resumes it once.
  An interface \<open>event_log\<close> says what the services that publish rely on.
\<close>

record event_bus =
  events :: "pystr \<rightharpoonup> dict list"
  next_seq :: "pystr \<rightharpoonup> int"
  subscribers :: "pystr \<rightharpoonup> nat list"
  queues :: "nat \<Rightarrow> dict option list"

definition empty_bus :: event_bus where
  "empty_bus = \<lparr>events = Map.empty, next_seq = Map.empty, subscribers = Map.empty,
                queues = (\<lambda>_. [])\<rparr>"

definition get_list :: "('k \<rightharpoonup> 'a list) \<Rightarrow> 'k \<Rightarrow> 'a list" where
  "get_list m k = (case m k of None \<Rightarrow> [] | Some xs \<Rightarrow> xs)"

lemma get_list_upd [simp]: "get_list (m(k \<mapsto> xs)) k' = (if k' = k then xs else get_list m k')"
  by (simp add: get_list_def)

definition allocate_seq :: "event_bus \<Rightarrow> pystr \<Rightarrow> int \<times> event_bus" where
  "allocate_seq b tid =
     (let seq = (case next_seq b tid of None \<Rightarrow> 0 | Some n \<Rightarrow> n) + 1;
          b1 = b\<lparr>next_seq := (next_seq b)(tid \<mapsto> seq)\<rparr>
      in (seq, if events b1 tid = None then b1\<lparr>events := (events b1)(tid \<mapsto> [])\<rparr> else b1))"

text \<open>\<open>put_nowait\<close> on an unbounded queue never raises \<open>QueueFull\<close>.\<close>

definition put_nowait :: "dict option \<Rightarrow> nat \<Rightarrow> event_bus \<Rightarrow> event_bus" where
  "put_nowait x q b = b\<lparr>queues := (queues b)(q := queues b q @ [x])\<rparr>"

definition notify_subscribers :: "event_bus \<Rightarrow> pystr \<Rightarrow> dict \<Rightarrow> event_bus" where
  "notify_subscribers b tid ev = fold (put_nowait (Some ev)) (get_list (subscribers b) tid) b"

definition bus_append :: "event_bus \<Rightarrow> pystr \<Rightarrow> dict \<Rightarrow> event_bus" where
  "bus_append b tid ev =
     (let b1 = (if events b tid = None then b\<lparr>events := (events b)(tid \<mapsto> [])\<rparr> else b);
          b2 = b1\<lparr>events := (events b1)(tid \<mapsto> get_list (events b1) tid @ [ev])\<rparr>
      in notify_subscribers b2 tid ev)"

definition seq_after :: "int \<Rightarrow> dict \<Rightarrow> bool" where
  "seq_after since e = (case as_int (dget_null e ''seq'') of None \<Rightarrow> False | Some n \<Rightarrow> since < n)"

definition history :: "event_bus \<Rightarrow> pystr \<Rightarrow> int \<Rightarrow> dict list" where
  "history b tid since =
     (let evs = get_list (events b) tid
      in if since \<le> 0 then evs else filter (seq_after since) evs)"

definition bus_count :: "event_bus \<Rightarrow> pystr \<Rightarrow> nat" where
  "bus_count b tid = length (get_list (events b) tid)"

definition unsubscribe_all :: "event_bus \<Rightarrow> pystr \<Rightarrow> event_bus" where
  "unsubscribe_all b tid =
     fold (put_nowait None) (get_list (subscribers b) tid)
       (b\<lparr>subscribers := (subscribers b)(tid := None)\<rparr>)"

subsection \<open>The subscriber\<close>

record subscription =
  sub_thread :: pystr
  sub_queue :: nat
  replay :: "dict list"
  closed :: bool

text \<open>\<open>que\<close> is the identity of the queue object the subscriber creates.\<close>

definition subscribe_open :: "event_bus \<Rightarrow> pystr \<Rightarrow> int \<Rightarrow> nat \<Rightarrow> event_bus \<times> subscription" where
  "subscribe_open b tid since que =
     (b\<lparr>subscribers := (subscribers b)(tid \<mapsto> get_list (subscribers b) tid @ [que]),
        queues := (queues b)(que := [])\<rparr>,
      \<lparr>sub_thread = tid, sub_queue = que, replay = history b tid since, closed = False\<rparr>)"

definition subscribe_finally :: "event_bus \<Rightarrow> subscription \<Rightarrow> event_bus \<times> subscription" where
  "subscribe_finally b s =
     (let subs = get_list (subscribers b) (sub_thread s)
      in (if sub_queue s \<in> set subs
          then b\<lparr>subscribers := (subscribers b)(sub_thread s \<mapsto> remove1 (sub_queue s) subs)\<rparr> else b,
          s\<lparr>closed := True\<rparr>))"

text \<open>
  One resumption: \<open>Some ev\<close> is a yield; \<open>None\<close> means the generator is finished or waits on an
  empty queue.
\<close>

definition subscribe_next ::
  "event_bus \<Rightarrow> subscription \<Rightarrow> dict option \<times> event_bus \<times> subscription" where
  "subscribe_next b s =
     (if closed s then (None, b, s)
      else case replay s of
        ev # evs \<Rightarrow> (Some ev, b, s\<lparr>replay := evs\<rparr>)
      | [] \<Rightarrow> (case queues b (sub_queue s) of
            [] \<Rightarrow> (None, b, s)
          | None # xs \<Rightarrow>
              (None, subscribe_finally (b\<lparr>queues := (queues b)(sub_queue s := xs)\<rparr>) s)
          | Some ev # xs \<Rightarrow> (Some ev, b\<lparr>queues := (queues b)(sub_queue s := xs)\<rparr>, s)))"

subsection \<open>The recorder\<close>

text \<open>\<open>now\<close> is what \<open>now_iso()\<close> returns.\<close>

definition record_event :: "pystr \<Rightarrow> dict \<Rightarrow> event_bus \<Rightarrow> (dict \<times> event_bus) result" where
  "record_event now ev b =
     (let tid = py_str (dget_or ev ''threadId'' (JStr ''''))
      in if tid = '''' then Inl (ValueError ''event must have a non-empty threadId'')
         else (let (seq, b1) = allocate_seq b tid;
                   enriched = dmerge ev [(''seq'', JNum seq), (''timestamp'', JStr now)]
               in Inr (enriched, bus_append b1 tid enriched)))"

subsection \<open>Effects of the operations\<close>

lemma put_nowait_all [simp]:
  "events (fold (put_nowait x) qs b) = events b"
  "next_seq (fold (put_nowait x) qs b) = next_seq b"
  "subscribers (fold (put_nowait x) qs b) = subscribers b"
  "queues (fold (put_nowait x) qs b) q = queues b q @ replicate (count_list qs q) x"
  by (induction qs arbitrary: b) (auto simp: put_nowait_def replicate_append_same)

lemma bus_append_simps [simp]:
  "get_list (events (bus_append b tid ev)) t =
     (if t = tid then get_list (events b) t @ [ev] else get_list (events b) t)"
  "next_seq (bus_append b tid ev) = next_seq b"
  "subscribers (bus_append b tid ev) = subscribers b"
  "queues (bus_append b tid ev) q =
     queues b q @ replicate (count_list (get_list (subscribers b) tid) q) (Some ev)"
  by (auto simp: bus_append_def notify_subscribers_def Let_def get_list_def)

lemma allocate_seq_simps [simp]:
  "get_list (events (snd (allocate_seq b tid))) t = get_list (events b) t"
  "next_seq (snd (allocate_seq b tid)) = (next_seq b)(tid \<mapsto> fst (allocate_seq b tid))"
  "subscribers (snd (allocate_seq b tid)) = subscribers b"
  "queues (snd (allocate_seq b tid)) = queues b"
  by (auto simp: allocate_seq_def Let_def get_list_def)

lemma history_empty [simp]: "history empty_bus tid since = []"
  by (simp add: history_def empty_bus_def get_list_def)

lemma get_list_empty_bus [simp]: "get_list (events empty_bus) tid = []"
  by (simp add: empty_bus_def get_list_def)

lemma history_0 [simp]: "history b tid 0 = get_list (events b) tid"
  by (simp add: history_def)

definition event_thread :: "dict \<Rightarrow> pystr" where
  "event_thread ev = py_str (dget_or ev ''threadId'' (JStr ''''))"

lemma record_eventE:
  assumes "record_event now ev b = Inr (e, b')"
  obtains "event_thread ev \<noteq> ''''"
    and "e = dmerge ev [(''seq'', JNum (fst (allocate_seq b (event_thread ev)))),
                        (''timestamp'', JStr now)]"
    and "b' = bus_append (snd (allocate_seq b (event_thread ev))) (event_thread ev) e"
  using assms
  by (auto simp: record_event_def event_thread_def Let_def split: if_splits prod.splits)

subsection \<open>The log interface\<close>

text \<open>Publishing a list of events one after the other, stopping at the first error.\<close>

fun record_all :: "('e \<Rightarrow> 'b \<Rightarrow> ('e \<times> 'b) result) \<Rightarrow> 'e list \<Rightarrow> 'b \<Rightarrow> ('e list \<times> 'b) result" where
  "record_all rec [] b = Inr ([], b)"
| "record_all rec (ev # evs) b =
     (case rec ev b of Inl err \<Rightarrow> Inl err
      | Inr (e, b1) \<Rightarrow> (case record_all rec evs b1 of Inl err \<Rightarrow> Inl err
                       | Inr (es, b2) \<Rightarrow> Inr (e # es, b2)))"

locale event_log =
  fixes rec :: "'e \<Rightarrow> 'b \<Rightarrow> ('e \<times> 'b) result"
    and log :: "'b \<Rightarrow> 't \<Rightarrow> 'e list"
    and topic :: "'e \<Rightarrow> 't"
    and valid :: "'e \<Rightarrow> bool"
    and inv :: "'b \<Rightarrow> bool"
  assumes rec_total: "valid ev \<Longrightarrow> \<exists>e b'. rec ev b = Inr (e, b')"
    and rec_log: "rec ev b = Inr (e, b') \<Longrightarrow>
       log b' t = (if t = topic ev then log b t @ [e] else log b t)"
    and rec_topic: "rec ev b = Inr (e, b') \<Longrightarrow> topic e = topic ev"
    and rec_inv: "rec ev b = Inr (e, b') \<Longrightarrow> inv b \<Longrightarrow> inv b'"
begin

lemma record_all_total: "\<forall>ev \<in> set evs. valid ev \<Longrightarrow> \<exists>es b'. record_all rec evs b = Inr (es, b')"
proof (induction evs arbitrary: b)
  case Nil
  then show ?case by simp
next
  case (Cons ev evs)
  then obtain e b1 where "rec ev b = Inr (e, b1)" using rec_total by (meson list.set_intros(1))
  moreover obtain es b2 where "record_all rec evs b1 = Inr (es, b2)" using Cons by fastforce
  ultimately show ?case by simp
qed

lemma record_all_log:
  "record_all rec evs b = Inr (es, b') \<Longrightarrow> log b' t = log b t @ filter (\<lambda>e. topic e = t) es"
proof (induction evs arbitrary: b es)
  case Nil
  then show ?case by simp
next
  case (Cons ev evs)
  from Cons.prems obtain e b1 es1
    where R: "rec ev b = Inr (e, b1)" "record_all rec evs b1 = Inr (es1, b')" "es = e # es1"
    by (auto split: sum.splits prod.splits)
  then show ?case
    using Cons.IH[OF R(2)] rec_log[OF R(1)] rec_topic[OF R(1)] by auto
qed

lemma record_all_topics:
  "record_all rec evs b = Inr (es, b') \<Longrightarrow> map topic es = map topic evs"
proof (induction evs arbitrary: b es)
  case Nil
  then show ?case by simp
next
  case (Cons ev evs)
  then show ?case using rec_topic by (auto split: sum.splits prod.splits)
qed

lemma record_all_inv: "record_all rec evs b = Inr (es, b') \<Longrightarrow> inv b \<Longrightarrow> inv b'"
proof (induction evs arbitrary: b es)
  case Nil
  then show ?case by simp
next
  case (Cons ev evs)
  then show ?case using rec_inv by (fastforce split: sum.splits prod.splits)
qed

end

subsection \<open>Sequence numbers\<close>

definition seq_of :: "dict \<Rightarrow> json" where
  "seq_of e = dget_null e ''seq''"

definition seq_range :: "nat \<Rightarrow> json list" where
  "seq_range n = map (\<lambda>i. JNum (int i)) [1..<Suc n]"

lemma seq_range_simps [simp]:
  "seq_range 0 = []" "seq_range (Suc n) = seq_range n @ [JNum (1 + int n)]"
  by (simp_all add: seq_range_def)

definition bus_ok :: "event_bus \<Rightarrow> bool" where
  "bus_ok b \<longleftrightarrow> (\<forall>t. (case next_seq b t of None \<Rightarrow> 0 | Some n \<Rightarrow> n) = int (length (get_list (events b) t))
     \<and> map seq_of (get_list (events b) t) = seq_range (length (get_list (events b) t)))"

lemma bus_ok_empty: "bus_ok empty_bus"
  by (simp add: bus_ok_def empty_bus_def get_list_def)

lemma bus_ok_cong:
  "events b' = events b \<Longrightarrow> next_seq b' = next_seq b \<Longrightarrow> bus_ok b' = bus_ok b"
  by (simp add: bus_ok_def)

lemma record_event_bus_ok:
  assumes "record_event now ev b = Inr (e, b')" and "bus_ok b"
  shows "bus_ok b'"
  using assms(1)
proof (rule record_eventE)
  let ?t = "event_thread ev"
  let ?n = "length (get_list (events b) ?t)"
  assume e: "e = dmerge ev [(''seq'', JNum (fst (allocate_seq b ?t))), (''timestamp'', JStr now)]"
    and b': "b' = bus_append (snd (allocate_seq b ?t)) ?t e"
  have seq: "fst (allocate_seq b ?t) = int ?n + 1"
    using assms(2) by (simp add: allocate_seq_def Let_def bus_ok_def)
  then have "seq_of e = JNum (int (Suc ?n))"
    by (simp add: e seq_of_def dict_simps)
  then show ?thesis
    using assms(2) seq by (auto simp: bus_ok_def b')
qed

interpretation bus: event_log "record_event now" "\<lambda>b t. history b t 0" event_thread
  "\<lambda>ev. event_thread ev \<noteq> ''''" bus_ok for now
proof unfold_locales
  fix ev b
  show "event_thread ev \<noteq> '''' \<Longrightarrow> \<exists>e b'. record_event now ev b = Inr (e, b')"
    by (auto simp: record_event_def event_thread_def Let_def split: prod.splits)
next
  fix ev b e b' t
  assume "record_event now ev b = Inr (e, b')"
  then show "history b' t 0 = (if t = event_thread ev then history b t 0 @ [e] else history b t 0)"
    by (rule record_eventE) simp
next
  fix ev b e b'
  assume "record_event now ev b = Inr (e, b')"
  then show "event_thread e = event_thread ev"
    by (rule record_eventE) (simp add: event_thread_def dict_simps)
next
  fix ev b e b'
  assume "record_event now ev b = Inr (e, b')" "bus_ok b"
  then show "bus_ok b'" by (rule record_event_bus_ok)
qed

text \<open>The buses that come about when all events are published through the recorder.\<close>

inductive bus_reachable :: "event_bus \<Rightarrow> bool" where
  start: "bus_reachable empty_bus"
| publish: "bus_reachable b \<Longrightarrow> record_event now ev b = Inr (e, b') \<Longrightarrow> bus_reachable b'"
| open_sub: "bus_reachable b \<Longrightarrow> bus_reachable (fst (subscribe_open b tid since q))"
| next_sub: "bus_reachable b \<Longrightarrow> subscribe_next b s = (r, b', s') \<Longrightarrow> bus_reachable b'"
| unsubscribe: "bus_reachable b \<Longrightarrow> bus_reachable (unsubscribe_all b tid)"

lemma subscribe_next_events:
  "subscribe_next b s = (r, b', s') \<Longrightarrow> events b' = events b \<and> next_seq b' = next_seq b"
  by (auto simp: subscribe_next_def subscribe_finally_def Let_def
      split: if_splits list.splits option.splits prod.splits)

lemma bus_reachable_ok: "bus_reachable b \<Longrightarrow> bus_ok b"
proof (induction rule: bus_reachable.induct)
  case start
  show ?case by (rule bus_ok_empty)
next
  case (publish b now ev e b')
  then show ?case by (blast intro: bus.rec_inv)
next
  case (open_sub b tid since q)
  then show ?case by (simp add: subscribe_open_def bus_ok_def)
next
  case (next_sub b s r b' s')
  then show ?case using subscribe_next_events bus_ok_cong by metis
next
  case (unsubscribe b tid)
  then show ?case by (simp add: unsubscribe_all_def bus_ok_def)
qed

lemma filter_seq_after:
  "map seq_of xs = map (\<lambda>i. JNum (int i)) [Suc k..<Suc (k + length xs)] \<Longrightarrow>
   filter (seq_after since) xs = drop (nat (since - int k)) xs"
proof (induction xs arbitrary: k)
  case Nil
  then show ?case by simp
next
  case (Cons x xs)
  have split: "[Suc k..<Suc (k + length (x # xs))] =
      Suc k # [Suc (Suc k)..<Suc (Suc k + length xs)]"
    by (simp add: upt_rec)
  have hd: "seq_of x = JNum (int (Suc k))"
    and tl: "map seq_of xs = map (\<lambda>i. JNum (int i)) [Suc (Suc k)..<Suc (Suc k + length xs)]"
    using Cons.prems unfolding split by simp_all
  from hd have "seq_after since x \<longleftrightarrow> since < int (Suc k)"
    by (simp add: seq_after_def seq_of_def)
  moreover have "nat (since - int k) = (if since \<le> int k then 0 else Suc (nat (since - int (Suc k))))"
    by auto
  ultimately show ?case using Cons.IH[OF tl] by auto
qed

text \<open>The events of a thread carry the sequence numbers 1, 2, 3, ... without gap or
  repetition, and replaying from \<open>since\<close> returns exactly the events after the first \<open>since\<close>
  ones: a client that resumes from the last number it saw misses nothing and sees nothing twice.\<close>

theorem history_resumes_exactly:
  assumes "bus_reachable b"
  shows "map seq_of (history b tid 0) = seq_range (bus_count b tid)
    \<and> history b tid since = drop (nat since) (history b tid 0)"
proof -
  have ok: "map seq_of (get_list (events b) tid) = seq_range (length (get_list (events b) tid))"
    using bus_reachable_ok[OF assms] by (simp add: bus_ok_def)
  have "filter (seq_after since) (get_list (events b) tid) = drop (nat since) (get_list (events b) tid)"
    using filter_seq_after[of "get_list (events b) tid" 0 since] ok by (simp add: seq_range_def)
  then show ?thesis using ok by (simp add: history_def bus_count_def Let_def)
qed

lemma record_event_reachable:
  "bus_reachable b \<Longrightarrow> event_thread ev \<noteq> '''' \<Longrightarrow>
   \<exists>e b'. record_event now ev b = Inr (e, b') \<and> bus_reachable b' \<and>
     (\<forall>t. history b' t 0 = (if t = event_thread ev then history b t 0 @ [e] else history b t 0))"
  by (metis bus.rec_log bus.rec_total bus_reachable.publish)

theorem history_resumes_exactly_witness:
  "\<exists>b. bus_reachable b \<and> bus_count b ''t1'' = 2 \<and>
     length (history b ''t1'' 1) = 1 \<and> history b ''t1'' 1 = drop 1 (history b ''t1'' 0)"
proof -
  let ?ev = "[(''kind'', JStr ''turn_started''), (''threadId'', JStr ''t1'')]"
  have t: "event_thread ?ev = ''t1''" by (simp add: event_thread_def)
  obtain e1 b1 where b1: "bus_reachable b1" "history b1 ''t1'' 0 = [e1]"
    using record_event_reachable[OF bus_reachable.start, of ?ev "''now''"]
    by (auto simp: t)
  obtain e2 b2 where b2: "bus_reachable b2" "history b2 ''t1'' 0 = [e1, e2]"
    using record_event_reachable[OF b1(1), of ?ev "''now''"] b1(2) by (auto simp: t)
  have "history b2 ''t1'' 1 = drop 1 (history b2 ''t1'' 0)"
    using history_resumes_exactly[OF b2(1), of "''t1''" 1] by simp
  then show ?thesis using b2 by (intro exI[of _ b2]) (simp add: bus_count_def)
qed

subsection \<open>Delivery to a subscriber\<close>

text \<open>
  What can happen between two resumptions of one subscriber: an event is published, another
  subscriber (with its own queue) opens, resumes or closes.  \<open>bus_act\<close> also collects what our
  subscriber has yielded.
\<close>

datatype bus_action =
    Publish pystr dict
  | Pull
  | OtherOpen pystr int nat
  | OtherNext subscription
  | OtherClose subscription

fun bus_act :: "bus_action \<Rightarrow> event_bus \<times> subscription \<times> dict list \<Rightarrow> event_bus \<times> subscription \<times> dict list"
where
  "bus_act (Publish t ev) (b, s, out) = (bus_append b t ev, s, out)"
| "bus_act Pull (b, s, out) =
     (case subscribe_next b s of
        (None, b', s') \<Rightarrow> (b', s', out)
      | (Some ev, b', s') \<Rightarrow> (b', s', out @ [ev]))"
| "bus_act (OtherOpen t since q) (b, s, out) = (fst (subscribe_open b t since q), s, out)"
| "bus_act (OtherNext s2) (b, s, out) = (fst (snd (subscribe_next b s2)), s, out)"
| "bus_act (OtherClose s2) (b, s, out) = (fst (subscribe_finally b s2), s, out)"

fun other_queue :: "nat \<Rightarrow> bus_action \<Rightarrow> bool" where
  "other_queue q (OtherOpen _ _ q') = (q' \<noteq> q)"
| "other_queue q (OtherNext s2) = (sub_queue s2 \<noteq> q)"
| "other_queue q (OtherClose s2) = (sub_queue s2 \<noteq> q)"
| "other_queue q _ = True"

fun published :: "pystr \<Rightarrow> bus_action list \<Rightarrow> dict list" where
  "published t [] = []"
| "published t (Publish t' ev # acts) = (if t' = t then ev # published t acts else published t acts)"
| "published t (_ # acts) = published t acts"

definition sub_live :: "event_bus \<Rightarrow> subscription \<Rightarrow> bool" where
  "sub_live b s \<longleftrightarrow> \<not> closed s
     \<and> (\<forall>t. count_list (get_list (subscribers b) t) (sub_queue s) = (if t = sub_thread s then 1 else 0))
     \<and> None \<notin> set (queues b (sub_queue s))"

definition undelivered :: "event_bus \<Rightarrow> subscription \<Rightarrow> dict list" where
  "undelivered b s = replay s @ map the (queues b (sub_queue s))"

lemma count_list_remove1_other: "x \<noteq> y \<Longrightarrow> count_list (remove1 x xs) y = count_list xs y"
  by (induction xs) auto

lemma subscribe_finally_other:
  "sub_queue s2 \<noteq> q \<Longrightarrow>
     count_list (get_list (subscribers (fst (subscribe_finally b s2))) t) q =
     count_list (get_list (subscribers b) t) q \<and>
     queues (fst (subscribe_finally b s2)) q = queues b q"
  by (auto simp: subscribe_finally_def Let_def count_list_remove1_other)

lemma subscribe_next_other:
  "sub_queue s2 \<noteq> q \<Longrightarrow>
     count_list (get_list (subscribers (fst (snd (subscribe_next b s2)))) t) q =
     count_list (get_list (subscribers b) t) q \<and>
     queues (fst (snd (subscribe_next b s2))) q = queues b q"
  using subscribe_finally_other[of s2 q]
  by (auto simp: subscribe_next_def split: list.splits option.splits)

lemma bus_act_live:
  assumes "sub_live b s" and "other_queue (sub_queue s) a"
    and "bus_act a (b, s, out) = (b', s', out')"
  shows "sub_live b' s' \<and> sub_thread s' = sub_thread s \<and> sub_queue s' = sub_queue s \<and>
    out' @ undelivered b' s' = out @ undelivered b s @ published (sub_thread s) [a]"
proof (cases a)
  case (Publish t ev)
  then show ?thesis using assms by (auto simp: sub_live_def undelivered_def)
next
  case Pull
  then show ?thesis
    using assms
    by (auto simp: sub_live_def undelivered_def subscribe_next_def split: list.splits option.splits)
next
  case (OtherOpen t since q)
  then show ?thesis
    using assms by (auto simp: sub_live_def undelivered_def subscribe_open_def)
next
  case (OtherNext s2)
  then show ?thesis
    using assms subscribe_next_other[of s2 "sub_queue s" b]
    by (auto simp: sub_live_def undelivered_def)
next
  case (OtherClose s2)
  then show ?thesis
    using assms subscribe_finally_other[of s2 "sub_queue s" b]
    by (auto simp: sub_live_def undelivered_def)
qed

lemma published_append: "published t (a # acts) = published t [a] @ published t acts"
  by (cases a) auto

lemma bus_acts_live:
  "sub_live b s \<Longrightarrow> \<forall>a \<in> set acts. other_queue (sub_queue s) a \<Longrightarrow>
   fold bus_act acts (b, s, out) = (b', s', out') \<Longrightarrow>
   sub_live b' s' \<and> out' @ undelivered b' s' = out @ undelivered b s @ published (sub_thread s) acts"
proof (induction acts arbitrary: b s out)
  case Nil
  then show ?case by simp
next
  case (Cons a acts)
  obtain b1 s1 out1 where 1: "bus_act a (b, s, out) = (b1, s1, out1)"
    by (cases "bus_act a (b, s, out)") auto
  note A = bus_act_live[OF Cons.prems(1) _ 1]
  have "sub_live b' s' \<and> out' @ undelivered b' s' =
      out1 @ undelivered b1 s1 @ published (sub_thread s1) acts"
    using Cons.prems 1 A by (intro Cons.IH) auto
  then show ?case
    using A Cons.prems(2) published_append[of "sub_thread s" a acts] by auto
qed

lemma subscribe_open_live:
  assumes "subscribe_open b tid since q = (b1, s1)" and "\<forall>t. q \<notin> set (get_list (subscribers b) t)"
  shows "sub_live b1 s1 \<and> sub_thread s1 = tid \<and> sub_queue s1 = q \<and> undelivered b1 s1 = history b tid since"
  using assms by (auto simp: subscribe_open_def sub_live_def undelivered_def count_list_0_iff)

lemma pull_one:
  assumes "sub_live b s" and "undelivered b s = ev # evs"
  shows "\<exists>b1 s1. bus_act Pull (b, s, out) = (b1, s1, out @ [ev]) \<and> undelivered b1 s1 = evs"
proof (cases "replay s")
  case Nil
  then obtain x xs where "queues b (sub_queue s) = Some x # xs"
    using assms
    by (cases "queues b (sub_queue s)"; cases "hd (queues b (sub_queue s))")
      (auto simp: sub_live_def undelivered_def)
  with Nil assms show ?thesis by (auto simp: sub_live_def undelivered_def subscribe_next_def)
next
  case (Cons x xs)
  with assms show ?thesis by (auto simp: sub_live_def undelivered_def subscribe_next_def)
qed

lemma pulls_drain:
  "sub_live b s \<Longrightarrow> \<exists>b' s'. fold bus_act (replicate (length (undelivered b s)) Pull) (b, s, out) =
     (b', s', out @ undelivered b s) \<and> undelivered b' s' = []"
proof (induction "undelivered b s" arbitrary: b s out)
  case Nil
  then show ?case by (metis append_Nil2 fold_simps(1) list.size(3) replicate_0)
next
  case (Cons ev evs)
  obtain b1 s1 where 1: "bus_act Pull (b, s, out) = (b1, s1, out @ [ev])" "undelivered b1 s1 = evs"
    using pull_one[OF Cons.prems Cons.hyps(2)[symmetric]] by blast
  have "sub_live b1 s1"
    using bus_act_live[OF Cons.prems _ 1(1)] by simp
  from Cons.hyps(1)[OF 1(2)[symmetric] this, of "out @ [ev]"] 1 Cons.hyps(2)[symmetric]
  show ?case by auto
qed

text \<open>C40. A subscriber receives every event exactly once and in order: what it has yielded,
  followed by what is still queued for it, is the replayed history followed by every event published
  on its thread since it subscribed, however publishing interleaves with the other subscribers;
  and it can always be resumed until nothing is left.\<close>

theorem subscriber_exactly_once:
  assumes "subscribe_open b tid since q = (b1, s1)" and "\<forall>t. q \<notin> set (get_list (subscribers b) t)"
    and "\<forall>a \<in> set acts. other_queue q a"
    and "fold bus_act acts (b1, s1, []) = (b2, s2, out)"
  shows "out @ undelivered b2 s2 = history b tid since @ published tid acts
    \<and> (\<exists>b3 s3. fold bus_act (replicate (length (undelivered b2 s2)) Pull) (b2, s2, out) =
         (b3, s3, history b tid since @ published tid acts) \<and> undelivered b3 s3 = [])"
proof -
  note S = subscribe_open_live[OF assms(1,2)]
  have L: "sub_live b2 s2 \<and> out @ undelivered b2 s2 = history b tid since @ published tid acts"
    using bus_acts_live[of b1 s1 acts "[]" b2 s2 out] S assms(3,4) by simp
  then show ?thesis using pulls_drain[of b2 s2 out] by simp
qed

theorem subscriber_exactly_once_witness:
  "\<exists>b2 s2 out. fold bus_act [Publish ''t'' [(''kind'', JStr ''a'')], Pull, OtherOpen ''t'' 0 9,
       Publish ''u'' [], Publish ''t'' [(''kind'', JStr ''b'')]]
       (fst (subscribe_open empty_bus ''t'' 0 4), snd (subscribe_open empty_bus ''t'' 0 4), []) = (b2, s2, out)
     \<and> out @ undelivered b2 s2 = [[(''kind'', JStr ''a'')], [(''kind'', JStr ''b'')]]"
proof -
  let ?acts = "[Publish ''t'' [(''kind'', JStr ''a'')], Pull, OtherOpen ''t'' 0 9,
       Publish ''u'' [], Publish ''t'' [(''kind'', JStr ''b'')]]"
  let ?o = "subscribe_open empty_bus ''t'' 0 4"
  obtain b2 s2 out where R: "fold bus_act ?acts (fst ?o, snd ?o, []) = (b2, s2, out)"
    by (metis prod_cases3)
  have "out @ undelivered b2 s2 = history empty_bus ''t'' 0 @ published ''t'' ?acts"
    using subscriber_exactly_once[OF _ _ _ R, of empty_bus "''t''" 0 4]
    by (simp add: empty_bus_def get_list_def)
  then have "out @ undelivered b2 s2 = [[(''kind'', JStr ''a'')], [(''kind'', JStr ''b'')]]"
    by (simp add: empty_bus_def get_list_def)
  with R show ?thesis by blast
qed

end
