(* ===== verification/ExecPolicy.thy ===== *)
theory ExecPolicy
  imports PyJson "HOL-Library.Multiset"
begin

text \<open>
  The rule engine of \<open>execution/exec_policy.py\<close> (command, network and file-system rules) and the
  approval modes of \<open>execution/approval_policy.py\<close>.  The three evaluations differ only in which rules
  match; the interface \<open>rule_engine\<close> states what a client of any of them relies on.
\<close>

subsection \<open>Verdicts and rules\<close>

datatype policy_verdict = ALLOW | DENY | PROMPT

record policy_decision =
  verdict :: policy_verdict
  source :: json
  reason :: pystr

text \<open>A dataclass does not check its annotations: \<open>decision\<close> and \<open>source\<close> hold whatever the
  configuration had there.\<close>

record command_rule =
  cr_prefix :: "pystr list"
  cr_decision :: json
  cr_source :: json

record network_rule =
  nr_protocol :: json
  nr_host :: json
  nr_port :: json
  nr_decision :: json
  nr_source :: json

record filesystem_rule =
  fr_path_prefix :: json
  fr_access :: json
  fr_decision :: json
  fr_source :: json

record exec_policy =
  command_rules :: "command_rule list"
  network_rules :: "network_rule list"
  filesystem_rules :: "filesystem_rule list"

text \<open>\<open>decision.lower()\<close> when it is a string.\<close>

definition decision_is :: "pystr \<Rightarrow> json \<Rightarrow> bool" where
  "decision_is v d = (case d of JStr s \<Rightarrow> py_lower s = v | _ \<Rightarrow> False)"

text \<open>The loop of \<open>_apply_matches\<close>; the first argument is \<open>allow_rule\<close>, here with its source.\<close>

fun apply_loop :: "json option \<Rightarrow> (json \<times> json) list \<Rightarrow> policy_decision" where
  "apply_loop allow [] =
     (case allow of Some src \<Rightarrow> \<lparr>verdict = ALLOW, source = src, reason = ''''\<rparr>
      | None \<Rightarrow> \<lparr>verdict = PROMPT, source = JStr '''', reason = ''''\<rparr>)"
| "apply_loop allow ((decision, src) # rules) =
     (if decision_is ''deny'' decision then \<lparr>verdict = DENY, source = src, reason = ''''\<rparr>
      else apply_loop
        (if decision_is ''allow'' decision \<and> allow = None then Some src else allow) rules)"

definition apply_matches :: "(json \<times> json) list \<Rightarrow> policy_decision" where
  "apply_matches rules = apply_loop None rules"

definition command_matches :: "pystr \<Rightarrow> command_rule \<Rightarrow> bool" where
  "command_matches cmd r =
     (let tokens = py_words cmd; n = length (cr_prefix r)
      in n \<le> length tokens \<and> take n tokens = cr_prefix r)"

definition evaluate_command :: "exec_policy \<Rightarrow> pystr \<Rightarrow> policy_decision" where
  "evaluate_command p cmd =
     apply_matches (map (\<lambda>r. (cr_decision r, cr_source r)) (filter (command_matches cmd) (command_rules p)))"

definition network_matches :: "pystr \<times> pystr \<times> int \<Rightarrow> network_rule \<Rightarrow> bool" where
  "network_matches q r = (case q of (proto, host, port) \<Rightarrow>
     (nr_protocol r = JStr ''*'' \<or> nr_protocol r = JStr proto) \<and>
     (nr_host r = JStr ''*'' \<or> nr_host r = JStr host) \<and>
     (nr_port r = JNull \<or> as_int (nr_port r) = Some port))"

definition evaluate_network :: "exec_policy \<Rightarrow> pystr \<Rightarrow> pystr \<Rightarrow> int \<Rightarrow> policy_decision" where
  "evaluate_network p proto host port =
     apply_matches (map (\<lambda>r. (nr_decision r, nr_source r))
       (filter (network_matches (proto, host, port)) (network_rules p)))"

definition filesystem_matches :: "pystr \<times> pystr \<Rightarrow> filesystem_rule \<Rightarrow> bool" where
  "filesystem_matches q r = (case q of (path, acc) \<Rightarrow>
     (case fr_path_prefix r of JStr pre \<Rightarrow> py_startswith path pre | _ \<Rightarrow> False) \<and>
     (fr_access r = JStr ''*'' \<or> fr_access r = JStr acc))"

definition filesystem_decision :: "filesystem_rule list \<Rightarrow> pystr \<Rightarrow> pystr \<Rightarrow> policy_decision" where
  "filesystem_decision rules path acc =
     apply_matches (map (\<lambda>r. (fr_decision r, fr_source r))
       (filter (filesystem_matches (path, acc)) rules))"

text \<open>\<open>path.startswith(x)\<close> raises \<open>TypeError\<close> when \<open>x\<close> is not a string, and every rule is tried.\<close>

definition evaluate_filesystem :: "exec_policy \<Rightarrow> pystr \<Rightarrow> pystr \<Rightarrow> policy_decision result" where
  "evaluate_filesystem p path acc =
     (if \<exists>r \<in> set (filesystem_rules p). \<not> is_jstr (fr_path_prefix r)
      then Inl (TypeError ''startswith first arg must be str'')
      else Inr (filesystem_decision (filesystem_rules p) path acc))"

definition amend_command :: "command_rule \<Rightarrow> exec_policy \<Rightarrow> exec_policy" where
  "amend_command r p = p\<lparr>command_rules := command_rules p @ [r]\<rparr>"

definition amend_network :: "network_rule \<Rightarrow> exec_policy \<Rightarrow> exec_policy" where
  "amend_network r p = p\<lparr>network_rules := network_rules p @ [r]\<rparr>"

definition amend_filesystem :: "filesystem_rule \<Rightarrow> exec_policy \<Rightarrow> exec_policy" where
  "amend_filesystem r p = p\<lparr>filesystem_rules := filesystem_rules p @ [r]\<rparr>"

subsection \<open>Loading from the configuration\<close>

definition dindex :: "dict \<Rightarrow> pystr \<Rightarrow> json result" where
  "dindex d k = (case dget d k of None \<Rightarrow> Inl (KeyError k) | Some v \<Rightarrow> Inr v)"

definition command_rule_of :: "dict \<Rightarrow> command_rule result" where
  "command_rule_of item =
     bind_result (dindex item ''prefix'') (\<lambda>pre.
     case pre of JStr s \<Rightarrow>
       bind_result (dindex item ''decision'') (\<lambda>dec.
       Inr \<lparr>cr_prefix = py_words s, cr_decision = dec,
            cr_source = dget_or item ''source'' (JStr ''config'')\<rparr>)
     | _ \<Rightarrow> Inl (AttributeError ''split''))"

definition network_rule_of :: "dict \<Rightarrow> network_rule result" where
  "network_rule_of item =
     bind_result (dindex item ''protocol'') (\<lambda>proto.
     bind_result (dindex item ''host'') (\<lambda>host.
     bind_result (dindex item ''decision'') (\<lambda>dec.
     Inr \<lparr>nr_protocol = proto, nr_host = host, nr_port = dget_null item ''port'',
          nr_decision = dec, nr_source = dget_or item ''source'' (JStr ''config'')\<rparr>)))"

definition filesystem_rule_of :: "dict \<Rightarrow> filesystem_rule result" where
  "filesystem_rule_of item =
     bind_result (dindex item ''path_prefix'') (\<lambda>pre.
     bind_result (dindex item ''access'') (\<lambda>acc.
     bind_result (dindex item ''decision'') (\<lambda>dec.
     Inr \<lparr>fr_path_prefix = pre, fr_access = acc, fr_decision = dec,
          fr_source = dget_or item ''source'' (JStr ''config'')\<rparr>)))"

fun map_result :: "('a \<Rightarrow> 'b result) \<Rightarrow> 'a list \<Rightarrow> 'b list result" where
  "map_result f [] = Inr []"
| "map_result f (x # xs) =
     bind_result (f x) (\<lambda>y. bind_result (map_result f xs) (\<lambda>ys. Inr (y # ys)))"

definition exec_policy_from_config :: "dict \<Rightarrow> exec_policy result" where
  "exec_policy_from_config cfg =
     (let items = (\<lambda>k. map the_jdict (the_jlist (dget_or cfg k (JList []))))
      in bind_result (map_result command_rule_of (items ''command'')) (\<lambda>cs.
         bind_result (map_result network_rule_of (items ''network'')) (\<lambda>ns.
         bind_result (map_result filesystem_rule_of (items ''filesystem'')) (\<lambda>fs.
         Inr \<lparr>command_rules = cs, network_rules = ns, filesystem_rules = fs\<rparr>))))"

subsection \<open>The rule engine\<close>

lemma apply_loop_deny:
  "verdict (apply_loop a rs) = DENY \<longleftrightarrow> (\<exists>r \<in> set rs. decision_is ''deny'' (fst r))"
  by (induction a rs rule: apply_loop.induct) (auto split: option.splits)

lemma apply_loop_allow:
  "verdict (apply_loop a rs) = ALLOW \<longleftrightarrow>
     (\<forall>r \<in> set rs. \<not> decision_is ''deny'' (fst r)) \<and>
     (a \<noteq> None \<or> (\<exists>r \<in> set rs. decision_is ''allow'' (fst r)))"
  by (induction a rs rule: apply_loop.induct) (auto split: option.splits)

lemma apply_loop_allow_source:
  "\<forall>r \<in> set rs. \<not> decision_is ''deny'' (fst r) \<Longrightarrow>
   verdict (apply_loop a rs) = ALLOW \<Longrightarrow>
   source (apply_loop a rs) =
     (case a of Some s \<Rightarrow> s | None \<Rightarrow> snd (hd (filter (\<lambda>r. decision_is ''allow'' (fst r)) rs)))"
  by (induction a rs rule: apply_loop.induct) (auto split: option.splits if_splits)

text \<open>The contract: a matching denial wins over any permission, in any order of the rules.\<close>

definition rule_verdict :: "('r \<Rightarrow> bool) \<Rightarrow> ('r \<Rightarrow> json) \<Rightarrow> 'r set \<Rightarrow> policy_verdict" where
  "rule_verdict app dec rs =
     (if \<exists>r \<in> rs. app r \<and> decision_is ''deny'' (dec r) then DENY
      else if \<exists>r \<in> rs. app r \<and> decision_is ''allow'' (dec r) then ALLOW else PROMPT)"

locale rule_engine =
  fixes eval :: "'r list \<Rightarrow> 'q \<Rightarrow> policy_decision"
    and applies :: "'q \<Rightarrow> 'r \<Rightarrow> bool"
    and dec :: "'r \<Rightarrow> json"
    and src :: "'r \<Rightarrow> json"
  assumes eval_matches: "eval rs q = apply_matches (map (\<lambda>r. (dec r, src r)) (filter (applies q) rs))"
begin

lemma deny_iff: "verdict (eval rs q) = DENY \<longleftrightarrow> (\<exists>r \<in> set rs. applies q r \<and> decision_is ''deny'' (dec r))"
  by (auto simp: eval_matches apply_matches_def apply_loop_deny)

lemma allow_iff:
  "verdict (eval rs q) = ALLOW \<longleftrightarrow>
     (\<forall>r \<in> set rs. applies q r \<longrightarrow> \<not> decision_is ''deny'' (dec r)) \<and>
     (\<exists>r \<in> set rs. applies q r \<and> decision_is ''allow'' (dec r))"
  by (auto simp: eval_matches apply_matches_def apply_loop_allow)

lemma prompt_iff:
  "verdict (eval rs q) = PROMPT \<longleftrightarrow>
     (\<forall>r \<in> set rs. applies q r \<longrightarrow>
        \<not> decision_is ''deny'' (dec r) \<and> \<not> decision_is ''allow'' (dec r))"
  using deny_iff[of rs q] allow_iff[of rs q] by (cases "verdict (eval rs q)") auto

lemma eval_verdict: "verdict (eval rs q) = rule_verdict (applies q) dec (set rs)"
  using deny_iff[of rs q] allow_iff[of rs q] prompt_iff[of rs q]
  by (auto simp: rule_verdict_def)

lemma amend:
  "verdict (eval (rs @ [r]) q) =
     (if applies q r \<and> decision_is ''deny'' (dec r) then DENY
      else if verdict (eval rs q) = PROMPT \<and> applies q r \<and> decision_is ''allow'' (dec r) then ALLOW
      else verdict (eval rs q))"
  by (auto simp: eval_verdict rule_verdict_def)

lemma allow_source_stable:
  "verdict (eval rs q) = ALLOW \<Longrightarrow> verdict (eval (rs @ rs') q) = ALLOW \<Longrightarrow>
   source (eval (rs @ rs') q) = source (eval rs q)"
proof -
  let ?m = "\<lambda>xs. map (\<lambda>r. (dec r, src r)) (filter (applies q) xs)"
  let ?al = "\<lambda>xs. filter (\<lambda>r. decision_is ''allow'' (fst r)) (?m xs)"
  assume A: "verdict (eval rs q) = ALLOW" and B: "verdict (eval (rs @ rs') q) = ALLOW"
  then have "?al rs \<noteq> []" by (auto simp: allow_iff filter_empty_conv)
  then have "hd (?al (rs @ rs')) = hd (?al rs)" by simp
  then show ?thesis
    using A B apply_loop_allow_source[of "?m rs" None] apply_loop_allow_source[of "?m (rs @ rs')" None]
    by (auto simp: eval_matches apply_matches_def apply_loop_allow)
qed

end

interpretation cmd: rule_engine
  "\<lambda>rs cmd. evaluate_command \<lparr>command_rules = rs, network_rules = ns, filesystem_rules = fs\<rparr> cmd"
  command_matches cr_decision cr_source for ns fs
  by unfold_locales (simp add: evaluate_command_def)

interpretation net: rule_engine
  "\<lambda>rs (proto, host, port).
     evaluate_network \<lparr>command_rules = cs, network_rules = rs, filesystem_rules = fs\<rparr> proto host port"
  network_matches nr_decision nr_source for cs fs
  by unfold_locales (auto simp: evaluate_network_def)

interpretation fsys: rule_engine "\<lambda>rs (path, acc). filesystem_decision rs path acc"
  filesystem_matches fr_decision fr_source
  by unfold_locales (auto simp: filesystem_decision_def)

lemma exec_policy_parts:
  "evaluate_command p cmd =
     evaluate_command \<lparr>command_rules = command_rules p, network_rules = [], filesystem_rules = []\<rparr> cmd"
  "evaluate_network p proto host port =
     evaluate_network \<lparr>command_rules = [], network_rules = network_rules p, filesystem_rules = []\<rparr>
       proto host port"
  "evaluate_command (amend_command r p) cmd = evaluate_command
     \<lparr>command_rules = command_rules p @ [r], network_rules = [], filesystem_rules = []\<rparr> cmd"
  by (simp_all add: evaluate_command_def evaluate_network_def amend_command_def)

text \<open>C25. Deny wins: whatever the order of the rules, a command, a connection or a file access is
  denied exactly when some matching rule denies it, allowed exactly when none denies and some
  matching rule allows, and prompts otherwise; adding a command rule changes only a prompt into a
  permission, or anything into a denial, so that no amendment lifts a denial.\<close>

theorem exec_policy_deny_wins:
  "verdict (evaluate_command p cmd) =
     rule_verdict (command_matches cmd) cr_decision (set (command_rules p))
   \<and> verdict (evaluate_network p proto host port) =
     rule_verdict (network_matches (proto, host, port)) nr_decision (set (network_rules p))
   \<and> verdict (filesystem_decision (filesystem_rules p) path acc) =
     rule_verdict (filesystem_matches (path, acc)) fr_decision (set (filesystem_rules p))
   \<and> verdict (evaluate_command (amend_command r p) cmd) =
     (if command_matches cmd r \<and> decision_is ''deny'' (cr_decision r) then DENY
      else if verdict (evaluate_command p cmd) = PROMPT \<and> command_matches cmd r
        \<and> decision_is ''allow'' (cr_decision r) then ALLOW
      else verdict (evaluate_command p cmd))"
  using cmd.eval_verdict[where ns = "[]" and fs = "[]" and rs = "command_rules p" and q = cmd]
    cmd.amend[where ns = "[]" and fs = "[]" and rs = "command_rules p" and q = cmd and r = r]
    net.eval_verdict[where cs = "[]" and fs = "[]" and rs = "network_rules p" and q = "(proto, host, port)"]
    fsys.eval_verdict[of "filesystem_rules p" "(path, acc)"]
  by (simp add: exec_policy_parts[where p = p])

subsection \<open>Approval modes\<close>

datatype approval_mode = UNLESS_TRUSTED | ON_FAILURE | ON_REQUEST | GRANULAR | NEVER

record approval_policy =
  mode :: approval_mode
  trusted :: "json set"
  granular :: dict

text \<open>\<open>ApprovalMode(x)\<close>: the member whose value is \<open>x\<close>.\<close>

definition approval_mode_of :: "json \<Rightarrow> approval_mode result" where
  "approval_mode_of v =
     (if v = JStr ''unless_trusted'' then Inr UNLESS_TRUSTED
      else if v = JStr ''on_failure'' then Inr ON_FAILURE
      else if v = JStr ''on_request'' then Inr ON_REQUEST
      else if v = JStr ''granular'' then Inr GRANULAR
      else if v = JStr ''never'' then Inr NEVER
      else Inl (ValueError (py_repr v @ '' is not a valid ApprovalMode'')))"

definition approval_policy_from_config :: "dict \<Rightarrow> approval_policy result" where
  "approval_policy_from_config cfg =
     bind_result (approval_mode_of (dget_or cfg ''mode'' (JStr ''on_request''))) (\<lambda>m.
       Inr \<lparr>mode = m, trusted = set (the_jlist (dget_or cfg ''trusted'' (JList []))),
            granular = the_jdict (dget_or cfg ''granular'' (JDict []))\<rparr>)"

definition requires_prompt :: "approval_policy \<Rightarrow> pystr \<Rightarrow> bool \<Rightarrow> bool" where
  "requires_prompt p category failed =
     (case mode p of
        NEVER \<Rightarrow> False
      | ON_REQUEST \<Rightarrow> True
      | ON_FAILURE \<Rightarrow> failed
      | UNLESS_TRUSTED \<Rightarrow> JStr category \<notin> trusted p
      | GRANULAR \<Rightarrow>
          (case dget_null (granular p) category of
             JStr s \<Rightarrow> if s = ''never'' then False else if s = ''on_failure'' then failed else True
           | _ \<Rightarrow> True))"

text \<open>A failed call is asked about at least as often as one that has not failed, and a
  category no configuration mentions is asked about unless the mode is explicitly laxer.\<close>

lemma requires_prompt_failed: "requires_prompt p c False \<Longrightarrow> requires_prompt p c True"
  by (auto simp: requires_prompt_def split: approval_mode.splits json.splits if_splits)

lemma requires_prompt_never_iff:
  "\<not> requires_prompt p c True \<longleftrightarrow>
     mode p = NEVER \<or> mode p = UNLESS_TRUSTED \<and> JStr c \<in> trusted p \<or>
     mode p = GRANULAR \<and> dget (granular p) c = Some (JStr ''never'')"
  by (auto simp: requires_prompt_def dget_or_dget split: approval_mode.splits json.splits option.splits)

text \<open>An approval policy loaded from any configuration skips the prompt for a failed call only
  when the configuration says so in so many words: the mode is \<open>never\<close>, or \<open>unless_trusted\<close> with the
  category listed, or \<open>granular\<close> with \<open>never\<close> for the category.  An empty configuration always
  prompts, an unknown mode is an error, and a failure never removes a prompt.\<close>

theorem approval_config_prompts:
  assumes "approval_policy_from_config cfg = Inr p"
  shows "(\<not> requires_prompt p c True) =
      (dget cfg ''mode'' = Some (JStr ''never'')
       \<or> dget cfg ''mode'' = Some (JStr ''unless_trusted'')
           \<and> JStr c \<in> set (the_jlist (dget_or cfg ''trusted'' (JList [])))
       \<or> dget cfg ''mode'' = Some (JStr ''granular'')
           \<and> dget (the_jdict (dget_or cfg ''granular'' (JDict []))) c = Some (JStr ''never''))
    \<and> (requires_prompt p c False \<longrightarrow> requires_prompt p c True)"
proof -
  have M: "approval_mode_of (dget_or cfg ''mode'' (JStr ''on_request'')) = Inr (mode p)"
    and T: "trusted p = set (the_jlist (dget_or cfg ''trusted'' (JList [])))"
    and G: "granular p = the_jdict (dget_or cfg ''granular'' (JDict []))"
    using assms by (auto simp: approval_policy_from_config_def)
  have "(mode p = NEVER) = (dget cfg ''mode'' = Some (JStr ''never''))"
    "(mode p = UNLESS_TRUSTED) = (dget cfg ''mode'' = Some (JStr ''unless_trusted''))"
    "(mode p = GRANULAR) = (dget cfg ''mode'' = Some (JStr ''granular''))"
    using M by (auto simp: approval_mode_of_def dget_or_dget split: option.splits if_splits)
  then show ?thesis
    using requires_prompt_never_iff[of p c] requires_prompt_failed T G by auto
qed

theorem approval_config_prompts_witness:
  "\<exists>p. approval_policy_from_config [(''mode'', JStr ''granular''),
        (''granular'', JDict [(''shell'', JStr ''never'')])] = Inr p
     \<and> \<not> requires_prompt p ''shell'' True \<and> requires_prompt p ''network'' True"
proof -
  let ?cfg = "[(''mode'', JStr ''granular''), (''granular'', JDict [(''shell'', JStr ''never'')])]"
  obtain p where P: "approval_policy_from_config ?cfg = Inr p"
    by (simp add: approval_policy_from_config_def approval_mode_of_def)
  show ?thesis
    using approval_config_prompts[OF P, of "''shell''"] approval_config_prompts[OF P, of "''network''"] P
    by auto
qed

end
