(* ===== verification/CollabPolicy.thy ===== *)
theory CollabPolicy
  imports PyJson
begin

text \<open>
  The collaboration gate (\<open>execution/collab_policy.py\<close>): the risk class of a tool, the confirmation
  matrix of mode and risk, and the verdict for a tool call.  Modes and verdicts are ordered by how much
  they restrict, so that the gate's main law is a monotonicity statement.
\<close>

datatype risk_level = READ | WRITE | EXEC | EXTERNAL | PAYMENT | UNKNOWN

datatype autonomy_mode = PLAN | MANUAL | SUPERVISED | AUTONOMOUS

datatype collab_verdict = CV_ALLOW | CV_CONFIRM | CV_DENY

definition READ_TOOLS :: "pystr list" where
  "READ_TOOLS = [''web_search'', ''web_fetch'', ''paper_search'', ''paper_get'', ''read'', ''read_file'',
    ''grep'', ''find'', ''ls'', ''list_dir'', ''tavily_search'', ''arxiv_search'']"

definition WRITE_TOOLS :: "pystr list" where
  "WRITE_TOOLS = [''write_file'', ''edit_file'', ''apply_patch'', ''edit_diff'', ''write'', ''edit'',
    ''delete'', ''move'', ''create_docx'', ''create_pdf'', ''create_spreadsheet'']"

definition EXEC_TOOLS :: "pystr list" where
  "EXEC_TOOLS = [''exec'', ''bash'', ''shell'', ''run_command'', ''execute'']"

definition EXTERNAL_TOOLS :: "pystr list" where
  "EXTERNAL_TOOLS = [''upload_workflow'', ''upload'', ''platform_upload'', ''data_upload'',
    ''send_message'', ''send_file'', ''email_send'', ''slack_post'', ''feishu_send'']"

definition PAYMENT_TOOLS :: "pystr list" where
  "PAYMENT_TOOLS = [''purchase'', ''pay'', ''payment'', ''charge'']"

definition CONFIRM_MATRIX :: "((autonomy_mode \<times> risk_level) \<times> collab_verdict) list" where
  "CONFIRM_MATRIX = [
    ((PLAN, WRITE), CV_DENY),
    ((PLAN, EXEC), CV_DENY),
    ((PLAN, EXTERNAL), CV_DENY),
    ((PLAN, PAYMENT), CV_DENY),
    ((PLAN, UNKNOWN), CV_DENY),
    ((MANUAL, WRITE), CV_CONFIRM),
    ((MANUAL, EXEC), CV_CONFIRM),
    ((MANUAL, EXTERNAL), CV_CONFIRM),
    ((MANUAL, PAYMENT), CV_CONFIRM),
    ((MANUAL, UNKNOWN), CV_CONFIRM),
    ((SUPERVISED, EXEC), CV_CONFIRM),
    ((SUPERVISED, EXTERNAL), CV_CONFIRM),
    ((SUPERVISED, PAYMENT), CV_CONFIRM),
    ((AUTONOMOUS, EXTERNAL), CV_CONFIRM),
    ((AUTONOMOUS, PAYMENT), CV_CONFIRM)]"

definition risk_of :: "pystr \<Rightarrow> risk_level" where
  "risk_of tool_name =
     (if tool_name \<in> set PAYMENT_TOOLS then PAYMENT
      else if tool_name \<in> set EXTERNAL_TOOLS then EXTERNAL
      else if tool_name \<in> set EXEC_TOOLS then EXEC
      else if tool_name \<in> set WRITE_TOOLS then WRITE
      else if tool_name \<in> set READ_TOOLS then READ
      else UNKNOWN)"

definition evaluate :: "pystr \<Rightarrow> autonomy_mode \<Rightarrow> collab_verdict" where
  "evaluate tool_name m =
     (case map_of CONFIRM_MATRIX (m, risk_of tool_name) of Some v \<Rightarrow> v | None \<Rightarrow> CV_ALLOW)"

subsection \<open>The orders of restriction\<close>

fun verdict_rank :: "collab_verdict \<Rightarrow> nat" where
  "verdict_rank CV_ALLOW = 0"
| "verdict_rank CV_CONFIRM = 1"
| "verdict_rank CV_DENY = 2"

fun mode_rank :: "autonomy_mode \<Rightarrow> nat" where
  "mode_rank AUTONOMOUS = 0"
| "mode_rank SUPERVISED = 1"
| "mode_rank MANUAL = 2"
| "mode_rank PLAN = 3"

lemma verdict_rank_inj [simp]: "verdict_rank v = verdict_rank w \<longleftrightarrow> v = w"
  by (cases v; cases w) auto

lemma mode_rank_inj [simp]: "mode_rank m = mode_rank n \<longleftrightarrow> m = n"
  by (cases m; cases n) auto

instantiation collab_verdict :: linorder
begin

definition less_eq_collab_verdict :: "collab_verdict \<Rightarrow> collab_verdict \<Rightarrow> bool" where
  "less_eq_collab_verdict v w = (verdict_rank v \<le> verdict_rank w)"

definition less_collab_verdict :: "collab_verdict \<Rightarrow> collab_verdict \<Rightarrow> bool" where
  "less_collab_verdict v w = (verdict_rank v < verdict_rank w)"

instance
  by standard (auto simp: less_eq_collab_verdict_def less_collab_verdict_def
      dest: le_antisym[of "verdict_rank _" "verdict_rank _"])

end

instantiation autonomy_mode :: linorder
begin

definition less_eq_autonomy_mode :: "autonomy_mode \<Rightarrow> autonomy_mode \<Rightarrow> bool" where
  "less_eq_autonomy_mode m n = (mode_rank m \<le> mode_rank n)"

definition less_autonomy_mode :: "autonomy_mode \<Rightarrow> autonomy_mode \<Rightarrow> bool" where
  "less_autonomy_mode m n = (mode_rank m < mode_rank n)"

instance
  by standard (auto simp: less_eq_autonomy_mode_def less_autonomy_mode_def
      dest: le_antisym[of "mode_rank _" "mode_rank _"])

end

subsection \<open>The gate\<close>

lemmas tool_sets = PAYMENT_TOOLS_def EXTERNAL_TOOLS_def EXEC_TOOLS_def WRITE_TOOLS_def READ_TOOLS_def

text \<open>The five lists are disjoint, so the order of the tests in \<open>risk_of\<close> does not matter.\<close>

lemma tool_sets_disjoint:
  "distinct (PAYMENT_TOOLS @ EXTERNAL_TOOLS @ EXEC_TOOLS @ WRITE_TOOLS @ READ_TOOLS)"
  by (simp add: tool_sets)

lemma risk_of_iff:
  "risk_of t = PAYMENT \<longleftrightarrow> t \<in> set PAYMENT_TOOLS"
  "risk_of t = EXTERNAL \<longleftrightarrow> t \<in> set EXTERNAL_TOOLS"
  "risk_of t = EXEC \<longleftrightarrow> t \<in> set EXEC_TOOLS"
  "risk_of t = WRITE \<longleftrightarrow> t \<in> set WRITE_TOOLS"
  "risk_of t = READ \<longleftrightarrow> t \<in> set READ_TOOLS"
  using tool_sets_disjoint by (auto simp: risk_of_def)

lemma evaluate_mono: "m \<le> n \<Longrightarrow> evaluate t m \<le> evaluate t n"
  by (cases m; cases n; cases "risk_of t")
    (simp_all add: evaluate_def CONFIRM_MATRIX_def less_eq_autonomy_mode_def less_eq_collab_verdict_def)

text \<open>The confirm card cannot be bypassed: an outbound transfer or a payment is never run
  without asking, in any mode; a tool that is not known to be read-only is denied in plan mode and
  never runs unasked in manual mode; only plan mode denies; and moving to a more restrictive mode never
  lets a tool through that a laxer mode would have stopped.\<close>

theorem collab_gate_safe:
  "(t \<in> set (EXTERNAL_TOOLS @ PAYMENT_TOOLS) \<longrightarrow> evaluate t m \<noteq> CV_ALLOW)
   \<and> (t \<notin> set READ_TOOLS \<longrightarrow> evaluate t PLAN = CV_DENY \<and> evaluate t MANUAL = CV_CONFIRM)
   \<and> (t \<in> set READ_TOOLS \<longrightarrow> evaluate t m = CV_ALLOW)
   \<and> (evaluate t m = CV_DENY \<longrightarrow> m = PLAN)
   \<and> (m \<le> n \<longrightarrow> evaluate t m \<le> evaluate t n)"
proof -
  have r: "t \<in> set (EXTERNAL_TOOLS @ PAYMENT_TOOLS) \<longleftrightarrow> risk_of t = EXTERNAL \<or> risk_of t = PAYMENT"
    "t \<in> set READ_TOOLS \<longleftrightarrow> risk_of t = READ"
    by (auto simp: risk_of_iff)
  show ?thesis
    unfolding r using evaluate_mono[of m n t]
    by (cases m; cases "risk_of t") (simp_all add: evaluate_def CONFIRM_MATRIX_def)
qed

theorem collab_gate_safe_witness:
  "evaluate ''send_file'' AUTONOMOUS = CV_CONFIRM \<and> evaluate ''rm_everything'' PLAN = CV_DENY
   \<and> evaluate ''grep'' PLAN = CV_ALLOW \<and> evaluate ''bash'' AUTONOMOUS \<le> evaluate ''bash'' MANUAL"
proof -
  have "evaluate ''send_file'' AUTONOMOUS \<noteq> CV_ALLOW" "evaluate ''send_file'' AUTONOMOUS \<noteq> CV_DENY"
    using collab_gate_safe[of "''send_file''" AUTONOMOUS] by (simp_all add: tool_sets)
  moreover have "evaluate ''rm_everything'' PLAN = CV_DENY"
    using collab_gate_safe[of "''rm_everything''"] by (simp add: tool_sets)
  moreover have "evaluate ''grep'' PLAN = CV_ALLOW"
    using collab_gate_safe[of "''grep''" PLAN] by (simp add: tool_sets)
  moreover have "evaluate ''bash'' AUTONOMOUS \<le> evaluate ''bash'' MANUAL"
    using collab_gate_safe[of "''bash''" AUTONOMOUS MANUAL] by (simp add: less_eq_autonomy_mode_def)
  ultimately show ?thesis by (cases "evaluate ''send_file'' AUTONOMOUS") auto
qed

end
