(* ===== verification/TurnGuards.thy ===== *)
theory TurnGuards
  imports PyJson
begin

text \<open>
  The guards that bound one turn: the repeat-loop guard (\<open>kun_runtime/tool_storm_breaker.py\<close>), the
  in-flight tracker (\<open>kun_runtime/cancellation.py\<close>), the iteration budget
  (\<open>agent/iteration_budget.py\<close>) and the usage accumulator (\<open>kun_runtime/usage.py\<close>).
\<close>

subsection \<open>The tool storm breaker\<close>

definition STORM_EXEMPT_TOOLS :: "pystr list" where
  "STORM_EXEMPT_TOOLS = [''request_user_input'', ''user_input'', ''ask_user'', ''ask_user_confirm_card'']"

record storm_breaker =
  window_size :: nat
  threshold :: nat
  recent :: "(pystr \<times> pystr) list"

definition new_breaker :: "int \<Rightarrow> int \<Rightarrow> storm_breaker" where
  "new_breaker w t = \<lparr>window_size = nat (max 1 w), threshold = nat (max 2 t), recent = []\<rparr>"

definition call_key :: "pystr \<Rightarrow> dict \<Rightarrow> pystr \<times> pystr" where
  "call_key name args = (name, json_dumps_sorted (JDict args))"

text \<open>The reason of a suppression, or \<open>None\<close> when the call may run.\<close>

definition storm_inspect :: "pystr \<Rightarrow> dict \<Rightarrow> storm_breaker \<Rightarrow> pystr option \<times> storm_breaker" where
  "storm_inspect name args sb =
     (if name \<in> set STORM_EXEMPT_TOOLS then (None, sb)
      else let key = call_key name args; n = count_list (recent sb) key in
        if threshold sb - 1 \<le> n
        then (Some (name @ '' was called with identical arguments '' @ nat_str (n + 1) @
                '' times in this turn; repeat-loop guard suppressed the duplicate.''), sb)
        else (None, let xs = recent sb @ [key]
                    in sb\<lparr>recent := drop (length xs - window_size sb) xs\<rparr>))"

definition storm_reset :: "storm_breaker \<Rightarrow> storm_breaker" where
  "storm_reset sb = sb\<lparr>recent := []\<rparr>"

text \<open>A turn: the calls the model makes, in order; the result lists the calls that were let through.\<close>

fun storm_run :: "(pystr \<times> dict) list \<Rightarrow> storm_breaker \<Rightarrow> (pystr \<times> dict) list \<times> storm_breaker" where
  "storm_run [] sb = ([], sb)"
| "storm_run ((name, args) # calls) sb =
     (case storm_inspect name args sb of
        (Some _, sb') \<Rightarrow> storm_run calls sb'
      | (None, sb') \<Rightarrow> (case storm_run calls sb' of (ok, sb'') \<Rightarrow> ((name, args) # ok, sb'')))"

definition guarded_keys :: "(pystr \<times> dict) list \<Rightarrow> (pystr \<times> pystr) list" where
  "guarded_keys calls = map (\<lambda>(n, a). call_key n a) (filter (\<lambda>(n, _). n \<notin> set STORM_EXEMPT_TOOLS) calls)"

text \<open>The last \<open>k\<close> elements.\<close>

definition lastn :: "nat \<Rightarrow> 'a list \<Rightarrow> 'a list" where
  "lastn k xs = drop (length xs - k) xs"

lemma length_lastn [simp]: "length (lastn k xs) = min k (length xs)"
  by (simp add: lastn_def)

lemma lastn_snoc_lastn: "1 \<le> k \<Longrightarrow> lastn k (lastn k xs @ [x]) = lastn k (xs @ [x])"
  by (cases "length xs \<le> k") (auto simp: lastn_def Suc_diff_le)

lemma count_list_drop_le: "count_list (drop n xs) y \<le> count_list xs y"
proof -
  have "count_list xs y = count_list (take n xs) y + count_list (drop n xs) y"
    by (metis append_take_drop_id count_list_append)
  then show ?thesis by simp
qed

lemma count_list_take_le: "count_list (take n xs) y \<le> count_list xs y"
proof -
  have "count_list xs y = count_list (take n xs) y + count_list (drop n xs) y"
    by (metis append_take_drop_id count_list_append)
  then show ?thesis by simp
qed

text \<open>No key occurs \<open>t\<close> times within any \<open>w\<close> consecutive elements.\<close>

definition spaced :: "nat \<Rightarrow> nat \<Rightarrow> 'a list \<Rightarrow> bool" where
  "spaced w t xs \<longleftrightarrow> (\<forall>i. \<forall>y. count_list (take w (drop i xs)) y < t)"

lemma spaced_snoc:
  assumes "spaced w t xs" and "1 \<le> w" and "count_list (lastn w xs) x + 1 < t"
  shows "spaced w t (xs @ [x])"
  unfolding spaced_def
proof (intro allI)
  fix i y
  have old: "count_list (take w (drop i xs)) y < t"
    using assms(1) by (simp add: spaced_def)
  show "count_list (take w (drop i (xs @ [x]))) y < t"
  proof (cases "length (drop i xs) < w \<and> i \<le> length xs")
    case True
    then have "drop i (xs @ [x]) = drop i xs @ [x]" and "length (drop i xs @ [x]) \<le> w" by auto
    then have "take w (drop i (xs @ [x])) = drop i xs @ [x]" by (metis take_all)
    moreover have "count_list (drop i xs) y < t" using old True by simp
    moreover have "count_list (drop i xs) x \<le> count_list (lastn w xs) x"
    proof -
      have "drop i xs = drop (i - (length xs - w)) (lastn w xs)"
        using True by (auto simp: lastn_def le_diff_conv)
      then show ?thesis by (metis count_list_drop_le)
    qed
    ultimately show ?thesis using assms(3) by auto
  next
    case False
    then have "take w (drop i (xs @ [x])) = take w (drop i xs) \<or> drop i (xs @ [x]) = []"
      using assms(2) by auto
    then show ?thesis using old assms(3) by auto
  qed
qed

lemma storm_run_spaced:
  assumes "storm_run calls sb = (ok, sb')" and "1 \<le> window_size sb" and "2 \<le> threshold sb"
    and "recent sb = lastn (window_size sb) past" and "spaced (window_size sb) (threshold sb) past"
  shows "spaced (window_size sb) (threshold sb) (past @ guarded_keys ok)"
  using assms
proof (induction calls sb arbitrary: past ok rule: storm_run.induct)
  case (1 sb)
  then show ?case by (simp add: guarded_keys_def)
next
  case (2 name args calls sb)
  let ?k = "call_key name args"
  show ?case
  proof (cases "name \<in> set STORM_EXEMPT_TOOLS")
    case True
    then have I: "storm_inspect name args sb = (None, sb)" by (simp add: storm_inspect_def)
    with 2(3) obtain ok1 where ok1: "storm_run calls sb = (ok1, sb')" "ok = (name, args) # ok1"
      by (auto split: prod.splits)
    with True have "guarded_keys ok = guarded_keys ok1" by (simp add: guarded_keys_def)
    then show ?thesis using 2(1)[OF I[symmetric] refl ok1(1)] 2(4-7) by simp
  next
    case False
    let ?n = "count_list (recent sb) ?k"
    let ?sb1 = "sb\<lparr>recent := lastn (window_size sb) (recent sb @ [?k])\<rparr>"
    show ?thesis
    proof (cases "threshold sb - 1 \<le> ?n")
      case True
      then obtain msg where I: "storm_inspect name args sb = (Some msg, sb)"
        using False by (simp add: storm_inspect_def Let_def)
      then show ?thesis using 2(2)[OF I[symmetric] refl] 2(3-7) by simp
    next
      case False2: False
      then have I: "storm_inspect name args sb = (None, ?sb1)"
        using False by (simp add: storm_inspect_def Let_def lastn_def)
      with 2(3) obtain ok1 where ok1: "storm_run calls ?sb1 = (ok1, sb')" "ok = (name, args) # ok1"
        by (auto split: prod.splits)
      have "spaced (window_size sb) (threshold sb) (past @ [?k])"
        using 2(4,5,6,7) False2 by (intro spaced_snoc) auto
      moreover have "recent ?sb1 = lastn (window_size sb) (past @ [?k])"
        using 2(4,6) by (simp add: lastn_snoc_lastn)
      ultimately have "spaced (window_size sb) (threshold sb) ((past @ [?k]) @ guarded_keys ok1)"
        using 2(1)[OF I[symmetric] refl ok1(1), of "past @ [?k]"] 2(4,5) by simp
      then show ?thesis using ok1(2) False by (simp add: guarded_keys_def)
    qed
  qed
qed

text \<open>The repeat-loop guard holds over the whole turn: among any \<open>window_size\<close> consecutive calls it
  let through (the exempt question tools aside), no call with the same name and arguments occurs
  \<open>threshold\<close> times.\<close>

theorem storm_guard_holds:
  assumes "storm_run calls (new_breaker w t) = (ok, sb')"
  shows "count_list (take (nat (max 1 w)) (drop i (guarded_keys ok))) k < nat (max 2 t)"
proof -
  let ?sb = "new_breaker w t"
  have "spaced (window_size ?sb) (threshold ?sb) ([] @ guarded_keys ok)"
    using assms by (rule storm_run_spaced) (auto simp: new_breaker_def lastn_def spaced_def)
  then show ?thesis by (cases k) (simp add: new_breaker_def spaced_def)
qed

theorem storm_guard_holds_witness:
  "\<exists>ok sb'. storm_run [(''ls'', []), (''ls'', []), (''cat'', []), (''ls'', [])] (new_breaker 8 3) = (ok, sb')
     \<and> count_list (take 8 (drop 0 (guarded_keys ok))) (call_key ''ls'' []) < 3"
proof -
  obtain ok sb' where
    R: "storm_run [(''ls'', []), (''ls'', []), (''cat'', []), (''ls'', [])] (new_breaker 8 3) = (ok, sb')"
    by fastforce
  show ?thesis using storm_guard_holds[OF R, of 0 "call_key ''ls'' []"] R by simp
qed

subsection \<open>The iteration budget\<close>

record iteration_budget =
  bud_max :: int
  bud_used :: int

definition new_budget :: "int \<Rightarrow> iteration_budget" where
  "new_budget max_iterations = \<lparr>bud_max = max 1 max_iterations, bud_used = 0\<rparr>"

definition remaining :: "iteration_budget \<Rightarrow> int" where
  "remaining b = max 0 (bud_max b - bud_used b)"

definition exhausted :: "iteration_budget \<Rightarrow> bool" where
  "exhausted b = (bud_max b \<le> bud_used b)"

text \<open>\<open>consume\<close> increments first and raises afterwards, so a failed call still counts.\<close>

definition consume :: "iteration_budget \<Rightarrow> unit result \<times> iteration_budget" where
  "consume b =
     (let b1 = b\<lparr>bud_used := bud_used b + 1\<rparr>
      in (if bud_max b1 < bud_used b1
          then Inl (StopIteration (''Iteration budget exhausted ('' @ int_str (bud_max b1) @ '' steps)''))
          else Inr (), b1))"

definition refund :: "int \<Rightarrow> iteration_budget \<Rightarrow> iteration_budget" where
  "refund n b = b\<lparr>bud_used := max 0 (bud_used b - n)\<rparr>"

text \<open>
  \<open>fraction_used < 0.70\<close> and \<open>fraction_used >= 0.90\<close> as the integer comparisons they agree
  with (for budgets below \<open>2 ^ 50\<close> the rounded quotient is below the rounded bound exactly when the
  quotient is below the bound).  The two messages are given by the caller of the model: their text
  shows a rounded percentage.
\<close>

definition budget_warning :: "(iteration_budget \<Rightarrow> pystr) \<Rightarrow> (iteration_budget \<Rightarrow> pystr) \<Rightarrow>
    iteration_budget \<Rightarrow> pystr option" where
  "budget_warning caution urgent b =
     (if 10 * bud_used b < 7 * bud_max b then None
      else if 9 * bud_max b \<le> 10 * bud_used b then Some (urgent b) else Some (caution b))"

text \<open>\<open>loads\<close> is \<open>json.loads\<close>, \<open>None\<close> where it raises.\<close>

definition maybe_inject_warning :: "(pystr \<Rightarrow> json option) \<Rightarrow> (iteration_budget \<Rightarrow> pystr) \<Rightarrow>
    (iteration_budget \<Rightarrow> pystr) \<Rightarrow> iteration_budget \<Rightarrow> json \<Rightarrow> json" where
  "maybe_inject_warning loads caution urgent b tool_result =
     (case budget_warning caution urgent b of
        None \<Rightarrow> tool_result
      | Some msg \<Rightarrow>
          (case tool_result of
             JDict d \<Rightarrow> JDict (dset ''_budget_warning'' (JStr msg) d)
           | JStr s \<Rightarrow>
               (case loads s of
                  Some (JDict d) \<Rightarrow> JStr (json_dumps (JDict (dset ''_budget_warning'' (JStr msg) d)))
                | Some _ \<Rightarrow> tool_result
                | None \<Rightarrow> JStr (s @ [CHR 0x0A, CHR 0x0A] @ msg))
           | _ \<Rightarrow> tool_result))"

datatype budget_op = Consume | Refund int

fun budget_run :: "budget_op list \<Rightarrow> iteration_budget \<Rightarrow> bool list \<times> iteration_budget" where
  "budget_run [] b = ([], b)"
| "budget_run (Consume # ops) b =
     (case consume b of (r, b1) \<Rightarrow>
        (case budget_run ops b1 of (rs, b2) \<Rightarrow> ((r = Inr ()) # rs, b2)))"
| "budget_run (Refund n # ops) b = budget_run ops (refund n b)"

fun refunds :: "budget_op list \<Rightarrow> int" where
  "refunds [] = 0"
| "refunds (Consume # ops) = refunds ops"
| "refunds (Refund n # ops) = n + refunds ops"

lemma budget_run_Consume [simp]:
  "fst (budget_run (Consume # ops) b) =
     (bud_used b < bud_max b) # fst (budget_run ops (b\<lparr>bud_used := bud_used b + 1\<rparr>))"
  by (simp add: consume_def Let_def split: prod.splits)

declare budget_run.simps(2) [simp del]

lemma budget_run_bound:
  "\<forall>n. Refund n \<in> set ops \<longrightarrow> 0 \<le> n \<Longrightarrow>
   int (count_list (fst (budget_run ops b)) True) \<le> max 0 (bud_max b - bud_used b) + refunds ops
   \<and> 0 \<le> refunds ops"
proof (induction ops arbitrary: b)
  case Nil
  then show ?case by simp
next
  case (Cons a ops)
  then have nonneg: "\<forall>n. Refund n \<in> set ops \<longrightarrow> 0 \<le> n" by simp
  show ?case
  proof (cases a)
    case Consume
    then show ?thesis
      using Cons.IH[OF nonneg, of "b\<lparr>bud_used := bud_used b + 1\<rparr>"] by auto
  next
    case (Refund n)
    with Cons.prems have "0 \<le> n" by simp
    with Refund show ?thesis
      using Cons.IH[OF nonneg, of "refund n b"] by (auto simp: refund_def)
  qed
qed

lemma budget_run_replicate:
  "fst (budget_run (replicate k Consume) b) =
     replicate (min k (nat (bud_max b - bud_used b))) True @
     replicate (k - nat (bud_max b - bud_used b)) False"
proof (induction k arbitrary: b)
  case 0
  then show ?case by simp
next
  case (Suc k)
  let ?b1 = "b\<lparr>bud_used := bud_used b + 1\<rparr>"
  have "bud_used b < bud_max b \<Longrightarrow>
      nat (bud_max b - bud_used b) = Suc (nat (bud_max b - bud_used ?b1))" by simp
  then show ?case using Suc.IH[of ?b1] by (cases "bud_used b < bud_max b") auto
qed

text \<open>The budget bounds the work: in any sequence of steps and refunds at most
  \<open>max_iterations\<close> plus the amount refunded steps succeed; and without refunds exactly the first
  \<open>max_iterations\<close> steps succeed and every later one raises.\<close>

theorem budget_bounds_steps:
  assumes "\<forall>n. Refund n \<in> set ops \<longrightarrow> 0 \<le> n"
  shows "int (count_list (fst (budget_run ops (new_budget m))) True) \<le> max 1 m + refunds ops
    \<and> fst (budget_run (replicate k Consume) (new_budget m)) =
        replicate (min k (nat (max 1 m))) True @ replicate (k - nat (max 1 m)) False"
  using budget_run_bound[OF assms, of "new_budget m"] budget_run_replicate[of k "new_budget m"]
  by (simp add: new_budget_def)

theorem budget_bounds_steps_witness:
  "int (count_list (fst (budget_run [Consume, Consume, Consume, Refund 1, Consume] (new_budget 2))) True)
     \<le> 3"
  using budget_bounds_steps[of "[Consume, Consume, Consume, Refund 1, Consume]" 2 0] by simp

subsection \<open>Usage accumulation\<close>

text \<open>
  A usage dictionary maps a field to a number or to something else.  The numbers are ints and floats
  in the program; here they are any type with \<open>0\<close> and \<open>+\<close>, with no law of arithmetic assumed, so
  that what is shown holds for floating-point costs too.
\<close>

datatype 'n usage_val = UNum 'n | UOther json

type_synonym 'n usage = "(pystr \<times> 'n usage_val) list"

definition add_field :: "pystr \<Rightarrow> 'n::{plus, zero} \<Rightarrow> 'n usage \<Rightarrow> 'n usage result" where
  "add_field k n acc =
     (case map_of acc k of
        None \<Rightarrow> Inr (AList.update k (UNum (0 + n)) acc)
      | Some (UNum m) \<Rightarrow> Inr (AList.update k (UNum (m + n)) acc)
      | Some (UOther _) \<Rightarrow> Inl (TypeError ''unsupported operand type(s) for +''))"

fun merge_usage :: "'n::{plus, zero} usage \<Rightarrow> 'n usage \<Rightarrow> 'n usage result" where
  "merge_usage acc [] = Inr acc"
| "merge_usage acc ((k, v) # delta) =
     (case v of
        UNum n \<Rightarrow> bind_result (add_field k n acc) (\<lambda>acc1. merge_usage acc1 delta)
      | UOther x \<Rightarrow> merge_usage (AList.update k (UOther x) acc) delta)"

type_synonym 'n snapshots = "pystr \<rightharpoonup> 'n usage"

definition for_thread :: "'n snapshots \<Rightarrow> pystr \<Rightarrow> 'n usage" where
  "for_thread s tid = (case s tid of None \<Rightarrow> [] | Some u \<Rightarrow> u)"

definition usage_record :: "pystr \<Rightarrow> 'n::{plus, zero} usage \<Rightarrow> 'n snapshots \<Rightarrow> ('n usage \<times> 'n snapshots) result" where
  "usage_record tid usage s =
     bind_result (merge_usage (for_thread s tid) usage) (\<lambda>acc. Inr (acc, s(tid \<mapsto> acc)))"

definition SAVINGS_KEYS :: "pystr list" where
  "SAVINGS_KEYS = [''tokenEconomySavingsTokens'', ''tokenEconomySavingsUsd'', ''tokenEconomySavingsCny'']"

fun add_savings :: "'n usage \<Rightarrow> pystr list \<Rightarrow> 'n::{plus, zero} usage \<Rightarrow> 'n usage result" where
  "add_savings savings [] acc = Inr acc"
| "add_savings savings (k # ks) acc =
     (case map_of savings k of
        Some (UNum n) \<Rightarrow> bind_result (add_field k n acc) (add_savings savings ks)
      | _ \<Rightarrow> add_savings savings ks acc)"

definition record_token_economy_savings :: "pystr \<Rightarrow> 'n::{plus, zero} usage \<Rightarrow> 'n snapshots \<Rightarrow>
    ('n usage \<times> 'n snapshots) result" where
  "record_token_economy_savings tid savings s =
     bind_result (add_savings savings SAVINGS_KEYS (for_thread s tid)) (\<lambda>acc. Inr (acc, s(tid \<mapsto> acc)))"

definition seed_thread :: "pystr \<Rightarrow> 'n usage \<Rightarrow> 'n snapshots \<Rightarrow> 'n snapshots" where
  "seed_thread tid snapshot s = s(tid \<mapsto> snapshot)"

definition usage_reset :: "pystr \<Rightarrow> 'n snapshots \<Rightarrow> 'n snapshots" where
  "usage_reset tid s = s(tid := None)"

fun usage_run :: "(pystr \<times> 'n::{plus, zero} usage) list \<Rightarrow> 'n snapshots \<Rightarrow> 'n snapshots result" where
  "usage_run [] s = Inr s"
| "usage_run ((tid, u) # rest) s = bind_result (usage_record tid u s) (\<lambda>(_, s1). usage_run rest s1)"

fun uadd :: "'n::plus usage_val \<Rightarrow> 'n usage_val \<Rightarrow> 'n usage_val" where
  "uadd (UNum m) (UNum n) = UNum (m + n)"
| "uadd v _ = v"

definition numeric :: "'n usage \<Rightarrow> bool" where
  "numeric u \<longleftrightarrow> (\<forall>(k, v) \<in> set u. \<exists>n. v = UNum n)"

text \<open>The values recorded for a field of a thread, in order.\<close>

definition field_values :: "pystr \<Rightarrow> pystr \<Rightarrow> (pystr \<times> 'n usage) list \<Rightarrow> 'n list" where
  "field_values tid k rs =
     concat (map (\<lambda>(t, u). if t = tid then (case map_of u k of Some (UNum n) \<Rightarrow> [n] | _ \<Rightarrow> []) else []) rs)"

definition num_of :: "'n::zero usage \<Rightarrow> pystr \<Rightarrow> 'n" where
  "num_of u k = (case map_of u k of Some (UNum n) \<Rightarrow> n | _ \<Rightarrow> 0)"

lemma numericD: "numeric u \<Longrightarrow> map_of u k = Some v \<Longrightarrow> \<exists>n. v = UNum n"
  by (fastforce simp: numeric_def dest: map_of_SomeD)

lemma numeric_update: "numeric u \<Longrightarrow> numeric (AList.update k (UNum n) u)"
  by (induction u) (auto simp: numeric_def)

lemma add_field_numeric:
  "numeric acc \<Longrightarrow> add_field k n acc = Inr (AList.update k (UNum (num_of acc k + n)) acc)"
  using numericD[of acc k] by (fastforce simp: add_field_def num_of_def split: option.splits usage_val.splits)

lemma num_of_update: "num_of (AList.update k v u) k' =
    (if k' = k then (case v of UNum n \<Rightarrow> n | _ \<Rightarrow> 0) else num_of u k')"
  by (simp add: num_of_def update_conv')

lemma merge_usage_numeric:
  "numeric acc \<Longrightarrow> numeric delta \<Longrightarrow> distinct (map fst delta) \<Longrightarrow>
   \<exists>acc'. merge_usage acc delta = Inr acc' \<and> numeric acc' \<and>
     (\<forall>k. num_of acc' k = (case map_of delta k of Some (UNum n) \<Rightarrow> num_of acc k + n | _ \<Rightarrow> num_of acc k))"
proof (induction acc delta rule: merge_usage.induct)
  case (1 acc)
  then show ?case by simp
next
  case (2 acc k v delta)
  then obtain n where v: "v = UNum n" by (auto simp: numeric_def)
  let ?acc1 = "AList.update k (UNum (num_of acc k + n)) acc"
  have A: "add_field k n acc = Inr ?acc1" using 2(3) by (rule add_field_numeric)
  have "numeric ?acc1" "numeric delta" "distinct (map fst delta)" "map_of delta k = None"
    using 2(3-5) numeric_update[OF 2(3)] by (simp_all add: map_of_eq_None_iff numeric_def[of "_ # _"])
      (simp add: numeric_def)
  moreover from this obtain acc' where "merge_usage ?acc1 delta = Inr acc'" "numeric acc'"
    "\<forall>k. num_of acc' k =
       (case map_of delta k of Some (UNum n) \<Rightarrow> num_of ?acc1 k + n | _ \<Rightarrow> num_of ?acc1 k)"
    using 2(1)[OF v, of ?acc1] by blast
  ultimately show ?case
    using v A by (intro exI[of _ acc']) 
      (simp add: num_of_update split: option.split usage_val.split)
qed

text \<open>Usage adds up: as long as only numbers are recorded, recording never fails, and a field
  of a thread holds the sum, from the left and from zero, of exactly the values recorded for that
  field of that thread, in the order they were recorded, whatever is recorded for other threads.\<close>

theorem usage_accumulates:
  assumes "\<forall>(t, u) \<in> set rs. numeric u \<and> distinct (map fst u)"
  shows "\<exists>s. usage_run rs Map.empty = Inr s \<and>
    (\<forall>tid k. num_of (for_thread s tid) k = foldl (+) 0 (field_values tid k rs))"
proof -
  have "\<exists>s'. usage_run rs s = Inr s' \<and> (\<forall>tid k. num_of (for_thread s' tid) k =
      foldl (+) (num_of (for_thread s tid) k) (field_values tid k rs))"
    if "\<forall>t. numeric (for_thread s t)" for s
    using assms that
  proof (induction rs s rule: usage_run.induct)
    case (1 s)
    then show ?case by (simp add: field_values_def)
  next
    case (2 t u rest s)
    obtain acc where M: "merge_usage (for_thread s t) u = Inr acc" "numeric acc"
      "\<And>k. num_of acc k = (case map_of u k of Some (UNum n) \<Rightarrow> num_of (for_thread s t) k + n
         | _ \<Rightarrow> num_of (for_thread s t) k)"
      using merge_usage_numeric[of "for_thread s t" u] 2(2,3) by auto
    let ?s1 = "s(t \<mapsto> acc)"
    have R: "usage_record t u s = Inr (acc, ?s1)" using M by (simp add: usage_record_def)
    have N: "\<forall>t. numeric (for_thread ?s1 t)" using 2(3) M by (auto simp: for_thread_def)
    have P: "\<forall>(t, u) \<in> set rest. numeric u \<and> distinct (map fst u)" using 2(2) by simp
    obtain s' where "usage_run rest ?s1 = Inr s'" "\<forall>tid k. num_of (for_thread s' tid) k =
        foldl (+) (num_of (for_thread ?s1 tid) k) (field_values tid k rest)"
      using 2(1)[OF P N] by blast
    then show ?case
      using R M(3) by (auto simp: field_values_def for_thread_def split: option.splits usage_val.splits)
  qed
  from this[of Map.empty] show ?thesis by (auto simp: for_thread_def num_of_def numeric_def)
qed

theorem usage_accumulates_witness:
  "\<exists>s. usage_run [(''t'', [(''totalTokens'', UNum (3::int))]), (''u'', [(''totalTokens'', UNum 9)]),
        (''t'', [(''totalTokens'', UNum 4)])] Map.empty = Inr s
     \<and> num_of (for_thread s ''t'') ''totalTokens'' = 7"
  using usage_accumulates[of "[(''t'', [(''totalTokens'', UNum (3::int))]),
      (''u'', [(''totalTokens'', UNum 9)]), (''t'', [(''totalTokens'', UNum 4)])]"]
  by (auto simp: numeric_def field_values_def simp del: usage_run.simps)

subsection \<open>Operations in flight\<close>

type_synonym inflight = "(pystr \<times> dict) list"

definition inflight_begin :: "dict \<Rightarrow> inflight \<Rightarrow> inflight result" where
  "inflight_begin op fl =
     (let op_id = py_str (dget_or op ''id'' (JStr ''''))
      in if op_id = '''' then Inl (ValueError ''inflight operation requires an id'')
         else Inr (AList.update op_id op fl))"

definition inflight_end :: "pystr \<Rightarrow> inflight \<Rightarrow> inflight" where
  "inflight_end op_id fl = filter (\<lambda>p. fst p \<noteq> op_id) fl"

definition inflight_count :: "pystr option \<Rightarrow> inflight \<Rightarrow> nat" where
  "inflight_count tid fl =
     (case tid of None \<Rightarrow> length fl
      | Some t \<Rightarrow> length (filter (\<lambda>(_, op). dget op ''threadId'' = Some (JStr t)) fl))"

definition is_running :: "pystr \<Rightarrow> inflight \<Rightarrow> bool" where
  "is_running op_id fl = (op_id \<in> set (map fst fl))"

text \<open>A second \<open>begin\<close> with an id in flight replaces the first operation, so one \<open>end\<close> ends both.\<close>

lemma inflight_balanced:
  assumes "inflight_begin op fl = Inr fl'" and "distinct (map fst fl)"
  shows "distinct (map fst fl')"
    and "is_running (py_str (dget_or op ''id'' (JStr ''''))) fl'"
    and "\<not> is_running (py_str (dget_or op ''id'' (JStr ''''))) (inflight_end (py_str (dget_or op ''id'' (JStr ''''))) fl')"
    and "\<not> is_running (py_str (dget_or op ''id'' (JStr ''''))) fl \<Longrightarrow>
      inflight_end (py_str (dget_or op ''id'' (JStr ''''))) fl' = fl"
proof -
  let ?i = "py_str (dget_or op ''id'' (JStr ''''))"
  have U: "fl' = AList.update ?i op fl" using assms(1) by (auto simp: inflight_begin_def Let_def split: if_splits)
  show "distinct (map fst fl')" using assms(2) by (simp add: U distinct_update)
  show "is_running ?i fl'" unfolding U is_running_def by (auto simp: update_keys simp del: set_map)
  show "\<not> is_running ?i (inflight_end ?i fl')" by (auto simp: is_running_def inflight_end_def)
  show "inflight_end ?i fl' = fl" if N: "\<not> is_running ?i fl"
    using N unfolding U is_running_def inflight_end_def
    by (induction fl) (auto simp: filter_id_conv)
qed

end
