(* ===== verification/Gates.thy ===== *)
theory Gates
  imports PyJson
begin

text \<open>
  The two gates that suspend a turn: the approval gate (\<open>kun_runtime/approval_gate.py\<close>) and the user
  input gate (\<open>kun_runtime/user_input_gate.py\<close>).  A suspended coroutine is cut at its \<open>await\<close>s; the
  request objects live in a store of their own, since a coroutine still reads its request after the
  gate has dropped it from its pending table.  Both kinds of request can be settled once, which is the
  interface \<open>resolve_once\<close>.
\<close>

subsection \<open>Settling once\<close>

locale resolve_once =
  fixes decided :: "'r \<Rightarrow> 'd option"
    and settle :: "'d \<Rightarrow> 'r \<Rightarrow> 'r"
  assumes settle_first: "decided r = None \<Longrightarrow> decided (settle d r) = Some d"
    and settle_again: "decided r \<noteq> None \<Longrightarrow> settle d r = r"
begin

lemma decided_settle: "decided (settle d r) = (case decided r of None \<Rightarrow> Some d | Some e \<Rightarrow> Some e)"
  using settle_first[of r d] settle_again[of r d] by (auto split: option.splits)

lemma decided_fold:
  "decided (fold settle ds r) =
     (case decided r of Some e \<Rightarrow> Some e | None \<Rightarrow> (case ds of [] \<Rightarrow> None | d # _ \<Rightarrow> Some d))"
proof (induction ds arbitrary: r)
  case Nil
  then show ?case by (simp split: option.split)
next
  case (Cons d ds)
  then show ?case by (auto simp: decided_settle split: option.splits list.splits)
qed

end

subsection \<open>Approval requests\<close>

datatype decision = Allow | Deny

record approval_request =
  ar_thread :: pystr
  ar_turn :: pystr
  ar_tool :: pystr
  ar_summary :: pystr
  ar_details :: dict
  ar_decision :: "decision option"

definition ar_resolved :: "approval_request \<Rightarrow> bool" where
  "ar_resolved r = (ar_decision r \<noteq> None)"

definition ar_resolve :: "decision \<Rightarrow> approval_request \<Rightarrow> approval_request" where
  "ar_resolve d r = (if ar_decision r \<noteq> None then r else r\<lparr>ar_decision := Some d\<rparr>)"

definition ar_cancel :: "approval_request \<Rightarrow> approval_request" where
  "ar_cancel r = (if ar_decision r \<noteq> None then r else r\<lparr>ar_decision := Some Deny\<rparr>)"

text \<open>What \<open>wait\<close> returns once the event is set or the wait times out.\<close>

definition ar_wait_result :: "bool \<Rightarrow> approval_request \<Rightarrow> decision \<times> approval_request" where
  "ar_wait_result timed_out r =
     (let r1 = (if timed_out then r\<lparr>ar_decision := Some Deny\<rparr> else r)
      in (case ar_decision r1 of Some d \<Rightarrow> d | None \<Rightarrow> Deny, r1))"

interpretation ar: resolve_once ar_decision ar_resolve
  by unfold_locales (auto simp: ar_resolve_def)

lemma ar_cancel_resolve: "ar_cancel = ar_resolve Deny"
  by (simp add: fun_eq_iff ar_cancel_def ar_resolve_def)

subsection \<open>The approval gate\<close>

text \<open>The bypass object: absent, with a \<open>bypasses_category\<close> method, or with two flags.\<close>

datatype approval_bypass =
    NoBypass
  | BypassMethod "pystr \<Rightarrow> json"
  | BypassFlags json json

record approval_gate =
  ag_bypass :: approval_bypass
  ag_pending :: "pystr list"
  ag_reqs :: "pystr \<rightharpoonup> approval_request"

definition bypasses_tool_confirmation :: "approval_gate \<Rightarrow> bool" where
  "bypasses_tool_confirmation g =
     (case ag_bypass g of
        NoBypass \<Rightarrow> False
      | BypassMethod f \<Rightarrow> truthy (f ''tool'')
      | BypassFlags all tool \<Rightarrow> truthy all \<or> truthy tool)"

text \<open>
  \<open>request\<close> up to its \<open>await\<close>: \<open>Some\<close> decision when it returns at once, \<open>None\<close> when it is
  suspended.  The identifier is what \<open>uuid4\<close> gives.
\<close>

definition ag_request :: "pystr \<Rightarrow> pystr \<Rightarrow> pystr \<Rightarrow> pystr \<Rightarrow> pystr \<Rightarrow> dict \<Rightarrow> approval_gate \<Rightarrow>
    decision option \<times> approval_gate" where
  "ag_request aid thread turn tool summary details g =
     (if bypasses_tool_confirmation g then (Some Allow, g)
      else (None, g\<lparr>ag_pending := (if aid \<in> set (ag_pending g) then ag_pending g else ag_pending g @ [aid]),
        ag_reqs := (ag_reqs g)(aid \<mapsto> \<lparr>ar_thread = thread, ar_turn = turn, ar_tool = tool,
          ar_summary = summary, ar_details = details, ar_decision = None\<rparr>)\<rparr>))"

text \<open>The rest of \<open>request\<close>, which can run only once the event of the request is set.\<close>

definition ag_finish :: "pystr \<Rightarrow> approval_gate \<Rightarrow> decision option \<times> approval_gate" where
  "ag_finish aid g =
     (case ag_reqs g aid of
        None \<Rightarrow> (None, g)
      | Some r \<Rightarrow>
          if ar_resolved r
          then (Some (fst (ar_wait_result False r)), g\<lparr>ag_pending := removeAll aid (ag_pending g)\<rparr>)
          else (None, g))"

definition ag_resolve :: "pystr \<Rightarrow> decision \<Rightarrow> approval_gate \<Rightarrow> bool \<times> approval_gate" where
  "ag_resolve aid d g =
     (if aid \<in> set (ag_pending g)
      then (True, g\<lparr>ag_reqs := (ag_reqs g)(aid := map_option (ar_resolve d) (ag_reqs g aid))\<rparr>)
      else (False, g))"

definition ag_of_turn :: "pystr \<Rightarrow> approval_gate \<Rightarrow> pystr \<Rightarrow> bool" where
  "ag_of_turn turn g aid = (case ag_reqs g aid of Some r \<Rightarrow> ar_turn r = turn | None \<Rightarrow> False)"

definition ag_cancel_one :: "pystr \<Rightarrow> pystr \<Rightarrow> approval_gate \<Rightarrow> approval_gate" where
  "ag_cancel_one turn aid g =
     (if ag_of_turn turn g aid
      then g\<lparr>ag_reqs := (ag_reqs g)(aid := map_option ar_cancel (ag_reqs g aid)),
             ag_pending := removeAll aid (ag_pending g)\<rparr>
      else g)"

definition ag_cancel_all :: "pystr \<Rightarrow> approval_gate \<Rightarrow> approval_gate" where
  "ag_cancel_all turn g = fold (ag_cancel_one turn) (ag_pending g) g"

definition ag_get_pending :: "pystr option \<Rightarrow> approval_gate \<Rightarrow> pystr list" where
  "ag_get_pending turn g =
     (case turn of None \<Rightarrow> ag_pending g | Some t \<Rightarrow> filter (ag_of_turn t g) (ag_pending g))"

datatype ag_action =
    AgRequest pystr pystr pystr pystr pystr dict
  | AgResolve pystr decision
  | AgCancelAll pystr
  | AgFinish pystr

fun ag_act :: "ag_action \<Rightarrow> approval_gate \<Rightarrow> approval_gate" where
  "ag_act (AgRequest aid th tu tool su de) g = snd (ag_request aid th tu tool su de g)"
| "ag_act (AgResolve aid d) g = snd (ag_resolve aid d g)"
| "ag_act (AgCancelAll turn) g = ag_cancel_all turn g"
| "ag_act (AgFinish aid) g = snd (ag_finish aid g)"

text \<open>What a sequence of actions settles a request of the given turn with.\<close>

fun settlements :: "pystr \<Rightarrow> pystr \<Rightarrow> ag_action list \<Rightarrow> decision list" where
  "settlements aid turn [] = []"
| "settlements aid turn (AgResolve a d # acts) =
     (if a = aid then d # settlements aid turn acts else settlements aid turn acts)"
| "settlements aid turn (AgCancelAll t # acts) =
     (if t = turn then Deny # settlements aid turn acts else settlements aid turn acts)"
| "settlements aid turn (_ # acts) = settlements aid turn acts"

fun other_request :: "pystr \<Rightarrow> ag_action \<Rightarrow> bool" where
  "other_request aid (AgRequest a _ _ _ _ _) = (a \<noteq> aid)"
| "other_request aid _ = True"

lemma ar_cancel_simps [simp]:
  "ar_turn (ar_cancel r) = ar_turn r" "ar_cancel (ar_cancel r) = ar_cancel r"
  by (simp_all add: ar_cancel_def)

lemma ag_cancel_one_turn [simp]: "ag_of_turn turn (ag_cancel_one t x g) a = ag_of_turn turn g a"
  by (simp add: ag_cancel_one_def ag_of_turn_def split: option.splits)

lemma ag_cancel_one_simps:
  "ag_reqs (ag_cancel_one turn x g) aid =
     (if aid = x \<and> ag_of_turn turn g x then map_option ar_cancel (ag_reqs g aid) else ag_reqs g aid)"
  "ag_pending (ag_cancel_one turn x g) =
     (if ag_of_turn turn g x then removeAll x (ag_pending g) else ag_pending g)"
  by (simp_all add: ag_cancel_one_def)

lemma ag_cancel_fold_reqs:
  "ag_reqs (fold (ag_cancel_one turn) xs g) aid =
     (if aid \<in> set xs \<and> ag_of_turn turn g aid then map_option ar_cancel (ag_reqs g aid)
      else ag_reqs g aid)"
  by (induction xs arbitrary: g) (auto simp: ag_cancel_one_simps option.map_comp comp_def)

lemma ag_cancel_fold_pending:
  "set (ag_pending (fold (ag_cancel_one turn) xs g)) =
     set (ag_pending g) - {a \<in> set xs. ag_of_turn turn g a}"
  by (induction xs arbitrary: g) (auto simp: ag_cancel_one_simps)

lemma ag_cancel_all_reqs:
  "ag_reqs (ag_cancel_all turn g) aid =
     (if aid \<in> set (ag_pending g) \<and> ag_of_turn turn g aid then map_option ar_cancel (ag_reqs g aid)
      else ag_reqs g aid)"
  "set (ag_pending (ag_cancel_all turn g)) =
     {a \<in> set (ag_pending g). \<not> ag_of_turn turn g a}"
  by (auto simp: ag_cancel_all_def ag_cancel_fold_reqs ag_cancel_fold_pending)

text \<open>The request \<open>aid\<close> of turn \<open>turn\<close> exists, and is pending as long as it is undecided.\<close>

definition ag_live :: "pystr \<Rightarrow> pystr \<Rightarrow> approval_gate \<Rightarrow> bool" where
  "ag_live aid turn g \<longleftrightarrow> (\<exists>r. ag_reqs g aid = Some r \<and> ar_turn r = turn \<and>
     (ar_decision r = None \<longrightarrow> aid \<in> set (ag_pending g)))"

lemma ar_resolve_turn [simp]: "ar_turn (ar_resolve d r) = ar_turn r"
  by (simp add: ar_resolve_def)

lemma ag_act_live:
  assumes "ag_live aid turn g" and "other_request aid a"
  shows "ag_live aid turn (ag_act a g) \<and>
    ar_decision (the (ag_reqs (ag_act a g) aid)) =
      ar_decision (fold ar_resolve (settlements aid turn [a]) (the (ag_reqs g aid)))"
proof -
  obtain r where r: "ag_reqs g aid = Some r" "ar_turn r = turn"
    "ar_decision r = None \<Longrightarrow> aid \<in> set (ag_pending g)"
    using assms(1) by (auto simp: ag_live_def)
  show ?thesis
  proof (cases a)
    case (AgRequest a th tu tool su de)
    with assms r show ?thesis by (auto simp: ag_live_def ag_request_def)
  next
    case (AgResolve a d)
    with r show ?thesis
      by (cases "ar_decision r") (auto simp: ag_live_def ag_resolve_def ar_resolve_def)
  next
    case (AgCancelAll t)
    with r show ?thesis
      by (cases "ar_decision r")
        (auto simp: ag_live_def ag_cancel_all_reqs ag_of_turn_def ar_cancel_def ar_resolve_def)
  next
    case (AgFinish a)
    with r show ?thesis
      by (auto simp: ag_live_def ag_finish_def ar_resolved_def split: option.splits)
  qed
qed

lemma settlements_Cons: "settlements aid turn (a # acts) = settlements aid turn [a] @ settlements aid turn acts"
  by (cases a) auto

lemma ag_acts_live:
  "ag_live aid turn g \<Longrightarrow> \<forall>a \<in> set acts. other_request aid a \<Longrightarrow>
   ag_live aid turn (fold ag_act acts g) \<and>
   ar_decision (the (ag_reqs (fold ag_act acts g) aid)) =
     ar_decision (fold ar_resolve (settlements aid turn acts) (the (ag_reqs g aid)))"
proof (induction acts arbitrary: g)
  case Nil
  then show ?case by simp
next
  case (Cons a acts)
  have A: "ag_live aid turn (ag_act a g)"
    "ar_decision (the (ag_reqs (ag_act a g) aid)) =
      ar_decision (fold ar_resolve (settlements aid turn [a]) (the (ag_reqs g aid)))"
    using ag_act_live Cons.prems by auto
  have C: "ar_decision (fold ar_resolve ds x) = ar_decision (fold ar_resolve ds y)"
    if "ar_decision x = ar_decision y" for ds x y
    using that by (simp add: ar.decided_fold)
  have "\<forall>a \<in> set acts. other_request aid a" using Cons.prems(2) by simp
  note B = Cons.IH[OF A(1) this]
  have "fold ar_resolve (settlements aid turn (a # acts)) x =
      fold ar_resolve (settlements aid turn acts) (fold ar_resolve (settlements aid turn [a]) x)" for x
    by (subst settlements_Cons) simp
  then show ?case using B C[OF A(2), of "settlements aid turn acts"] by simp
qed

text \<open>C17. The first answer decides: after a call asks for approval, whatever other calls ask, and
  however answers, cancellations and resumptions interleave, the request is decided exactly as the
  first answer to it or cancellation of its turn says; it returns exactly then, with that decision, so
  that a tool is allowed only by an explicit answer that came before every cancellation.\<close>

theorem approval_first_answer_decides:
  assumes "\<not> bypasses_tool_confirmation g" and "\<forall>a \<in> set acts. other_request aid a"
  shows "fst (ag_finish aid (fold ag_act acts (snd (ag_request aid th turn tool su de g)))) =
    (case settlements aid turn acts of [] \<Rightarrow> None | d # _ \<Rightarrow> Some d)"
proof -
  let ?init = "snd (ag_request aid th turn tool su de g)"
  let ?g = "fold ag_act acts ?init"
  have L: "ag_live aid turn ?init" and U: "ar_decision (the (ag_reqs ?init aid)) = None"
    using assms(1) by (auto simp: ag_live_def ag_request_def)
  note A = ag_acts_live[OF L assms(2)]
  from A obtain r where r: "ag_reqs ?g aid = Some r"
    unfolding ag_live_def by blast
  with A U have "ar_decision r = (case settlements aid turn acts of [] \<Rightarrow> None | d # _ \<Rightarrow> Some d)"
    unfolding ar.decided_fold by (metis option.case(1) option.sel)
  with r show ?thesis
    by (auto simp: ag_finish_def ar_resolved_def ar_wait_result_def split: list.splits)
qed

theorem approval_first_answer_decides_witness:
  "fst (ag_finish ''a1'' (fold ag_act
      [AgRequest ''a2'' ''t'' ''u'' ''exec'' ''s'' [], AgCancelAll ''v'', AgResolve ''a1'' Allow,
       AgCancelAll ''u'', AgResolve ''a1'' Deny]
      (snd (ag_request ''a1'' ''t'' ''u'' ''exec'' ''s'' []
        \<lparr>ag_bypass = NoBypass, ag_pending = [], ag_reqs = Map.empty\<rparr>)))) = Some Allow"
  by (subst approval_first_answer_decides) (simp_all add: bypasses_tool_confirmation_def)

end
