(* ===== verification/UserInput.thy ===== *)
theory UserInput
  imports Gates
begin

text \<open>
  The user input gate (\<open>kun_runtime/user_input_gate.py\<close>).  Each call of \<open>request\<close> is a process, whose
  control point says at which \<open>await\<close> it is suspended; between two awaits it runs atomically, as on the
  single-threaded event loop.  Slots and requests are objects in stores, because processes keep using
  a slot after the gate has dropped it from its table.  An \<open>asyncio.Event\<close> is its flag together with
  a mark on each sleeping process that a \<open>set()\<close> has scheduled it.
\<close>

record ui_request =
  ui_thread :: pystr
  ui_turn :: pystr
  ui_item :: pystr
  ui_prompt :: pystr
  ui_questions :: "json list"
  ui_choices :: "json list"
  ui_remember_key :: "pystr option"
  ui_resolution :: "dict option"

record turn_slot =
  free :: bool
  held :: bool
  waiters :: nat
  slot_cancelled :: bool

definition new_slot :: turn_slot where
  "new_slot = \<lparr>free = True, held = False, waiters = 0, slot_cancelled = False\<rparr>"

definition slot_idle :: "turn_slot \<Rightarrow> bool" where
  "slot_idle sl = (\<not> held sl \<and> waiters sl = 0)"

text \<open>The control points: suspended in \<open>acquire\<close> (slot, scheduled, input id, request to create),
  in \<open>on_pending\<close>, in \<open>wait\<close>; or returned (\<open>None\<close> when an exception left the call).\<close>

datatype ui_proc =
    Sleeping nat bool pystr ui_request
  | Announcing nat pystr pystr
  | Waiting nat pystr pystr
  | Finished "dict option"

record ui_gate =
  ug_pending :: "pystr \<rightharpoonup> nat"
  ug_reqs :: "nat \<rightharpoonup> ui_request"
  ug_turn_slots :: "pystr \<rightharpoonup> nat"
  ug_slot :: "nat \<Rightarrow> turn_slot"
  ug_next :: nat
  ug_procs :: "nat \<rightharpoonup> ui_proc"
  ug_remembered :: "pystr \<Rightarrow> pystr \<rightharpoonup> dict"

definition empty_ui_gate :: ui_gate where
  "empty_ui_gate = \<lparr>ug_pending = Map.empty, ug_reqs = Map.empty, ug_turn_slots = Map.empty,
     ug_slot = (\<lambda>_. new_slot), ug_next = 0, ug_procs = Map.empty, ug_remembered = (\<lambda>_. Map.empty)\<rparr>"

subsection \<open>Requests\<close>

definition ui_settle :: "dict \<Rightarrow> ui_request \<Rightarrow> ui_request" where
  "ui_settle res r = (if ui_resolution r \<noteq> None then r else r\<lparr>ui_resolution := Some res\<rparr>)"

definition submitted :: "dict \<Rightarrow> dict" where
  "submitted answers = [(''status'', JStr ''submitted''), (''answers'', JDict answers)]"

definition cancelled_res :: dict where
  "cancelled_res = [(''status'', JStr ''cancelled'')]"

definition ui_resolve_req :: "dict option \<Rightarrow> ui_request \<Rightarrow> ui_request" where
  "ui_resolve_req answers = ui_settle (submitted (case answers of None \<Rightarrow> [] | Some d \<Rightarrow> d))"

definition ui_cancel_req :: "ui_request \<Rightarrow> ui_request" where
  "ui_cancel_req = ui_settle cancelled_res"

interpretation uir: resolve_once ui_resolution ui_settle
  by unfold_locales (auto simp: ui_settle_def)

subsection \<open>Slots\<close>

definition upd_slot :: "nat \<Rightarrow> (turn_slot \<Rightarrow> turn_slot) \<Rightarrow> ui_gate \<Rightarrow> ui_gate" where
  "upd_slot s f g = g\<lparr>ug_slot := (ug_slot g)(s := f (ug_slot g s))\<rparr>"

definition set_proc :: "nat \<Rightarrow> ui_proc \<Rightarrow> ui_gate \<Rightarrow> ui_gate" where
  "set_proc p x g = g\<lparr>ug_procs := (ug_procs g)(p \<mapsto> x)\<rparr>"

text \<open>\<open>set()\<close> on the event of a slot schedules every process that sleeps on it.\<close>

definition wake_all :: "nat \<Rightarrow> ui_gate \<Rightarrow> ui_gate" where
  "wake_all s g = g\<lparr>ug_procs := (\<lambda>p. case ug_procs g p of
       Some (Sleeping s' w iid r) \<Rightarrow> Some (Sleeping s' (w \<or> s' = s) iid r)
     | x \<Rightarrow> x)\<rparr>"

definition slot_release :: "nat \<Rightarrow> ui_gate \<Rightarrow> ui_gate" where
  "slot_release s g = wake_all s (upd_slot s (\<lambda>sl. sl\<lparr>held := False, free := True\<rparr>) g)"

definition slot_cancel :: "nat \<Rightarrow> ui_gate \<Rightarrow> ui_gate" where
  "slot_cancel s g = wake_all s (upd_slot s (\<lambda>sl. sl\<lparr>slot_cancelled := True, free := True\<rparr>) g)"

definition drop_if_idle :: "pystr \<Rightarrow> nat \<Rightarrow> ui_gate \<Rightarrow> ui_gate" where
  "drop_if_idle turn s g =
     (if slot_idle (ug_slot g s) then g\<lparr>ug_turn_slots := (ug_turn_slots g)(turn := None)\<rparr> else g)"

definition queued_cancelled :: dict where
  "queued_cancelled = [(''status'', JStr ''cancelled''),
     (''reason'', JStr ''turn cancelled while the request was queued'')]"

subsection \<open>The coroutine \<open>request\<close>, segment by segment\<close>

text \<open>\<open>acquire\<close> returns \<open>False\<close>, and \<open>request\<close> returns.\<close>

definition acquire_fails :: "nat \<Rightarrow> nat \<Rightarrow> ui_request \<Rightarrow> ui_gate \<Rightarrow> ui_gate" where
  "acquire_fails p s req g =
     drop_if_idle (ui_turn req) s
       (set_proc p (Finished (Some queued_cancelled))
         (upd_slot s (\<lambda>sl. sl\<lparr>waiters := waiters sl - 1\<rparr>) g))"

text \<open>\<open>acquire\<close> returns \<open>True\<close>; the request is created, becomes pending and is announced.\<close>

definition acquire_takes :: "nat \<Rightarrow> nat \<Rightarrow> pystr \<Rightarrow> ui_request \<Rightarrow> ui_gate \<Rightarrow> ui_gate" where
  "acquire_takes p s iid req g =
     (let g1 = set_proc p (Announcing s (ui_turn req) iid)
           (upd_slot s (\<lambda>sl. sl\<lparr>held := True, free := False, waiters := waiters sl - 1\<rparr>) g)
      in g1\<lparr>ug_pending := (ug_pending g1)(iid \<mapsto> p), ug_reqs := (ug_reqs g1)(p \<mapsto> req)\<rparr>)"

text \<open>The head of the \<open>while\<close> loop, up to the next suspension.  The flag of the event is set while
  the slot is held only after a cancellation, so the loop never spins.\<close>

definition acquire_top :: "nat \<Rightarrow> nat \<Rightarrow> pystr \<Rightarrow> ui_request \<Rightarrow> ui_gate \<Rightarrow> ui_gate" where
  "acquire_top p s iid req g =
     (if slot_cancelled (ug_slot g s) then acquire_fails p s req g
      else if free (ug_slot g s) then
        (if held (ug_slot g s) then set_proc p (Sleeping s True iid req) g
         else acquire_takes p s iid req g)
      else set_proc p (Sleeping s False iid req) g)"

text \<open>After \<open>await self._free.wait()\<close>.\<close>

definition acquire_woken :: "nat \<Rightarrow> nat \<Rightarrow> pystr \<Rightarrow> ui_request \<Rightarrow> ui_gate \<Rightarrow> ui_gate" where
  "acquire_woken p s iid req g =
     (if slot_cancelled (ug_slot g s) then acquire_fails p s req g
      else if \<not> held (ug_slot g s) then acquire_takes p s iid req g
      else acquire_top p s iid req g)"

text \<open>The call itself, with \<open>setdefault\<close> of the slot; the process enters \<open>acquire\<close>.\<close>

definition ui_enter :: "nat \<Rightarrow> pystr \<Rightarrow> ui_request \<Rightarrow> ui_gate \<Rightarrow> nat \<times> ui_gate" where
  "ui_enter p iid req g =
     (let (s, g1) = (case ug_turn_slots g (ui_turn req) of
              Some s \<Rightarrow> (s, g)
            | None \<Rightarrow> (ug_next g,
                g\<lparr>ug_turn_slots := (ug_turn_slots g)(ui_turn req \<mapsto> ug_next g),
                  ug_slot := (ug_slot g)(ug_next g := new_slot), ug_next := Suc (ug_next g)\<rparr>))
      in (s, set_proc p (Sleeping s True iid req) (upd_slot s (\<lambda>sl. sl\<lparr>waiters := waiters sl + 1\<rparr>) g1)))"

definition ui_call :: "nat \<Rightarrow> pystr \<Rightarrow> ui_request \<Rightarrow> ui_gate \<Rightarrow> ui_gate" where
  "ui_call p iid req g = (let (s, g1) = ui_enter p iid req g in acquire_top p s iid req g1)"

definition ui_wake :: "nat \<Rightarrow> ui_gate \<Rightarrow> ui_gate" where
  "ui_wake p g = (case ug_procs g p of
       Some (Sleeping s True iid req) \<Rightarrow> acquire_woken p s iid req g
     | _ \<Rightarrow> g)"

definition ui_announced :: "nat \<Rightarrow> ui_gate \<Rightarrow> ui_gate" where
  "ui_announced p g = (case ug_procs g p of
       Some (Announcing s turn iid) \<Rightarrow> set_proc p (Waiting s turn iid) g
     | _ \<Rightarrow> g)"

text \<open>The outer \<open>finally\<close>: release the slot and drop it when nobody uses it.\<close>

definition ui_leave :: "nat \<Rightarrow> nat \<Rightarrow> pystr \<Rightarrow> dict option \<Rightarrow> ui_gate \<Rightarrow> ui_gate" where
  "ui_leave p s turn res g = drop_if_idle turn s (slot_release s (set_proc p (Finished res) g))"

definition ui_resolution_of :: "ui_gate \<Rightarrow> nat \<Rightarrow> dict option" where
  "ui_resolution_of g p = (case ug_reqs g p of None \<Rightarrow> None | Some r \<Rightarrow> ui_resolution r)"

text \<open>\<open>wait\<close> returns: the request is resolved, or the timer has fired.\<close>

definition ui_return :: "nat \<Rightarrow> bool \<Rightarrow> ui_gate \<Rightarrow> ui_gate" where
  "ui_return p timed_out g = (case ug_procs g p of
       Some (Waiting s turn iid) \<Rightarrow>
         if timed_out \<or> ui_resolution_of g p \<noteq> None
         then (let g1 = (if timed_out
                         then g\<lparr>ug_reqs := (ug_reqs g)(p := map_option ui_cancel_req (ug_reqs g p))\<rparr> else g);
                   res = (case ui_resolution_of g1 p of Some d \<Rightarrow> d | None \<Rightarrow> cancelled_res)
               in ui_leave p s turn (Some res) (g1\<lparr>ug_pending := (ug_pending g1)(iid := None)\<rparr>))
         else g
     | _ \<Rightarrow> g)"

text \<open>An exception at an \<open>await\<close>: the task is cancelled, or \<open>on_pending\<close> raises.\<close>

definition ui_abort :: "nat \<Rightarrow> ui_gate \<Rightarrow> ui_gate" where
  "ui_abort p g = (case ug_procs g p of
       Some (Sleeping s w iid req) \<Rightarrow>
         set_proc p (Finished None) (upd_slot s (\<lambda>sl. sl\<lparr>waiters := waiters sl - 1\<rparr>) g)
     | Some (Announcing s turn iid) \<Rightarrow> ui_leave p s turn None g
     | Some (Waiting s turn iid) \<Rightarrow>
         ui_leave p s turn None (g\<lparr>ug_pending := (ug_pending g)(iid := None)\<rparr>)
     | _ \<Rightarrow> g)"

subsection \<open>Answers and cancellation\<close>

text \<open>The loop over the choices: the first one whose id is the chosen one gives its role.\<close>

fun choice_role :: "pystr \<Rightarrow> json list \<Rightarrow> json option" where
  "choice_role cid [] = None"
| "choice_role cid (JDict c # cs) =
     (if py_str (dget_or c ''id'' (JStr '''')) = cid
      then (if truthy (dget_null c ''role'') then dget c ''role'' else None)
      else choice_role cid cs)"
| "choice_role cid (_ # cs) = choice_role cid cs"

definition annotate_answers :: "dict option \<Rightarrow> json list \<Rightarrow> dict option" where
  "annotate_answers answers choices =
     (case answers of
        Some d \<Rightarrow> if d \<noteq> [] \<and> choices \<noteq> [] then
            (case choice_role (py_str (dget_or d ''choice_id'' (JStr ''''))) choices of
               Some role \<Rightarrow> Some (dset ''choice_role'' (JStr (py_str role)) d)
             | None \<Rightarrow> Some d)
          else Some d
      | None \<Rightarrow> None)"

definition ui_remember :: "pystr \<Rightarrow> pystr \<Rightarrow> dict \<Rightarrow> ui_gate \<Rightarrow> ui_gate" where
  "ui_remember thread key answers g =
     g\<lparr>ug_remembered := (ug_remembered g)(thread := (ug_remembered g thread)(key \<mapsto> answers))\<rparr>"

definition remembered_choice :: "pystr \<Rightarrow> pystr \<Rightarrow> ui_gate \<Rightarrow> dict option" where
  "remembered_choice thread key g = ug_remembered g thread key"

definition ui_resolve :: "pystr \<Rightarrow> dict option \<Rightarrow> bool \<Rightarrow> ui_gate \<Rightarrow> bool \<times> ui_gate" where
  "ui_resolve iid answers remember g =
     (case ug_pending g iid of
        None \<Rightarrow> (False, g)
      | Some p \<Rightarrow>
         (case ug_reqs g p of
            None \<Rightarrow> (False, g)
          | Some req \<Rightarrow>
             let ans = annotate_answers answers (ui_choices req);
                 g1 = g\<lparr>ug_reqs := (ug_reqs g)(p \<mapsto> ui_resolve_req ans req)\<rparr>
             in (True,
                 case (ui_remember_key req, ans) of
                   (Some key, Some d) \<Rightarrow>
                     if remember \<and> key \<noteq> '''' \<and> d \<noteq> [] then ui_remember (ui_thread req) key d g1 else g1
                 | _ \<Rightarrow> g1)))"

definition pending_of_turn :: "pystr \<Rightarrow> ui_gate \<Rightarrow> nat \<Rightarrow> bool" where
  "pending_of_turn turn g p =
     (p \<in> ran (ug_pending g) \<and> (case ug_reqs g p of Some r \<Rightarrow> ui_turn r = turn | None \<Rightarrow> False))"

definition ui_cancel_all :: "pystr \<Rightarrow> ui_gate \<Rightarrow> ui_gate" where
  "ui_cancel_all turn g =
     (let g1 = g\<lparr>ug_reqs := (\<lambda>p. if pending_of_turn turn g p
                              then map_option ui_cancel_req (ug_reqs g p) else ug_reqs g p),
                 ug_pending := (\<lambda>iid. case ug_pending g iid of
                     Some p \<Rightarrow> if pending_of_turn turn g p then None else Some p
                   | None \<Rightarrow> None)\<rparr>
      in (case ug_turn_slots g1 turn of
            None \<Rightarrow> g1
          | Some s \<Rightarrow> drop_if_idle turn s (slot_cancel s g1)))"

subsection \<open>Actions and reachable gates\<close>

datatype ui_action =
    UiCall nat pystr ui_request
  | UiWake nat
  | UiAnnounced nat
  | UiReturn nat bool
  | UiAbort nat
  | UiResolve pystr "dict option" bool
  | UiRemember pystr pystr dict
  | UiCancelAll pystr

text \<open>A process calls \<open>request\<close> once.\<close>

fun ui_act :: "ui_action \<Rightarrow> ui_gate \<Rightarrow> ui_gate" where
  "ui_act (UiCall p iid req) g =
     (if ug_procs g p = None \<and> ui_resolution req = None then ui_call p iid req g else g)"
| "ui_act (UiWake p) g = ui_wake p g"
| "ui_act (UiAnnounced p) g = ui_announced p g"
| "ui_act (UiReturn p timed_out) g = ui_return p timed_out g"
| "ui_act (UiAbort p) g = ui_abort p g"
| "ui_act (UiResolve iid ans remember) g = snd (ui_resolve iid ans remember g)"
| "ui_act (UiRemember thread key ans) g = ui_remember thread key ans g"
| "ui_act (UiCancelAll turn) g = ui_cancel_all turn g"

inductive ui_reachable :: "ui_gate \<Rightarrow> bool" where
  start: "ui_reachable empty_ui_gate"
| step: "ui_reachable g \<Longrightarrow> ui_reachable (ui_act a g)"

subsection \<open>The slot invariant\<close>

fun asleep_on :: "nat \<Rightarrow> ui_proc option \<Rightarrow> bool" where
  "asleep_on s (Some (Sleeping s' _ _ _)) = (s' = s)"
| "asleep_on s _ = False"

fun holds_slot :: "nat \<Rightarrow> ui_proc option \<Rightarrow> bool" where
  "holds_slot s (Some (Announcing s' _ _)) = (s' = s)"
| "holds_slot s (Some (Waiting s' _ _)) = (s' = s)"
| "holds_slot s _ = False"

fun scheduled :: "ui_proc option \<Rightarrow> bool" where
  "scheduled (Some (Sleeping _ w _ _)) = w"
| "scheduled _ = False"

fun proc_use :: "ui_proc option \<Rightarrow> (nat \<times> pystr) option" where
  "proc_use (Some (Sleeping s _ _ r)) = Some (s, ui_turn r)"
| "proc_use (Some (Announcing s t _)) = Some (s, t)"
| "proc_use (Some (Waiting s t _)) = Some (s, t)"
| "proc_use _ = None"

text \<open>What holds of the slot object \<open>s\<close>: its waiter count, its holder, its flag, and that a set
  flag means that every sleeper is scheduled.\<close>

definition slot_ok :: "ui_gate \<Rightarrow> nat \<Rightarrow> bool" where
  "slot_ok g s \<longleftrightarrow>
     waiters (ug_slot g s) = card {p. asleep_on s (ug_procs g p)} \<and>
     (held (ug_slot g s) \<longleftrightarrow> (\<exists>p. holds_slot s (ug_procs g p))) \<and>
     (\<forall>p q. holds_slot s (ug_procs g p) \<longrightarrow> holds_slot s (ug_procs g q) \<longrightarrow> p = q) \<and>
     (free (ug_slot g s) \<longleftrightarrow> \<not> held (ug_slot g s) \<or> slot_cancelled (ug_slot g s)) \<and>
     (free (ug_slot g s) \<longrightarrow> (\<forall>p. asleep_on s (ug_procs g p) \<longrightarrow> scheduled (ug_procs g p)))"

text \<open>Every process that sleeps on a slot or holds it finds it in the table under its own turn.\<close>

definition table_ok :: "ui_gate \<Rightarrow> bool" where
  "table_ok g \<longleftrightarrow> finite (dom (ug_procs g)) \<and>
     (\<forall>p s t. proc_use (ug_procs g p) = Some (s, t) \<longrightarrow> ug_turn_slots g t = Some s) \<and>
     (\<forall>t s. ug_turn_slots g t = Some s \<longrightarrow> s < ug_next g) \<and>
     (\<forall>t t' s. ug_turn_slots g t = Some s \<longrightarrow> ug_turn_slots g t' = Some s \<longrightarrow> t = t')"

definition ui_ok :: "ui_gate \<Rightarrow> bool" where
  "ui_ok g \<longleftrightarrow> table_ok g \<and> (\<forall>s. slot_ok g s)"

lemma asleep_use: "asleep_on s x \<Longrightarrow> \<exists>t. proc_use x = Some (s, t)"
  by (cases "(s, x)" rule: asleep_on.cases) auto

lemma holds_use: "holds_slot s x \<Longrightarrow> \<exists>t. proc_use x = Some (s, t)"
  by (cases "(s, x)" rule: holds_slot.cases) auto

lemma use_asleep_or_holds: "proc_use x = Some (s, t) \<Longrightarrow> asleep_on s x \<or> holds_slot s x"
  by (cases x rule: proc_use.cases) auto

lemma finite_asleep: "table_ok g \<Longrightarrow> finite {p. asleep_on s (ug_procs g p)}"
proof -
  assume "table_ok g"
  then have "finite (dom (ug_procs g))" by (simp add: table_ok_def)
  moreover have "ug_procs g p \<noteq> None" if "asleep_on s (ug_procs g p)" for p
    using that by (cases "ug_procs g p") auto
  then have "{p. asleep_on s (ug_procs g p)} \<subseteq> dom (ug_procs g)" by (auto simp: dom_def)
  ultimately show ?thesis by (rule rev_finite_subset)
qed

lemma ui_ok_empty: "ui_ok empty_ui_gate"
  by (simp add: ui_ok_def table_ok_def slot_ok_def empty_ui_gate_def new_slot_def)

lemma ui_ok_cong:
  assumes "ug_turn_slots g' = ug_turn_slots g" "ug_slot g' = ug_slot g" "ug_next g' = ug_next g"
    "ug_procs g' = ug_procs g"
  shows "ui_ok g' = ui_ok g"
  using assms by (simp add: ui_ok_def table_ok_def slot_ok_def)

text \<open>An idle slot is used by nobody, so dropping it keeps the table right.\<close>

lemma idle_unused:
  assumes "ui_ok g" and "slot_idle (ug_slot g s)"
  shows "\<not> asleep_on s (ug_procs g p)" "\<not> holds_slot s (ug_procs g p)"
proof -
  have "finite {p. asleep_on s (ug_procs g p)}" "slot_ok g s"
    using assms(1) by (simp_all add: ui_ok_def finite_asleep)
  then show "\<not> asleep_on s (ug_procs g p)" "\<not> holds_slot s (ug_procs g p)"
    using assms(2) by (auto simp: slot_idle_def slot_ok_def)
qed

lemma drop_if_idle_ok:
  assumes "ui_ok g" and "ug_turn_slots g turn = Some s"
  shows "ui_ok (drop_if_idle turn s g)"
proof (cases "slot_idle (ug_slot g s)")
  case True
  have unused: "proc_use (ug_procs g p) \<noteq> Some (s, t)" for p t
    using idle_unused[OF assms(1) True] use_asleep_or_holds by blast
  have "ug_turn_slots g t = Some s'" if "proc_use (ug_procs g p) = Some (s', t)" for p s' t
    using assms(1) that by (simp add: ui_ok_def table_ok_def)
  then have "t \<noteq> turn" if "proc_use (ug_procs g p) = Some (s', t)" for p s' t
    using that unused assms(2) by fastforce
  then show ?thesis
    using assms(1) True by (auto simp: drop_if_idle_def ui_ok_def table_ok_def slot_ok_def)
next
  case False
  then show ?thesis using assms(1) by (simp add: drop_if_idle_def)
qed

lemma slot_ok_other:
  assumes "slot_ok g s" and "ug_slot g' s = ug_slot g s"
    and "\<And>q. asleep_on s (ug_procs g' q) = asleep_on s (ug_procs g q)"
    and "\<And>q. holds_slot s (ug_procs g' q) = holds_slot s (ug_procs g q)"
    and "\<And>q. asleep_on s (ug_procs g q) \<Longrightarrow> scheduled (ug_procs g q) \<Longrightarrow> scheduled (ug_procs g' q)"
  shows "slot_ok g' s"
  using assms unfolding slot_ok_def by (metis (no_types, lifting) Collect_cong)

lemma asleep_upd:
  "{q. asleep_on s (((ug_procs g)(p \<mapsto> x)) q)} =
     (if asleep_on s (Some x) then insert p {q. asleep_on s (ug_procs g q)}
      else {q. asleep_on s (ug_procs g q)} - {p})"
  by auto

lemma asleep_count_upd:
  assumes "table_ok g"
  shows "card {q. asleep_on s (((ug_procs g)(p \<mapsto> x)) q)} =
     card {q. asleep_on s (ug_procs g q)}
       + (if asleep_on s (Some x) \<and> \<not> asleep_on s (ug_procs g p) then 1 else 0)
       - (if \<not> asleep_on s (Some x) \<and> asleep_on s (ug_procs g p) then 1 else 0)"
  using finite_asleep[OF assms, of s] unfolding asleep_upd
  by (auto simp: card_insert_if insert_absorb)

lemma table_ok_set_proc:
  assumes "table_ok g" and "\<And>s t. proc_use (Some x) = Some (s, t) \<Longrightarrow> ug_turn_slots g t = Some s"
  shows "table_ok (set_proc p x g)"
  using assms by (auto simp: table_ok_def set_proc_def split: if_splits)

lemma table_ok_upd_slot [simp]: "table_ok (upd_slot s f g) = table_ok g"
  by (simp add: table_ok_def upd_slot_def)

lemma upd_slot_simps [simp]:
  "ug_procs (upd_slot s f g) = ug_procs g"
  "ug_slot (upd_slot s f g) = (ug_slot g)(s := f (ug_slot g s))"
  "ug_turn_slots (upd_slot s f g) = ug_turn_slots g"
  "ug_next (upd_slot s f g) = ug_next g"
  by (simp_all add: upd_slot_def)

lemma set_proc_simps [simp]:
  "ug_procs (set_proc p x g) = (ug_procs g)(p \<mapsto> x)"
  "ug_slot (set_proc p x g) = ug_slot g"
  "ug_turn_slots (set_proc p x g) = ug_turn_slots g"
  "ug_next (set_proc p x g) = ug_next g"
  by (simp_all add: set_proc_def)

text \<open>A sleeping process leaves its slot's queue, to return or to hold the slot.\<close>

lemma sleeper_exits_ok:
  assumes "ui_ok g" and p: "ug_procs g p = Some (Sleeping s w iid req)"
    and x: "proc_use (Some x) = None"
  shows "ui_ok (set_proc p x (upd_slot s (\<lambda>sl. sl\<lparr>waiters := waiters sl - 1\<rparr>) g))"
    (is "ui_ok ?g'")
proof -
  have T: "table_ok g" and S: "\<And>s. slot_ok g s" using assms(1) by (simp_all add: ui_ok_def)
  have nx: "\<not> asleep_on s' (Some x)" "\<not> holds_slot s' (Some x)" for s'
    using asleep_use[of s' "Some x"] holds_use[of s' "Some x"] x by auto
  have h: "\<not> holds_slot s' (ug_procs g p)" for s' using p by simp
  have H: "holds_slot s' (ug_procs ?g' q) = holds_slot s' (ug_procs g q)" for s' q
    using nx h by simp
  have "slot_ok ?g' s"
    using S[of s] p nx unfolding slot_ok_def H
    by (simp add: asleep_count_upd[OF T] del: fun_upd_apply) auto
  moreover have "slot_ok ?g' s'" if "s' \<noteq> s" for s'
    using S[of s'] by (rule slot_ok_other) (use that nx p H in auto)
  moreover have "table_ok ?g'"
    using T x by (intro table_ok_set_proc) auto
  ultimately show ?thesis by (metis ui_ok_def)
qed

lemma table_useD:
  "table_ok g \<Longrightarrow> proc_use (ug_procs g p) = Some (s, t) \<Longrightarrow> ug_turn_slots g t = Some s"
  unfolding table_ok_def by blast

lemma table_nextD: "table_ok g \<Longrightarrow> ug_turn_slots g t = Some s \<Longrightarrow> s < ug_next g"
  unfolding table_ok_def by blast

lemma sleeper_slot: "ui_ok g \<Longrightarrow> ug_procs g p = Some (Sleeping s w iid req) \<Longrightarrow>
    ug_turn_slots g (ui_turn req) = Some s"
  using table_useD[of g p s "ui_turn req"] by (simp add: ui_ok_def)

lemma holder_slot: "ui_ok g \<Longrightarrow> ug_procs g p = Some (Announcing s turn iid) \<or>
    ug_procs g p = Some (Waiting s turn iid) \<Longrightarrow> ug_turn_slots g turn = Some s"
  using table_useD[of g p s turn] by (auto simp: ui_ok_def)

lemma acquire_fails_ok:
  assumes "ui_ok g" and "ug_procs g p = Some (Sleeping s w iid req)"
  shows "ui_ok (acquire_fails p s req g)"
  unfolding acquire_fails_def
  by (rule drop_if_idle_ok[OF sleeper_exits_ok[OF assms]])
    (use sleeper_slot[OF assms] in simp_all)

lemma acquire_takes_ok:
  assumes "ui_ok g" and p: "ug_procs g p = Some (Sleeping s w iid req)"
    and "\<not> held (ug_slot g s)" and "\<not> slot_cancelled (ug_slot g s)"
  shows "ui_ok (acquire_takes p s iid req g)"
proof -
  let ?g' = "set_proc p (Announcing s (ui_turn req) iid)
      (upd_slot s (\<lambda>sl. sl\<lparr>held := True, free := False, waiters := waiters sl - 1\<rparr>) g)"
  have T: "table_ok g" and S: "\<And>s. slot_ok g s" using assms(1) by (simp_all add: ui_ok_def)
  have "slot_ok ?g' s"
    using S[of s] p assms(3,4) unfolding slot_ok_def
    by (simp add: asleep_count_upd[OF T] del: fun_upd_apply) auto
  moreover have "slot_ok ?g' s'" if "s' \<noteq> s" for s'
    using S[of s'] by (rule slot_ok_other) (use that p in auto)
  moreover have "table_ok ?g'"
    using T sleeper_slot[OF assms(1) p] by (intro table_ok_set_proc) auto
  ultimately have "ui_ok ?g'" by (metis ui_ok_def)
  moreover have "ui_ok (acquire_takes p s iid req g) = ui_ok ?g'"
    by (rule ui_ok_cong) (simp_all add: acquire_takes_def Let_def)
  ultimately show ?thesis by simp
qed

lemma resched_ok:
  assumes "ui_ok g" and p: "ug_procs g p = Some (Sleeping s w iid req)"
    and "free (ug_slot g s) \<Longrightarrow> w'"
  shows "ui_ok (set_proc p (Sleeping s w' iid req) g)" (is "ui_ok ?g'")
proof -
  have T: "table_ok g" and S: "\<And>s. slot_ok g s" using assms(1) by (simp_all add: ui_ok_def)
  have H: "holds_slot s' (ug_procs ?g' q) = holds_slot s' (ug_procs g q)" for s' q
    using p by simp
  have "slot_ok ?g' s"
    using S[of s] p assms(3) unfolding slot_ok_def H
    by (simp add: asleep_count_upd[OF T] del: fun_upd_apply) auto
  moreover have "slot_ok ?g' s'" if "s' \<noteq> s" for s'
    using S[of s'] by (rule slot_ok_other) (use that p in auto)
  moreover have "table_ok ?g'"
    using T sleeper_slot[OF assms(1) p] by (intro table_ok_set_proc) auto
  ultimately show ?thesis by (metis ui_ok_def)
qed

lemma acquire_top_ok:
  assumes "ui_ok g" and "ug_procs g p = Some (Sleeping s w iid req)"
  shows "ui_ok (acquire_top p s iid req g)"
  using assms by (auto simp: acquire_top_def intro: acquire_fails_ok acquire_takes_ok resched_ok)

lemma ui_wake_ok: "ui_ok g \<Longrightarrow> ui_ok (ui_wake p g)"
  by (auto simp: ui_wake_def acquire_woken_def
      intro: acquire_fails_ok acquire_takes_ok acquire_top_ok
      split: option.split ui_proc.split bool.split)

text \<open>Entering the queue of the slot.\<close>

lemma ui_enter_ok:
  assumes "ui_ok g" and p: "ug_procs g p = None" and e: "ui_enter p iid req g = (s, g')"
  shows "ui_ok g' \<and> ug_procs g' p = Some (Sleeping s True iid req)"
proof -
  define g1 where "g1 = (case ug_turn_slots g (ui_turn req) of
      Some s \<Rightarrow> g
    | None \<Rightarrow> g\<lparr>ug_turn_slots := (ug_turn_slots g)(ui_turn req \<mapsto> ug_next g),
          ug_slot := (ug_slot g)(ug_next g := new_slot), ug_next := Suc (ug_next g)\<rparr>)"
  have g': "g' = set_proc p (Sleeping s True iid req) (upd_slot s (\<lambda>sl. sl\<lparr>waiters := waiters sl + 1\<rparr>) g1)"
    and s: "ug_turn_slots g1 (ui_turn req) = Some s"
    using e by (auto simp: ui_enter_def g1_def split: option.splits)
  have T: "table_ok g" and S: "\<And>s. slot_ok g s" using assms(1) by (simp_all add: ui_ok_def)
  have P: "ug_procs g1 = ug_procs g" by (simp add: g1_def split: option.split)
  have fresh: "proc_use (ug_procs g q) \<noteq> Some (ug_next g, t)" for q t
    using table_useD[OF T] table_nextD[OF T] by blast
  have T1: "table_ok g1"
    using T by (auto simp: g1_def table_ok_def less_Suc_eq split: option.split)
  have S1: "slot_ok g1 s'" for s'
  proof (cases "ug_turn_slots g (ui_turn req) = None \<and> s' = ug_next g")
    case True
    have "\<not> asleep_on (ug_next g) (ug_procs g q)" "\<not> holds_slot (ug_next g) (ug_procs g q)" for q
      using fresh asleep_use holds_use by blast+
    with True show ?thesis by (simp add: g1_def slot_ok_def new_slot_def)
  next
    case False
    then have "ug_slot g1 s' = ug_slot g s'" by (auto simp: g1_def split: option.split)
    then show ?thesis using S[of s'] by (intro slot_ok_other[OF S[of s']]) (simp_all add: P)
  qed
  have p1: "ug_procs g1 p = None" using p P by simp
  have H: "holds_slot s' (ug_procs g' q) = holds_slot s' (ug_procs g1 q)" for s' q
    using p1 by (simp add: g')
  have "slot_ok g' s"
    using S1[of s] p1 unfolding slot_ok_def H unfolding g'
    by (simp add: asleep_count_upd[OF T1] del: fun_upd_apply) auto
  moreover have "slot_ok g' s'" if "s' \<noteq> s" for s'
    using S1[of s'] by (rule slot_ok_other) (use that p1 H in \<open>auto simp: g'\<close>)
  moreover have "table_ok g'"
    unfolding g' using T1 s by (intro table_ok_set_proc) auto
  ultimately have "ui_ok g'" by (metis ui_ok_def)
  then show ?thesis by (simp add: g')
qed

lemma wake_all_simps [simp]:
  "ug_slot (wake_all s g) = ug_slot g" "ug_turn_slots (wake_all s g) = ug_turn_slots g"
  "ug_next (wake_all s g) = ug_next g"
  by (simp_all add: wake_all_def)

lemma wake_all_procs [simp]:
  "asleep_on s' (ug_procs (wake_all s g) p) = asleep_on s' (ug_procs g p)"
  "holds_slot s' (ug_procs (wake_all s g) p) = holds_slot s' (ug_procs g p)"
  "proc_use (ug_procs (wake_all s g) p) = proc_use (ug_procs g p)"
  "scheduled (ug_procs (wake_all s g) p) \<longleftrightarrow> scheduled (ug_procs g p) \<or> asleep_on s (ug_procs g p)"
  "ug_procs (wake_all s g) p = None \<longleftrightarrow> ug_procs g p = None"
  by (auto simp: wake_all_def split: option.split ui_proc.split)

lemma wake_all_table [simp]: "table_ok (wake_all s g) = table_ok g"
proof -
  have "dom (ug_procs (wake_all s g)) = dom (ug_procs g)" by (auto simp: dom_def)
  then show ?thesis by (simp add: table_ok_def)
qed

lemma slot_cancel_ok: "ui_ok g \<Longrightarrow> ui_ok (slot_cancel s g)"
proof -
  assume ok: "ui_ok g"
  then have T: "table_ok g" and S: "\<And>s. slot_ok g s" by (simp_all add: ui_ok_def)
  have "slot_ok (slot_cancel s g) s'" for s'
    using S[of s'] by (cases "s' = s") (auto simp: slot_ok_def slot_cancel_def)
  then show ?thesis using T by (simp add: ui_ok_def slot_cancel_def)
qed

text \<open>The holder leaves: the slot is free again and every sleeper is scheduled.\<close>

lemma ui_leave_ok:
  assumes "ui_ok g" and p: "ug_procs g p = Some (Announcing s turn iid) \<or> ug_procs g p = Some (Waiting s turn iid)"
  shows "ui_ok (ui_leave p s turn res g)"
proof -
  let ?g' = "slot_release s (set_proc p (Finished res) g)"
  have T: "table_ok g" and S: "\<And>s. slot_ok g s" using assms(1) by (simp_all add: ui_ok_def)
  have slot: "ug_turn_slots g turn = Some s" using holder_slot[OF assms] .
  have hp: "holds_slot s (ug_procs g p)" using p by auto
  then have only: "holds_slot s (ug_procs g q) \<longleftrightarrow> q = p" for q
    using S[of s] by (auto simp: slot_ok_def)
  have A: "asleep_on s' (ug_procs ?g' q) = asleep_on s' (ug_procs g q)" for s' q
    using p by (auto simp: slot_release_def)
  have "slot_ok ?g' s"
    using S[of s] unfolding slot_ok_def A
    using only p by (auto simp: slot_release_def)
  moreover have "slot_ok ?g' s'" if "s' \<noteq> s" for s'
    using S[of s'] by (rule slot_ok_other) (use that p A in \<open>auto simp: slot_release_def\<close>)
  moreover have "table_ok ?g'"
    using T by (auto simp: slot_release_def intro: table_ok_set_proc)
  ultimately have "ui_ok ?g'" by (metis ui_ok_def)
  then show ?thesis
    unfolding ui_leave_def by (rule drop_if_idle_ok) (simp add: slot_release_def slot)
qed

lemma ui_announced_ok: "ui_ok g \<Longrightarrow> ui_ok (ui_announced p g)"
proof -
  assume ok: "ui_ok g"
  have "ui_ok (set_proc p (Waiting s t iid) g)" if p: "ug_procs g p = Some (Announcing s t iid)" for s t iid
  proof -
    let ?g' = "set_proc p (Waiting s t iid) g"
    have "slot_ok ?g' s'" for s'
    proof (rule slot_ok_other[of g s'])
      show "slot_ok g s'" using ok by (simp add: ui_ok_def)
    qed (use p in auto)
    moreover have "table_ok ?g'"
      using ok holder_slot[OF ok, of p s t iid] p by (intro table_ok_set_proc) (auto simp: ui_ok_def)
    ultimately show ?thesis by (simp add: ui_ok_def)
  qed
  with ok show ?thesis by (auto simp: ui_announced_def split: option.split ui_proc.split)
qed

lemma ui_return_ok: "ui_ok g \<Longrightarrow> ui_ok (ui_return p timed_out g)"
proof -
  assume ok: "ui_ok g"
  have "ui_ok (ui_return p timed_out g)" if p: "ug_procs g p = Some (Waiting s turn iid)" for s turn iid
  proof -
    define g1 where "g1 = (if timed_out
        then g\<lparr>ug_reqs := (ug_reqs g)(p := map_option ui_cancel_req (ug_reqs g p))\<rparr> else g)"
    have L: "ui_ok (ui_leave p s turn res (g1\<lparr>ug_pending := (ug_pending g1)(iid := None)\<rparr>))" for res
    proof (rule ui_leave_ok)
      show "ui_ok (g1\<lparr>ug_pending := (ug_pending g1)(iid := None)\<rparr>)"
        by (rule ui_ok_cong[THEN iffD2, OF _ _ _ _ ok]) (simp_all add: g1_def)
      show "ug_procs (g1\<lparr>ug_pending := (ug_pending g1)(iid := None)\<rparr>) p = Some (Announcing s turn iid)
          \<or> ug_procs (g1\<lparr>ug_pending := (ug_pending g1)(iid := None)\<rparr>) p = Some (Waiting s turn iid)"
        using p by (simp add: g1_def)
    qed
    show ?thesis
      unfolding ui_return_def p option.case ui_proc.case g1_def[symmetric] Let_def
      using L ok by simp
  qed
  with ok show ?thesis
    by (cases "ug_procs g p" rule: proc_use.cases) (auto simp: ui_return_def)
qed

lemma ui_abort_ok: "ui_ok g \<Longrightarrow> ui_ok (ui_abort p g)"
proof -
  assume ok: "ui_ok g"
  have drop: "ui_ok (g\<lparr>ug_pending := f\<rparr>)" for f
    using ok ui_ok_cong[of "g\<lparr>ug_pending := f\<rparr>" g] by simp
  show ?thesis
    using ok by (auto simp: ui_abort_def split: option.split ui_proc.split
        intro: sleeper_exits_ok[unfolded One_nat_def] ui_leave_ok ui_leave_ok[OF drop])
qed

lemma ui_resolve_same:
  "ug_turn_slots (snd (ui_resolve iid ans rem g)) = ug_turn_slots g"
  "ug_slot (snd (ui_resolve iid ans rem g)) = ug_slot g"
  "ug_next (snd (ui_resolve iid ans rem g)) = ug_next g"
  "ug_procs (snd (ui_resolve iid ans rem g)) = ug_procs g"
  by (simp_all add: ui_resolve_def ui_remember_def Let_def split: option.split)

lemma ui_cancel_all_ok: "ui_ok g \<Longrightarrow> ui_ok (ui_cancel_all turn g)"
  unfolding ui_cancel_all_def Let_def
  by (auto split: option.split intro!: drop_if_idle_ok slot_cancel_ok elim!: ui_ok_cong[THEN iffD2, rotated -1])
    (simp add: slot_cancel_def)

lemma ui_act_ok: "ui_ok g \<Longrightarrow> ui_ok (ui_act a g)"
proof (cases a)
  case (UiCall p iid req)
  assume ok: "ui_ok g"
  show ?thesis
  proof (cases "ug_procs g p = None \<and> ui_resolution req = None")
    case True
    obtain s g1 where e: "ui_enter p iid req g = (s, g1)" by fastforce
    show ?thesis
      using ui_enter_ok[OF ok _ e] True
      by (auto simp: UiCall ui_call_def e intro: acquire_top_ok)
  qed (use ok UiCall in auto)
next
  case (UiResolve iid ans rem)
  assume "ui_ok g"
  then show ?thesis
    using ui_ok_cong[OF ui_resolve_same, of iid ans rem g] by (simp add: UiResolve)
next
  case (UiRemember th key ans)
  assume "ui_ok g"
  moreover have "ui_ok (ui_remember th key ans g) = ui_ok g"
    by (rule ui_ok_cong) (simp_all add: ui_remember_def)
  ultimately show ?thesis by (simp add: UiRemember)
qed (auto intro: ui_wake_ok ui_announced_ok ui_return_ok ui_abort_ok ui_cancel_all_ok)

lemma ui_reachable_ok: "ui_reachable g \<Longrightarrow> ui_ok g"
  by (induction rule: ui_reachable.induct) (auto intro: ui_ok_empty ui_act_ok)

subsection \<open>One card per turn, and no lost wake-up\<close>

definition on_card :: "ui_gate \<Rightarrow> nat \<Rightarrow> pystr \<Rightarrow> bool" where
  "on_card g p turn \<longleftrightarrow> (\<exists>s iid. ug_procs g p = Some (Announcing s turn iid)
     \<or> ug_procs g p = Some (Waiting s turn iid))"

lemma on_card_holds:
  assumes "ui_ok g" and "ug_turn_slots g turn = Some s"
  shows "on_card g p turn \<longleftrightarrow> holds_slot s (ug_procs g p)"
proof
  assume "on_card g p turn"
  then obtain s' iid where P: "ug_procs g p = Some (Announcing s' turn iid)
      \<or> ug_procs g p = Some (Waiting s' turn iid)" by (auto simp: on_card_def)
  then have "s' = s" using holder_slot[OF assms(1) P] assms(2) by simp
  with P show "holds_slot s (ug_procs g p)" by auto
next
  assume H: "holds_slot s (ug_procs g p)"
  then obtain t iid where P: "ug_procs g p = Some (Announcing s t iid)
      \<or> ug_procs g p = Some (Waiting s t iid)"
    by (cases "(s, ug_procs g p)" rule: holds_slot.cases) auto
  have "t = turn"
    using holder_slot[OF assms(1) P] assms unfolding ui_ok_def table_ok_def by blast
  with P show "on_card g p turn" by (auto simp: on_card_def)
qed

text \<open>C19. At most one card of a turn is live: two calls that are announcing or waiting for an answer
  in the same turn are the same call.  And no call is forgotten in the queue: while none of the turn
  is live, every queued call of the turn has been scheduled, and when it runs it either becomes the live
  one or returns as cancelled.\<close>

theorem one_card_per_turn:
  assumes "ui_reachable g"
  shows "(on_card g p turn \<and> on_card g q turn \<longrightarrow> p = q)
    \<and> (ug_procs g p = Some (Sleeping s w iid req) \<and> (\<forall>q. \<not> on_card g q (ui_turn req)) \<longrightarrow>
         w \<and> (on_card (ui_wake p g) p (ui_turn req) \<or>
              ug_procs (ui_wake p g) p = Some (Finished (Some queued_cancelled))))"
proof (rule conjI; rule impI)
  have ok: "ui_ok g" using assms by (rule ui_reachable_ok)
  assume A: "on_card g p turn \<and> on_card g q turn"
  then obtain s where s: "ug_turn_slots g turn = Some s"
    using holder_slot[OF ok] unfolding on_card_def by blast
  have "slot_ok g s" using ok by (simp add: ui_ok_def)
  then show "p = q" using A on_card_holds[OF ok s] by (auto simp: slot_ok_def)
next
  have ok: "ui_ok g" using assms by (rule ui_reachable_ok)
  assume A: "ug_procs g p = Some (Sleeping s w iid req) \<and> (\<forall>q. \<not> on_card g q (ui_turn req))"
  note s = sleeper_slot[OF ok conjunct1[OF A]]
  have S: "slot_ok g s" using ok by (simp add: ui_ok_def)
  have "\<not> held (ug_slot g s)"
    using S A on_card_holds[OF ok s] by (auto simp: slot_ok_def)
  moreover from this S A have w: w by (auto simp: slot_ok_def dest!: spec[of _ p])
  ultimately show "w \<and> (on_card (ui_wake p g) p (ui_turn req) \<or>
      ug_procs (ui_wake p g) p = Some (Finished (Some queued_cancelled)))"
    using A by (auto simp: ui_wake_def acquire_woken_def acquire_fails_def acquire_takes_def
        drop_if_idle_def on_card_def Let_def)
qed

definition demo_request :: "pystr \<Rightarrow> ui_request" where
  "demo_request turn = \<lparr>ui_thread = ''th'', ui_turn = turn, ui_item = ''it'', ui_prompt = ''ok?'',
     ui_questions = [], ui_choices = [], ui_remember_key = None, ui_resolution = None\<rparr>"

lemma reachable_fold: "ui_reachable g \<Longrightarrow> ui_reachable (fold ui_act acts g)"
  by (induction acts arbitrary: g) (auto intro: ui_reachable.step)

lemmas ui_eval = ui_call_def ui_enter_def acquire_top_def acquire_takes_def acquire_fails_def
  acquire_woken_def ui_wake_def ui_announced_def ui_return_def ui_leave_def ui_abort_def
  drop_if_idle_def slot_release_def slot_cancel_def wake_all_def upd_slot_def set_proc_def
  slot_idle_def empty_ui_gate_def new_slot_def ui_resolution_of_def ui_cancel_all_def
  demo_request_def Let_def

theorem one_card_per_turn_witness:
  "let g = fold ui_act [UiCall 1 ''a'' (demo_request ''u''), UiAnnounced 1,
        UiCall 2 ''b'' (demo_request ''u''), UiReturn 1 True] empty_ui_gate
   in on_card (ui_wake 2 g) 2 ''u'' \<or> ug_procs (ui_wake 2 g) 2 = Some (Finished (Some queued_cancelled))"
proof -
  let ?g = "fold ui_act [UiCall 1 ''a'' (demo_request ''u''), UiAnnounced 1,
        UiCall 2 ''b'' (demo_request ''u''), UiReturn 1 True] empty_ui_gate"
  have R: "ui_reachable ?g" by (rule reachable_fold[OF ui_reachable.start])
  have P: "ug_procs ?g 2 = Some (Sleeping 0 True ''b'' (demo_request ''u''))"
    and N: "\<forall>q. \<not> on_card ?g q ''u''"
    by (simp_all add: ui_eval on_card_def)
  have "ui_turn (demo_request ''u'') = ''u''" by (simp add: demo_request_def)
  then show ?thesis
    using one_card_per_turn[OF R, of 2 "''u''" 2 0 True "''b''" "demo_request ''u''"] P N
    unfolding Let_def by metis
qed

subsection \<open>A cancelled turn\<close>

text \<open>The process \<open>p\<close>, once queued with request \<open>req\<close> on a slot that is now cancelled.\<close>

definition doomed :: "nat \<Rightarrow> nat \<Rightarrow> pystr \<Rightarrow> ui_request \<Rightarrow> ui_gate \<Rightarrow> bool" where
  "doomed p s iid req g \<longleftrightarrow> s < ug_next g \<and> slot_cancelled (ug_slot g s) \<and>
     (ug_procs g p = Some (Sleeping s True iid req) \<or>
      ug_procs g p = Some (Finished (Some queued_cancelled)) \<or>
      ug_procs g p = Some (Finished None))"

lemma doomed_cong:
  "doomed p s iid req g \<Longrightarrow> ug_next g \<le> ug_next g' \<Longrightarrow>
   slot_cancelled (ug_slot g' s) = slot_cancelled (ug_slot g s) \<Longrightarrow> ug_procs g' p = ug_procs g p \<Longrightarrow>
   doomed p s iid req g'"
  by (auto simp: doomed_def)

lemma drop_if_idle_simps [simp]:
  "ug_procs (drop_if_idle turn s g) = ug_procs g" "ug_slot (drop_if_idle turn s g) = ug_slot g"
  "ug_next (drop_if_idle turn s g) = ug_next g"
  by (simp_all add: drop_if_idle_def)

lemma wake_all_doomed:
  "doomed p s iid req g \<Longrightarrow> doomed p s iid req (wake_all s' g)"
  by (auto simp: doomed_def wake_all_def)

lemma set_other_doomed: "doomed p s iid req g \<Longrightarrow> q \<noteq> p \<Longrightarrow> doomed p s iid req (set_proc q x g)"
  by (erule doomed_cong) simp_all

lemma upd_slot_doomed:
  "doomed p s iid req g \<Longrightarrow> (\<And>sl. slot_cancelled (f sl) = slot_cancelled sl) \<Longrightarrow>
   doomed p s iid req (upd_slot s' f g)"
  by (erule doomed_cong) simp_all

lemma drop_if_idle_doomed: "doomed p s iid req g \<Longrightarrow> doomed p s iid req (drop_if_idle turn s' g)"
  by (erule doomed_cong) simp_all

lemma slot_cancel_doomed: "doomed p s iid req g \<Longrightarrow> doomed p s iid req (slot_cancel s' g)"
  unfolding slot_cancel_def by (rule wake_all_doomed) (auto simp: doomed_def)

lemma ui_leave_doomed: "doomed p s iid req g \<Longrightarrow> q \<noteq> p \<Longrightarrow> doomed p s iid req (ui_leave q s' turn res g)"
  unfolding ui_leave_def slot_release_def
  by (intro drop_if_idle_doomed wake_all_doomed upd_slot_doomed set_other_doomed) auto

lemma acquire_fails_doomed:
  "doomed p s iid req g \<Longrightarrow> doomed p s iid req (acquire_fails q s' r g)"
  by (auto simp: acquire_fails_def doomed_def)

lemma acquire_takes_doomed:
  "doomed p s iid req g \<Longrightarrow> q \<noteq> p \<Longrightarrow> doomed p s iid req (acquire_takes q s' iid' r g)"
  by (auto simp: acquire_takes_def doomed_def Let_def)

lemma acquire_top_doomed:
  "doomed p s iid req g \<Longrightarrow> q \<noteq> p \<Longrightarrow> doomed p s iid req (acquire_top q s' iid' r g)"
  by (auto simp: acquire_top_def intro: acquire_fails_doomed acquire_takes_doomed set_other_doomed)

lemma ui_wake_doomed: "doomed p s iid req g \<Longrightarrow> doomed p s iid req (ui_wake q g)"
proof (cases "q = p")
  assume D: "doomed p s iid req g"
  case True
  then show ?thesis
    using D acquire_fails_doomed[OF D, of p s req]
    by (auto simp: doomed_def ui_wake_def acquire_woken_def)
next
  assume D: "doomed p s iid req g"
  case False
  with D show ?thesis
    by (auto simp: ui_wake_def acquire_woken_def split: option.split ui_proc.split bool.split
        intro: acquire_fails_doomed acquire_takes_doomed acquire_top_doomed)
qed

lemma ui_call_doomed:
  assumes D: "doomed p s iid req g" and "ug_procs g q = None"
  shows "doomed p s iid req (ui_call q iid' r g)"
proof -
  have qp: "q \<noteq> p" using assms by (auto simp: doomed_def)
  obtain s' g1 where e: "ui_enter q iid' r g = (s', g1)" by fastforce
  have "doomed p s iid req g1"
    using e D qp
    by (auto simp: ui_enter_def doomed_def Let_def split: option.splits)
  then show ?thesis using qp by (simp add: ui_call_def e acquire_top_doomed)
qed

lemma ui_act_doomed: "doomed p s iid req g \<Longrightarrow> doomed p s iid req (ui_act a g)"
proof -
  assume D: "doomed p s iid req g"
  have P: "ug_procs g q = Some (Announcing x y z) \<Longrightarrow> q \<noteq> p"
    "ug_procs g q = Some (Waiting x y z) \<Longrightarrow> q \<noteq> p" for q x y z
    using D by (auto simp: doomed_def)
  show ?thesis
  proof (cases a)
    case (UiAnnounced q)
    then show ?thesis
      using D by (auto simp: ui_announced_def split: option.split ui_proc.split intro!: set_other_doomed dest: P)
  next
    case (UiReturn q b)
    have "doomed p s iid req (g\<lparr>ug_reqs := h, ug_pending := f\<rparr>)" "doomed p s iid req (g\<lparr>ug_pending := f\<rparr>)" for f h
      using D by (simp_all add: doomed_def)
    then show ?thesis
      using D UiReturn
      by (auto simp: ui_return_def Let_def split: option.split ui_proc.split intro!: ui_leave_doomed dest: P)
  next
    case (UiAbort q)
    have "doomed p s iid req (g\<lparr>ug_pending := f\<rparr>)" for f
      using D by (simp add: doomed_def)
    moreover have "doomed p s iid req (set_proc q (Finished None) (upd_slot s' (\<lambda>sl. sl\<lparr>waiters := waiters sl - 1\<rparr>) g))" for s'
      using D by (auto simp: doomed_def)
    ultimately show ?thesis
      using D UiAbort
      by (auto simp: ui_abort_def split: option.split ui_proc.split intro!: ui_leave_doomed dest: P)
  next
    case (UiResolve i ans rem)
    then show ?thesis using D by (auto simp: ui_resolve_same intro: doomed_cong)
  next
    case (UiCancelAll turn)
    have "doomed p s iid req (g\<lparr>ug_reqs := h, ug_pending := f\<rparr>)" for f h
      using D by (simp add: doomed_def)
    then show ?thesis
      using UiCancelAll
      by (auto simp: ui_cancel_all_def Let_def split: option.split intro!: drop_if_idle_doomed slot_cancel_doomed)
  next
    case (UiRemember th key ans)
    then show ?thesis using D by (simp add: ui_remember_def doomed_def)
  qed (use D in \<open>auto intro: ui_wake_doomed ui_call_doomed\<close>)
qed

text \<open>C37. Aborting a turn reaches its queue: a call that is queued when its turn is cancelled never
  becomes a live card, whatever happens afterwards; it stays scheduled until it runs, and when it runs
  it returns as cancelled.\<close>

theorem cancelled_turn_never_surfaces:
  assumes "ui_reachable g" and "ug_procs g p = Some (Sleeping s w iid req)"
    and "g' = fold ui_act acts (ui_cancel_all (ui_turn req) g)"
  shows "\<not> on_card g' p turn
    \<and> (ug_procs g' p = Some (Sleeping s True iid req) \<and>
         ug_procs (ui_wake p g') p = Some (Finished (Some queued_cancelled))
       \<or> ug_procs g' p = Some (Finished (Some queued_cancelled)) \<or> ug_procs g' p = Some (Finished None))"
proof -
  note ok = ui_reachable_ok[OF assms(1)]
  note s = sleeper_slot[OF ok assms(2)]
  have "s < ug_next g" using s ok table_nextD by (auto simp: ui_ok_def)
  then have D: "doomed p s iid req (ui_cancel_all (ui_turn req) g)"
    using assms(2) by (simp add: ui_cancel_all_def Let_def s doomed_def slot_cancel_def) (simp add: wake_all_def)
  have "doomed p s iid req (fold ui_act as h)" if "doomed p s iid req h" for as h
    using that by (induction as arbitrary: h) (auto intro: ui_act_doomed)
  from this[OF D, of acts] have "doomed p s iid req g'" by (simp add: assms(3))
  then show ?thesis
    by (auto simp: doomed_def on_card_def ui_wake_def acquire_woken_def acquire_fails_def)
qed

theorem cancelled_turn_never_surfaces_witness:
  "let g = fold ui_act [UiCall 1 ''a'' (demo_request ''u''), UiCall 2 ''b'' (demo_request ''u'')] empty_ui_gate;
       g' = fold ui_act [UiCall 3 ''c'' (demo_request ''u''), UiReturn 1 False, UiWake 2] (ui_cancel_all ''u'' g)
   in \<not> on_card g' 2 ''u''"
proof -
  let ?g = "fold ui_act [UiCall 1 ''a'' (demo_request ''u''), UiCall 2 ''b'' (demo_request ''u'')] empty_ui_gate"
  have R: "ui_reachable ?g" by (rule reachable_fold[OF ui_reachable.start])
  have P: "ug_procs ?g 2 = Some (Sleeping 0 False ''b'' (demo_request ''u''))" by (simp add: ui_eval)
  have "ui_turn (demo_request ''u'') = ''u''" by (simp add: demo_request_def)
  then show ?thesis
    using cancelled_turn_never_surfaces[OF R P refl, of _ "''u''"] unfolding Let_def by metis
qed

subsection \<open>Answers\<close>

text \<open>The call \<open>p\<close> waits, and its request has been settled with \<open>res\<close>.\<close>

definition answered :: "nat \<Rightarrow> dict \<Rightarrow> ui_gate \<Rightarrow> bool" where
  "answered p res g \<longleftrightarrow> (\<exists>s turn iid req. ug_procs g p = Some (Waiting s turn iid) \<and>
     ug_reqs g p = Some req \<and> ui_resolution req = Some res)"

fun leaves_alone :: "nat \<Rightarrow> ui_action \<Rightarrow> bool" where
  "leaves_alone p (UiReturn q _) = (q \<noteq> p)"
| "leaves_alone p (UiAbort q) = (q \<noteq> p)"
| "leaves_alone p _ = True"

lemma answered_cong:
  "answered p res g \<Longrightarrow> ug_procs g' p = ug_procs g p \<Longrightarrow> ug_reqs g' p = ug_reqs g p \<Longrightarrow> answered p res g'"
  by (simp add: answered_def)

lemma reqs_simps [simp]:
  "ug_reqs (set_proc p x g) = ug_reqs g" "ug_reqs (upd_slot s f g) = ug_reqs g"
  "ug_reqs (wake_all s g) = ug_reqs g" "ug_reqs (drop_if_idle turn s g) = ug_reqs g"
  "ug_reqs (acquire_fails q s r g) = ug_reqs g" "ug_reqs (ui_leave q s turn res g) = ug_reqs g"
  "ug_reqs (slot_cancel s g) = ug_reqs g"
  by (simp_all add: set_proc_def upd_slot_def wake_all_def drop_if_idle_def acquire_fails_def
      ui_leave_def slot_release_def slot_cancel_def)

lemma pending_simps [simp]:
  "ug_pending (set_proc p x g) = ug_pending g" "ug_pending (upd_slot s f g) = ug_pending g"
  by (simp_all add: set_proc_def upd_slot_def)

lemma waiting_wake_all [simp]:
  "ug_procs (wake_all s g) p = Some (Waiting a b c) \<longleftrightarrow> ug_procs g p = Some (Waiting a b c)"
  by (auto simp: wake_all_def split: option.split ui_proc.split)

lemma ui_act_answered:
  assumes A: "answered p res g" and "leaves_alone p a"
  shows "answered p res (ui_act a g)"
proof -
  obtain s turn iid req where P: "ug_procs g p = Some (Waiting s turn iid)"
    "ug_reqs g p = Some req" "ui_resolution req = Some res"
    using A by (auto simp: answered_def)
  have takes: "answered p res h \<Longrightarrow> q \<noteq> p \<Longrightarrow> answered p res (acquire_takes q s' i r h)" for q s' i r h
    by (auto simp: answered_def acquire_takes_def Let_def)
  have fails: "answered p res h \<Longrightarrow> q \<noteq> p \<Longrightarrow> answered p res (acquire_fails q s' r h)" for q s' r h
    by (auto simp: answered_def) (simp add: acquire_fails_def)
  have top: "answered p res h \<Longrightarrow> q \<noteq> p \<Longrightarrow> answered p res (acquire_top q s' i r h)" for q s' i r h
    by (auto simp: acquire_top_def takes fails) (auto simp: answered_def)
  have leave: "answered p res h \<Longrightarrow> q \<noteq> p \<Longrightarrow> answered p res (ui_leave q s' t d h)" for q s' t d h
    by (auto simp: answered_def) (simp add: ui_leave_def slot_release_def)
  have settled: "ui_resolve_req x req = req" "ui_cancel_req req = req" for x
    using P(3) by (simp_all add: ui_resolve_req_def ui_cancel_req_def ui_settle_def)
  show ?thesis
  proof (cases a)
    case (UiCall q i r)
    show ?thesis
    proof (cases "q = p")
      case False
      obtain s' g1 where e: "ui_enter q i r g = (s', g1)" by fastforce
      then have "answered p res g1"
        using A False by (auto simp: ui_enter_def Let_def answered_def split: option.splits)
      with A False show ?thesis by (simp add: UiCall ui_call_def e top)
    qed (use A UiCall P in simp)
  next
    case (UiWake q)
    then show ?thesis
      using A P by (cases "q = p") (auto simp: ui_wake_def acquire_woken_def takes fails top
          split: option.split ui_proc.split bool.split)
  next
    case (UiAnnounced q)
    then show ?thesis
      using A P by (cases "q = p") (auto simp: ui_announced_def split: option.split ui_proc.split elim!: answered_cong)
  next
    case (UiReturn q b)
    have "answered p res (g\<lparr>ug_reqs := (ug_reqs g)(q := x), ug_pending := f\<rparr>)"
      "answered p res (g\<lparr>ug_pending := f\<rparr>)" for x f
      using A UiReturn assms(2) by (auto simp: answered_def)
    then show ?thesis
      using A UiReturn assms(2)
      by (auto simp: ui_return_def Let_def split: option.split ui_proc.split intro!: leave)
  next
    case (UiAbort q)
    have "answered p res (g\<lparr>ug_pending := f\<rparr>)" for f using A by (simp add: answered_def)
    then show ?thesis
      using A UiAbort assms(2)
      by (auto simp: ui_abort_def split: option.split ui_proc.split intro!: leave)
        (auto simp: answered_def)
  next
    case (UiResolve i x b)
    then show ?thesis
      using P settled
      by (auto simp: answered_def ui_resolve_def ui_remember_def Let_def split: option.split list.split)
  next
    case (UiRemember th key x)
    then show ?thesis using A by (simp add: ui_remember_def answered_def)
  next
    case (UiCancelAll t)
    have "answered p res (g\<lparr>ug_reqs := (\<lambda>p. if pending_of_turn t g p
        then map_option ui_cancel_req (ug_reqs g p) else ug_reqs g p), ug_pending := f\<rparr>)" for f
      using P settled by (simp add: answered_def)
    then show ?thesis
      using UiCancelAll
      by (auto simp: ui_cancel_all_def Let_def slot_cancel_def answered_def split: option.split)
  qed
qed

lemma annotate_nonempty:
  "d \<noteq> [] \<Longrightarrow> \<exists>ed. annotate_answers (Some d) cs = Some ed \<and> ed \<noteq> []"
  by (cases "choice_role (py_str (dget_or d ''choice_id'' (JStr ''''))) cs")
    (auto simp: annotate_answers_def dset_def)

text \<open>C36. An answer reaches the call that asked: once the live card \<open>iid\<close> of an undecided call is
  answered, the call returns exactly that answer, marked with the role of the chosen choice, whether or
  not its timer fires in the same instant and whatever later answers, cancellations and other calls come
  before it runs again.  Asked to remember a non-empty answer to a card with a key, the gate finds it
  again under that thread and key.\<close>

theorem answer_is_delivered:
  assumes "ug_procs g p = Some (Waiting s turn iid)" and "ug_pending g iid = Some p"
    and "ug_reqs g p = Some req" and "ui_resolution req = None"
    and "\<forall>a \<in> set acts. leaves_alone p a"
  shows "fst (ui_resolve iid ans remember g)
    \<and> ug_procs (ui_return p timed_out (fold ui_act acts (snd (ui_resolve iid ans remember g)))) p =
        Some (Finished (Some (submitted (case annotate_answers ans (ui_choices req) of None \<Rightarrow> [] | Some d \<Rightarrow> d))))
    \<and> (ui_remember_key req = Some (c # key) \<and> ans = Some (e # d) \<longrightarrow>
         remembered_choice (ui_thread req) (c # key) (snd (ui_resolve iid ans True g)) =
           annotate_answers ans (ui_choices req))"
proof (intro conjI impI)
  let ?res = "submitted (case annotate_answers ans (ui_choices req) of None \<Rightarrow> [] | Some d \<Rightarrow> d)"
  show "fst (ui_resolve iid ans remember g)" using assms by (simp add: ui_resolve_def Let_def)
  have "ug_reqs (snd (ui_resolve iid ans remember g)) p = Some (ui_resolve_req (annotate_answers ans (ui_choices req)) req)"
    using assms by (auto simp: ui_resolve_def Let_def ui_remember_def split: option.split)
  then have "answered p ?res (snd (ui_resolve iid ans remember g))"
    using assms(1,4) by (simp add: answered_def ui_resolve_same ui_resolve_req_def ui_settle_def)
  moreover have "answered p ?res (fold ui_act as h)"
    if "answered p ?res h" "\<forall>a \<in> set as. leaves_alone p a" for as h
    using that by (induction as arbitrary: h) (auto intro: ui_act_answered)
  ultimately obtain s' t' i' r' where
    "ug_procs (fold ui_act acts (snd (ui_resolve iid ans remember g))) p = Some (Waiting s' t' i')"
    "ug_reqs (fold ui_act acts (snd (ui_resolve iid ans remember g))) p = Some r'" "ui_resolution r' = Some ?res"
    using assms(5) unfolding answered_def by blast
  then show "ug_procs (ui_return p timed_out (fold ui_act acts (snd (ui_resolve iid ans remember g)))) p =
      Some (Finished (Some ?res))"
    by (simp add: ui_return_def ui_resolution_of_def ui_cancel_req_def ui_settle_def ui_leave_def
        slot_release_def Let_def) (simp add: wake_all_def)
next
  assume A: "ui_remember_key req = Some (c # key) \<and> ans = Some (e # d)"
  then obtain ed where "annotate_answers ans (ui_choices req) = Some ed" "ed \<noteq> []"
    using annotate_nonempty[of "e # d" "ui_choices req"] by auto
  then show "remembered_choice (ui_thread req) (c # key) (snd (ui_resolve iid ans True g)) =
      annotate_answers ans (ui_choices req)"
    using A assms by (simp add: ui_resolve_def Let_def ui_remember_def remembered_choice_def)
qed

theorem answer_is_delivered_witness:
  "ug_procs (ui_return 1 True (fold ui_act [UiCancelAll ''u'']
     (snd (ui_resolve ''a'' (Some [(''choice_id'', JStr ''yes'')]) False
       (fold ui_act [UiCall 1 ''a'' (demo_request ''u''), UiAnnounced 1] empty_ui_gate))))) 1 =
   Some (Finished (Some (submitted [(''choice_id'', JStr ''yes'')])))"
proof -
  let ?g = "fold ui_act [UiCall 1 ''a'' (demo_request ''u''), UiAnnounced 1] empty_ui_gate"
  have P: "ug_procs ?g 1 = Some (Waiting 0 ''u'' ''a'')" "ug_pending ?g ''a'' = Some 1"
    "ug_reqs ?g 1 = Some (demo_request ''u'')" "ui_resolution (demo_request ''u'') = None"
    by (simp_all add: ui_eval)
  have "annotate_answers (Some [(''choice_id'', JStr ''yes'')]) (ui_choices (demo_request ''u'')) =
      Some [(''choice_id'', JStr ''yes'')]"
    by (simp add: annotate_answers_def demo_request_def)
  then show ?thesis
    using answer_is_delivered[OF P, of "[UiCancelAll ''u'']" "Some [(''choice_id'', JStr ''yes'')]" False True]
    by simp
qed

subsection \<open>Where the gate falls short of its comments\<close>

text \<open>A card whose announcement fails stays in the pending table after its call has ended: the
  entry is made before \<open>on_pending\<close> is awaited and removed only by the \<open>finally\<close> after it.  The slot is
  released, so the next call of the turn is pending beside the dead one.\<close>

theorem failed_announcement_leaks:
  "let g = fold ui_act [UiCall 1 ''a'' (demo_request ''u''), UiAbort 1] empty_ui_gate;
       g' = ui_act (UiCall 2 ''b'' (demo_request ''u'')) g
   in ui_reachable g' \<and> ug_procs g' 1 = Some (Finished None) \<and> pending_of_turn ''u'' g' 1
     \<and> on_card g' 2 ''u'' \<and> pending_of_turn ''u'' g' 2"
proof -
  let ?g = "fold ui_act [UiCall 1 ''a'' (demo_request ''u''), UiAbort 1] empty_ui_gate"
  have turn: "ui_turn (demo_request ''u'') = ''u''" "ui_resolution (demo_request ''u'') = None"
    by (simp_all add: demo_request_def)
  have g: "ug_procs ?g 1 = Some (Finished None)" "ug_procs ?g 2 = None" "ug_turn_slots ?g ''u'' = None"
    "ug_pending ?g ''a'' = Some 1" "ug_reqs ?g 1 = Some (demo_request ''u'')"
    by (simp_all add: ui_eval)
  have *: "ug_procs (ui_act (UiCall 2 ''b'' (demo_request ''u'')) h) 1 = Some (Finished None) \<and>
      on_card (ui_act (UiCall 2 ''b'' (demo_request ''u'')) h) 2 ''u'' \<and>
      ug_pending (ui_act (UiCall 2 ''b'' (demo_request ''u'')) h) ''a'' = Some 1 \<and>
      ug_pending (ui_act (UiCall 2 ''b'' (demo_request ''u'')) h) ''b'' = Some 2 \<and>
      ug_reqs (ui_act (UiCall 2 ''b'' (demo_request ''u'')) h) 1 = Some (demo_request ''u'') \<and>
      ug_reqs (ui_act (UiCall 2 ''b'' (demo_request ''u'')) h) 2 = Some (demo_request ''u'')"
    if "ug_procs h 1 = Some (Finished None)" "ug_procs h 2 = None" "ug_turn_slots h ''u'' = None"
      "ug_pending h ''a'' = Some 1" "ug_reqs h 1 = Some (demo_request ''u'')" for h
    using that
    by (simp add: turn ui_call_def ui_enter_def acquire_top_def acquire_takes_def new_slot_def
        on_card_def Let_def)
  have "ui_reachable (ui_act (UiCall 2 ''b'' (demo_request ''u'')) ?g)"
    by (intro ui_reachable.step reachable_fold[OF ui_reachable.start])
  moreover have pend: "pending_of_turn ''u'' h p"
    if "ug_pending h i = Some p" "ug_reqs h p = Some (demo_request ''u'')" for h i p
    using that turn(1) by (auto simp: pending_of_turn_def ran_def)
  ultimately show ?thesis
    using *[OF g] unfolding Let_def by (blast intro: pend)
qed

text \<open>The queue of a turn is not first in, first out: from a reachable gate in which call 2 is
  queued and already scheduled, a new call 3 takes the slot at once, and call 2 goes back to sleep.\<close>

theorem later_call_overtakes:
  "\<exists>g. ui_reachable g \<and> ug_procs g 2 = Some (Sleeping 0 True ''b'' (demo_request ''u''))
     \<and> on_card (ui_act (UiWake 2) (ui_act (UiCall 3 ''c'' (demo_request ''u'')) g)) 3 ''u''
     \<and> ug_procs (ui_act (UiWake 2) (ui_act (UiCall 3 ''c'' (demo_request ''u'')) g)) 2 =
         Some (Sleeping 0 False ''b'' (demo_request ''u''))"
proof -
  let ?g = "fold ui_act [UiCall 1 ''a'' (demo_request ''u''), UiAnnounced 1, UiCall 2 ''b'' (demo_request ''u''),
         UiReturn 1 True] empty_ui_gate"
  have turn: "ui_turn (demo_request ''u'') = ''u''" "ui_resolution (demo_request ''u'') = None"
    by (simp_all add: demo_request_def)
  have g: "ug_procs ?g 2 = Some (Sleeping 0 True ''b'' (demo_request ''u''))" "ug_procs ?g 3 = None"
    "ug_turn_slots ?g ''u'' = Some 0"
    "ug_slot ?g 0 = \<lparr>free = True, held = False, waiters = 1, slot_cancelled = False\<rparr>"
    by (simp_all add: ui_eval)
  have *: "on_card (ui_act (UiWake 2) (ui_act (UiCall 3 ''c'' (demo_request ''u'')) h)) 3 ''u'' \<and>
      ug_procs (ui_act (UiWake 2) (ui_act (UiCall 3 ''c'' (demo_request ''u'')) h)) 2 =
        Some (Sleeping 0 False ''b'' (demo_request ''u''))"
    if "ug_procs h 2 = Some (Sleeping 0 True ''b'' (demo_request ''u''))" "ug_procs h 3 = None"
      "ug_turn_slots h ''u'' = Some 0"
      "ug_slot h 0 = \<lparr>free = True, held = False, waiters = 1, slot_cancelled = False\<rparr>" for h
    using that
    by (simp add: turn ui_call_def ui_enter_def acquire_top_def acquire_takes_def ui_wake_def
        acquire_woken_def on_card_def Let_def)
  have "ui_reachable ?g" by (rule reachable_fold[OF ui_reachable.start])
  with g(1) *[OF g] show ?thesis by blast
qed

end
