(* ===== verification/JsonText.thy ===== *)
theory JsonText
  imports PyJson
begin

text \<open>
  \<open>json.loads\<close> for the texts the program writes and reads: the grammar of Python's decoder, with
  numbers restricted to integers and code points to those below 256 (a text with a fraction, an exponent,
  \<open>NaN\<close>, or an escape above \<open>00ff\<close> is outside the model and gives \<open>None\<close>, as a malformed text does).
  The fuel of the recursive descent is the length of the text, which is always enough.  The main result is
  that reading undoes writing.
\<close>

definition json_ws :: "char \<Rightarrow> bool" where
  "json_ws c = (c = CHR 0x20 \<or> c = CHR 0x09 \<or> c = CHR 0x0A \<or> c = CHR 0x0D)"

definition skip_ws :: "pystr \<Rightarrow> pystr" where
  "skip_ws s = dropWhile json_ws s"

definition hex_val :: "char \<Rightarrow> nat option" where
  "hex_val c = (let n = (of_char c :: nat) in
     if 48 \<le> n \<and> n \<le> 57 then Some (n - 48)
     else if 97 \<le> n \<and> n \<le> 102 then Some (n - 87)
     else if 65 \<le> n \<and> n \<le> 70 then Some (n - 55)
     else None)"

definition esc_char :: "char \<Rightarrow> char option" where
  "esc_char c =
     (if c = CHR 0x22 then Some (CHR 0x22)
      else if c = CHR 0x5C then Some (CHR 0x5C)
      else if c = CHR ''/'' then Some (CHR ''/'')
      else if c = CHR ''b'' then Some (CHR 0x08)
      else if c = CHR ''f'' then Some (CHR 0x0C)
      else if c = CHR ''n'' then Some (CHR 0x0A)
      else if c = CHR ''r'' then Some (CHR 0x0D)
      else if c = CHR ''t'' then Some (CHR 0x09)
      else None)"

definition unicode_escape :: "char \<Rightarrow> char \<Rightarrow> char \<Rightarrow> char \<Rightarrow> char option" where
  "unicode_escape a b c d =
     (case (hex_val a, hex_val b, hex_val c, hex_val d) of
        (Some 0, Some 0, Some x, Some y) \<Rightarrow> Some (char_of (16 * x + y))
      | _ \<Rightarrow> None)"

text \<open>The characters of a string after its opening quote, and what follows the closing one.\<close>

fun parse_string :: "pystr \<Rightarrow> (pystr \<times> pystr) option" where
  "parse_string [] = None"
| "parse_string (c # s) =
     (if c = CHR 0x22 then Some ([], s)
      else if c = CHR 0x5C then
        (case s of
           [] \<Rightarrow> None
         | e # s1 \<Rightarrow>
             if e = CHR ''u'' then
               (case s1 of
                  h1 # h2 # h3 # h4 # s2 \<Rightarrow>
                    (case unicode_escape h1 h2 h3 h4 of
                       None \<Rightarrow> None
                     | Some x \<Rightarrow> map_option (\<lambda>(t, r). (x # t, r)) (parse_string s2))
                | _ \<Rightarrow> None)
             else (case esc_char e of
                     None \<Rightarrow> None
                   | Some x \<Rightarrow> map_option (\<lambda>(t, r). (x # t, r)) (parse_string s1)))
      else if (of_char c :: nat) < 32 then None
      else map_option (\<lambda>(t, r). (c # t, r)) (parse_string s))"

text \<open>The part \<open>0|[1-9][0-9]*\<close> of a number.\<close>

definition json_digits :: "pystr \<Rightarrow> pystr" where
  "json_digits s = (let ds = takeWhile py_isdigit s
     in if ds \<noteq> [] \<and> hd ds = CHR ''0'' then take 1 ds else ds)"

definition parse_number :: "pystr \<Rightarrow> (json \<times> pystr) option" where
  "parse_number s =
     (let (neg, s1) = (case s of c # r \<Rightarrow> if c = CHR ''-'' then (True, r) else (False, s) | [] \<Rightarrow> (False, s));
          digits = json_digits s1;
          rest = drop (length digits) s1;
          n = int (parse_nat digits)
      in if digits = [] then None
         else if rest \<noteq> [] \<and> (hd rest = CHR ''.'' \<or> hd rest = CHR ''e'' \<or> hd rest = CHR ''E'') then None
         else Some (JNum (if neg then - n else n), rest))"

fun parse_value :: "nat \<Rightarrow> pystr \<Rightarrow> (json \<times> pystr) option"
and parse_elems :: "nat \<Rightarrow> pystr \<Rightarrow> (json list \<times> pystr) option"
and parse_members :: "nat \<Rightarrow> pystr \<Rightarrow> (dict \<times> pystr) option" where
  "parse_value 0 s = None"
| "parse_value (Suc f) s =
     (case s of
        [] \<Rightarrow> None
      | c # r \<Rightarrow>
          if c = CHR 0x22 then map_option (\<lambda>(t, r'). (JStr t, r')) (parse_string r)
          else if c = CHR ''['' then
            (case skip_ws r of
               [] \<Rightarrow> None
             | d # r1 \<Rightarrow> if d = CHR '']'' then Some (JList [], r1)
                        else map_option (\<lambda>(xs, r'). (JList xs, r')) (parse_elems f (d # r1)))
          else if c = CHR ''{'' then
            (case skip_ws r of
               [] \<Rightarrow> None
             | d # r1 \<Rightarrow> if d = CHR ''}'' then Some (JDict [], r1)
                        else map_option (\<lambda>(ps, r'). (JDict (dmerge [] ps), r')) (parse_members f (d # r1)))
          else if py_startswith s ''null'' then Some (JNull, drop 4 s)
          else if py_startswith s ''true'' then Some (JBool True, drop 4 s)
          else if py_startswith s ''false'' then Some (JBool False, drop 5 s)
          else parse_number s)"
| "parse_elems 0 s = None"
| "parse_elems (Suc f) s =
     (case parse_value f s of
        None \<Rightarrow> None
      | Some (v, r) \<Rightarrow>
          (case skip_ws r of
             [] \<Rightarrow> None
           | d # r1 \<Rightarrow> if d = CHR '']'' then Some ([v], r1)
                      else if d = CHR '','' then
                        map_option (\<lambda>(vs, r'). (v # vs, r')) (parse_elems f (skip_ws r1))
                      else None))"
| "parse_members 0 s = None"
| "parse_members (Suc f) s =
     (case s of
        [] \<Rightarrow> None
      | q # s1 \<Rightarrow>
          if q \<noteq> CHR 0x22 then None
          else (case parse_string s1 of
             None \<Rightarrow> None
           | Some (k, r) \<Rightarrow>
               (case skip_ws r of
                  [] \<Rightarrow> None
                | e # r1 \<Rightarrow>
                    if e \<noteq> CHR '':'' then None
                    else (case parse_value f (skip_ws r1) of
                       None \<Rightarrow> None
                     | Some (v, r2) \<Rightarrow>
                         (case skip_ws r2 of
                            [] \<Rightarrow> None
                          | d # r3 \<Rightarrow> if d = CHR ''}'' then Some ([(k, v)], r3)
                                     else if d = CHR '','' then
                                       map_option (\<lambda>(ps, r'). ((k, v) # ps, r')) (parse_members f (skip_ws r3))
                                     else None)))))"

definition json_loads :: "pystr \<Rightarrow> json option" where
  "json_loads s =
     (case parse_value (Suc (length s)) (skip_ws s) of
        Some (v, r) \<Rightarrow> if skip_ws r = [] then Some v else None
      | None \<Rightarrow> None)"

declare parse_value.simps(2) [simp del] parse_elems.simps(2) [simp del] parse_members.simps(2) [simp del]

subsection \<open>Strings\<close>

lemma skip_ws_simps [simp]:
  "skip_ws [] = []" "skip_ws (c # s) = (if json_ws c then skip_ws s else c # s)"
  by (simp_all add: skip_ws_def)

lemma hex_val_digit: "n < 16 \<Longrightarrow> hex_val (hex_digit n) = Some n"
  by (auto simp: hex_val_def hex_digit_def Let_def)

lemma char_eq_of: "(of_char c :: nat) = n \<Longrightarrow> c = char_of n"
  by auto

lemma char_of_lits:
  "char_of (34::nat) = CHR 0x22" "char_of (92::nat) = CHR 0x5C" "char_of (10::nat) = CHR 0x0A"
  "char_of (13::nat) = CHR 0x0D" "char_of (9::nat) = CHR 0x09" "char_of (12::nat) = CHR 0x0C"
  "char_of (8::nat) = CHR 0x08"
  by (rule char_eq_of[symmetric], simp)+

lemma parse_json_char:
  "parse_string (json_char c @ t) = map_option (\<lambda>(u, r). (c # u, r)) (parse_string t)"
proof -
  let ?n = "of_char c :: nat"
  consider "?n = 34" | "?n = 92" | "?n = 10" | "?n = 13" | "?n = 9" | "?n = 12" | "?n = 8"
    | "?n \<noteq> 34 \<and> ?n \<noteq> 92 \<and> ?n \<noteq> 10 \<and> ?n \<noteq> 13 \<and> ?n \<noteq> 9 \<and> ?n \<noteq> 12 \<and> ?n \<noteq> 8 \<and> ?n < 32"
    | "?n \<noteq> 34 \<and> ?n \<noteq> 92 \<and> 32 \<le> ?n"
    by linarith
  then show ?thesis
  proof cases
    case 8
    have "unicode_escape (CHR ''0'') (CHR ''0'') (hex_digit (?n div 16)) (hex_digit (?n mod 16)) = Some c"
    proof -
      have "hex_val (CHR ''0'') = Some 0" by (simp add: hex_val_def)
      moreover have "?n div 16 < 16" by (rule less_mult_imp_div_less) (use 8 in linarith)
      ultimately show ?thesis using 8 by (simp add: unicode_escape_def hex_val_digit)
    qed
    then show ?thesis using 8 by (simp add: json_char_def Let_def)
  next
    case 9
    then have "c \<noteq> CHR 0x22" "c \<noteq> CHR 0x5C" by auto
    then show ?thesis using 9 by (simp add: json_char_def Let_def)
  qed (auto simp: json_char_def esc_char_def char_of_lits dest!: char_eq_of)
qed

lemma parse_string_body:
  "parse_string (concat (map json_char s) @ CHR 0x22 # rest) = Some (s, rest)"
  by (induction s) (simp_all add: parse_json_char)

subsection \<open>Numbers\<close>

lemma nat_str_last_rec: "n < 10 \<Longrightarrow> nat_str n = [char_of (48 + n)]"
  by (subst nat_str.simps) simp

lemma nat_str_hd_zero: "hd (nat_str n) = CHR ''0'' \<Longrightarrow> n = 0"
proof (induction n rule: nat_str.induct)
  case (1 n)
  show ?case
  proof (cases "n < 10")
    case True
    then have "char_of (48 + n) = CHR ''0''" using 1(2) by (simp add: nat_str_last_rec)
    then have "(of_char (char_of (48 + n)) :: nat) = of_char (CHR ''0'')" by simp
    then show ?thesis using True by simp
  next
    case False
    then have "hd (nat_str n) = hd (nat_str (n div 10))"
      by (subst nat_str.simps) simp
    then show ?thesis using 1 False by simp
  qed
qed

definition num_end :: "pystr \<Rightarrow> bool" where
  "num_end rest \<longleftrightarrow> (case rest of [] \<Rightarrow> True
     | c # _ \<Rightarrow> \<not> py_isdigit c \<and> c \<noteq> CHR ''.'' \<and> c \<noteq> CHR ''e'' \<and> c \<noteq> CHR ''E'')"

lemma take_digits: "num_end rest \<Longrightarrow> takeWhile py_isdigit (nat_str n @ rest) = nat_str n"
  using nat_str_digits[of _ n] by (cases rest) (auto simp: num_end_def)

lemma nat_str_minus: "nat_str n \<noteq> CHR ''-'' # s"
  using nat_str_digits[of "CHR ''-''" n] by (auto simp: py_isdigit_def)

lemma json_digits_nat_str: "num_end rest \<Longrightarrow> json_digits (nat_str n @ rest) = nat_str n"
  using nat_str_hd_zero[of n] nat_str_last_rec[of 0] by (auto simp: json_digits_def take_digits Let_def)

lemma parse_number_int_str:
  assumes "num_end rest"
  shows "parse_number (int_str i @ rest) = Some (JNum i, rest)"
proof -
  have rest: "\<not> (rest \<noteq> [] \<and> (hd rest = CHR ''.'' \<or> hd rest = CHR ''e'' \<or> hd rest = CHR ''E''))"
    using assms by (cases rest) (auto simp: num_end_def)
  show ?thesis
  proof (cases "i < 0")
    case True
    then show ?thesis
      using rest by (simp add: parse_number_def int_str_def json_digits_nat_str[OF assms] Let_def)
  next
    case False
    have "(case nat_str (nat i) @ rest of [] \<Rightarrow> (False, nat_str (nat i) @ rest)
        | c # r \<Rightarrow> if c = CHR ''-'' then (True, r) else (False, nat_str (nat i) @ rest)) =
        (False, nat_str (nat i) @ rest)"
      using nat_str_minus[of "nat i"] by (cases "nat_str (nat i)") auto
    then show ?thesis
      using False rest by (simp add: parse_number_def int_str_def json_digits_nat_str[OF assms] Let_def)
  qed
qed

subsection \<open>Reading undoes writing\<close>

text \<open>
  \<open>json.dumps\<close> in either layout of the program: on one line, or indented by two.  \<open>brk\<close> is what comes
  after an opening and before a closing bracket at a level, \<open>sep\<close> what follows a comma.
\<close>

fun json_write :: "(nat \<Rightarrow> pystr) \<Rightarrow> (nat \<Rightarrow> pystr) \<Rightarrow> nat \<Rightarrow> json \<Rightarrow> pystr" where
  "json_write brk sep l (JList xs) =
     (if xs = [] then ''[]''
      else CHR ''['' # brk (Suc l) @
        py_join (CHR '','' # sep (Suc l)) (map (json_write brk sep (Suc l)) xs) @ brk l @ '']'')"
| "json_write brk sep l (JDict d) =
     (if d = [] then ''{}''
      else CHR ''{'' # brk (Suc l) @
        py_join (CHR '','' # sep (Suc l))
          (map (\<lambda>(k, v). json_str k @ '': '' @ json_write brk sep (Suc l) v) d) @ brk l @ ''}'')"
| "json_write brk sep l v = json_dumps v"

definition indent_brk :: "nat \<Rightarrow> pystr" where
  "indent_brk l = CHR 0x0A # replicate (2 * l) (CHR 0x20)"

text \<open>\<open>json.dumps(v, ensure_ascii=False, indent=2)\<close>\<close>

definition json_dumps_indent :: "json \<Rightarrow> pystr" where
  "json_dumps_indent v = json_write indent_brk indent_brk 0 v"

lemma json_dumps_write: "json_write (\<lambda>_. []) (\<lambda>_. '' '') l v = json_dumps v"
proof (induction v arbitrary: l)
  case (JList xs)
  then have "map (json_write (\<lambda>_. []) (\<lambda>_. '' '') (Suc l)) xs = map json_dumps xs" by simp
  then show ?case by (simp del: map_eq_conv)
next
  case (JDict d)
  then have "map (\<lambda>(k, v). json_str k @ '': '' @ json_write (\<lambda>_. []) (\<lambda>_. '' '') (Suc l) v) d =
      map (\<lambda>(k, v). json_str k @ '': '' @ json_dumps v) d"
    by (intro map_cong refl) (auto simp: snds.simps split: prod.split)
  then show ?case by (simp del: map_eq_conv)
qed simp_all

text \<open>The values \<open>json.dumps\<close> is given: no dictionary has a key twice.\<close>

fun wf_json :: "json \<Rightarrow> bool" where
  "wf_json (JList xs) = (\<forall>x \<in> set xs. wf_json x)"
| "wf_json (JDict d) = (distinct (map fst d) \<and> (\<forall>p \<in> set d. wf_json (snd p)))"
| "wf_json _ = True"

definition all_ws :: "pystr \<Rightarrow> bool" where
  "all_ws s \<longleftrightarrow> (\<forall>c \<in> set s. json_ws c)"

lemma all_ws_simps [simp]: "all_ws []" "all_ws (c # s) \<longleftrightarrow> json_ws c \<and> all_ws s"
  by (simp_all add: all_ws_def)

lemma all_ws_indent [simp]: "all_ws (indent_brk l)"
  by (auto simp: all_ws_def indent_brk_def json_ws_def)

lemma skip_ws_all [simp]: "all_ws w \<Longrightarrow> skip_ws (w @ s) = skip_ws s"
  by (induction w) simp_all

lemma json_ws_space [simp]: "json_ws (CHR '' '')"
  by (simp add: json_ws_def)

text \<open>What can follow a value: the end, or a character that does not continue a number.\<close>

lemma num_end_simps [simp]:
  "num_end []" "num_end (CHR '','' # r)" "num_end (CHR '']'' # r)" "num_end (CHR ''}'' # r)"
  by (simp_all add: num_end_def py_isdigit_def)

lemma num_end_ws [simp]: "all_ws w \<Longrightarrow> num_end s \<Longrightarrow> num_end (w @ s)"
  by (cases w) (auto simp: num_end_def json_ws_def py_isdigit_def)

definition value_start :: "char \<Rightarrow> bool" where
  "value_start c \<longleftrightarrow> \<not> json_ws c \<and> c \<noteq> CHR '']''"

lemma nat_str_start: "nat_str n = c # s \<Longrightarrow> value_start c"
  using nat_str_digits[of c n] by (auto simp: value_start_def json_ws_def py_isdigit_def)

lemma json_dumps_start: "\<exists>c s. json_dumps v = c # s \<and> value_start c"
proof (cases v)
  case (JNum i)
  obtain c s where "nat_str (nat i) = c # s" by (meson neq_Nil_conv nat_str_nonempty)
  then show ?thesis
    using nat_str_start[of "nat i"] JNum by (auto simp: int_str_def value_start_def json_ws_def)
qed (auto simp: value_start_def json_ws_def json_str_def)

lemma json_write_start: "\<exists>c s. json_write brk sep l v = c # s \<and> value_start c"
  using json_dumps_start[of v] by (cases v) (auto simp: value_start_def json_ws_def)

lemma skip_ws_write [simp]: "skip_ws (json_write brk sep l v @ r) = json_write brk sep l v @ r"
  using json_write_start[of brk sep l v] by (auto simp: value_start_def)

lemma skip_ws_json_str [simp]: "skip_ws (json_str k @ r) = json_str k @ r"
  by (simp add: json_str_def json_ws_def)

lemma dmerge_distinct: "distinct (map fst d) \<Longrightarrow> dmerge [] d = d"
proof (induction d rule: rev_induct)
  case Nil
  then show ?case by simp
next
  case (snoc p d)
  obtain k v where p: "p = (k, v)" by (cases p)
  have "AList.update k v d = d @ [(k, v)]" if "k \<notin> fst ` set d" for d :: dict
    using that by (induction d) auto
  with snoc show ?case by (auto simp: p dmerge_def dset_def)
qed

lemma parse_value_JNum:
  assumes "num_end rest" and "length (int_str i) \<le> f"
  shows "parse_value f (int_str i @ rest) = Some (JNum i, rest)"
proof -
  obtain c s where cs: "int_str i @ rest = c # s" and c: "c = CHR ''-'' \<or> py_isdigit c"
  proof (cases "i < 0")
    case True
    then show ?thesis using that by (simp add: int_str_def)
  next
    case False
    obtain c s where "nat_str (nat i) = c # s" by (meson neq_Nil_conv nat_str_nonempty)
    then show ?thesis using that False nat_str_digits[of c "nat i"] by (simp add: int_str_def)
  qed
  have "int_str i \<noteq> []" by (simp add: int_str_def)
  then obtain f' where f: "f = Suc f'" using assms(2) by (cases f) auto
  have "c \<noteq> CHR 0x22" "c \<noteq> CHR ''[''" "c \<noteq> CHR ''{''" "c \<noteq> CHR ''n''" "c \<noteq> CHR ''t''" "c \<noteq> CHR ''f''"
    using c by (auto simp: py_isdigit_def)
  then show ?thesis
    using parse_number_int_str[OF assms(1), of i] unfolding f cs
    by (simp add: parse_value.simps(2) py_startswith_def)
qed

lemma parse_value_JStr:
  "0 < f \<Longrightarrow> parse_value f (json_str t @ rest) = Some (JStr t, rest)"
  by (cases f) (simp_all add: parse_value.simps(2) json_str_def parse_string_body)

lemma parse_elems_join:
  assumes "\<And>x f rest. x \<in> set xs \<Longrightarrow> num_end rest \<Longrightarrow> length (w x) \<le> f \<Longrightarrow>
      parse_value f (w x @ rest) = Some (x, rest)"
    and "\<And>x. \<exists>c s. w x = c # s \<and> value_start c" and "all_ws sp" and "all_ws b"
    and "xs \<noteq> []" and "length (py_join (CHR '','' # sp) (map w xs)) < f"
  shows "parse_elems f (py_join (CHR '','' # sp) (map w xs) @ b @ CHR '']'' # rest) = Some (xs, rest)"
  using assms(1,5,6)
proof (induction xs arbitrary: f rule: induct_list012)
  case 1
  then show ?case by simp
next
  case (2 x)
  then obtain f' where f: "f = Suc f'" "length (w x) \<le> f'" by (cases f) auto
  then show ?case
    using 2(1)[of x "b @ CHR '']'' # rest" f'] assms(4) by (simp add: parse_elems.simps(2) json_ws_def)
next
  case (3 x y zs)
  let ?j = "py_join (CHR '','' # sp) (map w (y # zs))"
  obtain f' where f: "f = Suc f'" "length (w x) \<le> f'" "length ?j < f'"
    using 3(5) by (cases f) auto
  have V: "parse_value f' (w x @ CHR '','' # sp @ ?j @ b @ CHR '']'' # rest) =
      Some (x, CHR '','' # sp @ ?j @ b @ CHR '']'' # rest)"
    using f by (intro 3(3)) simp_all
  have S: "skip_ws (?j @ b @ CHR '']'' # rest) = ?j @ b @ CHR '']'' # rest"
  proof -
    obtain c s where "w y = c # s" "value_start c" using assms(2) by blast
    then show ?thesis by (cases zs) (simp_all add: value_start_def)
  qed
  have "parse_elems f' (?j @ b @ CHR '']'' # rest) = Some (y # zs, rest)"
    using 3(3) f by (intro 3(2)) auto
  then show ?case
    using V S assms(3) by (simp add: f parse_elems.simps(2) json_ws_def)
qed

lemma parse_members_join:
  fixes w :: "json \<Rightarrow> pystr"
  defines "m \<equiv> (\<lambda>(k, v). json_str k @ '': '' @ w v)"
  assumes "\<And>p f rest. p \<in> set d \<Longrightarrow> num_end rest \<Longrightarrow> length (w (snd p)) \<le> f \<Longrightarrow>
      parse_value f (w (snd p) @ rest) = Some (snd p, rest)"
    and "\<And>x. \<exists>c s. w x = c # s \<and> value_start c" and "all_ws sp" and "all_ws b"
    and "d \<noteq> []" and "length (py_join (CHR '','' # sp) (map m d)) < f"
  shows "parse_members f (py_join (CHR '','' # sp) (map m d) @ b @ CHR ''}'' # rest) = Some (d, rest)"
  using assms(2,6,7)
proof (induction d arbitrary: f rule: induct_list012)
  case 1
  then show ?case by simp
next
  case (2 p)
  obtain k v where p: "p = (k, v)" by (cases p)
  with 2 obtain f' where f: "f = Suc f'" "length (w v) \<le> f'" by (cases f) (auto simp: m_def)
  have "skip_ws (w v @ r) = w v @ r" for r
    using assms(3)[of v] by (auto simp: value_start_def)
  then show ?case
    using f 2(1)[of p "b @ CHR ''}'' # rest" f'] assms(5)
    by (simp add: p m_def parse_members.simps(2) json_str_def parse_string_body json_ws_def)
next
  case (3 p q zs)
  obtain k v where p: "p = (k, v)" by (cases p)
  let ?j = "py_join (CHR '','' # sp) (map m (q # zs))"
  obtain f' where f: "f = Suc f'" "length (w v) \<le> f'" "length ?j < f'"
    using 3(5) by (cases f) (auto simp: p m_def)
  have V: "parse_value f' (w v @ CHR '','' # sp @ ?j @ b @ CHR ''}'' # rest) =
      Some (v, CHR '','' # sp @ ?j @ b @ CHR ''}'' # rest)"
    using f 3(3)[of p "CHR '','' # sp @ ?j @ b @ CHR ''}'' # rest" f'] by (simp add: p)
  have S: "skip_ws (?j @ b @ CHR ''}'' # rest) = ?j @ b @ CHR ''}'' # rest"
    by (cases q; cases zs) (simp_all add: m_def json_str_def json_ws_def)
  have W: "skip_ws (w v @ r) = w v @ r" for r
    using assms(3)[of v] by (auto simp: value_start_def)
  have "parse_members f' (?j @ b @ CHR ''}'' # rest) = Some (q # zs, rest)"
    using 3(3) f by (intro 3(2)) auto
  moreover have "py_join (CHR '','' # sp) (map m (p # q # zs)) @ b @ CHR ''}'' # rest =
      CHR 0x22 # concat (map json_char k) @ CHR 0x22 # CHR '':'' # CHR '' '' # w v @ CHR '','' # sp @ ?j @ b @ CHR ''}'' # rest"
    by (simp add: p m_def json_str_def)
  ultimately show ?case
    using V S W assms(4) by (simp add: p f parse_members.simps(2) parse_string_body json_ws_def)
qed

lemma parse_value_write:
  assumes "\<And>l. all_ws (brk l)" and "\<And>l. all_ws (sep l)"
  shows "wf_json v \<Longrightarrow> num_end rest \<Longrightarrow> length (json_write brk sep l v) \<le> f \<Longrightarrow>
   parse_value f (json_write brk sep l v @ rest) = Some (v, rest)"
proof (induction v arbitrary: f rest l)
  case JNull
  then show ?case by (cases f) (simp_all add: parse_value.simps(2) py_startswith_def)
next
  case (JBool b)
  then show ?case by (cases b; cases f) (auto simp: parse_value.simps(2) py_startswith_def)
next
  case (JNum i)
  then show ?case by (simp add: parse_value_JNum)
next
  case (JStr s)
  then have "0 < f" by (simp add: json_str_def)
  then show ?case by (simp add: parse_value_JStr)
next
  case (JList xs)
  obtain f' where f: "f = Suc f'" using JList.prems(3) by (cases f) (auto split: if_splits)
  show ?case
  proof (cases "xs = []")
    case True
    then show ?thesis by (simp add: f parse_value.simps(2) json_ws_def)
  next
    case False
    let ?w = "json_write brk sep (Suc l)"
    let ?j = "py_join (CHR '','' # sep (Suc l)) (map ?w xs)"
    have E: "parse_elems f' (?j @ brk l @ CHR '']'' # rest) = Some (xs, rest)"
      using JList False f assms json_write_start by (intro parse_elems_join) auto
    obtain x ys where xs: "xs = x # ys" using False by (cases xs) auto
    obtain c s where c: "?w x = c # s" "value_start c" using json_write_start by blast
    then obtain s' where "?j = c # s'" by (cases ys) (auto simp: xs)
    then show ?thesis
      using E c(2) False assms(1) by (simp add: f parse_value.simps(2) value_start_def)
  qed
next
  case (JDict d)
  obtain f' where f: "f = Suc f'" using JDict.prems(3) by (cases f) (auto split: if_splits)
  show ?case
  proof (cases "d = []")
    case True
    then show ?thesis by (simp add: f parse_value.simps(2) json_ws_def)
  next
    case False
    let ?j = "py_join (CHR '','' # sep (Suc l)) (map (\<lambda>(k, v). json_str k @ '': '' @ json_write brk sep (Suc l) v) d)"
    have E: "parse_members f' (?j @ brk l @ CHR ''}'' # rest) = Some (d, rest)"
      using JDict False f assms json_write_start by (intro parse_members_join) (auto simp: snds.simps)
    obtain s' where "?j = CHR 0x22 # s'"
      using False by (cases d rule: remdups_adj.cases) (auto simp: json_str_def)
    then show ?thesis
      using E JDict.prems(1) False assms(1) by (simp add: f parse_value.simps(2) json_ws_def dmerge_distinct)
  qed
qed

lemma json_loads_write:
  assumes "\<And>l. all_ws (brk l)" and "\<And>l. all_ws (sep l)" and "wf_json v"
  shows "json_loads (json_write brk sep l v) = Some v"
  using parse_value_write[of brk sep v "[]" l "Suc (length (json_write brk sep l v))"] assms
    skip_ws_write[of brk sep l v "[]"]
  by (simp add: json_loads_def)

lemma json_loads_dumps: "wf_json v \<Longrightarrow> json_loads (json_dumps v) = Some v"
  using json_loads_write[of "\<lambda>_. []" "\<lambda>_. '' ''" v] by (simp add: json_dumps_write)

lemma json_loads_indent: "wf_json v \<Longrightarrow> json_loads (json_dumps_indent v) = Some v"
  by (simp add: json_dumps_indent_def json_loads_write)

end
