(* ===== verification/Stores.thy ===== *)
theory Stores
  imports JsonText
begin

text \<open>
  The file stores (\<open>kun_runtime/stores.py\<close>).  A directory is its files in listing order, each with its
  modification time and its text; a write is the text that \<open>json.dumps\<close> produces and a read parses the
  text again, line by line for the append-only session files.  The interface \<open>record_store\<close> is what the
  services rely on; the session store refines one list of items per file as long as no text holds the
  character \<open>0x85\<close> (NEL), which \<open>json.dumps(ensure_ascii=False)\<close> writes and \<open>str.splitlines\<close> splits at.
\<close>

definition safe_id :: "pystr \<Rightarrow> pystr" where
  "safe_id s = py_replace_ch (CHR ''/'') (CHR ''_'') (py_replace_ch (CHR 0x5C) (CHR ''_'') s)"

lemma safe_id_no_sep: "CHR ''/'' \<notin> set (safe_id s) \<and> CHR 0x5C \<notin> set (safe_id s)"
  unfolding safe_id_def by (simp add: set_py_replace_ch py_replace_ch_keep)

subsection \<open>Thread records\<close>

record stored_file =
  mtime :: nat
  content :: pystr

type_synonym thread_dir = "(pystr \<times> stored_file) list"

definition thread_path :: "pystr \<Rightarrow> pystr" where
  "thread_path tid = safe_id tid @ ''.json''"

definition thread_get :: "pystr \<Rightarrow> thread_dir \<Rightarrow> json option" where
  "thread_get tid dir =
     (case map_of dir (thread_path tid) of
        None \<Rightarrow> None
      | Some f \<Rightarrow> (case json_loads (content f) of None \<Rightarrow> None | Some v \<Rightarrow> Some v))"

definition record_id :: "dict \<Rightarrow> pystr" where
  "record_id r = py_str (dget_or r ''id'' (JStr ''''))"

text \<open>The temporary file is renamed over the target, so the write is one step; \<open>now\<close> is its time.\<close>

definition thread_upsert :: "nat \<Rightarrow> dict \<Rightarrow> thread_dir \<Rightarrow> thread_dir result" where
  "thread_upsert now r dir =
     (if record_id r = '''' then Inl (ValueError ''thread record must have a non-empty id'')
      else Inr (AList.update (thread_path (record_id r))
                  \<lparr>mtime = now, content = json_dumps_indent (JDict r)\<rparr> dir))"

definition thread_delete :: "pystr \<Rightarrow> thread_dir \<Rightarrow> bool \<times> thread_dir" where
  "thread_delete tid dir =
     (if map_of dir (thread_path tid) = None then (False, dir)
      else (True, filter (\<lambda>p. fst p \<noteq> thread_path tid) dir))"

text \<open>Newest first; files of the same time stay in listing order.\<close>

definition thread_list :: "thread_dir \<Rightarrow> dict list" where
  "thread_list dir =
     concat (map (\<lambda>(_, f). case json_loads (content f) of
                    Some (JDict d) \<Rightarrow> if truthy (dget_null d ''id'') then [d] else []
                  | _ \<Rightarrow> [])
       (sort_key (\<lambda>(_, f). - int (mtime f)) (filter (\<lambda>(n, _). py_endswith n ''.json'') dir)))"

subsection \<open>The interface of a keyed record store\<close>

text \<open>\<open>key\<close> is where an identifier is stored; two identifiers with the same key share a record.\<close>

locale record_store =
  fixes get :: "pystr \<Rightarrow> 's \<Rightarrow> json option"
    and put :: "dict \<Rightarrow> 's \<Rightarrow> 's result"
    and del :: "pystr \<Rightarrow> 's \<Rightarrow> bool \<times> 's"
    and key :: "pystr \<Rightarrow> pystr"
    and rid :: "dict \<Rightarrow> pystr"
  assumes put_defined: "rid r \<noteq> '''' \<Longrightarrow> \<exists>s'. put r s = Inr s'"
    and put_get: "wf_json (JDict r) \<Longrightarrow> put r s = Inr s' \<Longrightarrow>
      get tid s' = (if key tid = key (rid r) then Some (JDict r) else get tid s)"
    and del_get: "get tid (snd (del tid' s)) = (if key tid = key tid' then None else get tid s)"
begin

fun puts :: "dict list \<Rightarrow> 's \<Rightarrow> 's result" where
  "puts [] s = Inr s"
| "puts (r # rs) s = bind_result (put r s) (puts rs)"

lemma last_write_wins:
  "puts rs s = Inr s' \<Longrightarrow> \<forall>r \<in> set rs. wf_json (JDict r) \<Longrightarrow>
   get tid s' = (case filter (\<lambda>r. key (rid r) = key tid) rs of [] \<Rightarrow> get tid s | ms \<Rightarrow> Some (JDict (last ms)))"
proof (induction rs arbitrary: s)
  case Nil
  then show ?case by simp
next
  case (Cons r rs)
  then obtain s1 where 1: "put r s = Inr s1" "puts rs s1 = Inr s'" by auto
  have "get tid s' = (case filter (\<lambda>r. key (rid r) = key tid) rs of [] \<Rightarrow> get tid s1
      | ms \<Rightarrow> Some (JDict (last ms)))"
    using Cons 1(2) by simp
  then show ?case using put_get[OF _ 1(1), of tid] Cons.prems(2) by (auto split: list.splits)
qed

lemma put_other: "wf_json (JDict r) \<Longrightarrow> put r s = Inr s' \<Longrightarrow> key tid \<noteq> key (rid r) \<Longrightarrow> get tid s' = get tid s"
  by (simp add: put_get)

lemma put_same: "wf_json (JDict r) \<Longrightarrow> put r s = Inr s' \<Longrightarrow> get (rid r) s' = Some (JDict r)"
  by (simp add: put_get)

end

lemma map_of_filter_fst: "map_of (filter (\<lambda>p. fst p \<noteq> k) d) k' = (if k' = k then None else map_of d k')"
  by (induction d) auto

interpretation threads: record_store thread_get "thread_upsert now" thread_delete thread_path record_id for now
proof unfold_locales
  fix r :: dict and s :: thread_dir
  show "record_id r \<noteq> '''' \<Longrightarrow> \<exists>s'. thread_upsert now r s = Inr s'" by (simp add: thread_upsert_def)
next
  fix r :: dict and s s' :: thread_dir and tid
  assume "wf_json (JDict r)" "thread_upsert now r s = Inr s'"
  then show "thread_get tid s' = (if thread_path tid = thread_path (record_id r) then Some (JDict r) else thread_get tid s)"
    by (auto simp: thread_upsert_def thread_get_def update_conv' json_loads_indent split: if_splits)
next
  fix tid tid' and s :: thread_dir
  show "thread_get tid (snd (thread_delete tid' s)) = (if thread_path tid = thread_path tid' then None else thread_get tid s)"
    by (auto simp: thread_delete_def thread_get_def map_of_filter_fst)
qed

text \<open>The file name does not determine the identifier: the sanitisation merges separators.\<close>

lemma thread_path_collides: "thread_path ''a/b'' = thread_path ''a_b''"
  by (simp add: thread_path_def safe_id_def py_replace_ch_def)

lemma thread_path_inj_on:
  assumes "CHR ''/'' \<notin> set s" "CHR 0x5C \<notin> set s" "CHR ''/'' \<notin> set t" "CHR 0x5C \<notin> set t"
  shows "thread_path s = thread_path t \<longleftrightarrow> s = t"
proof -
  have "safe_id u = u" if "CHR ''/'' \<notin> set u" "CHR 0x5C \<notin> set u" for u
    using that unfolding safe_id_def py_replace_ch_def by (induction u) auto
  with assms show ?thesis by (simp add: thread_path_def)
qed

subsection \<open>Session files\<close>

type_synonym session_dir = "pystr \<rightharpoonup> pystr"

definition items_path :: "pystr \<Rightarrow> pystr" where
  "items_path tid = safe_id tid @ ''.jsonl''"

definition events_path :: "pystr \<Rightarrow> pystr" where
  "events_path tid = safe_id tid @ ''.events.jsonl''"

text \<open>The dictionaries among the lines of a text: blank lines, unreadable lines and other values are
  skipped.\<close>

definition parse_line :: "pystr \<Rightarrow> dict list" where
  "parse_line line =
     (let l = py_strip line
      in if l = '''' then [] else (case json_loads l of Some (JDict d) \<Rightarrow> [d] | _ \<Rightarrow> []))"

definition parse_lines :: "pystr \<Rightarrow> dict list" where
  "parse_lines text = concat (map parse_line (py_splitlines text))"

definition load_items :: "pystr \<Rightarrow> session_dir \<Rightarrow> dict list" where
  "load_items tid fs = (case fs (items_path tid) of None \<Rightarrow> [] | Some text \<Rightarrow> parse_lines text)"

definition dump_line :: "dict \<Rightarrow> pystr" where
  "dump_line item = json_dumps (JDict item) @ [CHR 0x0A]"

definition append_file :: "pystr \<Rightarrow> pystr \<Rightarrow> session_dir \<Rightarrow> session_dir" where
  "append_file path text fs = fs(path \<mapsto> (case fs path of None \<Rightarrow> '''' | Some t \<Rightarrow> t) @ text)"

definition append_item :: "pystr \<Rightarrow> dict \<Rightarrow> session_dir \<Rightarrow> session_dir" where
  "append_item tid item fs = append_file (items_path tid) (dump_line item) fs"

definition rewrite_items :: "pystr \<Rightarrow> dict list \<Rightarrow> session_dir \<Rightarrow> session_dir" where
  "rewrite_items tid items fs = fs(items_path tid \<mapsto> concat (map dump_line items))"

text \<open>The loop over the items: the first one with the id is replaced by \<open>{**item, **patch}\<close>.\<close>

fun patch_first :: "pystr \<Rightarrow> dict \<Rightarrow> dict list \<Rightarrow> dict option \<times> dict list" where
  "patch_first iid patch [] = (None, [])"
| "patch_first iid patch (item # items) =
     (if dget_null item ''id'' = JStr iid
      then (Some (dmerge item patch), dmerge item patch # items)
      else (case patch_first iid patch items of (u, items') \<Rightarrow> (u, item # items')))"

definition update_item :: "pystr \<Rightarrow> pystr \<Rightarrow> dict \<Rightarrow> session_dir \<Rightarrow> dict option \<times> session_dir" where
  "update_item tid iid patch fs =
     (case patch_first iid patch (load_items tid fs) of
        (None, _) \<Rightarrow> (None, fs)
      | (Some u, items) \<Rightarrow> (Some u, rewrite_items tid items fs))"

definition append_event :: "pystr \<Rightarrow> dict \<Rightarrow> session_dir \<Rightarrow> session_dir" where
  "append_event tid event fs = append_file (events_path tid) (dump_line event) fs"

definition load_events_since :: "pystr \<Rightarrow> int \<Rightarrow> session_dir \<Rightarrow> dict list" where
  "load_events_since tid since fs =
     (case fs (events_path tid) of None \<Rightarrow> []
      | Some text \<Rightarrow>
          filter (\<lambda>d. case as_int (dget_or d ''seq'' (JNum 0)) of None \<Rightarrow> False | Some n \<Rightarrow> since < n)
            (parse_lines text))"

subsection \<open>Lines\<close>

definition nel :: char where
  "nel = CHR 0x85"

text \<open>A dictionary that a line can hold: its text is written without the character NEL.\<close>

definition storable :: "dict \<Rightarrow> bool" where
  "storable d \<longleftrightarrow> wf_json (JDict d) \<and> nel \<notin> set (json_dumps (JDict d))"

lemma json_char_ge: "c \<in> set (json_char x) \<Longrightarrow> 32 \<le> (of_char c :: nat)"
proof -
  assume c: "c \<in> set (json_char x)"
  have "32 \<le> (of_char (hex_digit n) :: nat)" if "n < 16" for n
    using that by (auto simp: hex_digit_def)
  moreover have "(of_char x :: nat) div 16 < 16" by (rule less_mult_imp_div_less) simp
  ultimately show ?thesis
    using c by (auto simp: json_char_def Let_def split: if_splits)
qed

lemma set_py_join: "set (py_join sep xs) \<subseteq> set sep \<union> (\<Union>x \<in> set xs. set x)"
  by (induction sep xs rule: py_join.induct) auto

lemma json_str_ge: "c \<in> set (json_str s) \<Longrightarrow> 32 \<le> (of_char c :: nat)"
  using json_char_ge by (auto simp: json_str_def)

lemma json_dumps_ge: "c \<in> set (json_dumps v) \<Longrightarrow> 32 \<le> (of_char c :: nat)"
proof (induction v arbitrary: c)
  case (JBool b)
  then show ?case by (cases b) auto
next
  case (JNum i)
  then have "c = CHR ''-'' \<or> (\<exists>n. c \<in> set (nat_str n))" by (auto simp: int_str_def split: if_splits)
  moreover have "32 \<le> (of_char c :: nat)" if "c \<in> set (nat_str n)" for n
    using nat_str_digits[OF that] by (simp add: py_isdigit_def Let_def)
  ultimately show ?case by auto
next
  case (JStr s)
  then show ?case by (simp add: json_str_ge)
next
  case (JList xs)
  then have "c \<in> {CHR ''['', CHR '']'', CHR '','', CHR '' ''} \<or> (\<exists>x \<in> set xs. c \<in> set (json_dumps x))"
    using set_py_join[of "'', ''" "map json_dumps xs"] by auto
  then show ?case using JList.IH by auto
next
  case (JDict d)
  let ?m = "\<lambda>(k, v). json_str k @ '': '' @ json_dumps v"
  have "c \<in> {CHR ''{'', CHR ''}'', CHR '','', CHR '' ''} \<or> (\<exists>p \<in> set d. c \<in> set (?m p))"
    using JDict.prems set_py_join[of "'', ''" "map ?m d"] by auto
  then show ?case using JDict.IH json_str_ge by (fastforce simp: snds.simps)
qed auto

lemma storable_no_break:
  assumes "storable d" and "c \<in> set (json_dumps (JDict d))"
  shows "\<not> py_linebreak c"
proof
  assume "py_linebreak c"
  moreover have "32 \<le> (of_char c :: nat)" using json_dumps_ge assms(2) by blast
  ultimately have "(of_char c :: nat) = 133" by (auto simp: py_linebreak_def Let_def)
  then have "c = nel" using char_eq_of[of c 133] char_eq_of[of nel 133] by (simp add: nel_def)
  with assms show False by (simp add: storable_def)
qed

lemma strip_braces: "py_strip (CHR ''{'' # s @ [CHR ''}'']) = CHR ''{'' # s @ [CHR ''}'']"
  by (simp add: py_strip_def py_rstrip_of_def py_isspace_def)

lemma strip_dumps: "py_strip (json_dumps (JDict d)) = json_dumps (JDict d)"
  using strip_braces by simp

lemma parse_line_dumps: "storable d \<Longrightarrow> parse_line (json_dumps (JDict d)) = [d]"
  using json_loads_dumps[of "JDict d"]
  by (simp add: parse_line_def strip_dumps storable_def Let_def del: json_dumps.simps) simp

lemma parse_lines_dumps: "storable d \<Longrightarrow> parse_lines (dump_line d @ rest) = d # parse_lines rest"
  using splitlines_line[of "json_dumps (JDict d)" rest] storable_no_break[of d]
  by (simp add: parse_lines_def dump_line_def parse_line_dumps del: json_dumps.simps)

lemma parse_lines_all:
  "\<forall>d \<in> set items. storable d \<Longrightarrow> parse_lines (concat (map dump_line items)) = items"
proof (induction items)
  case Nil
  then show ?case by (simp add: parse_lines_def py_splitlines_def py_splitlines_keep_def)
next
  case (Cons d items)
  then show ?case by (simp add: parse_lines_dumps)
qed

subsection \<open>Refinement: a session is one list of items\<close>

text \<open>The abstract store: the items of each file.\<close>

datatype session_op =
    AppendItem pystr dict
  | UpdateItem pystr pystr dict
  | RewriteItems pystr "dict list"

fun session_act :: "session_op \<Rightarrow> session_dir \<Rightarrow> session_dir" where
  "session_act (AppendItem tid item) fs = append_item tid item fs"
| "session_act (UpdateItem tid iid patch) fs = snd (update_item tid iid patch fs)"
| "session_act (RewriteItems tid items) fs = rewrite_items tid items fs"

fun abs_act :: "session_op \<Rightarrow> (pystr \<Rightarrow> dict list) \<Rightarrow> pystr \<Rightarrow> dict list" where
  "abs_act (AppendItem tid item) A = A(safe_id tid := A (safe_id tid) @ [item])"
| "abs_act (UpdateItem tid iid patch) A = A(safe_id tid := snd (patch_first iid patch (A (safe_id tid))))"
| "abs_act (RewriteItems tid items) A = A(safe_id tid := items)"

fun storable_op :: "session_op \<Rightarrow> bool" where
  "storable_op (AppendItem _ item) = storable item"
| "storable_op (UpdateItem _ _ patch) = storable patch"
| "storable_op (RewriteItems _ items) = (\<forall>i \<in> set items. storable i)"

lemma items_path_iff [simp]: "items_path t = items_path u \<longleftrightarrow> safe_id t = safe_id u"
  by (simp add: items_path_def)

text \<open>A dictionary is storable exactly when its entries are.\<close>

definition storable_entry :: "pystr \<times> json \<Rightarrow> bool" where
  "storable_entry p \<longleftrightarrow> wf_json (snd p) \<and> nel \<notin> set (json_str (fst p)) \<and> nel \<notin> set (json_dumps (snd p))"

lemma nel_join: "nel \<notin> set (py_join '', '' xs) \<longleftrightarrow> (\<forall>x \<in> set xs. nel \<notin> set x)"
  by (induction "'', ''" xs rule: py_join.induct) (auto simp: nel_def)

lemma storable_iff: "storable d \<longleftrightarrow> distinct (map fst d) \<and> (\<forall>p \<in> set d. storable_entry p)"
proof -
  have "nel \<notin> set (json_dumps (JDict d)) \<longleftrightarrow>
      (\<forall>p \<in> set d. nel \<notin> set (json_str (fst p)) \<and> nel \<notin> set (json_dumps (snd p)))"
    by (simp add: nel_join) (auto simp: nel_def)
  then show ?thesis unfolding storable_def storable_entry_def by auto
qed

lemma storable_dset: "storable d \<Longrightarrow> storable_entry (k, v) \<Longrightarrow> storable (dset k v d)"
proof -
  assume d: "storable d" and e: "storable_entry (k, v)"
  have "set (AList.update k v d) \<subseteq> insert (k, v) (set d)"
    by (induction d) auto
  then show ?thesis
    using d e by (auto simp: storable_iff dset_def distinct_update)
qed

lemma storable_dmerge: "storable d \<Longrightarrow> storable e \<Longrightarrow> storable (dmerge d e)"
proof (induction e arbitrary: d)
  case Nil
  then show ?case by simp
next
  case (Cons p e)
  obtain k v where p: "p = (k, v)" by (cases p)
  have "storable_entry (k, v)" "storable e" using Cons.prems(2) by (auto simp: storable_iff p)
  then show ?case using Cons.IH storable_dset[OF Cons.prems(1)] by (simp add: p)
qed

lemma patch_first_storable:
  "\<forall>i \<in> set items. storable i \<Longrightarrow> storable patch \<Longrightarrow> \<forall>i \<in> set (snd (patch_first iid patch items)). storable i"
  by (induction iid patch items rule: patch_first.induct) (auto simp: storable_dmerge split: prod.splits)

lemma patch_first_None: "fst (patch_first iid patch items) = None \<Longrightarrow> snd (patch_first iid patch items) = items"
  by (induction iid patch items rule: patch_first.induct) (auto split: prod.splits if_splits)

text \<open>The text of the items file of a thread, empty when there is none.\<close>

definition items_text :: "session_dir \<Rightarrow> pystr \<Rightarrow> pystr" where
  "items_text fs tid = (case fs (items_path tid) of None \<Rightarrow> '''' | Some t \<Rightarrow> t)"

lemma parse_lines_empty: "parse_lines '''' = []"
  using parse_lines_all[of "[]"] by simp

lemma load_items_text: "load_items tid fs = parse_lines (items_text fs tid)"
  by (simp add: load_items_def items_text_def parse_lines_empty split: option.split)

lemma items_text_append:
  "items_text (append_item tid item fs) t =
     (if safe_id t = safe_id tid then items_text fs t @ dump_line item else items_text fs t)"
  using items_path_iff[of t tid]
  by (auto simp: items_text_def append_item_def append_file_def simp del: items_path_iff split: option.splits)

lemma items_text_rewrite:
  "items_text (rewrite_items tid items fs) t =
     (if safe_id t = safe_id tid then concat (map dump_line items) else items_text fs t)"
  by (simp add: items_text_def rewrite_items_def)

text \<open>The files hold the abstract store.\<close>

definition session_rel :: "session_dir \<Rightarrow> (pystr \<Rightarrow> dict list) \<Rightarrow> bool" where
  "session_rel fs A \<longleftrightarrow> (\<forall>tid. items_text fs tid = concat (map dump_line (A (safe_id tid))) \<and>
     (\<forall>i \<in> set (A (safe_id tid)). storable i))"

lemma session_rel_load: "session_rel fs A \<Longrightarrow> load_items tid fs = A (safe_id tid)"
  using parse_lines_all[of "A (safe_id tid)"] by (simp add: session_rel_def load_items_text)

lemma session_rel_rewrite:
  "session_rel fs A \<Longrightarrow> \<forall>i \<in> set items. storable i \<Longrightarrow>
   session_rel (rewrite_items tid items fs) (A(safe_id tid := items))"
  by (simp add: session_rel_def items_text_rewrite)

lemma session_act_rel:
  assumes "session_rel fs A" and "storable_op a"
  shows "session_rel (session_act a fs) (abs_act a A)"
proof (cases a)
  case (AppendItem tid item)
  then show ?thesis
    using assms by (simp add: session_rel_def items_text_append)
next
  case (UpdateItem tid iid patch)
  obtain u items where P: "patch_first iid patch (A (safe_id tid)) = (u, items)" by fastforce
  have st: "\<forall>i \<in> set items. storable i"
  proof -
    have "\<forall>i \<in> set (A (safe_id tid)). storable i" using assms(1) unfolding session_rel_def by blast
    moreover have "storable patch" using assms(2) UpdateItem by simp
    ultimately show ?thesis using patch_first_storable[of "A (safe_id tid)" patch iid] P by simp
  qed
  show ?thesis
  proof (cases u)
    case None
    with P have "items = A (safe_id tid)" using patch_first_None[of iid patch "A (safe_id tid)"] by simp
    then show ?thesis
      using assms P None UpdateItem by (simp add: update_item_def session_rel_load fun_upd_idem)
  next
    case (Some x)
    then show ?thesis
      using assms P UpdateItem session_rel_rewrite[OF assms(1) st, of tid]
      by (simp add: update_item_def session_rel_load)
  qed
next
  case (RewriteItems tid items)
  then show ?thesis using assms session_rel_rewrite by simp
qed

text \<open>C20. The session store keeps lists of items: starting from no files, after any appends, updates
  and rewrites whose texts are free of the character NEL, loading a thread returns exactly the items
  that the same operations give on plain lists, in order, with every value intact.\<close>

theorem session_store_refines:
  assumes "\<forall>a \<in> set acts. storable_op a"
  shows "load_items tid (fold session_act acts Map.empty) = fold abs_act acts (\<lambda>_. []) (safe_id tid)"
proof -
  have "session_rel (fold session_act acts fs) (fold abs_act acts A)" if "session_rel fs A" for fs A
    using that assms by (induction acts arbitrary: fs A) (auto intro: session_act_rel)
  moreover have "session_rel Map.empty (\<lambda>_. [])" by (simp add: session_rel_def items_text_def)
  ultimately show ?thesis by (blast intro: session_rel_load)
qed

theorem session_store_refines_witness:
  "load_items ''t'' (fold session_act
      [AppendItem ''t'' [(''id'', JStr ''a''), (''text'', JStr [CHR 0x22, CHR 0x0A])],
       UpdateItem ''t'' ''a'' [(''status'', JStr ''done'')]] Map.empty) =
   [[(''id'', JStr ''a''), (''text'', JStr [CHR 0x22, CHR 0x0A]), (''status'', JStr ''done'')]]"
proof -
  let ?acts = "[AppendItem ''t'' [(''id'', JStr ''a''), (''text'', JStr [CHR 0x22, CHR 0x0A])],
       UpdateItem ''t'' ''a'' [(''status'', JStr ''done'')]]"
  have "\<forall>a \<in> set ?acts. storable_op a"
    by (simp add: storable_def nel_def json_str_def json_char_def Let_def)
  from session_store_refines[OF this, of "''t''"] show ?thesis
    by (simp add: safe_id_def py_replace_ch_def dset_def)
qed

text \<open>An item whose text holds NEL is written, and no longer found by the next load: its line is cut in
  two and neither half is a JSON text.\<close>

theorem nel_item_is_lost:
  "load_items ''t'' (append_item ''t'' [(''id'', JStr ''i''), (''text'', JStr [nel])] Map.empty) = []"
  by (simp add: load_items_def append_item_def append_file_def items_path_def safe_id_def py_replace_ch_def
      dump_line_def parse_lines_def parse_line_def nel_def json_str_def json_char_def py_splitlines_def
      py_splitlines_keep_def py_linebreak_def py_strip_def py_rstrip_of_def py_isspace_def json_loads_def
      parse_value.simps parse_members.simps skip_ws_def json_ws_def Let_def)

subsection \<open>Thread records: laws\<close>

lemma hd_sort_key:
  fixes f :: "'a \<Rightarrow> 'b::linorder"
  assumes "x \<in> set xs" and "\<And>y. y \<in> set xs \<Longrightarrow> y \<noteq> x \<Longrightarrow> f x < f y"
  shows "hd (sort_key f xs) = x"
proof -
  obtain z zs where S: "sort_key f xs = z # zs"
    using assms(1) by (metis list.exhaust list.set_cases set_empty set_sort sort_key_simps(1) empty_iff)
  have "sorted (map f (z # zs))" using sorted_sort_key[of f xs] S by simp
  moreover have "x \<in> set (z # zs)" "z \<in> set xs" using assms(1) S by (metis set_sort list.set_intros(1))+
  ultimately have "f z \<le> f x" by auto
  then show ?thesis using assms(2)[OF \<open>z \<in> set xs\<close>] S by (cases "z = x") auto
qed

text \<open>C38. Thread records are kept: after a successful write every identifier of the same file reads
  exactly the record written and every other one reads what it read before; the record comes first in
  the listing when it is the newest; and deleting it makes it unreadable again and touches no other.  The
  write is refused exactly when the identifier is empty.\<close>

theorem thread_store_laws:
  assumes "wf_json (JDict r)" and "distinct (map fst dir)"
    and "\<forall>(n, f) \<in> set dir. mtime f < now"
  shows "case thread_upsert now r dir of
      Inl e \<Rightarrow> record_id r = '''' \<and> e = ValueError ''thread record must have a non-empty id''
    | Inr dir' \<Rightarrow> record_id r \<noteq> ''''
        \<and> thread_get tid dir' =
            (if thread_path tid = thread_path (record_id r) then Some (JDict r) else thread_get tid dir)
        \<and> (truthy (dget_null r ''id'') \<longrightarrow> hd (thread_list dir') = r)
        \<and> fst (thread_delete (record_id r) dir')
        \<and> thread_get tid (snd (thread_delete (record_id r) dir')) =
            (if thread_path tid = thread_path (record_id r) then None else thread_get tid dir)"
proof (cases "record_id r = ''''")
  case True
  then show ?thesis by (simp add: thread_upsert_def)
next
  case False
  let ?p = "thread_path (record_id r)" and ?f = "\<lparr>mtime = now, content = json_dumps_indent (JDict r)\<rparr>"
  obtain dir' where U: "thread_upsert now r dir = Inr dir'" and dir': "dir' = AList.update ?p ?f dir"
    using False by (simp add: thread_upsert_def)
  have mem: "(n, f) \<in> set dir' \<Longrightarrow> (n, f) = (?p, ?f) \<or> (n, f) \<in> set dir" for n f
    unfolding dir' by (induction dir) (auto split: if_splits)
  have "(?p, ?f) \<in> set dir'" unfolding dir' by (induction dir) auto
  moreover have "py_endswith ?p ''.json''" by (auto simp: thread_path_def py_endswith_def suffix_def)
  ultimately have "hd (sort_key (\<lambda>(_, f). - int (mtime f)) (filter (\<lambda>(n, _). py_endswith n ''.json'') dir')) = (?p, ?f)"
    using mem assms(3) by (intro hd_sort_key) fastforce+
  moreover have "sort_key (\<lambda>(_, f). - int (mtime f)) (filter (\<lambda>(n, _). py_endswith n ''.json'') dir') \<noteq> []"
  proof -
    have "(?p, ?f) \<in> set (filter (\<lambda>(n, _). py_endswith n ''.json'') dir')"
      using \<open>(?p, ?f) \<in> set dir'\<close> \<open>py_endswith ?p ''.json''\<close> by simp
    then show ?thesis by (metis empty_iff empty_set set_sort)
  qed
  ultimately have "hd (thread_list dir') = r" if "truthy (dget_null r ''id'')"
    using that assms(1) unfolding thread_list_def
    by (cases "sort_key (\<lambda>(_, f). - int (mtime f)) (filter (\<lambda>(n, _). py_endswith n ''.json'') dir')")
      (auto simp: json_loads_indent)
  moreover have "fst (thread_delete (record_id r) dir')"
    by (simp add: thread_delete_def dir' update_conv')
  ultimately show ?thesis
    using False U threads.put_get[OF assms(1) U] threads.del_get[of tid "record_id r" dir'] by simp
qed

theorem thread_store_laws_witness:
  "case thread_upsert 5 [(''id'', JStr ''t1''), (''title'', JStr ''x'')] [] of Inl e \<Rightarrow> False
   | Inr d \<Rightarrow> thread_get ''t1'' d = Some (JDict [(''id'', JStr ''t1''), (''title'', JStr ''x'')])
       \<and> hd (thread_list d) = [(''id'', JStr ''t1''), (''title'', JStr ''x'')]"
  using thread_store_laws[of "[(''id'', JStr ''t1''), (''title'', JStr ''x'')]" "[]" 5 "''t1''"]
  by (simp add: record_id_def split: sum.splits)

end
