(* ===== verification/Services.thy ===== *)
theory Services
  imports Stores EventBus TurnGuards
begin

text \<open>
  The thread and turn services (\<open>kun_runtime/thread_service.py\<close>, \<open>kun_runtime/turn_service.py\<close>) over
  the stores, the event bus and the in-flight tracker.  A method is an \<open>'a act\<close>: it returns or
  raises, and leaves a new state either way, since an exception does not undo what was written before it.
  The clock and \<open>uuid4\<close> are an environment that gives the n-th reading; file times count with the clock.
\<close>

subsection \<open>State and actions\<close>

record env =
  iso :: "nat \<Rightarrow> pystr"
  uid :: "nat \<Rightarrow> pystr"

record kun =
  k_threads :: thread_dir
  k_sessions :: session_dir
  k_bus :: event_bus
  k_inflight :: inflight
  k_tokens :: "pystr set"
  k_cancelled :: "pystr set"
  k_steering :: "pystr \<rightharpoonup> pystr list"
  k_tick :: nat

text \<open>\<open>k_tokens\<close> is the table of abort tokens by turn; \<open>k_cancelled\<close> the turns whose token is set,
  which the loop still sees on the object after the table has dropped it.\<close>

type_synonym 'a act = "kun \<Rightarrow> 'a result \<times> kun"

definition ret :: "'a \<Rightarrow> 'a act" where
  "ret x k = (Inr x, k)"

definition raise :: "py_error \<Rightarrow> 'a act" where
  "raise e k = (Inl e, k)"

definition and_then :: "'a act \<Rightarrow> ('a \<Rightarrow> 'b act) \<Rightarrow> 'b act" where
  "and_then m f k = (case m k of (Inl e, k1) \<Rightarrow> (Inl e, k1) | (Inr x, k1) \<Rightarrow> f x k1)"

definition modify :: "(kun \<Rightarrow> kun) \<Rightarrow> unit act" where
  "modify f k = (Inr (), f k)"

definition reads :: "(kun \<Rightarrow> 'a) \<Rightarrow> 'a act" where
  "reads f k = (Inr (f k), k)"

definition now_iso :: "env \<Rightarrow> pystr act" where
  "now_iso env k = (Inr (iso env (k_tick k)), k\<lparr>k_tick := Suc (k_tick k)\<rparr>)"

definition new_id :: "env \<Rightarrow> pystr \<Rightarrow> pystr act" where
  "new_id env pre k = (Inr (pre @ ''_'' @ uid env (k_tick k)), k\<lparr>k_tick := Suc (k_tick k)\<rparr>)"

definition put_thread :: "dict \<Rightarrow> unit act" where
  "put_thread r k = (case thread_upsert (k_tick k) r (k_threads k) of
      Inl e \<Rightarrow> (Inl e, k)
    | Inr dir \<Rightarrow> (Inr (), k\<lparr>k_threads := dir, k_tick := Suc (k_tick k)\<rparr>))"

text \<open>\<open>None\<close> also for a file that holds \<open>null\<close>; a file with another value that is no dictionary makes the
  caller fail at its first use.\<close>

definition read_thread :: "pystr \<Rightarrow> dict option act" where
  "read_thread tid k = (case thread_get tid (k_threads k) of
      None \<Rightarrow> (Inr None, k)
    | Some JNull \<Rightarrow> (Inr None, k)
    | Some (JDict d) \<Rightarrow> (Inr (Some d), k)
    | Some _ \<Rightarrow> (Inl (AttributeError ''get''), k))"

definition emit :: "env \<Rightarrow> dict \<Rightarrow> unit act" where
  "emit env ev k = (case record_event (iso env (k_tick k)) ev (k_bus k) of
      Inl e \<Rightarrow> (Inl e, k)
    | Inr (_, b) \<Rightarrow> (Inr (), k\<lparr>k_bus := b, k_tick := Suc (k_tick k)\<rparr>))"

definition add_item :: "pystr \<Rightarrow> dict \<Rightarrow> unit act" where
  "add_item tid item = modify (\<lambda>k. k\<lparr>k_sessions := append_item tid item (k_sessions k)\<rparr>)"

subsection \<open>The thread service\<close>

definition ALLOWED_UPDATE_FIELDS :: "pystr list" where
  "ALLOWED_UPDATE_FIELDS = [''title'', ''status'', ''mode'', ''approvalPolicy'', ''sandboxMode'',
     ''costBudgetUsd'', ''costBudgetWarningSent'', ''goal'', ''todos'']"

definition optional_field :: "pystr \<Rightarrow> dict \<Rightarrow> dict \<Rightarrow> dict" where
  "optional_field key opts r = (case dget opts key of
      None \<Rightarrow> r | Some JNull \<Rightarrow> r | Some v \<Rightarrow> dset key v r)"

definition need_field :: "dict \<Rightarrow> pystr \<Rightarrow> json act" where
  "need_field opts key = (case dget opts key of None \<Rightarrow> raise (KeyError key) | Some v \<Rightarrow> ret v)"

definition new_thread_record :: "dict \<Rightarrow> pystr \<Rightarrow> pystr \<Rightarrow> json \<Rightarrow> json \<Rightarrow> dict" where
  "new_thread_record opts now tid workspace model =
     optional_field ''todos'' opts (optional_field ''goal'' opts
      [(''id'', JStr tid),
       (''title'', dget_or opts ''title'' (JStr ''New Thread'')),
       (''workspace'', workspace),
       (''model'', model),
       (''mode'', dget_or opts ''mode'' (JStr ''agent'')),
       (''status'', dget_or opts ''status'' (JStr ''idle'')),
       (''approvalPolicy'', dget_or opts ''approvalPolicy'' (JStr ''auto'')),
       (''sandboxMode'', dget_or opts ''sandboxMode'' (JStr ''workspace-write'')),
       (''relation'', dget_or opts ''relation'' (JStr ''primary'')),
       (''costBudgetUsd'', dget_null opts ''costBudgetUsd''),
       (''costBudgetWarningSent'', JBool False),
       (''createdAt'', JStr now),
       (''updatedAt'', JStr now),
       (''turns'', JList [])])"

definition thread_create :: "env \<Rightarrow> dict \<Rightarrow> dict act" where
  "thread_create env opts =
     and_then (now_iso env) (\<lambda>now.
     and_then (new_id env ''thread'') (\<lambda>tid.
     and_then (need_field opts ''workspace'') (\<lambda>workspace.
     and_then (need_field opts ''model'') (\<lambda>model.
     let r = new_thread_record opts now tid workspace model
     in and_then (put_thread r) (\<lambda>_.
        and_then (emit env [(''kind'', JStr ''thread_created''), (''threadId'', JStr tid),
          (''title'', dget_null r ''title'')]) (\<lambda>_.
        ret r))))))"

definition clean_patch :: "dict \<Rightarrow> dict" where
  "clean_patch patch = filter (\<lambda>(k, _). k \<in> set ALLOWED_UPDATE_FIELDS) patch"

definition thread_update :: "env \<Rightarrow> pystr \<Rightarrow> dict \<Rightarrow> dict option act" where
  "thread_update env tid patch =
     and_then (read_thread tid) (\<lambda>rec.
     case rec of None \<Rightarrow> ret None
     | Some r \<Rightarrow>
        and_then (now_iso env) (\<lambda>now.
        let merged = dset ''updatedAt'' (JStr now) (dmerge r (clean_patch patch))
        in and_then (put_thread merged) (\<lambda>_.
           and_then (emit env [(''kind'', JStr ''thread_updated''), (''threadId'', JStr tid),
             (''title'', dget_null merged ''title''), (''status'', dget_null merged ''status'')]) (\<lambda>_.
           ret (Some merged)))))"

definition delete_thread :: "pystr \<Rightarrow> bool act" where
  "delete_thread tid k =
     (let (existed, dir) = thread_delete tid (k_threads k) in (Inr existed, k\<lparr>k_threads := dir\<rparr>))"

definition forked_record :: "dict \<Rightarrow> pystr \<Rightarrow> pystr \<Rightarrow> pystr \<Rightarrow> pystr option \<Rightarrow> pystr \<Rightarrow> dict" where
  "forked_record source tid new relation title now =
     dmerge source
      [(''id'', JStr new),
       (''title'', JStr (case title of Some (c # s) \<Rightarrow> c # s
          | _ \<Rightarrow> py_str (dget_or source ''title'' (JStr ''Thread'')) @ '' (fork)'')),
       (''status'', JStr ''idle''),
       (''relation'', JStr relation),
       (''parentThreadId'', JStr tid),
       (''forkedFromThreadId'', JStr tid),
       (''forkedFromTitle'', dget_null source ''title''),
       (''forkedAt'', JStr now),
       (''forkedFromMessageCount'', JNum (int (length (the_jlist (dget_or source ''turns'' (JList [])))))),
       (''forkedFromTurnCount'', JNum (int (length (the_jlist (dget_or source ''turns'' (JList [])))))),
       (''createdAt'', JStr now),
       (''updatedAt'', JStr now),
       (''turns'', JList [])]"

definition thread_fork :: "env \<Rightarrow> pystr \<Rightarrow> pystr \<Rightarrow> pystr option \<Rightarrow> dict act" where
  "thread_fork env tid relation title =
     and_then (read_thread tid) (\<lambda>rec.
     case rec of None \<Rightarrow> raise (ValueError (''thread not found: '' @ tid))
     | Some source \<Rightarrow>
        and_then (now_iso env) (\<lambda>now.
        and_then (new_id env ''thread'') (\<lambda>new.
        let forked = forked_record source tid new relation title now
        in and_then (put_thread forked) (\<lambda>_.
           and_then (emit env [(''kind'', JStr ''thread_created''), (''threadId'', JStr new),
             (''title'', dget_null forked ''title'')]) (\<lambda>_.
           ret forked)))))"

subsection \<open>Rules for actions\<close>

named_theorems act_simps \<open>the steps of an action\<close>

lemma act_basic [act_simps]:
  "ret x k = (Inr x, k)" "raise e k = (Inl e, k)" "modify f k = (Inr (), f k)" "reads g k = (Inr (g k), k)"
  by (simp_all add: ret_def raise_def modify_def reads_def)

lemma and_then_Inr [act_simps]: "m k = (Inr x, k1) \<Longrightarrow> and_then m f k = f x k1"
  by (simp add: and_then_def)

lemma and_then_Inl [act_simps]: "m k = (Inl e, k1) \<Longrightarrow> and_then m f k = (Inl e, k1)"
  by (simp add: and_then_def)

lemma now_new [act_simps]:
  "now_iso env k = (Inr (iso env (k_tick k)), k\<lparr>k_tick := Suc (k_tick k)\<rparr>)"
  "new_id env pre k = (Inr (pre @ ''_'' @ uid env (k_tick k)), k\<lparr>k_tick := Suc (k_tick k)\<rparr>)"
  by (simp_all add: now_iso_def new_id_def)

lemma wf_dset: "wf_json (JDict d) \<Longrightarrow> wf_json v \<Longrightarrow> wf_json (JDict (dset k v d))"
proof -
  assume d: "wf_json (JDict d)" and v: "wf_json v"
  have "set (AList.update k v d) \<subseteq> insert (k, v) (set d)"
    by (induction d) auto
  then show ?thesis using d v by (auto simp: dset_def distinct_update)
qed

lemma wf_dmerge: "wf_json (JDict d) \<Longrightarrow> \<forall>p \<in> set e. wf_json (snd p) \<Longrightarrow> wf_json (JDict (dmerge d e))"
proof (induction e arbitrary: d)
  case Nil
  then show ?case by simp
next
  case (Cons p e)
  obtain k v where "p = (k, v)" by (cases p)
  then show ?case using Cons wf_dset by (auto simp del: wf_json.simps)
qed

lemma wf_dget: "wf_json (JDict d) \<Longrightarrow> wf_json x \<Longrightarrow> wf_json (dget_or d k x)"
  by (auto simp: dget_or_def split: option.split dest!: map_of_SomeD)

lemma put_threadE:
  assumes "record_id r \<noteq> ''''" and "wf_json (JDict r)"
  obtains dir where "put_thread r k = (Inr (), k\<lparr>k_threads := dir, k_tick := Suc (k_tick k)\<rparr>)"
    and "\<And>tid. thread_get tid dir =
      (if thread_path tid = thread_path (record_id r) then Some (JDict r) else thread_get tid (k_threads k))"
proof -
  obtain dir where U: "thread_upsert (k_tick k) r (k_threads k) = Inr dir"
    using threads.put_defined[OF assms(1)] by blast
  have "put_thread r k = (Inr (), k\<lparr>k_threads := dir, k_tick := Suc (k_tick k)\<rparr>)"
    by (simp add: put_thread_def U)
  then show ?thesis using threads.put_get[OF assms(2) U] by (rule that)
qed

lemma emitE:
  assumes "event_thread ev \<noteq> ''''"
  obtains e b where "emit env ev k = (Inr (), k\<lparr>k_bus := b, k_tick := Suc (k_tick k)\<rparr>)"
    and "record_event (iso env (k_tick k)) ev (k_bus k) = Inr (e, b)"
    and "\<And>t. history b t 0 = (if t = event_thread ev then history (k_bus k) t 0 @ [e] else history (k_bus k) t 0)"
proof -
  obtain e b where R: "record_event (iso env (k_tick k)) ev (k_bus k) = Inr (e, b)"
    using bus.rec_total[OF assms] by blast
  have "emit env ev k = (Inr (), k\<lparr>k_bus := b, k_tick := Suc (k_tick k)\<rparr>)"
    by (simp add: emit_def R)
  then show ?thesis using R bus.rec_log[OF R] by (rule that)
qed

lemma read_thread_Some [act_simps]:
  "thread_get tid (k_threads k) = Some (JDict r) \<Longrightarrow> read_thread tid k = (Inr (Some r), k)"
  by (simp add: read_thread_def)

lemma read_thread_None [act_simps]:
  "thread_get tid (k_threads k) = None \<Longrightarrow> read_thread tid k = (Inr None, k)"
  by (simp add: read_thread_def)

lemma event_thread_simps [simp]:
  "event_thread ((''kind'', x) # (''threadId'', JStr t) # rest) = t"
  by (simp add: event_thread_def)

lemma record_id_dget: "dget r ''id'' = Some (JStr tid) \<Longrightarrow> record_id r = tid"
  by (simp add: record_id_def dget_or_dget)

subsection \<open>Threads\<close>

lemma dget_clean_patch:
  "dget (clean_patch patch) f = (if f \<in> set ALLOWED_UPDATE_FIELDS then dget patch f else None)"
  by (induction patch) (auto simp: clean_patch_def)

lemma clean_patch_distinct: "distinct (map fst patch) \<Longrightarrow> distinct (map fst (clean_patch patch))"
  unfolding clean_patch_def by (induction patch) auto

text \<open>A client can change only the listed fields of a thread: updating an existing thread with any
  patch succeeds, stores exactly the patched values of the listed fields, stamps \<open>updatedAt\<close>, keeps
  every other field, the identifier, workspace, model, creation time, relation and turns among them, and
  leaves the other threads as they were.\<close>

theorem update_keeps_immutable_fields:
  assumes "thread_get tid (k_threads k) = Some (JDict r)" and "wf_json (JDict r)"
    and "wf_json (JDict patch)" and "dget r ''id'' = Some (JStr tid)" and "tid \<noteq> ''''"
  shows "\<exists>m k'. thread_update env tid patch k = (Inr (Some m), k')
    \<and> thread_get tid (k_threads k') = Some (JDict m)
    \<and> (\<forall>f. dget m f = (if f = ''updatedAt'' then Some (JStr (iso env (k_tick k)))
         else if f \<in> set ALLOWED_UPDATE_FIELDS \<and> dget patch f \<noteq> None then dget patch f else dget r f))
    \<and> (\<forall>t. thread_path t \<noteq> thread_path tid \<longrightarrow> thread_get t (k_threads k') = thread_get t (k_threads k))"
proof -
  let ?now = "iso env (k_tick k)"
  let ?m = "dset ''updatedAt'' (JStr ?now) (dmerge r (clean_patch patch))"
  have d: "distinct (map fst (clean_patch patch))" using assms(3) clean_patch_distinct by simp
  have get: "dget ?m f = (if f = ''updatedAt'' then Some (JStr ?now)
      else if f \<in> set ALLOWED_UPDATE_FIELDS \<and> dget patch f \<noteq> None then dget patch f else dget r f)" for f
    by (auto simp: dget_dset dget_dmerge[OF d] dget_clean_patch split: option.split)
  have id: "record_id ?m = tid"
    by (rule record_id_dget) (simp add: get assms(4) ALLOWED_UPDATE_FIELDS_def)
  have wf: "wf_json (JDict ?m)"
    using assms(2,3) by (intro wf_dset wf_dmerge) (auto simp: clean_patch_def)
  let ?k1 = "k\<lparr>k_tick := Suc (k_tick k)\<rparr>"
  obtain dir where P: "put_thread ?m ?k1 = (Inr (), ?k1\<lparr>k_threads := dir, k_tick := Suc (k_tick ?k1)\<rparr>)"
    and G: "\<And>t. thread_get t dir = (if thread_path t = thread_path tid then Some (JDict ?m)
        else thread_get t (k_threads ?k1))"
    using put_threadE[of ?m ?k1] id wf assms(5) by metis
  let ?ev = "[(''kind'', JStr ''thread_updated''), (''threadId'', JStr tid),
      (''title'', dget_null ?m ''title''), (''status'', dget_null ?m ''status'')]"
  obtain e b where E: "emit env ?ev (?k1\<lparr>k_threads := dir, k_tick := Suc (k_tick ?k1)\<rparr>) =
      (Inr (), (?k1\<lparr>k_threads := dir, k_tick := Suc (k_tick ?k1)\<rparr>)\<lparr>k_bus := b, k_tick := Suc (Suc (k_tick ?k1))\<rparr>)"
    using emitE[of ?ev env "?k1\<lparr>k_threads := dir, k_tick := Suc (k_tick ?k1)\<rparr>"] assms(5) by auto
  have "thread_update env tid patch k =
      (Inr (Some ?m), (?k1\<lparr>k_threads := dir, k_tick := Suc (k_tick ?k1)\<rparr>)\<lparr>k_bus := b, k_tick := Suc (Suc (k_tick ?k1))\<rparr>)"
    unfolding thread_update_def
    by (simp add: act_simps assms(1) P[simplified] E[simplified] Let_def)
  then show ?thesis using G get by auto
qed

definition demo_env :: env where
  "demo_env = \<lparr>iso = (\<lambda>_. ''now''), uid = (\<lambda>_. ''1'')\<rparr>"

definition empty_kun :: kun where
  "empty_kun = \<lparr>k_threads = [], k_sessions = Map.empty, k_bus = empty_bus, k_inflight = [],
     k_tokens = {}, k_cancelled = {}, k_steering = Map.empty, k_tick = 0\<rparr>"

definition demo_thread :: dict where
  "demo_thread = [(''id'', JStr ''th''), (''title'', JStr ''x''), (''workspace'', JStr ''/w''),
     (''status'', JStr ''idle''), (''turns'', JList [])]"

definition demo_kun :: kun where
  "demo_kun = empty_kun\<lparr>k_threads := [(thread_path ''th'', \<lparr>mtime = 0, content = json_dumps_indent (JDict demo_thread)\<rparr>)]\<rparr>"

lemma demo_kun_get [simp]: "thread_get ''th'' (k_threads demo_kun) = Some (JDict demo_thread)"
  by (simp add: demo_kun_def thread_get_def json_loads_indent demo_thread_def)

theorem update_keeps_immutable_fields_witness:
  "\<exists>m k'. thread_update demo_env ''th'' [(''title'', JStr ''y''), (''workspace'', JStr ''/etc'')] demo_kun =
      (Inr (Some m), k') \<and> dget m ''title'' = Some (JStr ''y'') \<and> dget m ''workspace'' = Some (JStr ''/w'')"
proof -
  let ?p = "[(''title'', JStr ''y''), (''workspace'', JStr ''/etc'')]"
  have A: "wf_json (JDict demo_thread)" "wf_json (JDict ?p)" "dget demo_thread ''id'' = Some (JStr ''th'')"
    by (simp_all add: demo_thread_def)
  obtain m k' where "thread_update demo_env ''th'' ?p demo_kun = (Inr (Some m), k')"
    "\<And>f. dget m f = (if f = ''updatedAt'' then Some (JStr (iso demo_env (k_tick demo_kun)))
         else if f \<in> set ALLOWED_UPDATE_FIELDS \<and> dget ?p f \<noteq> None then dget ?p f else dget demo_thread f)"
    using update_keeps_immutable_fields[OF demo_kun_get A] by blast
  then show ?thesis by (auto simp: ALLOWED_UPDATE_FIELDS_def demo_thread_def)
qed

text \<open>A fork is a new, empty thread that remembers where it comes from: forking a thread creates a
  record with a fresh identifier, no turns, the status idle and the lineage fields, copies every other field
  of the source, and leaves the source (and every other thread) as it was; a missing source is an error
  and changes nothing.\<close>

theorem fork_preserves_source:
  assumes "thread_get tid (k_threads k) = Some (JDict r)" and "wf_json (JDict r)"
    and "k' = snd (thread_fork env tid relation title k)"
    and "new = ''thread_'' @ uid env (Suc (k_tick k))"
  shows "\<exists>f. fst (thread_fork env tid relation title k) = Inr f
    \<and> thread_get new (k_threads k') = Some (JDict f)
    \<and> dget f ''id'' = Some (JStr new) \<and> dget f ''turns'' = Some (JList [])
    \<and> dget f ''status'' = Some (JStr ''idle'') \<and> dget f ''parentThreadId'' = Some (JStr tid)
    \<and> dget f ''forkedFromTurnCount'' = Some (JNum (int (length (the_jlist (dget_or r ''turns'' (JList []))))))
    \<and> dget f ''workspace'' = dget r ''workspace'' \<and> dget f ''model'' = dget r ''model''
    \<and> (\<forall>t. thread_path t \<noteq> thread_path new \<longrightarrow> thread_get t (k_threads k') = thread_get t (k_threads k))"
proof -
  let ?now = "iso env (k_tick k)"
  let ?f = "forked_record r tid new relation title ?now"
  let ?k1 = "k\<lparr>k_tick := Suc (Suc (k_tick k))\<rparr>"
  have get: "dget ?f ''id'' = Some (JStr new)" "dget ?f ''turns'' = Some (JList [])"
    "dget ?f ''status'' = Some (JStr ''idle'')" "dget ?f ''parentThreadId'' = Some (JStr tid)"
    "dget ?f ''forkedFromTurnCount'' = Some (JNum (int (length (the_jlist (dget_or r ''turns'' (JList []))))))"
    "dget ?f ''workspace'' = dget r ''workspace''" "dget ?f ''model'' = dget r ''model''"
    unfolding forked_record_def by (simp_all add: dget_dset)
  have id: "record_id ?f = new" using get(1) by (rule record_id_dget)
  have wf: "wf_json (JDict ?f)"
    unfolding forked_record_def using assms(2) wf_dget[OF assms(2)] by (intro wf_dmerge) simp_all
  have ne: "new \<noteq> ''''" using assms(4) by simp
  obtain dir where P: "put_thread ?f ?k1 = (Inr (), ?k1\<lparr>k_threads := dir, k_tick := Suc (k_tick ?k1)\<rparr>)"
    and G: "\<And>t. thread_get t dir = (if thread_path t = thread_path new then Some (JDict ?f)
        else thread_get t (k_threads ?k1))"
    using put_threadE[of ?f ?k1] id wf ne by metis
  let ?ev = "[(''kind'', JStr ''thread_created''), (''threadId'', JStr new), (''title'', dget_null ?f ''title'')]"
  let ?k2 = "?k1\<lparr>k_threads := dir, k_tick := Suc (k_tick ?k1)\<rparr>"
  obtain e b where E: "emit env ?ev ?k2 = (Inr (), ?k2\<lparr>k_bus := b, k_tick := Suc (k_tick ?k2)\<rparr>)"
    using emitE[of ?ev env ?k2] ne by auto
  have "thread_fork env tid relation title k = (Inr ?f, ?k2\<lparr>k_bus := b, k_tick := Suc (k_tick ?k2)\<rparr>)"
    unfolding thread_fork_def
    using P E by (simp add: act_simps assms(1,4) Let_def)
  then show ?thesis using G get by (simp add: assms(3))
qed

theorem fork_preserves_source_witness:
  "\<exists>f. fst (thread_fork demo_env ''th'' ''fork'' None demo_kun) = Inr f \<and> dget f ''workspace'' = Some (JStr ''/w'')
    \<and> thread_get ''th'' (k_threads (snd (thread_fork demo_env ''th'' ''fork'' None demo_kun))) = Some (JDict demo_thread)"
proof -
  have W: "wf_json (JDict demo_thread)" by (simp add: demo_thread_def)
  have "thread_path ''th'' \<noteq> thread_path (''thread_'' @ uid demo_env (Suc (k_tick demo_kun)))"
    by (simp add: thread_path_def safe_id_def py_replace_ch_def)
  moreover have "dget demo_thread ''workspace'' = Some (JStr ''/w'')" by (simp add: demo_thread_def)
  ultimately show ?thesis
    using fork_preserves_source[OF demo_kun_get W refl refl, of demo_env "''fork''" None] by auto
qed

end
