(* ===== verification/Turns.thy ===== *)
theory Turns
  imports Services
begin

text \<open>
  The turn service (\<open>kun_runtime/turn_service.py\<close>): starting, finishing, interrupting and steering a turn,
  and the items of a turn.  The turns of a thread are dictionaries inside its record, as in the file.
\<close>

subsection \<open>Turns inside a thread record\<close>

definition turns_of :: "dict \<Rightarrow> json list" where
  "turns_of thread = the_jlist (dget_or thread ''turns'' (JList []))"

definition is_turn :: "pystr \<Rightarrow> json \<Rightarrow> bool" where
  "is_turn turn_id t = (dget_null (the_jdict t) ''id'' = JStr turn_id)"

text \<open>A loop over \<open>d.get(key, [])\<close> that changes the elements in place.\<close>

definition list_at :: "dict \<Rightarrow> pystr \<Rightarrow> json list" where
  "list_at d key = the_jlist (dget_or d key (JList []))"

definition map_list_at :: "pystr \<Rightarrow> (json \<Rightarrow> json) \<Rightarrow> dict \<Rightarrow> dict" where
  "map_list_at key f d = (if dhas d key then dset key (JList (map f (list_at d key))) d else d)"

definition map_turns :: "pystr \<Rightarrow> (dict \<Rightarrow> dict) \<Rightarrow> dict \<Rightarrow> dict" where
  "map_turns turn_id f = map_list_at ''turns'' (\<lambda>t. if is_turn turn_id t then JDict (f (the_jdict t)) else t)"

definition open_item :: "dict \<Rightarrow> bool" where
  "open_item item = (dget item ''status'' \<in> {Some (JStr ''pending''), Some (JStr ''running'')})"

definition close_item :: "pystr \<Rightarrow> pystr \<Rightarrow> json \<Rightarrow> json" where
  "close_item status now x =
     (let item = the_jdict x in
      if open_item item then
        JDict (dset ''finishedAt'' (JStr now)
          (dset ''status'' (JStr
             (if dget item ''kind'' = Some (JStr ''approval'') then ''expired''
              else if dget item ''kind'' = Some (JStr ''user_input'') then ''cancelled''
              else status)) item))
      else x)"

definition close_turn :: "pystr \<Rightarrow> pystr option \<Rightarrow> pystr \<Rightarrow> dict \<Rightarrow> dict" where
  "close_turn status error now turn =
     (let t1 = dset ''finishedAt'' (JStr now) (dset ''status'' (JStr status) turn);
          t2 = (case error of Some (c # s) \<Rightarrow> dset ''error'' (JStr (c # s)) t1 | _ \<Rightarrow> t1)
      in map_list_at ''items'' (close_item status now) t2)"

definition new_turn :: "pystr \<Rightarrow> pystr \<Rightarrow> pystr \<Rightarrow> dict \<Rightarrow> pystr \<Rightarrow> dict" where
  "new_turn turn_id tid prompt kwargs now =
     [(''id'', JStr turn_id),
      (''threadId'', JStr tid),
      (''status'', JStr ''running''),
      (''prompt'', JStr prompt),
      (''model'', dget_null kwargs ''model''),
      (''reasoningEffort'', dget_null kwargs ''reasoningEffort''),
      (''mode'', dget_null kwargs ''mode''),
      (''steering'', JList []),
      (''createdAt'', JStr now),
      (''startedAt'', JStr now),
      (''items'', JList []),
      (''attachmentIds'', dget_or kwargs ''attachmentIds'' (JList [])),
      (''activeSkillIds'', JList []),
      (''injectedMemoryIds'', JList [])]"

definition user_item :: "pystr \<Rightarrow> pystr \<Rightarrow> pystr \<Rightarrow> pystr \<Rightarrow> dict" where
  "user_item turn_id tid prompt now =
     [(''id'', JStr (''item_'' @ turn_id @ ''_user'')),
      (''turnId'', JStr turn_id),
      (''threadId'', JStr tid),
      (''role'', JStr ''user''),
      (''status'', JStr ''completed''),
      (''kind'', JStr ''user_message''),
      (''createdAt'', JStr now),
      (''finishedAt'', JStr now),
      (''text'', JStr prompt)]"

subsection \<open>Start, finish, interrupt\<close>

definition start_turn :: "env \<Rightarrow> pystr \<Rightarrow> pystr \<Rightarrow> dict \<Rightarrow> (pystr \<times> pystr) act" where
  "start_turn env tid prompt kwargs =
     and_then (read_thread tid) (\<lambda>rec.
     case rec of None \<Rightarrow> raise (ValueError (''thread not found: '' @ tid))
     | Some thread \<Rightarrow>
        and_then (now_iso env) (\<lambda>now.
        and_then (new_id env ''turn'') (\<lambda>turn_id.
        let item = user_item turn_id tid prompt now;
            thread' = dset ''updatedAt'' (JStr now) (dset ''status'' (JStr ''running'')
              (dset ''turns'' (JList (turns_of thread @ [JDict (new_turn turn_id tid prompt kwargs now)])) thread))
        in and_then (put_thread thread') (\<lambda>_.
           and_then (add_item tid item) (\<lambda>_.
           and_then (emit env [(''kind'', JStr ''turn_started''), (''threadId'', JStr tid),
              (''turnId'', JStr turn_id)]) (\<lambda>_.
           and_then (emit env [(''kind'', JStr ''item_created''), (''threadId'', JStr tid),
              (''turnId'', JStr turn_id), (''itemId'', dget_null item ''id''), (''item'', JDict item)]) (\<lambda>_.
           and_then (modify (\<lambda>k. k\<lparr>k_tokens := insert turn_id (k_tokens k),
              k_cancelled := k_cancelled k - {turn_id},
              k_inflight := AList.update turn_id [(''id'', JStr turn_id), (''kind'', JStr ''model''),
                 (''threadId'', JStr tid), (''turnId'', JStr turn_id)] (k_inflight k),
              k_steering := (case k_steering k tid of None \<Rightarrow> (k_steering k)(tid \<mapsto> [])
                             | Some _ \<Rightarrow> k_steering k)\<rparr>)) (\<lambda>_.
           ret (turn_id, ''item_'' @ turn_id @ ''_user'')))))))))"

definition kind_map :: "pystr \<Rightarrow> pystr act" where
  "kind_map status =
     (if status = ''completed'' then ret ''turn_completed''
      else if status = ''failed'' then ret ''turn_failed''
      else if status = ''aborted'' then ret ''turn_aborted''
      else raise (KeyError status))"

definition error_item :: "pystr \<Rightarrow> pystr \<Rightarrow> pystr \<Rightarrow> pystr \<Rightarrow> dict" where
  "error_item turn_id tid now error =
     [(''id'', JStr (''item_'' @ turn_id @ ''_error'')),
      (''turnId'', JStr turn_id),
      (''threadId'', JStr tid),
      (''role'', JStr ''system''),
      (''status'', JStr ''failed''),
      (''kind'', JStr ''error''),
      (''createdAt'', JStr now),
      (''message'', JStr error)]"

definition finish_turn :: "env \<Rightarrow> pystr \<Rightarrow> pystr \<Rightarrow> pystr \<Rightarrow> pystr option \<Rightarrow> unit act" where
  "finish_turn env tid turn_id status error =
     and_then (modify (\<lambda>k. k\<lparr>k_tokens := k_tokens k - {turn_id},
        k_inflight := inflight_end turn_id (k_inflight k)\<rparr>)) (\<lambda>_.
     and_then (read_thread tid) (\<lambda>rec.
     case rec of None \<Rightarrow> ret ()
     | Some thread \<Rightarrow>
        and_then (now_iso env) (\<lambda>now.
        let thread' = dset ''updatedAt'' (JStr now) (dset ''status'' (JStr ''idle'')
              (map_turns turn_id (close_turn status error now) thread))
        in and_then (put_thread thread') (\<lambda>_.
           and_then (kind_map status) (\<lambda>kind.
           and_then (emit env ([(''kind'', JStr kind), (''threadId'', JStr tid), (''turnId'', JStr turn_id)] @
              (case error of Some (c # s) \<Rightarrow> [(''message'', JStr (c # s))] | _ \<Rightarrow> []))) (\<lambda>_.
           case error of
             Some (c # s) \<Rightarrow> add_item tid (error_item turn_id tid now (c # s))
           | _ \<Rightarrow> ret ()))))))"

definition interrupt_record :: "bool \<Rightarrow> pystr \<Rightarrow> dict \<Rightarrow> dict" where
  "interrupt_record discard now turn =
     (let t1 = dset ''finishedAt'' (JStr now) (dset ''status'' (JStr ''aborted'') turn)
      in if discard
         then dset ''items'' (JList (filter (\<lambda>i. dget (the_jdict i) ''kind'' = Some (JStr ''user_message''))
                (the_jlist (dget_or t1 ''items'' (JList []))))) t1
         else t1)"

definition keep_after_discard :: "pystr \<Rightarrow> dict \<Rightarrow> bool" where
  "keep_after_discard turn_id i =
     (dget i ''turnId'' \<noteq> Some (JStr turn_id) \<or> dget i ''kind'' = Some (JStr ''user_message''))"

definition interrupt_turn :: "env \<Rightarrow> pystr \<Rightarrow> pystr \<Rightarrow> bool \<Rightarrow> unit act" where
  "interrupt_turn env tid turn_id discard =
     and_then (modify (\<lambda>k. k\<lparr>k_cancelled :=
          (if turn_id \<in> k_tokens k then insert turn_id (k_cancelled k) else k_cancelled k),
        k_inflight := inflight_end turn_id (k_inflight k)\<rparr>)) (\<lambda>_.
     and_then (modify (\<lambda>k. if discard
        then k\<lparr>k_sessions := rewrite_items tid
               (filter (keep_after_discard turn_id) (load_items tid (k_sessions k))) (k_sessions k)\<rparr>
        else k)) (\<lambda>_.
     and_then (read_thread tid) (\<lambda>rec.
     and_then (case rec of
          Some (e # es) \<Rightarrow>
            and_then (now_iso env) (\<lambda>now.
            put_thread (dset ''updatedAt'' (JStr now) (dset ''status'' (JStr ''idle'')
              (map_turns turn_id (interrupt_record discard now) (e # es)))))
        | _ \<Rightarrow> ret ()) (\<lambda>_.
     emit env [(''kind'', JStr ''turn_aborted''), (''threadId'', JStr tid), (''turnId'', JStr turn_id)]))))"

subsection \<open>Steering\<close>

definition steer_turn :: "env \<Rightarrow> pystr \<Rightarrow> pystr \<Rightarrow> pystr \<Rightarrow> unit act" where
  "steer_turn env tid turn_id text =
     and_then (modify (\<lambda>k. k\<lparr>k_steering := (k_steering k)(tid \<mapsto>
        (case k_steering k tid of None \<Rightarrow> [] | Some xs \<Rightarrow> xs) @ [text])\<rparr>)) (\<lambda>_.
     emit env [(''kind'', JStr ''turn_steered''), (''threadId'', JStr tid), (''turnId'', JStr turn_id),
       (''text'', JStr text)])"

definition drain_steering :: "pystr \<Rightarrow> pystr list act" where
  "drain_steering tid k =
     (Inr (case k_steering k tid of None \<Rightarrow> [] | Some xs \<Rightarrow> xs),
      k\<lparr>k_steering := (k_steering k)(tid := None)\<rparr>)"

subsection \<open>Items and status\<close>

definition apply_item :: "env \<Rightarrow> pystr \<Rightarrow> dict \<Rightarrow> unit act" where
  "apply_item env tid item =
     and_then (add_item tid item) (\<lambda>_.
     emit env [(''kind'', JStr ''item_created''), (''threadId'', JStr tid),
       (''turnId'', dget_or item ''turnId'' (JStr '''')), (''itemId'', dget_or item ''id'' (JStr '''')),
       (''item'', JDict item)])"

definition turn_update_item :: "env \<Rightarrow> pystr \<Rightarrow> pystr \<Rightarrow> dict \<Rightarrow> dict option act" where
  "turn_update_item env tid item_id patch =
     and_then (\<lambda>k. (let (u, fs) = update_item tid item_id patch (k_sessions k)
                    in (Inr u, k\<lparr>k_sessions := fs\<rparr>))) (\<lambda>u.
     case u of None \<Rightarrow> ret None
     | Some upd \<Rightarrow>
        and_then (emit env [(''kind'', JStr ''item_updated''), (''threadId'', JStr tid),
          (''turnId'', dget_or upd ''turnId'' (JStr '''')), (''itemId'', JStr item_id),
          (''item'', JDict upd)]) (\<lambda>_.
        ret (Some upd)))"

text \<open>The first turn with the identifier gets the status.\<close>

fun set_first_status :: "pystr \<Rightarrow> pystr \<Rightarrow> json list \<Rightarrow> json list option" where
  "set_first_status turn_id status [] = None"
| "set_first_status turn_id status (t # ts) =
     (if is_turn turn_id t then Some (JDict (dset ''status'' (JStr status) (the_jdict t)) # ts)
      else map_option (Cons t) (set_first_status turn_id status ts))"

definition update_turn_status :: "env \<Rightarrow> pystr \<Rightarrow> pystr \<Rightarrow> pystr \<Rightarrow> bool act" where
  "update_turn_status env tid turn_id status =
     and_then (read_thread tid) (\<lambda>rec.
     case rec of None \<Rightarrow> ret False
     | Some thread \<Rightarrow>
        (case set_first_status turn_id status (turns_of thread) of
           None \<Rightarrow> ret False
         | Some ts \<Rightarrow>
             and_then (now_iso env) (\<lambda>now.
             and_then (put_thread (dset ''updatedAt'' (JStr now) (dset ''turns'' (JList ts) thread))) (\<lambda>_.
             and_then (emit env [(''kind'', JStr ''turn_status_changed''), (''threadId'', JStr tid),
               (''turnId'', JStr turn_id), (''status'', JStr status)]) (\<lambda>_.
             ret True)))))"

definition get_turn :: "pystr \<Rightarrow> pystr \<Rightarrow> dict option act" where
  "get_turn tid turn_id =
     and_then (read_thread tid) (\<lambda>rec.
     case rec of None \<Rightarrow> ret None
     | Some thread \<Rightarrow> ret (map_option the_jdict (List.find (is_turn turn_id) (turns_of thread))))"

definition get_abort_token :: "pystr \<Rightarrow> bool act" where
  "get_abort_token turn_id = reads (\<lambda>k. turn_id \<in> k_tokens k)"

subsection \<open>Well-formed records stay well-formed\<close>

lemma wf_the_jlist: "wf_json v \<Longrightarrow> \<forall>x \<in> set (the_jlist v). wf_json x"
  by (cases v) auto

lemma wf_the_jdict: "wf_json v \<Longrightarrow> wf_json (JDict (the_jdict v))"
  by (cases v) auto

lemma wf_JList: "wf_json (JList xs) \<longleftrightarrow> (\<forall>x \<in> set xs. wf_json x)"
  by simp

lemma wf_list_at: "wf_json (JDict d) \<Longrightarrow> x \<in> set (list_at d key) \<Longrightarrow> wf_json x"
  using wf_the_jlist[OF wf_dget[of d "JList []" key]] by (simp add: list_at_def del: wf_json.simps(2))

lemma wf_map_list_at:
  assumes "wf_json (JDict d)" and "\<And>x. wf_json x \<Longrightarrow> wf_json (f x)"
  shows "wf_json (JDict (map_list_at key f d))"
  unfolding map_list_at_def using assms(1) wf_list_at[OF assms(1)] assms(2)
  by (auto intro!: wf_dset simp: wf_JList simp del: wf_json.simps)

lemma wf_map_turns:
  assumes "wf_json (JDict r)" and "\<And>d. wf_json (JDict d) \<Longrightarrow> wf_json (JDict (f d))"
  shows "wf_json (JDict (map_turns i f r))"
  unfolding map_turns_def using assms wf_the_jdict
  by (intro wf_map_list_at) (auto simp del: wf_json.simps)

lemma wf_close_item: "wf_json x \<Longrightarrow> wf_json (close_item status now x)"
  unfolding close_item_def Let_def
  by (auto intro!: wf_dset wf_the_jdict simp del: wf_json.simps(1,2))

lemma wf_close_turn: "wf_json (JDict t) \<Longrightarrow> wf_json (JDict (close_turn status error now t))"
  unfolding close_turn_def Let_def
  by (auto intro!: wf_map_list_at wf_close_item wf_dset split: option.split list.split
      simp del: wf_json.simps(1,2))

lemma wf_interrupt:
  assumes "wf_json (JDict t)"
  shows "wf_json (JDict (interrupt_record discard now t))"
proof -
  have 1: "wf_json (JDict (dset ''finishedAt'' (JStr now) (dset ''status'' (JStr ''aborted'') t)))"
    using assms by (auto intro!: wf_dset simp del: wf_json.simps(1,2))
  show ?thesis
    unfolding interrupt_record_def Let_def
    using 1 wf_list_at[OF 1, of _ "''items''"]
    by (auto intro!: wf_dset simp: wf_JList list_at_def simp del: wf_json.simps)
qed

subsection \<open>What changing turns leaves alone\<close>

lemma list_at_map [simp]: "list_at (map_list_at key f d) key = map f (list_at d key)"
  by (auto simp: map_list_at_def list_at_def dget_dset dhas_iff dget_or_dget split: option.split)

lemma dget_map_list_at: "key' \<noteq> key \<Longrightarrow> dget (map_list_at key f d) key' = dget d key'"
  by (simp add: map_list_at_def dget_dset)

lemma dget_map_turns: "key \<noteq> ''turns'' \<Longrightarrow> dget (map_turns i f r) key = dget r key"
  by (simp add: map_turns_def dget_map_list_at)

lemma turns_of_list_at: "turns_of r = list_at r ''turns''"
  by (simp add: turns_of_def list_at_def)

lemma turns_of_map_turns:
  "turns_of (map_turns i f r) = map (\<lambda>t. if is_turn i t then JDict (f (the_jdict t)) else t) (turns_of r)"
  by (simp add: map_turns_def turns_of_list_at)

lemma turns_of_dset_other: "key \<noteq> ''turns'' \<Longrightarrow> turns_of (dset key v r) = turns_of r"
  by (simp add: turns_of_def dget_or_dset)

lemma close_item_closed:
  "status \<notin> {''pending'', ''running''} \<Longrightarrow> \<not> open_item (the_jdict (close_item status now x))"
  by (auto simp: close_item_def open_item_def Let_def dget_dset)

lemma close_turn_simps:
  "dget (close_turn status error now t) ''status'' = Some (JStr status)"
  "dget (close_turn status error now t) ''finishedAt'' = Some (JStr now)"
  "dget (close_turn status error now t) ''id'' = dget t ''id''"
  by (simp_all add: close_turn_def Let_def dget_map_list_at dget_dset split: option.split list.split)

lemma close_turn_items:
  "status \<notin> {''pending'', ''running''} \<Longrightarrow>
   x \<in> set (list_at (close_turn status error now t) ''items'') \<Longrightarrow> \<not> open_item (the_jdict x)"
  using close_item_closed[of status now] by (auto simp: close_turn_def Let_def)

text \<open>Where the loops of the service write the file: the record with the identifier of its file.\<close>

lemma put_thread_record:
  assumes "dget r ''id'' = Some (JStr tid)" and "tid \<noteq> ''''" and "wf_json (JDict r)"
  obtains dir where "put_thread r k = (Inr (), k\<lparr>k_threads := dir, k_tick := Suc (k_tick k)\<rparr>)"
    and "\<And>t. thread_get t dir = (if thread_path t = thread_path tid then Some (JDict r)
        else thread_get t (k_threads k))"
  using put_threadE[of r k] record_id_dget[OF assms(1)] assms(2,3) by metis

definition same_otherwise :: "pystr \<Rightarrow> kun \<Rightarrow> kun \<Rightarrow> bool" where
  "same_otherwise tid k k' \<longleftrightarrow> (\<forall>t. thread_path t \<noteq> thread_path tid \<longrightarrow>
     thread_get t (k_threads k') = thread_get t (k_threads k))"

text \<open>C8. Finishing a turn closes it: for a final status the call succeeds; every turn record with the
  identifier gets the status, none of its items is left pending or running, every other turn keeps its
  record, the thread is idle; the abort token and the in-flight entry are gone; exactly one event, of the
  kind that belongs to the status, is published on the thread; other threads keep their records.\<close>

theorem finish_turn_closes:
  assumes "thread_get tid (k_threads k) = Some (JDict r)" and "wf_json (JDict r)"
    and "dget r ''id'' = Some (JStr tid)" and "tid \<noteq> ''''"
    and "(status, kind) \<in> {(''completed'', ''turn_completed''), (''failed'', ''turn_failed''), (''aborted'', ''turn_aborted'')}"
  shows "\<exists>k' r' e. finish_turn env tid turn_id status error k = (Inr (), k')
    \<and> thread_get tid (k_threads k') = Some (JDict r') \<and> dget r' ''status'' = Some (JStr ''idle'')
    \<and> length (turns_of r') = length (turns_of r)
    \<and> (\<forall>i < length (turns_of r). if is_turn turn_id (turns_of r ! i)
         then dget (the_jdict (turns_of r' ! i)) ''status'' = Some (JStr status)
           \<and> (\<forall>x \<in> set (list_at (the_jdict (turns_of r' ! i)) ''items''). \<not> open_item (the_jdict x))
         else turns_of r' ! i = turns_of r ! i)
    \<and> turn_id \<notin> k_tokens k' \<and> \<not> is_running turn_id (k_inflight k')
    \<and> history (k_bus k') tid 0 = history (k_bus k) tid 0 @ [e] \<and> dget e ''kind'' = Some (JStr kind)
    \<and> same_otherwise tid k k'"
proof -
  let ?k0 = "k\<lparr>k_tokens := k_tokens k - {turn_id}, k_inflight := inflight_end turn_id (k_inflight k)\<rparr>"
  let ?now = "iso env (k_tick k)"
  let ?k1 = "?k0\<lparr>k_tick := Suc (k_tick ?k0)\<rparr>"
  let ?r = "dset ''updatedAt'' (JStr ?now) (dset ''status'' (JStr ''idle'')
      (map_turns turn_id (close_turn status error ?now) r))"
  have id: "dget ?r ''id'' = Some (JStr tid)"
    using assms(3) by (simp add: dget_dset dget_map_turns)
  have wf: "wf_json (JDict ?r)"
    using assms(2) wf_close_turn by (auto intro!: wf_dset wf_map_turns simp del: wf_json.simps(1,2))
  obtain dir where P: "put_thread ?r ?k1 = (Inr (), ?k1\<lparr>k_threads := dir, k_tick := Suc (k_tick ?k1)\<rparr>)"
    and G: "\<And>t. thread_get t dir = (if thread_path t = thread_path tid then Some (JDict ?r)
        else thread_get t (k_threads ?k1))"
    using put_thread_record[OF id assms(4) wf, of ?k1] by blast
  let ?k2 = "?k1\<lparr>k_threads := dir, k_tick := Suc (k_tick ?k1)\<rparr>"
  let ?ev = "[(''kind'', JStr kind), (''threadId'', JStr tid), (''turnId'', JStr turn_id)] @
      (case error of Some (c # s) \<Rightarrow> [(''message'', JStr (c # s))] | _ \<Rightarrow> [])"
  have et: "event_thread ?ev = tid" by simp
  obtain e b where E: "emit env ?ev ?k2 = (Inr (), ?k2\<lparr>k_bus := b, k_tick := Suc (k_tick ?k2)\<rparr>)"
    and R: "record_event (iso env (k_tick ?k2)) ?ev (k_bus ?k2) = Inr (e, b)"
    and H: "\<And>t. history b t 0 = (if t = tid then history (k_bus ?k2) t 0 @ [e] else history (k_bus ?k2) t 0)"
    using emitE[of ?ev env ?k2] et assms(4) by metis
  let ?k3 = "?k2\<lparr>k_bus := b, k_tick := Suc (k_tick ?k2)\<rparr>"
  define k' where "k' = (case error of Some (c # s) \<Rightarrow>
      ?k3\<lparr>k_sessions := append_item tid (error_item turn_id tid ?now (c # s)) (k_sessions ?k3)\<rparr> | _ \<Rightarrow> ?k3)"
  have K: "kind_map status k2 = (Inr kind, k2)" for k2
    using assms(5) by (auto simp: kind_map_def act_simps)
  have run: "finish_turn env tid turn_id status error k = (Inr (), k')"
    unfolding finish_turn_def k'_def
    using P E by (simp add: act_simps assms(1) K Let_def add_item_def split: option.split list.split)
  have kind: "dget e ''kind'' = Some (JStr kind)"
    using R by (rule record_eventE) (simp add: dget_dset)
  have sel: "k_threads k' = dir" "k_tokens k' = k_tokens k - {turn_id}"
    "k_inflight k' = inflight_end turn_id (k_inflight k)" "k_bus k' = b"
    by (simp_all add: k'_def split: option.split list.split)
  have st: "status \<notin> {''pending'', ''running''}" using assms(5) by auto
  have T: "turns_of ?r = map (\<lambda>t. if is_turn turn_id t then JDict (close_turn status error ?now (the_jdict t)) else t) (turns_of r)"
    by (simp add: turns_of_dset_other turns_of_map_turns)
  have "thread_get tid (k_threads k') = Some (JDict ?r)" by (simp add: sel G)
  moreover have "dget ?r ''status'' = Some (JStr ''idle'')" by (simp add: dget_dset)
  moreover have "\<forall>i < length (turns_of r). if is_turn turn_id (turns_of r ! i)
         then dget (the_jdict (turns_of ?r ! i)) ''status'' = Some (JStr status)
           \<and> (\<forall>x \<in> set (list_at (the_jdict (turns_of ?r ! i)) ''items''). \<not> open_item (the_jdict x))
         else turns_of ?r ! i = turns_of r ! i"
    using close_turn_items[OF st] by (simp add: T close_turn_simps)
  moreover have "\<not> is_running turn_id (k_inflight k')"
    by (auto simp: sel is_running_def inflight_end_def)
  moreover have "history (k_bus k') tid 0 = history (k_bus k) tid 0 @ [e]" using H by (simp add: sel)
  moreover have "same_otherwise tid k k'" by (simp add: same_otherwise_def sel G)
  moreover have "length (turns_of ?r) = length (turns_of r)" by (simp add: T)
  ultimately show ?thesis using run kind sel(2) by blast
qed

theorem finish_turn_closes_witness:
  "\<exists>k' e. finish_turn demo_env ''th'' ''turn_1'' ''failed'' (Some ''boom'') demo_kun = (Inr (), k')
     \<and> history (k_bus k') ''th'' 0 = [e] \<and> dget e ''kind'' = Some (JStr ''turn_failed'')"
proof -
  have A: "wf_json (JDict demo_thread)" "dget demo_thread ''id'' = Some (JStr ''th'')"
    by (simp_all add: demo_thread_def)
  have "history (k_bus demo_kun) ''th'' 0 = []" by (simp add: demo_kun_def empty_kun_def)
  then show ?thesis
    using finish_turn_closes[OF demo_kun_get A, of "''failed''" "''turn_failed''" demo_env "''turn_1''" "Some ''boom''"]
    by auto
qed

text \<open>Starting a turn: on an existing thread the call returns the new identifiers, appends one running
  turn with the prompt after the turns there were, marks the thread running, appends the user's message
  to the items file, publishes \<open>turn_started\<close> and then \<open>item_created\<close>, and registers a fresh abort token
  and an in-flight entry; on a missing thread it raises and changes nothing.\<close>

theorem start_turn_starts:
  assumes "thread_get tid (k_threads k) = Some (JDict r)" and "wf_json (JDict r)" and "wf_json (JDict kwargs)"
    and "dget r ''id'' = Some (JStr tid)" and "tid \<noteq> ''''"
    and "new = ''turn_'' @ uid env (Suc (k_tick k))" and "now = iso env (k_tick k)"
  shows "\<exists>k' r' e1 e2. start_turn env tid prompt kwargs k = (Inr (new, ''item_'' @ new @ ''_user''), k')
    \<and> thread_get tid (k_threads k') = Some (JDict r') \<and> dget r' ''status'' = Some (JStr ''running'')
    \<and> turns_of r' = turns_of r @ [JDict (new_turn new tid prompt kwargs now)]
    \<and> items_text (k_sessions k') tid = items_text (k_sessions k) tid @ dump_line (user_item new tid prompt now)
    \<and> history (k_bus k') tid 0 = history (k_bus k) tid 0 @ [e1, e2]
    \<and> dget e1 ''kind'' = Some (JStr ''turn_started'') \<and> dget e2 ''kind'' = Some (JStr ''item_created'')
    \<and> new \<in> k_tokens k' \<and> new \<notin> k_cancelled k' \<and> is_running new (k_inflight k')
    \<and> same_otherwise tid k k'
    \<and> (thread_get t (k_threads k) = None \<longrightarrow>
         start_turn env t prompt kwargs k = (Inl (ValueError (''thread not found: '' @ t)), k))"
proof -
  let ?item = "user_item new tid prompt now"
  let ?r = "dset ''updatedAt'' (JStr now) (dset ''status'' (JStr ''running'')
      (dset ''turns'' (JList (turns_of r @ [JDict (new_turn new tid prompt kwargs now)])) r))"
  have id: "dget ?r ''id'' = Some (JStr tid)" using assms(4) by (simp add: dget_dset)
  have "wf_json (JDict (new_turn new tid prompt kwargs now))"
    using wf_dget[OF assms(3)] by (simp add: new_turn_def)
  then have wf: "wf_json (JDict ?r)"
    using assms(2) wf_list_at[OF assms(2), of _ "''turns''"]
    by (auto intro!: wf_dset simp: turns_of_list_at simp del: wf_json.simps(2))
  let ?k1 = "k\<lparr>k_tick := Suc (Suc (k_tick k))\<rparr>"
  obtain dir where P: "put_thread ?r ?k1 = (Inr (), ?k1\<lparr>k_threads := dir, k_tick := Suc (k_tick ?k1)\<rparr>)"
    and G: "\<And>t. thread_get t dir = (if thread_path t = thread_path tid then Some (JDict ?r)
        else thread_get t (k_threads ?k1))"
    using put_thread_record[OF id assms(5) wf, of ?k1] by blast
  let ?k2 = "?k1\<lparr>k_threads := dir, k_tick := Suc (k_tick ?k1)\<rparr>"
  let ?k3 = "?k2\<lparr>k_sessions := append_item tid ?item (k_sessions ?k2)\<rparr>"
  let ?ev1 = "[(''kind'', JStr ''turn_started''), (''threadId'', JStr tid), (''turnId'', JStr new)]"
  obtain e1 b1 where E1: "emit env ?ev1 ?k3 = (Inr (), ?k3\<lparr>k_bus := b1, k_tick := Suc (k_tick ?k3)\<rparr>)"
    and R1: "record_event (iso env (k_tick ?k3)) ?ev1 (k_bus ?k3) = Inr (e1, b1)"
    and H1: "\<And>t. history b1 t 0 = (if t = tid then history (k_bus ?k3) t 0 @ [e1] else history (k_bus ?k3) t 0)"
    using emitE[of ?ev1 env ?k3] assms(5) by (metis event_thread_simps)
  let ?k4 = "?k3\<lparr>k_bus := b1, k_tick := Suc (k_tick ?k3)\<rparr>"
  let ?ev2 = "[(''kind'', JStr ''item_created''), (''threadId'', JStr tid), (''turnId'', JStr new),
      (''itemId'', dget_null ?item ''id''), (''item'', JDict ?item)]"
  obtain e2 b2 where E2: "emit env ?ev2 ?k4 = (Inr (), ?k4\<lparr>k_bus := b2, k_tick := Suc (k_tick ?k4)\<rparr>)"
    and R2: "record_event (iso env (k_tick ?k4)) ?ev2 (k_bus ?k4) = Inr (e2, b2)"
    and H2: "\<And>t. history b2 t 0 = (if t = tid then history (k_bus ?k4) t 0 @ [e2] else history (k_bus ?k4) t 0)"
    using emitE[of ?ev2 env ?k4] assms(5) by (metis event_thread_simps)
  let ?k5 = "?k4\<lparr>k_bus := b2, k_tick := Suc (k_tick ?k4)\<rparr>"
  define k' where "k' = ?k5\<lparr>k_tokens := insert new (k_tokens ?k5), k_cancelled := k_cancelled ?k5 - {new},
      k_inflight := AList.update new [(''id'', JStr new), (''kind'', JStr ''model''),
         (''threadId'', JStr tid), (''turnId'', JStr new)] (k_inflight ?k5),
      k_steering := (case k_steering ?k5 tid of None \<Rightarrow> (k_steering ?k5)(tid \<mapsto> []) | Some _ \<Rightarrow> k_steering ?k5)\<rparr>"
  have run: "start_turn env tid prompt kwargs k = (Inr (new, ''item_'' @ new @ ''_user''), k')"
    unfolding start_turn_def k'_def
    using P E1 E2 by (simp add: act_simps assms(1,6,7) Let_def add_item_def split: option.split)
  have kinds: "dget e1 ''kind'' = Some (JStr ''turn_started'')" "dget e2 ''kind'' = Some (JStr ''item_created'')"
    using R1 R2 by (auto elim!: record_eventE simp: dget_dset)
  have "thread_get tid (k_threads k') = Some (JDict ?r)" by (simp add: k'_def G)
  moreover have "turns_of ?r = turns_of r @ [JDict (new_turn new tid prompt kwargs now)]"
    by (simp add: turns_of_dset_other) (simp add: turns_of_def dget_or_dset)
  moreover have "items_text (k_sessions k') tid = items_text (k_sessions k) tid @ dump_line ?item"
    by (simp add: k'_def items_text_append)
  moreover have "history (k_bus k') tid 0 = history (k_bus k) tid 0 @ [e1, e2]"
    using H1[of tid] H2[of tid] by (simp add: k'_def)
  moreover have "is_running new (k_inflight k')" by (auto simp: k'_def is_running_def update_keys)
  moreover have "same_otherwise tid k k'" by (simp add: same_otherwise_def k'_def G)
  moreover have "thread_get t (k_threads k) = None \<longrightarrow>
      start_turn env t prompt kwargs k = (Inl (ValueError (''thread not found: '' @ t)), k)"
    by (simp add: start_turn_def act_simps)
  ultimately show ?thesis using run kinds by (auto simp: k'_def dget_dset)
qed

theorem start_turn_starts_witness:
  "\<exists>k' e1 e2. start_turn demo_env ''th'' ''hello'' [] demo_kun = (Inr (''turn_1'', ''item_turn_1_user''), k')
     \<and> history (k_bus k') ''th'' 0 = [e1, e2] \<and> ''turn_1'' \<in> k_tokens k'"
proof -
  have A: "wf_json (JDict demo_thread)" "wf_json (JDict [])" "dget demo_thread ''id'' = Some (JStr ''th'')"
    by (simp_all add: demo_thread_def)
  have "''turn_'' @ uid demo_env (Suc (k_tick demo_kun)) = ''turn_1''"
    by (simp add: demo_env_def)
  moreover have "history (k_bus demo_kun) ''th'' 0 = []" by (simp add: demo_kun_def empty_kun_def)
  ultimately show ?thesis
    using start_turn_starts[OF demo_kun_get A, of "''turn_1''" demo_env _ "''hello''"] by fastforce
qed

end
