(* ===== verification/Permission.thy ===== *)
theory Permission
  imports ExecPolicy
begin

text \<open>
  The permission engine (\<open>execution/permission_engine.py\<close>): from a tool call and the allowlists, deny
  patterns, profile and bypass object to a verdict.  The global allowlist of \<open>command_approval\<close> and the
  SHA-256 digest of \<open>key_for\<close> are arguments; a set that the code iterates is a list in iteration order.
  Paths are POSIX paths.  Descriptions that are Chinese in the source have an English stand-in: nothing
  reads them.
\<close>

definition METACHARS :: "pystr" where
  "METACHARS = '';&|`$(){}[]<>!'' @ [CHR 0x0A, CHR 0x0D]"

definition has_metachar :: "pystr \<Rightarrow> bool" where
  "has_metachar s = (\<exists>c \<in> set s. c \<in> set METACHARS)"

subsection \<open>Targets and hints\<close>

text \<open>\<open>args.get(k1, '') or args.get(k2, '') or ...\<close>: the first truthy value, else the last one.\<close>

fun first_truthy :: "dict \<Rightarrow> pystr list \<Rightarrow> json" where
  "first_truthy args [] = JStr ''''"
| "first_truthy args [k] = dget_or args k (JStr '''')"
| "first_truthy args (k # ks) = jor (dget_or args k (JStr '''')) (first_truthy args ks)"

definition office_suffix :: "pystr \<Rightarrow> pystr option" where
  "office_suffix tool = map_of
     [(''create_docx'', ''.docx''), (''docx_write'', ''.docx''), (''edit_docx'', ''.docx''),
      (''create_xlsx'', ''.xlsx''), (''xlsx_write'', ''.xlsx''), (''append_xlsx'', ''.xlsx''),
      (''create_pptx'', ''.pptx''), (''pptx_write'', ''.pptx'')] tool"

definition office_target_path :: "pystr \<Rightarrow> dict \<Rightarrow> pystr" where
  "office_target_path tool args =
     (let path = first_truthy args [''path'', ''file_path'', ''filename'']
      in if \<not> truthy path then ''''
         else case office_suffix tool of
           None \<Rightarrow> py_str path
         | Some suf \<Rightarrow>
             (let s = py_str path;
                  low = py_lower s;
                  slash = max (py_rfind_ch (CHR ''/'') s) (py_rfind_ch (CHR 0x5C) s);
                  dot = py_rfind_ch (CHR ''.'') s
              in if slash < dot \<and> py_from low dot = suf then s
                 else if slash < dot then py_upto s dot @ suf
                 else s @ suf))"

text \<open>\<open>str(args.get(k1) or args.get(k2) or '')\<close>\<close>

definition str_of_first :: "dict \<Rightarrow> pystr list \<Rightarrow> pystr" where
  "str_of_first args ks =
     py_str (foldr (\<lambda>k acc. jor (dget_null args k) acc) ks (JStr ''''))"

definition format_manual_hint :: "pystr \<Rightarrow> dict \<Rightarrow> pystr" where
  "format_manual_hint tool args =
     (if tool \<in> {''write_file'', ''edit_file'', ''apply_patch''} then
        (let path = str_of_first args [''path'', ''file_path'']
         in if path \<noteq> '''' then ''modify file: '' @ path else ''modify file'')
      else if tool = ''exec'' then
        (let cmd = py_str (dget_or args ''command'' (JStr ''''))
         in if cmd \<noteq> '''' then ''run command: '' @ take 80 cmd else ''run command'')
      else if tool \<in> {''delete'', ''move''} then
        (let path = str_of_first args [''path'']
         in if path \<noteq> '''' then (if tool = ''delete'' then ''delete'' else ''move'') @ '': '' @ path else tool)
      else if tool \<in> {''web_search'', ''web_fetch''} then
        (let query = str_of_first args [''query'', ''url'']
         in if query \<noteq> '''' then ''network request: '' @ take 60 query else ''network request'')
      else tool)"

subsection \<open>Decisions and context\<close>

datatype permission_verdict = PV_ALLOW | PV_DENY | PV_APPROVAL_REQUIRED

record permission_decision =
  pd_verdict :: permission_verdict
  pd_category :: pystr
  pd_description :: pystr
  pd_reason :: pystr
  pd_details :: dict
  pd_allow_permanent :: bool

definition plain_decision :: "permission_verdict \<Rightarrow> pystr \<Rightarrow> permission_decision" where
  "plain_decision v why = \<lparr>pd_verdict = v, pd_category = '''', pd_description = '''', pd_reason = why,
     pd_details = [], pd_allow_permanent = False\<rparr>"

definition ask :: "pystr \<Rightarrow> pystr \<Rightarrow> dict \<Rightarrow> bool \<Rightarrow> permission_decision" where
  "ask category description details permanent =
     \<lparr>pd_verdict = PV_APPROVAL_REQUIRED, pd_category = category, pd_description = description,
      pd_reason = '''', pd_details = details, pd_allow_permanent = permanent\<rparr>"

record permission_profile =
  pp_exec_policy :: "exec_policy option"
  pp_exec_deny_prefixes :: "pystr list list"
  pp_exec_allow_prefixes :: "pystr list list"
  pp_approval_policy :: "approval_policy option"
  pp_network :: pystr
  pp_network_allowed :: bool
  pp_permanent_allowlist :: "pystr list"

record tool_ctx =
  tc_tool_name :: pystr
  tc_arguments :: dict
  tc_profile :: "permission_profile option"
  tc_bypass_approval :: bool
  tc_force_approval :: bool

text \<open>The bypass object: absent, with a \<open>bypasses_category\<close> method, or with attributes
  (\<open>getattr(bypass, name, False)\<close>).\<close>

datatype perm_bypass =
    PB_None
  | PB_Method "pystr \<Rightarrow> json"
  | PB_Attrs "pystr \<Rightarrow> json"

record permission_engine =
  pe_permanent :: "pystr set"
  pe_deny_patterns :: "pystr list"
  pe_session :: "pystr set"
  pe_bypass :: perm_bypass

definition READ_ONLY_TOOLS :: "pystr list" where
  "READ_ONLY_TOOLS = [''read_file'', ''list_dir'', ''session_search'', ''trace_search'',
     ''docx_read'', ''pptx_read'', ''xlsx_read'', ''declare_result_files'']"

definition NETWORK_TOOLS :: "pystr list" where
  "NETWORK_TOOLS = [''web_search'', ''web_fetch'', ''paper_search'', ''paper_get'', ''paper_download'']"

definition FILE_WRITE_TOOLS :: "pystr list" where
  "FILE_WRITE_TOOLS = [''write_file'', ''edit_file'', ''delete_file'', ''apply_patch'',
     ''docx_write'', ''pptx_write'', ''xlsx_write'', ''create_docx'', ''create_pptx'', ''create_xlsx'',
     ''edit_docx'', ''append_xlsx'']"

definition TOOL_CONFIRMATION_TOOLS :: "pystr list" where
  "TOOL_CONFIRMATION_TOOLS = [''memory'', ''message'', ''skill_manage'', ''plan_create'', ''plan_update'',
     ''spawn'', ''task_begin'', ''task_end'', ''cron'',
     ''mcp_sure_sure_check'', ''mcp_sure_sure_get_report'', ''mcp_sure_sure_get_repair'',
     ''mcp_sure_sure_recheck'', ''mcp_sure_sure_status'']"

definition SURE_PROJECT_TOOLS :: "pystr list" where
  "SURE_PROJECT_TOOLS = [''mcp_sure_sure_check'', ''mcp_sure_sure_recheck'', ''mcp_sure_sure_get_repair'']"

definition SAFE_COMMAND_PREFIXES :: "pystr list" where
  "SAFE_COMMAND_PREFIXES = [''ls '', ''cat '', ''head '', ''tail '', ''wc '', ''grep '',
     ''find '', ''which '', ''pwd '', ''echo '', ''date '', ''whoami '',
     ''git status'', ''git log'', ''git diff'', ''git branch'',
     ''python --version'', ''node --version'',
     ''cargo --version'', ''npm --version'', ''pip list'',
     ''poetry --version'', ''uv --version'', ''dir '', ''type '']"

definition is_safe_command :: "pystr \<Rightarrow> bool" where
  "is_safe_command cmd =
     (let s = py_strip cmd
      in \<not> has_metachar s \<and> (\<exists>p \<in> set SAFE_COMMAND_PREFIXES. py_startswith (py_lower s) p))"

subsection \<open>Allowlist keys\<close>

definition key_for :: "(pystr \<Rightarrow> pystr) \<Rightarrow> pystr \<Rightarrow> dict \<Rightarrow> pystr" where
  "key_for sha256_16 tool args = tool @ '':'' @ sha256_16 (json_dumps_sorted (JDict args))"

definition make_key :: "(pystr \<Rightarrow> pystr) \<Rightarrow> pystr \<Rightarrow> dict \<Rightarrow> pystr" where
  "make_key sha256_16 tool args =
     (if tool = ''exec'' then ''exec:'' @ py_str (dget_or args ''command'' (JStr ''''))
      else if tool \<in> set FILE_WRITE_TOOLS then tool @ '':'' @ office_target_path tool args
      else key_for sha256_16 tool args)"

definition bypasses_approval :: "perm_bypass \<Rightarrow> pystr \<Rightarrow> bool" where
  "bypasses_approval b category =
     (case b of
        PB_None \<Rightarrow> False
      | PB_Method f \<Rightarrow> truthy (f category)
      | PB_Attrs a \<Rightarrow>
          if truthy (a ''bypass_all'') then True
          else if category = ''exec'' then truthy (a ''bypass_command_approval'')
          else if category = ''file_write'' then truthy (a ''bypass_file_write_approval'')
          else if category = ''network'' then truthy (a ''bypass_network_approval'')
          else truthy (a ''bypass_tool_confirmation''))"

fun mode_value :: "approval_mode \<Rightarrow> pystr" where
  "mode_value UNLESS_TRUSTED = ''unless_trusted''"
| "mode_value ON_FAILURE = ''on_failure''"
| "mode_value ON_REQUEST = ''on_request''"
| "mode_value GRANULAR = ''granular''"
| "mode_value NEVER = ''never''"

definition bypassed_decision :: "permission_decision \<Rightarrow> permission_decision" where
  "bypassed_decision d = d\<lparr>pd_verdict := PV_ALLOW, pd_reason := ''Auto-approved by approval bypass''\<rparr>"

definition apply_approval_policy ::
  "permission_engine \<Rightarrow> permission_decision \<Rightarrow> permission_profile option \<Rightarrow> bool \<Rightarrow> permission_decision" where
  "apply_approval_policy e d profile failed =
     (if pd_verdict d \<noteq> PV_APPROVAL_REQUIRED then d
      else case (case profile of None \<Rightarrow> None | Some p \<Rightarrow> pp_approval_policy p) of
        None \<Rightarrow> if bypasses_approval (pe_bypass e) (pd_category d) then bypassed_decision d else d
      | Some policy \<Rightarrow>
          if bypasses_approval (pe_bypass e) (pd_category d) then bypassed_decision d
          else if \<not> requires_prompt policy (pd_category d) failed
          then d\<lparr>pd_verdict := PV_ALLOW,
                 pd_reason := ''Auto-approved by policy ('' @ mode_value (mode policy) @ '')''\<rparr>
          else d)"

definition first_target :: "dict \<Rightarrow> pystr list \<Rightarrow> pystr" where
  "first_target args ks =
     (case filter (\<lambda>k. truthy (dget_null args k)) ks of
        k # _ \<Rightarrow> py_str (dget_null args k)
      | [] \<Rightarrow> take 120 (py_str (JDict args)))"

definition network_target :: "dict \<Rightarrow> pystr" where
  "network_target args = first_target args [''url'', ''query'', ''paper_id'', ''doi'', ''title'']"

definition tool_target :: "dict \<Rightarrow> pystr" where
  "tool_target args = first_target args [''action'', ''content'', ''title'', ''name'']"

subsection \<open>The check\<close>

definition deny_match :: "permission_engine \<Rightarrow> tool_ctx \<Rightarrow> pystr option" where
  "deny_match e ctx = List.find (\<lambda>p. py_in p (tc_tool_name ctx) \<or> py_in p (py_str (JDict (tc_arguments ctx))))
     (pe_deny_patterns e)"

definition sure_guard :: "tool_ctx \<Rightarrow> permission_decision option" where
  "sure_guard ctx =
     (if tc_tool_name ctx \<in> set SURE_PROJECT_TOOLS then
        (case dget_null (tc_arguments ctx) ''project'' of
           JStr p \<Rightarrow>
             if py_strip p = '''' then Some (plain_decision PV_DENY ''missing project parameter'')
             else if \<not> py_startswith p ''/''
             then Some (plain_decision PV_DENY (''project must be an absolute path (got: '' @ repr_str p @ '')''))
             else None
         | _ \<Rightarrow> Some (plain_decision PV_DENY ''missing project parameter''))
      else None)"

text \<open>The allowlists, tried in order; \<open>gpa\<close> is the global one, \<open>None\<close> when importing it fails.\<close>

definition allowlisted :: "permission_engine \<Rightarrow> pystr set option \<Rightarrow> pystr \<Rightarrow> bool" where
  "allowlisted e gpa key \<longleftrightarrow>
     key \<in> pe_session e \<or> ''*:*'' \<in> pe_permanent e \<or> key \<in> pe_permanent e \<or>
     (case gpa of None \<Rightarrow> False | Some g \<Rightarrow> ''*:*'' \<in> g \<or> (key \<noteq> '''' \<and> key \<in> g))"

definition has_prefix :: "pystr list \<Rightarrow> pystr list \<Rightarrow> bool" where
  "has_prefix parts pre = (take (length pre) parts = pre)"

definition exec_by_policy :: "permission_engine \<Rightarrow> permission_profile \<Rightarrow> exec_policy \<Rightarrow> pystr \<Rightarrow> permission_decision" where
  "exec_by_policy e profile policy cmd =
     (let pol = evaluate_command policy cmd in
      case verdict pol of
        DENY \<Rightarrow> plain_decision PV_DENY (''Denied by exec policy: '' @ py_str (source pol))
      | ALLOW \<Rightarrow>
          if has_metachar (py_strip cmd)
          then apply_approval_policy e
                 (ask ''exec'' (''Policy allowed but command contains shell metacharacters: '' @ take 100 cmd)
                    [(''command'', JStr cmd)] True) (Some profile) False
          else plain_decision PV_ALLOW (''Allowed by exec policy: '' @ py_str (source pol))
      | PROMPT \<Rightarrow>
          apply_approval_policy e (ask ''exec'' (''Run: '' @ take 100 cmd) [(''command'', JStr cmd)] True)
            (Some profile) False)"

text \<open>The prefix rules of a profile; \<open>None\<close> when none matches.\<close>

definition exec_by_prefix :: "permission_engine \<Rightarrow> permission_profile \<Rightarrow> pystr \<Rightarrow> permission_decision option" where
  "exec_by_prefix e profile cmd =
     (let parts = py_words cmd in
      case List.find (has_prefix parts) (pp_exec_deny_prefixes profile) of
        Some pre \<Rightarrow> Some (plain_decision PV_DENY (''Denied by permission profile prefix: '' @ py_join '' '' pre))
      | None \<Rightarrow>
          (case List.find (has_prefix parts) (pp_exec_allow_prefixes profile) of
             Some pre \<Rightarrow>
               Some (if \<not> is_safe_command cmd
                     then apply_approval_policy e
                       (ask ''exec'' (''Allowed prefix but command contains shell metacharacters: '' @ take 100 cmd)
                          [(''command'', JStr cmd)] False) (Some profile) False
                     else plain_decision PV_ALLOW (''Allowed by permission profile prefix: '' @ py_join '' '' pre))
           | None \<Rightarrow> None))"

definition check_exec :: "permission_engine \<Rightarrow> tool_ctx \<Rightarrow> permission_decision" where
  "check_exec e ctx =
     (let cmd = py_str (dget_or (tc_arguments ctx) ''command'' (JStr ''''));
          legacy = (if is_safe_command cmd then plain_decision PV_ALLOW ''''
                    else apply_approval_policy e
                      (ask ''exec'' (''Run: '' @ take 100 cmd) [(''command'', JStr cmd)] True)
                      (tc_profile ctx) False)
      in case tc_profile ctx of
           None \<Rightarrow> legacy
         | Some profile \<Rightarrow>
             (case pp_exec_policy profile of
                Some policy \<Rightarrow> exec_by_policy e profile policy cmd
              | None \<Rightarrow> (case exec_by_prefix e profile cmd of Some d \<Rightarrow> d | None \<Rightarrow> legacy)))"

definition check_by_category :: "permission_engine \<Rightarrow> tool_ctx \<Rightarrow> permission_decision" where
  "check_by_category e ctx =
     (let tool = tc_tool_name ctx; args = tc_arguments ctx in
      if tool = ''exec'' then check_exec e ctx
      else apply_approval_policy e
        (if tool \<in> set FILE_WRITE_TOOLS then
           (let path = office_target_path tool args
            in ask ''file_write'' (tool @ '': '' @ path) [(''path'', JStr path), (''operation'', JStr tool)] True)
         else if tool \<in> set NETWORK_TOOLS then
           (let target = network_target args
            in ask ''network'' (take 200 (tool @ '': '' @ target))
                 [(''tool_name'', JStr tool), (''target'', JStr target)] True)
         else if tool \<in> set TOOL_CONFIRMATION_TOOLS then
           ask ''tool_confirmation'' (take 200 (tool @ '': '' @ tool_target args))
             [(''tool_name'', JStr tool), (''arguments'', JDict args)] True
         else ask ''tool_confirmation'' (''Unknown tool: '' @ tool) [(''tool_name'', JStr tool)] False)
        (tc_profile ctx) False)"

definition permission_check :: "(pystr \<Rightarrow> pystr) \<Rightarrow> pystr set option \<Rightarrow> permission_engine \<Rightarrow> tool_ctx \<Rightarrow> permission_decision" where
  "permission_check sha256_16 gpa e ctx =
     (let tool = tc_tool_name ctx in
      case deny_match e ctx of
        Some p \<Rightarrow> plain_decision PV_DENY (''Matches deny pattern: '' @ p)
      | None \<Rightarrow>
     (case sure_guard ctx of
        Some d \<Rightarrow> d
      | None \<Rightarrow>
     if tool = ''ask_user_confirm_card'' then plain_decision PV_ALLOW ''''
     else if tc_bypass_approval ctx
     then (plain_decision PV_ALLOW ''Bypassed by execution policy (bypass mode)'')\<lparr>pd_category := ''run''\<rparr>
     else if tc_force_approval ctx
     then \<lparr>pd_verdict = PV_APPROVAL_REQUIRED, pd_category = ''run'',
           pd_description = ''manual mode: '' @ format_manual_hint tool (tc_arguments ctx),
           pd_reason = ''Approval required by execution policy (manual mode)'',
           pd_details = [], pd_allow_permanent = False\<rparr>
     else if allowlisted e gpa (make_key sha256_16 tool (tc_arguments ctx)) then plain_decision PV_ALLOW ''''
     else if tool \<in> set READ_ONLY_TOOLS then plain_decision PV_ALLOW ''''
     else check_by_category e ctx))"

subsection \<open>Deny wins, and nothing is allowed without a reason\<close>

lemma deny_match_None_iff:
  "deny_match e ctx = None \<longleftrightarrow> (\<forall>p \<in> set (pe_deny_patterns e).
     \<not> py_in p (tc_tool_name ctx) \<and> \<not> py_in p (py_str (JDict (tc_arguments ctx))))"
  by (auto simp: deny_match_def find_None_iff)

text \<open>C7. An explicit block always wins: if some deny pattern occurs in the tool's name or in the text of
  its arguments, the call is denied, whatever the allowlists, the profile, the approval bypass and the
  execution mode say.\<close>

theorem deny_pattern_wins:
  assumes "p \<in> set (pe_deny_patterns e)"
    and "py_in p (tc_tool_name ctx) \<or> py_in p (py_str (JDict (tc_arguments ctx)))"
  shows "pd_verdict (permission_check sha gpa e ctx) = PV_DENY"
proof -
  obtain q where "deny_match e ctx = Some q"
    using assms deny_match_None_iff[of e ctx] by fastforce
  then show ?thesis by (simp add: permission_check_def plain_decision_def)
qed

definition demo_engine :: "pystr list \<Rightarrow> permission_engine" where
  "demo_engine deny = \<lparr>pe_permanent = {''*:*''}, pe_deny_patterns = deny, pe_session = {}, pe_bypass = PB_None\<rparr>"

definition demo_ctx :: "pystr \<Rightarrow> dict \<Rightarrow> tool_ctx" where
  "demo_ctx tool args = \<lparr>tc_tool_name = tool, tc_arguments = args, tc_profile = None,
     tc_bypass_approval = True, tc_force_approval = False\<rparr>"

theorem deny_pattern_wins_witness:
  "pd_verdict (permission_check (\<lambda>s. s) None (demo_engine [''rm -rf''])
     (demo_ctx ''exec'' [(''command'', JStr ''rm -rf /'')])) = PV_DENY"
proof (rule deny_pattern_wins)
  show "''rm -rf'' \<in> set (pe_deny_patterns (demo_engine [''rm -rf'']))" by (simp add: demo_engine_def)
  have "sublist ''rm -rf'' (''{'' @ (CHR 0x27 # ''command'' @ [CHR 0x27] @ '': '' @ [CHR 0x27]) @ ''rm -rf'' @ '' /'' @ [CHR 0x27] @ ''}'')"
    unfolding sublist_def by (intro exI[of _ "''{'' @ (CHR 0x27 # ''command'' @ [CHR 0x27] @ '': '' @ [CHR 0x27])"]
        exI[of _ "'' /'' @ [CHR 0x27] @ ''}''"]) simp
  then show "py_in ''rm -rf'' (tc_tool_name (demo_ctx ''exec'' [(''command'', JStr ''rm -rf /'')])) \<or>
      py_in ''rm -rf'' (py_str (JDict (tc_arguments (demo_ctx ''exec'' [(''command'', JStr ''rm -rf /'')]))))"
    by (simp add: demo_ctx_def py_in_def repr_str_def repr_char_def Let_def)
qed

definition category_of :: "pystr \<Rightarrow> pystr" where
  "category_of tool =
     (if tool = ''exec'' then ''exec'' else if tool \<in> set FILE_WRITE_TOOLS then ''file_write''
      else if tool \<in> set NETWORK_TOOLS then ''network'' else ''tool_confirmation'')"

text \<open>The approval of a category is waived by the bypass object or by the profile's approval policy.\<close>

definition auto_approved :: "permission_engine \<Rightarrow> permission_profile option \<Rightarrow> pystr \<Rightarrow> bool" where
  "auto_approved e profile cat \<longleftrightarrow> bypasses_approval (pe_bypass e) cat \<or>
     (\<exists>p pol. profile = Some p \<and> pp_approval_policy p = Some pol \<and> \<not> requires_prompt pol cat False)"

lemma apply_policy_verdict:
  "pd_verdict (apply_approval_policy e (ask cat des det perm) profile False) =
     (if auto_approved e profile cat then PV_ALLOW else PV_APPROVAL_REQUIRED)"
  by (auto simp: apply_approval_policy_def auto_approved_def bypassed_decision_def ask_def split: option.splits)

definition exec_command :: "tool_ctx \<Rightarrow> pystr" where
  "exec_command ctx = py_str (dget_or (tc_arguments ctx) ''command'' (JStr ''''))"

definition policy_allows :: "permission_profile option \<Rightarrow> pystr \<Rightarrow> bool" where
  "policy_allows profile cmd \<longleftrightarrow> (\<exists>p pol. profile = Some p \<and> pp_exec_policy p = Some pol \<and>
     verdict (evaluate_command pol cmd) = ALLOW)"

lemma safe_no_metachar: "is_safe_command cmd \<Longrightarrow> \<not> has_metachar (py_strip cmd)"
  by (simp add: is_safe_command_def Let_def)

lemma exec_by_policy_allow:
  "pd_verdict (exec_by_policy e p pol cmd) = PV_ALLOW \<Longrightarrow>
   auto_approved e (Some p) ''exec'' \<or>
     \<not> has_metachar (py_strip cmd) \<and> verdict (evaluate_command pol cmd) = ALLOW"
  by (auto simp: exec_by_policy_def apply_policy_verdict plain_decision_def Let_def
      split: policy_verdict.splits if_splits)

lemma exec_by_prefix_allow:
  "exec_by_prefix e p cmd = Some d \<Longrightarrow> pd_verdict d = PV_ALLOW \<Longrightarrow>
   auto_approved e (Some p) ''exec'' \<or> is_safe_command cmd"
  by (auto simp: exec_by_prefix_def apply_policy_verdict plain_decision_def Let_def
      split: option.splits if_splits)

lemma check_exec_allow:
  assumes "pd_verdict (check_exec e ctx) = PV_ALLOW"
  shows "auto_approved e (tc_profile ctx) ''exec'' \<or>
    \<not> has_metachar (py_strip (exec_command ctx)) \<and>
    (is_safe_command (exec_command ctx) \<or> policy_allows (tc_profile ctx) (exec_command ctx))"
proof -
  let ?legacy = "if is_safe_command (exec_command ctx) then plain_decision PV_ALLOW ''''
      else apply_approval_policy e (ask ''exec'' (''Run: '' @ take 100 (exec_command ctx))
        [(''command'', JStr (exec_command ctx))] True) (tc_profile ctx) False"
  have L: "pd_verdict ?legacy = PV_ALLOW \<Longrightarrow> auto_approved e (tc_profile ctx) ''exec'' \<or> is_safe_command (exec_command ctx)"
    by (simp add: apply_policy_verdict split: if_splits)
  show ?thesis
  proof (cases "tc_profile ctx")
    case None
    with assms L show ?thesis
      by (simp add: check_exec_def exec_command_def[symmetric] Let_def) (blast dest: safe_no_metachar)
  next
    case (Some p)
    show ?thesis
    proof (cases "pp_exec_policy p")
      case None2: None
      with assms L Some show ?thesis
        using exec_by_prefix_allow[of e p "exec_command ctx"]
        by (cases "exec_by_prefix e p (exec_command ctx)")
          (simp_all add: check_exec_def exec_command_def[symmetric] Let_def, (blast dest: safe_no_metachar)+)
    next
      case Some2: (Some pol)
      with assms Some show ?thesis
        using exec_by_policy_allow[of e p pol "exec_command ctx"]
        by (auto simp: check_exec_def exec_command_def[symmetric] Let_def policy_allows_def)
    qed
  qed
qed

text \<open>C6. Deny by default: a call is allowed without asking only if no deny pattern matches and it is the
  confirmation card, or runs in bypass mode, or (when manual mode does not force the question) is
  allowlisted, read-only, waived for its category by the bypass object or the approval policy, or is a
  shell command without any metacharacter that is on the safe list or allowed by the execution policy.
  In particular no allow rule lets a command with shell metacharacters run unasked.\<close>

theorem permission_deny_by_default:
  assumes "pd_verdict (permission_check sha gpa e ctx) = PV_ALLOW"
  shows "deny_match e ctx = None
    \<and> (tc_tool_name ctx = ''ask_user_confirm_card'' \<or> tc_bypass_approval ctx \<or>
       \<not> tc_force_approval ctx \<and>
       (allowlisted e gpa (make_key sha (tc_tool_name ctx) (tc_arguments ctx))
        \<or> tc_tool_name ctx \<in> set READ_ONLY_TOOLS
        \<or> auto_approved e (tc_profile ctx) (category_of (tc_tool_name ctx))
        \<or> tc_tool_name ctx = ''exec'' \<and> \<not> has_metachar (py_strip (exec_command ctx))
          \<and> (is_safe_command (exec_command ctx) \<or> policy_allows (tc_profile ctx) (exec_command ctx))))"
proof -
  have cat: "pd_verdict (check_by_category e ctx) = PV_ALLOW \<Longrightarrow>
      auto_approved e (tc_profile ctx) (category_of (tc_tool_name ctx)) \<or>
      tc_tool_name ctx = ''exec'' \<and> \<not> has_metachar (py_strip (exec_command ctx)) \<and>
      (is_safe_command (exec_command ctx) \<or> policy_allows (tc_profile ctx) (exec_command ctx))"
    using check_exec_allow[of e ctx]
    by (auto simp: check_by_category_def category_of_def apply_policy_verdict Let_def split: if_splits)
  have sg: "sure_guard ctx = Some d \<Longrightarrow> pd_verdict d = PV_DENY" for d
    by (auto simp: sure_guard_def plain_decision_def split: if_splits json.splits)
  show ?thesis
    using assms cat sg
    by (auto simp: permission_check_def Let_def plain_decision_def split: option.splits if_splits)
qed

theorem permission_deny_by_default_witness:
  "pd_verdict (permission_check (\<lambda>s. s) None ((demo_engine [])\<lparr>pe_permanent := {}\<rparr>)
     ((demo_ctx ''exec'' [(''command'', JStr ''ls /tmp'')])\<lparr>tc_bypass_approval := False\<rparr>)) = PV_ALLOW
   \<and> \<not> has_metachar (py_strip ''ls /tmp'')"
proof -
  let ?e = "(demo_engine [])\<lparr>pe_permanent := {}\<rparr>"
  let ?c = "(demo_ctx ''exec'' [(''command'', JStr ''ls /tmp'')])\<lparr>tc_bypass_approval := False\<rparr>"
  have safe: "is_safe_command ''ls /tmp''"
    by (simp add: is_safe_command_def has_metachar_def METACHARS_def SAFE_COMMAND_PREFIXES_def py_strip_def
        py_rstrip_of_def py_isspace_def py_startswith_def py_lower_def py_lower_char_def Let_def)
  have A: "pd_verdict (permission_check (\<lambda>s. s) None ?e ?c) = PV_ALLOW"
    using safe by (simp add: permission_check_def deny_match_def sure_guard_def SURE_PROJECT_TOOLS_def
        demo_engine_def demo_ctx_def allowlisted_def READ_ONLY_TOOLS_def check_by_category_def check_exec_def
        plain_decision_def Let_def)
  have "\<not> allowlisted ?e None (make_key (\<lambda>s. s) (tc_tool_name ?c) (tc_arguments ?c))"
    "\<not> auto_approved ?e (tc_profile ?c) (category_of (tc_tool_name ?c))"
    by (simp_all add: allowlisted_def demo_engine_def demo_ctx_def auto_approved_def bypasses_approval_def)
  with permission_deny_by_default[OF A] A show ?thesis
    by (simp add: demo_ctx_def READ_ONLY_TOOLS_def exec_command_def)
qed

subsection \<open>Where the engine is laxer or stricter than its comments\<close>

text \<open>The allowlist key of \<open>apply_patch\<close> ignores the patch: the tool's only argument is \<open>patch\<close>, and the
  key is built from a path argument.  Allowing one patch for the session allows every patch.\<close>

theorem apply_patch_key_constant:
  "make_key sha ''apply_patch'' [(''patch'', p)] = ''apply_patch:''"
  by (simp add: make_key_def FILE_WRITE_TOOLS_def office_target_path_def)

text \<open>The arguments are matched in their \<open>repr\<close>, which doubles every backslash: a deny pattern with a
  backslash does not match the argument it is written for.\<close>

theorem deny_pattern_backslash_missed:
  "deny_match (demo_engine [''C:'' @ [CHR 0x5C] @ ''Win''])
     (demo_ctx ''exec'' [(''command'', JStr (''del C:'' @ [CHR 0x5C] @ ''Win''))]) = None"
  by (simp add: deny_match_def demo_engine_def demo_ctx_def py_in_def repr_str_def repr_char_def Let_def
      sublist_Cons_right)

text \<open>Contrary to the comment on the list, a bare \<open>ls\<close> or \<open>pwd\<close> is not safe, while \<open>find\<close> with
  \<open>-delete\<close> and \<open>git branch -D\<close> are.\<close>

theorem safe_list_surprises:
  "\<not> is_safe_command ''ls'' \<and> \<not> is_safe_command ''pwd''
   \<and> is_safe_command ''find /home -delete'' \<and> is_safe_command ''git branch -D main''"
  by (simp add: is_safe_command_def has_metachar_def METACHARS_def SAFE_COMMAND_PREFIXES_def py_strip_def
      py_rstrip_of_def py_isspace_def py_startswith_def py_lower_def py_lower_char_def Let_def)

end
