(* ===== verification/SandboxPolicy.thy ===== *)
theory SandboxPolicy
  imports Permission
begin

text \<open>
  The choice of the sandbox of a tool call (\<open>execution/sandbox_policy.py\<close>): the base type, the escalation
  chain over the attempts, the fallback, and the filesystem and network permissions.  A provider of the
  availability flags is a fixed truth value or a live callable; \<open>Live r\<close> is a callable together with what
  it returns during this selection, \<open>None\<close> when it raises.  A denial is the exception
  \<open>SandboxDeniedError\<close>, here \<open>Inl\<close> with its message.
\<close>

definition sandbox_target_path :: "pystr \<Rightarrow> dict \<Rightarrow> pystr" where
  "sandbox_target_path tool args =
     (let path = jor (dget_null args ''path'') (jor (dget_null args ''file_path'') (dget_or args ''filename'' (JStr '''')))
      in if \<not> truthy path then ''''
         else case office_suffix tool of
           None \<Rightarrow> py_str path
         | Some suf \<Rightarrow>
             (let s = py_str path;
                  low = py_lower s;
                  slash = max (py_rfind_ch (CHR ''/'') s) (py_rfind_ch (CHR 0x5C) s);
                  dot = py_rfind_ch (CHR ''.'') s
              in if slash < dot \<and> py_from low dot = suf then py_str path
                 else if slash < dot then py_upto s dot @ suf
                 else s @ suf))"

lemma sandbox_path_is_approved_path: "sandbox_target_path tool args = office_target_path tool args"
proof -
  let ?f = "first_truthy args [''path'', ''file_path'', ''filename'']"
  let ?g = "jor (dget_null args ''path'') (jor (dget_null args ''file_path'') (dget_or args ''filename'' (JStr [])))"
  have "?f = ?g \<or> \<not> truthy ?f \<and> \<not> truthy ?g"
    by (simp add: jor_def dget_or_dget split: option.split)
  then show ?thesis
  proof (elim disjE)
    assume "?f = ?g"
    then show ?thesis unfolding sandbox_target_path_def office_target_path_def Let_def by (simp only:)
  next
    assume "\<not> truthy ?f \<and> \<not> truthy ?g"
    then show ?thesis unfolding sandbox_target_path_def office_target_path_def
      by (simp only: Let_def simp_thms if_True)
  qed
qed

datatype access_mode = FS_READ | FS_WRITE | FS_NONE

record path_rule =
  pr_path :: pystr
  pr_mode :: access_mode
  pr_recursive :: bool

record filesystem_policy =
  fs_rules :: "path_rule list"
  fs_default_mode :: access_mode
  fs_deny_hidden :: bool
  fs_deny_git :: bool

datatype network_policy = ALLOW_ALL | BLOCK_ALL | ALLOW_LIST

datatype sandbox_type = SB_NONE | SB_BWRAP | SB_LANDLOCK | SB_RESTRICTED

fun sandbox_value :: "sandbox_type \<Rightarrow> pystr" where
  "sandbox_value SB_NONE = ''none''"
| "sandbox_value SB_BWRAP = ''bwrap''"
| "sandbox_value SB_LANDLOCK = ''landlock''"
| "sandbox_value SB_RESTRICTED = ''restricted''"

record sandbox_selection =
  ss_type :: sandbox_type
  ss_filesystem :: filesystem_policy
  ss_network :: network_policy
  ss_env_passthrough :: json
  ss_timeout_ms :: int
  ss_reason :: pystr

datatype provider = Fixed bool | Live "bool option"

record sandbox_engine =
  sb_bwrap :: provider
  sb_landlock_available :: bool
  sb_landlock_supported :: bool
  sb_timeout_ms :: int
  sb_allow_fallback :: provider

definition LANDLOCK_SUPPORTED :: bool where
  "LANDLOCK_SUPPORTED = False"

definition new_sandbox_engine :: "provider \<Rightarrow> bool \<Rightarrow> int \<Rightarrow> provider \<Rightarrow> sandbox_engine" where
  "new_sandbox_engine bwrap landlock timeout fallback =
     \<lparr>sb_bwrap = bwrap, sb_landlock_available = landlock, sb_landlock_supported = LANDLOCK_SUPPORTED,
      sb_timeout_ms = timeout, sb_allow_fallback = fallback\<rparr>"

definition NO_SANDBOX_TOOLS :: "pystr list" where
  "NO_SANDBOX_TOOLS = [''read_file'', ''list_dir'', ''web_search'', ''web_fetch'', ''paper_search'',
     ''paper_get'', ''session_search'', ''trace_search'', ''memory'', ''plan_create'', ''plan_update'',
     ''docx_read'', ''pptx_read'', ''xlsx_read'']"

definition STRONG_SANDBOX_TOOLS :: "pystr list" where
  "STRONG_SANDBOX_TOOLS = [''exec'']"

definition FILE_MUTATION_TOOLS :: "pystr list" where
  "FILE_MUTATION_TOOLS = [''write_file'', ''edit_file'', ''delete_file'', ''apply_patch'', ''docx_write'',
     ''pptx_write'', ''xlsx_write'', ''create_docx'', ''create_pptx'', ''create_xlsx'', ''edit_docx'',
     ''append_xlsx'']"

subsection \<open>Availability\<close>

fun provided :: "provider \<Rightarrow> bool" where
  "provided (Fixed b) = b"
| "provided (Live (Some b)) = b"
| "provided (Live None) = False"

definition bwrap_available :: "sandbox_engine \<Rightarrow> bool" where
  "bwrap_available e = provided (sb_bwrap e)"

definition allow_fallback_to_none :: "sandbox_engine \<Rightarrow> bool" where
  "allow_fallback_to_none e = provided (sb_allow_fallback e)"

definition base_sandbox_type :: "sandbox_engine \<Rightarrow> pystr \<Rightarrow> sandbox_type" where
  "base_sandbox_type e tool =
     (if tool \<in> set STRONG_SANDBOX_TOOLS then
        (if bwrap_available e then SB_BWRAP
         else if sb_landlock_available e \<and> sb_landlock_supported e then SB_LANDLOCK
         else SB_NONE)
      else if tool \<in> set FILE_MUTATION_TOOLS then SB_RESTRICTED
      else SB_NONE)"

definition escalation_chain :: "sandbox_type \<Rightarrow> sandbox_type list" where
  "escalation_chain base =
     base # (case dropWhile (\<lambda>t. t \<noteq> base) [SB_BWRAP, SB_LANDLOCK, SB_RESTRICTED] of
               [] \<Rightarrow> [] | _ # weaker \<Rightarrow> weaker)"

definition resolve_fallback :: "sandbox_engine \<Rightarrow> pystr \<Rightarrow> pystr + sandbox_type" where
  "resolve_fallback e tool =
     (if tool \<in> set NO_SANDBOX_TOOLS then Inr SB_NONE
      else if tool = ''exec'' then Inl ''No sandbox available for exec''
      else if tool \<in> set FILE_MUTATION_TOOLS then Inl (''No sandbox available for '' @ tool)
      else if allow_fallback_to_none e then Inr SB_NONE
      else Inl (''No sandbox available for '' @ tool @ '' and allow_fallback_to_none is False.''))"

subsection \<open>Permissions\<close>

definition read_only_policy :: filesystem_policy where
  "read_only_policy = \<lparr>fs_rules = [], fs_default_mode = FS_READ, fs_deny_hidden = True, fs_deny_git = False\<rparr>"

definition filesystem_policy_for_tool :: "pystr \<Rightarrow> dict \<Rightarrow> filesystem_policy" where
  "filesystem_policy_for_tool tool args =
     (if tool = ''exec'' then read_only_policy\<lparr>fs_deny_hidden := False\<rparr>
      else if tool \<in> set FILE_MUTATION_TOOLS then
        (let path = sandbox_target_path tool args
         in read_only_policy\<lparr>fs_rules :=
              (if path = '''' then [] else [\<lparr>pr_path = path, pr_mode = FS_WRITE, pr_recursive = True\<rparr>])\<rparr>)
      else read_only_policy)"

definition network_policy_for_tool :: "pystr \<Rightarrow> network_policy" where
  "network_policy_for_tool tool =
     (if tool \<in> {''web_search'', ''web_fetch''} then ALLOW_ALL
      else if tool = ''exec'' then ALLOW_ALL
      else ALLOW_ALL)"

definition network_denied :: "permission_profile option \<Rightarrow> bool" where
  "network_denied profile = (case profile of None \<Rightarrow> False | Some p \<Rightarrow> pp_network p = ''none'')"

definition network_allowed :: "permission_profile option \<Rightarrow> bool" where
  "network_allowed profile = (case profile of None \<Rightarrow> False | Some p \<Rightarrow> pp_network_allowed p)"

subsection \<open>The selection\<close>

definition selection_reason :: "sandbox_engine \<Rightarrow> pystr \<Rightarrow> nat \<Rightarrow> sandbox_type \<Rightarrow> bool \<Rightarrow> pystr" where
  "selection_reason e tool attempt sel fallback =
     (let reason = (if fallback
            then ''Fallback to '' @ sandbox_value sel @ '' for '' @ tool @
                 '' - all sandbox types exhausted after '' @ nat_str attempt @ '' attempts''
            else ''Selected '' @ sandbox_value sel @ '' (attempt '' @ nat_str attempt @ '') for '' @ tool);
          parts = (if bwrap_available e then [] else [''bwrap unavailable'']) @
            (if sb_landlock_available e \<and> \<not> sb_landlock_supported e
             then [''landlock_available=True but landlock_supported=False (no Landlock adapter)'']
             else if \<not> sb_landlock_available e then [''landlock unavailable''] else [])
      in if tool = ''exec'' \<and> sel \<in> {SB_RESTRICTED, SB_NONE} then
           (if parts = [] then reason
            else reason @ '' ('' @ py_join '', '' parts @
              (if sel = SB_NONE then '' - direct host execution without restrictions''
               else '' - no stronger sandbox available'') @ '')'')
         else if sel = SB_BWRAP \<and> tool = ''exec'' \<and> sb_landlock_available e \<and> \<not> sb_landlock_supported e
         then reason @ '' (landlock_available=True but landlock_supported=False; escalation will skip to RESTRICTED)''
         else reason)"

definition select_sandbox :: "sandbox_engine \<Rightarrow> pystr \<Rightarrow> dict \<Rightarrow> permission_profile option \<Rightarrow> nat \<Rightarrow> pystr + sandbox_selection" where
  "select_sandbox e tool args profile attempt =
     (if tool \<in> set NO_SANDBOX_TOOLS
      then Inr \<lparr>ss_type = SB_NONE, ss_filesystem = read_only_policy, ss_network = ALLOW_ALL,
                ss_env_passthrough = JList [], ss_timeout_ms = 30000,
                ss_reason = ''Read-only tool, sandbox not required''\<rparr>
      else
      (let base0 = base_sandbox_type e tool;
           base = (if base0 = SB_NONE \<and> tool = ''exec'' \<and> network_denied profile then SB_RESTRICTED else base0)
       in if base = SB_NONE \<and> tool = ''exec'' \<and> \<not> allow_fallback_to_none e
          then Inl ''sandbox enabled but not ready''
          else case (if attempt < length (escalation_chain base) then Inr (escalation_chain base ! attempt)
                     else resolve_fallback e tool) of
            Inl why \<Rightarrow> Inl why
          | Inr sel \<Rightarrow>
              Inr \<lparr>ss_type = sel,
                   ss_filesystem = filesystem_policy_for_tool tool args,
                   ss_network = (if sel = SB_RESTRICTED \<and> tool = ''exec'' \<and>
                                   (network_denied profile \<or> \<not> network_allowed profile)
                                 then BLOCK_ALL else network_policy_for_tool tool),
                   ss_env_passthrough = dget_or args ''env_passthrough'' (JList []),
                   ss_timeout_ms = sb_timeout_ms e,
                   ss_reason = selection_reason e tool attempt sel (\<not> attempt < length (escalation_chain base))\<rparr>))"

lemma escalation_chain_simps [simp]:
  "escalation_chain SB_NONE = [SB_NONE]"
  "escalation_chain SB_BWRAP = [SB_BWRAP, SB_LANDLOCK, SB_RESTRICTED]"
  "escalation_chain SB_LANDLOCK = [SB_LANDLOCK, SB_RESTRICTED]"
  "escalation_chain SB_RESTRICTED = [SB_RESTRICTED]"
  by (simp_all add: escalation_chain_def)

lemma exec_not_special [simp]:
  "''exec'' \<notin> set NO_SANDBOX_TOOLS" "''exec'' \<notin> set FILE_MUTATION_TOOLS" "''exec'' \<in> set STRONG_SANDBOX_TOOLS"
  by (simp_all add: NO_SANDBOX_TOOLS_def FILE_MUTATION_TOOLS_def STRONG_SANDBOX_TOOLS_def)

lemma file_tool_not_special:
  "tool \<in> set FILE_MUTATION_TOOLS \<Longrightarrow> tool \<notin> set NO_SANDBOX_TOOLS \<and> tool \<noteq> ''exec'' \<and> tool \<notin> set STRONG_SANDBOX_TOOLS"
  by (auto simp: NO_SANDBOX_TOOLS_def FILE_MUTATION_TOOLS_def STRONG_SANDBOX_TOOLS_def)


definition demo_sandbox_engine :: "bool \<Rightarrow> bool \<Rightarrow> sandbox_engine" where
  "demo_sandbox_engine bwrap fallback = new_sandbox_engine (Live (Some bwrap)) False 30000 (Fixed fallback)"



text \<open>A file tool that runs is confined: its selection is restricted, it is the first attempt (there is
  no weaker sandbox to retry with), and the only path it may write is the path its approval request and
  its allowlist key name.\<close>

theorem file_tool_confined:
  assumes "tool \<in> set FILE_MUTATION_TOOLS"
    and "select_sandbox e tool args profile attempt = Inr s"
  shows "ss_type s = SB_RESTRICTED \<and> attempt = 0 \<and>
    (\<forall>r \<in> set (fs_rules (ss_filesystem s)). pr_mode r = FS_WRITE \<and> pr_path r = office_target_path tool args) \<and>
    fs_default_mode (ss_filesystem s) = FS_READ"
proof -
  note path = sandbox_path_is_approved_path
  show ?thesis
    using assms file_tool_not_special[OF assms(1)]
    by (auto simp: select_sandbox_def base_sandbox_type_def Let_def resolve_fallback_def filesystem_policy_for_tool_def
        read_only_policy_def path split: if_splits sum.splits)
qed

theorem file_tool_confined_witness:
  "\<exists>s. select_sandbox (demo_sandbox_engine True True) ''create_docx'' [(''path'', JStr ''report'')] None 0 = Inr s
     \<and> ss_type s = SB_RESTRICTED
     \<and> (\<forall>r \<in> set (fs_rules (ss_filesystem s)). pr_path r = office_target_path ''create_docx'' [(''path'', JStr ''report'')])
     \<and> office_target_path ''create_docx'' [(''path'', JStr ''report'')] = ''report.docx''"
proof -
  have m: "''create_docx'' \<in> set FILE_MUTATION_TOOLS" by (simp add: FILE_MUTATION_TOOLS_def)
  have "\<exists>s. select_sandbox (demo_sandbox_engine True True) ''create_docx'' [(''path'', JStr ''report'')] None 0 = Inr s"
    using file_tool_not_special[OF m] m by (simp add: select_sandbox_def base_sandbox_type_def Let_def)
  moreover have "office_target_path ''create_docx'' [(''path'', JStr ''report'')] = ''report.docx''"
    by (simp add: office_target_path_def office_suffix_def jor_def Let_def py_upto_def)
  ultimately show ?thesis using file_tool_confined[OF m] by blast
qed

text \<open>The chain ignores \<open>landlock_supported\<close>: the attempt after a bwrap attempt selects Landlock, for which
  there is no adapter, although the engine announces that it will skip to RESTRICTED.  A second attempt with
  bwrap happens when the first was denied because the sandbox was not ready yet.\<close>

theorem landlock_selected_without_adapter:
  "sb_landlock_supported (new_sandbox_engine bw ll t fb) = False
   \<and> (\<exists>why. select_sandbox (new_sandbox_engine (Live (Some False)) ll t (Fixed False)) ''exec'' args None 0 = Inl why)
   \<and> (\<exists>s. select_sandbox (new_sandbox_engine (Live (Some True)) ll t (Fixed False)) ''exec'' args None 1 = Inr s
        \<and> ss_type s = SB_LANDLOCK)"
  by (simp add: select_sandbox_def base_sandbox_type_def new_sandbox_engine_def bwrap_available_def
      allow_fallback_to_none_def LANDLOCK_SUPPORTED_def network_denied_def Let_def)

end
