(* ===== verification/Hooks.thy ===== *)
theory Hooks
  imports PyJson
begin

text \<open>
  The hook runtime (\<open>execution/hook_runtime.py\<close>): callbacks registered for a point of the lifecycle and a
  tool pattern, run in priority order, deciding together whether an operation continues, is blocked or
  is modified.  A callback is a function of the context to what awaiting it does: it returns an outcome
  or nothing, raises, or runs into the time-out.  Patterns are those of \<open>fnmatch.fnmatch\<close> on POSIX.
\<close>

subsection \<open>Shell patterns\<close>

text \<open>The members of a character class: \<open>a-z\<close> is a range, any other character stands for itself.\<close>

fun class_member :: "char \<Rightarrow> pystr \<Rightarrow> bool" where
  "class_member x (a # b # c # rest) =
     (if b = CHR ''-'' then (of_char a :: nat) \<le> of_char x \<and> (of_char x :: nat) \<le> of_char c \<or> class_member x rest
      else x = a \<or> class_member x (b # c # rest))"
| "class_member x [a, b] = (x = a \<or> x = b)"
| "class_member x [a] = (x = a)"
| "class_member x [] = False"

text \<open>The text of a class up to its closing bracket and the rest of the pattern; the first character of
  the class does not close it.\<close>

definition split_class :: "pystr \<Rightarrow> (pystr \<times> pystr) option" where
  "split_class p =
     (let neg = (if take 1 p = ''!'' then 1 else 0);
          skip = (if take 1 (drop neg p) = '']'' then neg + 1 else neg);
          body = takeWhile (\<lambda>c. c \<noteq> CHR '']'') (drop skip p)
      in if skip + length body < length p
         then Some (take (skip + length body) p, drop (skip + length body + 1) p) else None)"

lemma split_class_shorter: "split_class p = Some (b, r) \<Longrightarrow> length r < Suc (length p)"
  by (auto simp: split_class_def Let_def split: if_splits)

definition class_matches :: "pystr \<Rightarrow> char \<Rightarrow> bool" where
  "class_matches body x = (if take 1 body = ''!'' then \<not> class_member x (tl body) else class_member x body)"

datatype glob_item = GStar | GAny | GClass pystr | GChar char

function parse_glob :: "pystr \<Rightarrow> glob_item list" where
  "parse_glob [] = []"
| "parse_glob (c # p) =
     (if c = CHR ''*'' then GStar # parse_glob p
      else if c = CHR ''?'' then GAny # parse_glob p
      else if c = CHR ''['' then
        (case split_class p of
           None \<Rightarrow> GChar c # parse_glob p
         | Some (body, rest) \<Rightarrow> GClass body # parse_glob rest)
      else GChar c # parse_glob p)"
  by pat_completeness auto
termination by (relation "measure length") (auto dest: split_class_shorter)

fun glob_match :: "glob_item list \<Rightarrow> pystr \<Rightarrow> bool" where
  "glob_match [] s = (s = [])"
| "glob_match (GStar # ps) s = (glob_match ps s \<or> (case s of [] \<Rightarrow> False | _ # s' \<Rightarrow> glob_match (GStar # ps) s'))"
| "glob_match (GAny # ps) s = (case s of [] \<Rightarrow> False | _ # s' \<Rightarrow> glob_match ps s')"
| "glob_match (GClass b # ps) s = (case s of [] \<Rightarrow> False | c # s' \<Rightarrow> class_matches b c \<and> glob_match ps s')"
| "glob_match (GChar d # ps) s = (case s of [] \<Rightarrow> False | c # s' \<Rightarrow> c = d \<and> glob_match ps s')"

definition fnmatch :: "pystr \<Rightarrow> pystr \<Rightarrow> bool" where
  "fnmatch name pat = glob_match (parse_glob pat) name"

lemma glob_star: "glob_match [GStar] s"
  by (induction s) auto

lemma glob_literal: "glob_match (map GChar s @ ps) (s @ t) = glob_match ps t"
  by (induction s) auto

lemma fnmatch_star [simp]: "fnmatch name ''*''"
  by (simp add: fnmatch_def glob_star del: glob_match.simps)

lemma parse_glob_literal:
  "\<forall>c \<in> set s. c \<noteq> CHR ''*'' \<and> c \<noteq> CHR ''?'' \<and> c \<noteq> CHR ''['' \<Longrightarrow> parse_glob (s @ p) = map GChar s @ parse_glob p"
  by (induction s) auto

text \<open>A pattern without special characters matches its own text only.\<close>

lemma fnmatch_exact:
  assumes "\<forall>c \<in> set pat. c \<noteq> CHR ''*'' \<and> c \<noteq> CHR ''?'' \<and> c \<noteq> CHR ''[''"
  shows "fnmatch name pat \<longleftrightarrow> name = pat"
proof -
  have "glob_match (map GChar s) n \<longleftrightarrow> n = s" for s n
    by (induction s arbitrary: n) (auto split: list.splits)
  then show ?thesis using parse_glob_literal[OF assms, of "[]"] by (simp add: fnmatch_def)
qed

subsection \<open>Points, outcomes, registrations\<close>

datatype hook_point =
    PRE_TOOL_USE | POST_TOOL_USE | PERMISSION_REQUEST | STOP | SESSION_START | SESSION_END | PROMPT_SUBMIT
  | TURN_START | TURN_END | PRE_TOOL | POST_TOOL | PRE_COMPACT | POST_COMPACT | SUBAGENT_START | SUBAGENT_END

record hook_outcome =
  ho_action :: pystr
  ho_reason :: pystr
  ho_patch :: "dict option"

definition continue_outcome :: hook_outcome where
  "continue_outcome = \<lparr>ho_action = ''continue'', ho_reason = '''', ho_patch = None\<rparr>"

definition block_outcome :: "pystr \<Rightarrow> hook_outcome" where
  "block_outcome reason = \<lparr>ho_action = ''block'', ho_reason = reason, ho_patch = None\<rparr>"

definition modify_outcome :: "dict \<Rightarrow> hook_outcome" where
  "modify_outcome patch = \<lparr>ho_action = ''modify'', ho_reason = '''', ho_patch = Some patch\<rparr>"

datatype hook_result = HookReturns "hook_outcome option" | HookTimesOut | HookRaises

record 'c hook_registration =
  hr_point :: hook_point
  hr_pattern :: pystr
  hr_callback :: "'c \<Rightarrow> hook_result"
  hr_priority :: int
  hr_source :: pystr

type_synonym 'c hook_runtime = "hook_point \<Rightarrow> 'c hook_registration list"

definition new_hook_runtime :: "'c hook_runtime" where
  "new_hook_runtime = (\<lambda>p. [])"

definition register_hook :: "'c hook_registration \<Rightarrow> 'c hook_runtime \<Rightarrow> 'c hook_runtime" where
  "register_hook reg hooks =
     hooks(hr_point reg := sort_key hr_priority (hooks (hr_point reg) @ [reg]))"

definition unregister_source :: "pystr \<Rightarrow> 'c hook_runtime \<Rightarrow> 'c hook_runtime" where
  "unregister_source source hooks = (\<lambda>p. filter (\<lambda>r. hr_source r \<noteq> source) (hooks p))"

text \<open>The scan of \<open>run_with_outcome\<close>; \<open>lm\<close> is \<open>last_modify\<close>.\<close>

fun run_hooks :: "pystr \<Rightarrow> 'c \<Rightarrow> hook_outcome option \<Rightarrow> 'c hook_registration list \<Rightarrow> hook_outcome" where
  "run_hooks tool ctx lm [] = (case lm of Some m \<Rightarrow> m | None \<Rightarrow> continue_outcome)"
| "run_hooks tool ctx lm (reg # regs) =
     (if \<not> fnmatch tool (hr_pattern reg) then run_hooks tool ctx lm regs
      else case hr_callback reg ctx of
        HookTimesOut \<Rightarrow> run_hooks tool ctx lm regs
      | HookRaises \<Rightarrow> run_hooks tool ctx lm regs
      | HookReturns None \<Rightarrow> run_hooks tool ctx lm regs
      | HookReturns (Some o') \<Rightarrow>
          if ho_action o' = ''block'' then o'
          else if ho_action o' = ''modify'' then run_hooks tool ctx (Some o') regs
          else run_hooks tool ctx lm regs)"

definition run_with_outcome :: "'c hook_runtime \<Rightarrow> hook_point \<Rightarrow> pystr \<Rightarrow> 'c \<Rightarrow> hook_outcome" where
  "run_with_outcome hooks point tool ctx = run_hooks tool ctx None (hooks point)"

subsection \<open>What the hooks decide together\<close>

text \<open>The outcomes that the matching hooks return, in order.\<close>

definition returned_outcomes :: "'c hook_runtime \<Rightarrow> hook_point \<Rightarrow> pystr \<Rightarrow> 'c \<Rightarrow> hook_outcome list" where
  "returned_outcomes hooks point tool ctx =
     concat (map (\<lambda>r. case hr_callback r ctx of HookReturns (Some o') \<Rightarrow> [o'] | _ \<Rightarrow> [])
       (filter (\<lambda>r. fnmatch tool (hr_pattern r)) (hooks point)))"

fun decide :: "hook_outcome option \<Rightarrow> hook_outcome list \<Rightarrow> hook_outcome" where
  "decide lm [] = (case lm of Some m \<Rightarrow> m | None \<Rightarrow> continue_outcome)"
| "decide lm (x # xs) =
     (if ho_action x = ''block'' then x
      else if ho_action x = ''modify'' then decide (Some x) xs else decide lm xs)"

lemma run_hooks_decide:
  "run_hooks tool ctx lm rs = decide lm
     (concat (map (\<lambda>r. case hr_callback r ctx of HookReturns (Some o') \<Rightarrow> [o'] | _ \<Rightarrow> [])
       (filter (\<lambda>r. fnmatch tool (hr_pattern r)) rs)))"
  by (induction rs arbitrary: lm) (auto split: hook_result.split option.split)

lemma decide_eq:
  "decide lm outs =
     (case List.find (\<lambda>x. ho_action x = ''block'') outs of
        Some b \<Rightarrow> b
      | None \<Rightarrow> (case rev (filter (\<lambda>x. ho_action x = ''modify'') outs) of
                   m # _ \<Rightarrow> m | [] \<Rightarrow> (case lm of Some m \<Rightarrow> m | None \<Rightarrow> continue_outcome)))"
proof (induction outs arbitrary: lm)
  case (Cons x xs)
  show ?case
    by (cases "rev (filter (\<lambda>x. ho_action x = ''modify'') xs)") (auto simp: Cons split: option.split)
qed simp

text \<open>The decision of the hooks: the first block wins; without a block the last modification is returned,
  and otherwise the operation continues.  Hooks that fail, time out or return nothing do not change the
  decision, and a hook whose pattern does not match the tool is not consulted.\<close>

theorem hook_decision:
  "run_with_outcome hooks point tool ctx =
     (case List.find (\<lambda>x. ho_action x = ''block'') (returned_outcomes hooks point tool ctx) of
        Some b \<Rightarrow> b
      | None \<Rightarrow> (case rev (filter (\<lambda>x. ho_action x = ''modify'') (returned_outcomes hooks point tool ctx)) of
                   m # _ \<Rightarrow> m | [] \<Rightarrow> continue_outcome))"
  unfolding run_with_outcome_def returned_outcomes_def run_hooks_decide decide_eq option.case(1) ..

text \<open>The runtimes that registrations and bulk removals build from an empty one.\<close>

inductive reachable_hooks :: "'c hook_runtime \<Rightarrow> bool" where
  empty: "reachable_hooks new_hook_runtime"
| reg: "reachable_hooks h \<Longrightarrow> reachable_hooks (register_hook r h)"
| unreg: "reachable_hooks h \<Longrightarrow> reachable_hooks (unregister_source s h)"

text \<open>Hooks run in priority order, and hooks of the same priority in the order of their registration:
  in every reachable runtime the hooks of a point are sorted, and a new registration is placed after the
  hooks of its priority and leaves the others in place.\<close>

theorem hooks_in_priority_order:
  assumes "reachable_hooks h"
  shows "sorted (map hr_priority (h p))
    \<and> filter (\<lambda>r. hr_priority r = k) (register_hook reg h p) =
        filter (\<lambda>r. hr_priority r = k) (h p) @ (if p = hr_point reg \<and> k = hr_priority reg then [reg] else [])"
proof
  show "sorted (map hr_priority (h p))" using assms
  proof (induction arbitrary: p)
    case (unreg h s)
    then show ?case by (auto simp: unregister_source_def intro: sorted_filter)
  qed (auto simp: new_hook_runtime_def register_hook_def)
  show "filter (\<lambda>r. hr_priority r = k) (register_hook reg h p) =
      filter (\<lambda>r. hr_priority r = k) (h p) @ (if p = hr_point reg \<and> k = hr_priority reg then [reg] else [])"
    by (auto simp: register_hook_def sort_key_stable)
qed

definition demo_hook :: "pystr \<Rightarrow> int \<Rightarrow> hook_outcome \<Rightarrow> unit hook_registration" where
  "demo_hook pat prio o' = \<lparr>hr_point = PRE_TOOL_USE, hr_pattern = pat, hr_callback = (\<lambda>_. HookReturns (Some o')),
     hr_priority = prio, hr_source = ''demo''\<rparr>"

theorem hooks_in_priority_order_witness:
  "sorted (map hr_priority (register_hook (demo_hook ''exec'' 5 continue_outcome)
     (register_hook (demo_hook ''*'' 9 continue_outcome) new_hook_runtime) PRE_TOOL_USE))"
  using hooks_in_priority_order[OF reachable_hooks.reg[OF reachable_hooks.reg[OF reachable_hooks.empty]]] by blast

end
