(* ===== verification/ToolBase.thy ===== *)
theory ToolBase
  imports JsonText
begin

text \<open>
  The base class of the tools (\<open>agent/tools/base.py\<close>) and the registry (\<open>agent/tools/registry.py\<close>): the
  JSON-schema check of the arguments, the name table, the execution of one call with its time-out and
  error texts, and the decision whether a batch of calls may run concurrently.  The body of a tool is a
  function from its keyword arguments to what it does; errors of a malformed schema are the exceptions
  that Python raises.  Messages that are Chinese in the source have an English stand-in.
\<close>

subsection \<open>Python's \<open>in\<close>, \<open>for\<close> and \<open>==\<close> on values\<close>

text \<open>\<open>True == 1\<close> in Python; dictionaries compare as maps.\<close>

fun py_eq :: "json \<Rightarrow> json \<Rightarrow> bool" where
  "py_eq (JList xs) y = (case y of JList ys \<Rightarrow> list_all2 (\<lambda>x z. z x) ys (map py_eq xs) | _ \<Rightarrow> False)"
| "py_eq (JDict d) y = (case y of
     JDict e \<Rightarrow> length d = length e \<and>
       list_all (\<lambda>(k, f). case map_of e k of None \<Rightarrow> False | Some v \<Rightarrow> f v) (map (\<lambda>(k, v). (k, py_eq v)) d)
   | _ \<Rightarrow> False)"
| "py_eq (JStr s) y = (case y of JStr t \<Rightarrow> s = t | _ \<Rightarrow> False)"
| "py_eq JNull y = (y = JNull)"
| "py_eq x y = (as_int x = as_int y)"

fun hashable :: "json \<Rightarrow> bool" where
  "hashable (JList _) = False"
| "hashable (JDict _) = False"
| "hashable _ = True"

definition py_iter :: "json \<Rightarrow> json list result" where
  "py_iter v = (case v of
     JList xs \<Rightarrow> Inr xs
   | JDict d \<Rightarrow> Inr (map (\<lambda>(k, _). JStr k) d)
   | JStr s \<Rightarrow> Inr (map (\<lambda>c. JStr [c]) s)
   | _ \<Rightarrow> Inl (TypeError ''object is not iterable''))"

definition py_contains :: "json \<Rightarrow> json \<Rightarrow> bool result" where
  "py_contains x coll = (case coll of
     JList xs \<Rightarrow> Inr (\<exists>y \<in> set xs. py_eq x y)
   | JDict d \<Rightarrow>
       if \<not> hashable x then Inl (TypeError ''unhashable type'')
       else Inr (case x of JStr k \<Rightarrow> dhas d k | _ \<Rightarrow> False)
   | JStr s \<Rightarrow> (case x of JStr t \<Rightarrow> Inr (py_in t s) | _ \<Rightarrow> Inl (TypeError ''requires string as left operand''))
   | _ \<Rightarrow> Inl (TypeError ''argument is not iterable''))"

subsection \<open>The schema check\<close>

definition TYPE_MAP :: "(pystr \<times> (json \<Rightarrow> bool)) list" where
  "TYPE_MAP = [(''string'', is_jstr), (''integer'', \<lambda>v. as_int v \<noteq> None), (''number'', \<lambda>v. as_int v \<noteq> None),
     (''boolean'', \<lambda>v. case v of JBool _ \<Rightarrow> True | _ \<Rightarrow> False), (''array'', is_jlist), (''object'', is_jdict)]"

text \<open>\<open>t in self._TYPE_MAP and not isinstance(val, self._TYPE_MAP[t])\<close>\<close>

definition wrong_type :: "json \<Rightarrow> json \<Rightarrow> bool result" where
  "wrong_type t v =
     (if \<not> hashable t then Inl (TypeError ''unhashable type'')
      else Inr (case t of JStr s \<Rightarrow> (case map_of TYPE_MAP s of Some P \<Rightarrow> \<not> P v | None \<Rightarrow> False) | _ \<Rightarrow> False))"

definition label_of :: "pystr \<Rightarrow> pystr" where
  "label_of path = (if path = '''' then ''parameter'' else path)"

text \<open>One bound of the schema: an error text when the comparison holds.\<close>

definition bound_error :: "dict \<Rightarrow> pystr \<Rightarrow> (int \<Rightarrow> bool) \<Rightarrow> (pystr \<Rightarrow> pystr) \<Rightarrow> pystr list result" where
  "bound_error s key bad msg =
     (case dget s key of
        None \<Rightarrow> Inr []
      | Some b \<Rightarrow> (case as_int b of
            None \<Rightarrow> Inl (TypeError ''unorderable types'')
          | Some n \<Rightarrow> Inr (if bad n then [msg (py_str b)] else [])))"

definition enum_errors :: "json \<Rightarrow> dict \<Rightarrow> pystr \<Rightarrow> pystr list result" where
  "enum_errors val s path =
     (case dget s ''enum'' of
        None \<Rightarrow> Inr []
      | Some e \<Rightarrow> bind_result (py_contains val e) (\<lambda>found.
          Inr (if found then [] else [label_of path @ '' must be one of '' @ py_str e])))"

definition number_errors :: "int \<Rightarrow> dict \<Rightarrow> pystr \<Rightarrow> pystr list result" where
  "number_errors i s path =
     bind_result (bound_error s ''minimum'' (\<lambda>n. i < n) (\<lambda>b. label_of path @ '' must be >= '' @ b)) (\<lambda>e1.
     bind_result (bound_error s ''maximum'' (\<lambda>n. n < i) (\<lambda>b. label_of path @ '' must be <= '' @ b)) (\<lambda>e2.
     Inr (e1 @ e2)))"

definition length_errors :: "pystr \<Rightarrow> dict \<Rightarrow> pystr \<Rightarrow> pystr list result" where
  "length_errors v s path =
     bind_result (bound_error s ''minLength'' (\<lambda>n. int (length v) < n)
       (\<lambda>b. label_of path @ '' must be at least '' @ b @ '' chars'')) (\<lambda>e1.
     bind_result (bound_error s ''maxLength'' (\<lambda>n. n < int (length v))
       (\<lambda>b. label_of path @ '' must be at most '' @ b @ '' chars'')) (\<lambda>e2.
     Inr (e1 @ e2)))"

text \<open>The checks that do not look inside the value.\<close>

definition flat_errors :: "json \<Rightarrow> dict \<Rightarrow> pystr \<Rightarrow> pystr list result" where
  "flat_errors val s path =
     (let t = dget_null s ''type'' in
      bind_result (enum_errors val s path) (\<lambda>e1.
      bind_result (if t = JStr ''integer'' \<or> t = JStr ''number''
                   then number_errors (the (as_int val)) s path else Inr []) (\<lambda>e2.
      bind_result (case val of JStr v \<Rightarrow> if t = JStr ''string'' then length_errors v s path else Inr [] | _ \<Rightarrow> Inr [])
        (\<lambda>e3. Inr (e1 @ e2 @ e3)))))"

definition key_path :: "pystr \<Rightarrow> json \<Rightarrow> pystr result" where
  "key_path path k =
     (if path = '''' then Inr (py_str k)
      else case k of JStr s \<Rightarrow> Inr (path @ ''.'' @ s) | _ \<Rightarrow> Inl (TypeError ''can only concatenate str''))"

definition child_path :: "pystr \<Rightarrow> pystr \<Rightarrow> pystr" where
  "child_path path k = (if path = '''' then k else path @ ''.'' @ k)"

text \<open>Runs a check on each element and concatenates the errors; the first exception ends it.\<close>

fun collect_errors :: "('a \<Rightarrow> pystr list result) \<Rightarrow> 'a list \<Rightarrow> pystr list result" where
  "collect_errors f [] = Inr []"
| "collect_errors f (x # xs) = bind_result (f x) (\<lambda>e. bind_result (collect_errors f xs) (\<lambda>es. Inr (e @ es)))"

definition missing_key :: "dict \<Rightarrow> pystr \<Rightarrow> json \<Rightarrow> pystr list result" where
  "missing_key d path k =
     bind_result (py_contains k (JDict d)) (\<lambda>found.
       if found then Inr [] else bind_result (key_path path k) (\<lambda>l. Inr [''missing required '' @ l]))"

definition required_errors :: "dict \<Rightarrow> dict \<Rightarrow> pystr \<Rightarrow> pystr list result" where
  "required_errors d s path =
     bind_result (py_iter (dget_or s ''required'' (JList []))) (collect_errors (missing_key d path))"

text \<open>\<open>k in props\<close> and then \<open>props[k]\<close>; \<open>None\<close> when the key is not declared.\<close>

definition prop_schema :: "json \<Rightarrow> pystr \<Rightarrow> json option result" where
  "prop_schema props k =
     (case props of
        JDict p \<Rightarrow> Inr (dget p k)
      | _ \<Rightarrow> bind_result (py_contains (JStr k) props) (\<lambda>found.
               if found then Inl (TypeError ''indices must be integers'') else Inr None))"

text \<open>\<open>{**option, 'type': option.get('type', schema.get('type', 'object'))}\<close>\<close>

definition option_schema :: "dict \<Rightarrow> json \<Rightarrow> json result" where
  "option_schema s opt =
     (case opt of
        JDict od \<Rightarrow> Inr (JDict (dset ''type'' (dget_or od ''type'' (dget_or s ''type'' (JStr ''object''))) od))
      | _ \<Rightarrow> Inl (TypeError ''object is not a mapping''))"

text \<open>The \<open>for .. else\<close> over the options: \<open>None\<close> when one of them accepts.\<close>

fun try_options :: "(json \<Rightarrow> pystr list result) \<Rightarrow> json list \<Rightarrow> pystr list option result" where
  "try_options f [] = Inr (Some [])"
| "try_options f (o' # os) = bind_result (f o') (\<lambda>e.
     if e = [] then Inr None
     else bind_result (try_options f os) (\<lambda>r. Inr (map_option ((#) (py_join ''; '' e)) r)))"

definition index_path :: "pystr \<Rightarrow> nat \<Rightarrow> pystr" where
  "index_path path i = path @ ''['' @ nat_str i @ '']''"

fun json_depth :: "json \<Rightarrow> nat" where
  "json_depth (JList xs) = Suc (fold max (map json_depth xs) 0)"
| "json_depth (JDict d) = Suc (fold max (map (\<lambda>(k, v). json_depth v) d) 0)"
| "json_depth _ = 0"

lemma le_fold_max: "(x::nat) \<in> set xs \<Longrightarrow> x \<le> fold max xs m"
proof -
  have mono: "m \<le> fold max xs m" for m :: nat and xs
    by (induction xs arbitrary: m) (simp_all, meson max.bounded_iff)
  show "x \<in> set xs \<Longrightarrow> x \<le> fold max xs m"
    by (induction xs arbitrary: m) (auto intro: order_trans[OF _ mono])
qed

lemma fold_max_le: "(\<And>x. x \<in> set xs \<Longrightarrow> (x::nat) \<le> n) \<Longrightarrow> m \<le> n \<Longrightarrow> fold max xs m \<le> n"
  by (induction xs arbitrary: m) auto

lemma depth_element [dest]: "x \<in> set xs \<Longrightarrow> json_depth x < json_depth (JList xs)"
  by (simp add: less_Suc_eq_le le_fold_max)

lemma depth_value:
  assumes "(k, v) \<in> set d"
  shows "json_depth v < json_depth (JDict d)"
proof -
  from assms have "json_depth v \<in> set (map (\<lambda>(k, v). json_depth v) d)" by force
  then have "json_depth v \<le> fold max (map (\<lambda>(k, v). json_depth v) d) 0" by (rule le_fold_max)
  then show ?thesis by (simp add: less_Suc_eq_le)
qed

lemma depth_dget: "dget d k = Some v \<Longrightarrow> json_depth v < json_depth (JDict d)"
  unfolding dget_def by (rule depth_value[OF map_of_SomeD])

lemma set_dset: "p \<in> set (dset k v d) \<Longrightarrow> p = (k, v) \<or> p \<in> set d"
  unfolding dset_def by (induction d) (auto split: if_splits)

lemma depth_dset: "json_depth v \<le> n \<Longrightarrow> json_depth (JDict d) \<le> Suc n \<Longrightarrow> json_depth (JDict (dset k v d)) \<le> Suc n"
proof -
  assume v: "json_depth v \<le> n" and d: "json_depth (JDict d) \<le> Suc n"
  have "json_depth (snd p) \<le> n" if "p \<in> set (dset k v d)" for p
    using set_dset[OF that] v depth_value[of "fst p" "snd p" d] d by auto
  then show ?thesis by (auto intro!: fold_max_le)
qed

lemma scalar_depth: "hashable t \<Longrightarrow> json_depth t = 0"
  by (cases t) auto

lemma option_depth:
  assumes "option_schema s opt = Inr v" "hashable (dget_null s ''type'')"
  shows "json_depth v \<le> json_depth opt"
proof -
  obtain od where od: "opt = JDict od" and v: "v = JDict (dset ''type'' (dget_or od ''type'' (dget_or s ''type'' (JStr ''object''))) od)"
    using assms(1) by (auto simp: option_schema_def split: json.splits)
  have "json_depth (dget_or od ''type'' (dget_or s ''type'' (JStr ''object''))) \<le> fold max (map (\<lambda>(k, v). json_depth v) od) 0"
  proof (cases "dget od ''type''")
    case (Some t)
    with depth_dget[OF Some] show ?thesis by (simp add: dget_or_dget)
  next
    case None
    with assms(2) show ?thesis by (auto simp: dget_or_dget scalar_depth split: option.splits)
  qed
  then show ?thesis unfolding v od using depth_dset[of _ "fold max (map (\<lambda>(k, v). json_depth v) od) 0" od] by simp
qed

lemma wrong_type_hashable: "wrong_type t v = Inr b \<Longrightarrow> hashable t"
  by (auto simp: wrong_type_def split: if_splits)

lemma any_of_depth:
  assumes "wrong_type (dget_null s ''type'') v = Inr b" "dget s ''anyOf'' = Some a" "py_iter a = Inr opts"
    "opt \<in> set opts" "option_schema s opt = Inr sch"
  shows "json_depth sch < json_depth (JDict s)"
proof -
  obtain xs where "a = JList xs"
    using assms(3-5) by (auto simp: py_iter_def option_schema_def split: json.splits)
  with assms(3,4) have "json_depth opt < json_depth a" by (auto simp: py_iter_def)
  then show ?thesis
    using option_depth[OF assms(5) wrong_type_hashable[OF assms(1)]] depth_dget[OF assms(2)] by simp
qed

lemma prop_depth:
  assumes "prop_schema (dget_or s ''properties'' (JDict [])) k = Inr (Some sch)"
  shows "json_depth sch < json_depth (JDict s)"
proof -
  obtain p where p: "dget_or s ''properties'' (JDict []) = JDict p" "dget p k = Some sch"
    using assms by (auto simp: prop_schema_def split: json.splits if_splits)
  then have "dget s ''properties'' = Some (JDict p)"
    by (auto simp: dget_or_dget split: option.splits)
  from depth_dget[OF this] depth_dget[OF p(2)] show ?thesis by simp
qed

lemma bind_result_cong [fundef_cong]:
  "r = r' \<Longrightarrow> (\<And>x. r' = Inr x \<Longrightarrow> f x = f' x) \<Longrightarrow> bind_result r f = bind_result r' f'"
  by (cases r') auto

lemma collect_errors_cong [fundef_cong]:
  "xs = ys \<Longrightarrow> (\<And>x. x \<in> set ys \<Longrightarrow> f x = g x) \<Longrightarrow> collect_errors f xs = collect_errors g ys"
  by (induction xs arbitrary: ys) auto

lemma try_options_cong [fundef_cong]:
  "xs = ys \<Longrightarrow> (\<And>x. x \<in> set ys \<Longrightarrow> f x = g x) \<Longrightarrow> try_options f xs = try_options g ys"
  by (induction xs arbitrary: ys) (auto intro!: bind_result_cong)

function (sequential) validate :: "json \<Rightarrow> json \<Rightarrow> pystr \<Rightarrow> pystr list result" where
  "validate val (JDict s) path =
     bind_result (wrong_type (dget_null s ''type'') val) (\<lambda>wrong.
       if wrong then Inr [label_of path @ '' should be '' @ py_str (dget_null s ''type'')]
       else
       bind_result (case dget s ''anyOf'' of
           None \<Rightarrow> Inr []
         | Some a \<Rightarrow> bind_result (py_iter a) (\<lambda>opts.
             bind_result (try_options (\<lambda>opt. bind_result (option_schema s opt) (\<lambda>sch. validate val sch path)) opts)
               (\<lambda>r. Inr (case r of None \<Rightarrow> []
                         | Some es \<Rightarrow> [label_of path @ '' must match one of anyOf schemas: '' @ py_join '' | '' es])))) (\<lambda>e1.
       bind_result (flat_errors val s path) (\<lambda>e2.
       bind_result (if dget_null s ''type'' = JStr ''object'' then
             bind_result (required_errors (the_jdict val) s path) (\<lambda>r1.
             bind_result (collect_errors (\<lambda>(k, v).
                 bind_result (prop_schema (dget_or s ''properties'' (JDict [])) k) (\<lambda>p.
                   case p of None \<Rightarrow> Inr [] | Some sch \<Rightarrow> validate v sch (child_path path k))) (the_jdict val)) (\<lambda>r2.
             Inr (r1 @ r2)))
           else Inr []) (\<lambda>e3.
       bind_result (if dget_null s ''type'' = JStr ''array'' then
             (case dget s ''items'' of
                None \<Rightarrow> Inr []
              | Some it \<Rightarrow> collect_errors (\<lambda>(i, v). validate v it (index_path path i)) (enumerate 0 (the_jlist val)))
           else Inr []) (\<lambda>e4.
       Inr (e1 @ e2 @ e3 @ e4))))))"
| "validate val _ path = Inl (AttributeError ''object has no attribute get'')"
  by pat_completeness auto
termination
  by (relation "measure (\<lambda>(val, sch, path). json_depth sch)")
    (simp_all add: any_of_depth[simplified] prop_depth[simplified] depth_dget[simplified])

definition validate_params :: "dict \<Rightarrow> dict \<Rightarrow> pystr list result" where
  "validate_params schema params =
     (if \<not> py_eq (dget_or schema ''type'' (JStr ''object'')) (JStr ''object'')
      then Inl (ValueError (''schema must be an object, is '' @ py_repr (dget_null schema ''type'')))
      else validate (JDict params) (JDict (dset ''type'' (JStr ''object'') schema)) '''')"


lemma bound_error_Nil [simp]:
  "dget s key = Some (JNum n) \<Longrightarrow> bound_error s key bad msg = Inr [] \<longleftrightarrow> \<not> bad n"
  by (simp add: bound_error_def)




declare validate.simps [simp del]



lemmas schema_eval = wrong_type_def TYPE_MAP_def flat_errors_def enum_errors_def number_errors_def
  length_errors_def bound_error_def Let_def



text \<open>Unlike JSON Schema, the check takes a boolean for an integer or a number, since \<open>bool\<close> is a subclass
  of \<open>int\<close>.\<close>

theorem boolean_passes_as_integer:
  "validate (JBool True) (JDict [(''type'', JStr ''integer''), (''minimum'', JNum 1)]) path = Inr []"
  by (subst validate.simps(1)) (simp add: schema_eval)

subsection \<open>The registry\<close>

datatype tool_outcome =
    ToolReturns pystr
  | ToolTimesOut
  | ToolRaises pystr pystr

record tool =
  tl_name :: pystr
  tl_description :: pystr
  tl_parameters :: dict
  tl_timeout :: "int option"
  tl_execute :: "dict \<Rightarrow> tool_outcome"

definition to_schema :: "tool \<Rightarrow> json" where
  "to_schema t = JDict [(''type'', JStr ''function''), (''function'', JDict [(''name'', JStr (tl_name t)),
     (''description'', JStr (tl_description t)), (''parameters'', JDict (tl_parameters t))])]"

record registry =
  rg_tools :: "(pystr \<times> tool) list"
  rg_timeout :: int

definition new_registry :: "int \<Rightarrow> registry" where
  "new_registry timeout = \<lparr>rg_tools = [], rg_timeout = timeout\<rparr>"

definition register :: "tool \<Rightarrow> registry \<Rightarrow> registry" where
  "register t r = r\<lparr>rg_tools := AList.update (tl_name t) t (rg_tools r)\<rparr>"

definition unregister :: "pystr \<Rightarrow> registry \<Rightarrow> registry" where
  "unregister name r = r\<lparr>rg_tools := filter (\<lambda>p. fst p \<noteq> name) (rg_tools r)\<rparr>"

definition get_tool :: "registry \<Rightarrow> pystr \<Rightarrow> tool option" where
  "get_tool r name = map_of (rg_tools r) name"

definition has_tool :: "registry \<Rightarrow> pystr \<Rightarrow> bool" where
  "has_tool r name = (map_of (rg_tools r) name \<noteq> None)"

definition get_definitions :: "registry \<Rightarrow> json list" where
  "get_definitions r = map (\<lambda>(_, t). to_schema t) (rg_tools r)"

definition tool_names :: "registry \<Rightarrow> pystr list" where
  "tool_names r = map fst (rg_tools r)"

fun exc_type :: "py_error \<Rightarrow> pystr" where
  "exc_type (ValueError _) = ''ValueError''"
| "exc_type (KeyError _) = ''KeyError''"
| "exc_type (TypeError _) = ''TypeError''"
| "exc_type (PermissionError _) = ''PermissionError''"
| "exc_type (StopIteration _) = ''StopIteration''"
| "exc_type (RuntimeError _) = ''RuntimeError''"
| "exc_type (AttributeError _) = ''AttributeError''"

fun exc_text :: "py_error \<Rightarrow> pystr" where
  "exc_text (ValueError m) = m"
| "exc_text (KeyError m) = repr_str m"
| "exc_text (TypeError m) = m"
| "exc_text (PermissionError m) = m"
| "exc_text (StopIteration m) = m"
| "exc_text (RuntimeError m) = m"
| "exc_text (AttributeError m) = m"

definition retry_hint :: pystr where
  "retry_hint = [CHR 0x0A, CHR 0x0A] @ ''[Analyze the error above and try a different approach.]''"

definition raised_text :: "pystr \<Rightarrow> pystr \<Rightarrow> pystr \<Rightarrow> pystr" where
  "raised_text name ty msg = ''Error executing '' @ name @ '': '' @ ty @ '': '' @ msg @ retry_hint"

text \<open>\<open>tool.execute(**params, **extra)\<close>: a key in both is a \<open>TypeError\<close>.\<close>

definition registry_execute :: "registry \<Rightarrow> pystr \<Rightarrow> dict \<Rightarrow> dict \<Rightarrow> pystr" where
  "registry_execute r name params0 extra =
     (let params = filter (\<lambda>p. fst p \<noteq> ''_user_roots'') params0 in
      case map_of (rg_tools r) name of
        None \<Rightarrow> ''Error: no tool '' @ name @ ''. Available: '' @ py_join '', '' (tool_names r)
      | Some t \<Rightarrow>
          (case validate_params (tl_parameters t) params of
             Inl e \<Rightarrow> raised_text name (exc_type e) (exc_text e)
           | Inr (e # es) \<Rightarrow>
               ''Error: invalid parameters of '' @ name @ '': '' @ py_join ''; '' (e # es) @ retry_hint
           | Inr [] \<Rightarrow>
               (let timeout = (case tl_timeout t of Some n \<Rightarrow> n | None \<Rightarrow> rg_timeout r) in
                if (\<exists>k \<in> set (dkeys params). k \<in> set (dkeys extra))
                then raised_text name ''TypeError'' ''got multiple values for keyword argument''
                else case tl_execute t (params @ extra) of
                  ToolReturns s \<Rightarrow> if py_startswith s ''Error'' then s @ retry_hint else s
                | ToolTimesOut \<Rightarrow> ''Error: tool '' @ name @ '' timed out after '' @ int_str timeout @ '' s'' @ retry_hint
                | ToolRaises ty msg \<Rightarrow> raised_text name ty msg)))"

subsection \<open>Batches of calls\<close>

record batch_call =
  bc_id :: pystr
  bc_name :: pystr
  bc_arguments :: json

definition PARALLEL_SAFE_TOOLS :: "pystr list" where
  "PARALLEL_SAFE_TOOLS = [''read_file'', ''list_dir'', ''web_search'', ''web_fetch'', ''paper_search'',
     ''paper_get'', ''session_search'', ''trace_search'', ''skill_manage'']"

definition PATH_SCOPED_TOOLS :: "pystr list" where
  "PATH_SCOPED_TOOLS = [''write_file'', ''edit_file'', ''read_file'', ''create_docx'', ''create_pptx'',
     ''create_xlsx'', ''edit_docx'', ''append_xlsx'', ''memory'', ''task_begin'', ''task_end'']"

definition NEVER_PARALLEL_TOOLS :: "pystr list" where
  "NEVER_PARALLEL_TOOLS = [''exec'', ''message'', ''spawn'', ''cron'', ''ask_user_confirm_card'']"

definition extract_path_arg :: "dict \<Rightarrow> pystr option" where
  "extract_path_arg args =
     map_option (\<lambda>k. py_str (dget_null args k)) (List.find (dhas args) [''path'', ''file_path'', ''filename''])"

definition paths_overlap :: "pystr option \<Rightarrow> pystr option \<Rightarrow> bool" where
  "paths_overlap pa pb =
     (case (pa, pb) of
        (Some x, Some y) \<Rightarrow>
          (let a = py_rstrip_of (\<lambda>c. c = CHR ''/'') x; b = py_rstrip_of (\<lambda>c. c = CHR ''/'') y
           in a = b \<or> py_startswith a (b @ ''/'') \<or> py_startswith b (a @ ''/''))
      | _ \<Rightarrow> False)"

text \<open>The only caller of \<open>should_parallelize\<close>, the tool host, passes dictionaries.\<close>

definition call_path :: "batch_call \<Rightarrow> pystr option" where
  "call_path tc = extract_path_arg (the_jdict (bc_arguments tc))"

definition should_parallelize :: "batch_call list \<Rightarrow> bool" where
  "should_parallelize calls =
     (let names = map bc_name calls in
      if length calls < 2 then False
      else if \<exists>n \<in> set names. n \<in> set NEVER_PARALLEL_TOOLS then False
      else if \<forall>n \<in> set names. n \<in> set PARALLEL_SAFE_TOOLS then True
      else if \<forall>n \<in> set names. n \<in> set PATH_SCOPED_TOOLS
      then (let paths = map call_path calls in
            \<forall>i \<in> set [0..<length paths]. \<forall>j \<in> set [0..<length paths].
              i \<noteq> j \<longrightarrow> \<not> paths_overlap (paths ! i) (paths ! j))
      else \<exists>n \<in> set names. n \<in> set PARALLEL_SAFE_TOOLS)"

text \<open>The arguments of a call of \<open>execute_concurrent\<close>: text is parsed, and text that does not parse is \<open>{}\<close>.
  Anything but a dictionary then has no \<open>.items()\<close>.\<close>

definition call_arguments :: "json \<Rightarrow> dict result" where
  "call_arguments a =
     (case (case a of JStr s \<Rightarrow> (case json_loads s of Some v \<Rightarrow> v | None \<Rightarrow> JDict []) | v \<Rightarrow> v) of
        JDict d \<Rightarrow> Inr d
      | _ \<Rightarrow> Inl (AttributeError ''object has no attribute items''))"

fun execute_concurrent :: "registry \<Rightarrow> dict \<Rightarrow> batch_call list \<Rightarrow> (pystr \<times> pystr) list result" where
  "execute_concurrent r extra [] = Inr []"
| "execute_concurrent r extra (tc # tcs) =
     bind_result (call_arguments (bc_arguments tc)) (\<lambda>args.
     bind_result (execute_concurrent r extra tcs) (\<lambda>rest.
       Inr ((bc_id tc, registry_execute r (bc_name tc) args extra) # rest)))"

lemma paths_overlap_sym: "paths_overlap a b = paths_overlap b a"
  by (auto simp: paths_overlap_def Let_def split: option.splits)

text \<open>A batch of file tools runs concurrently only when no two of its calls touch the same file or a
  file below the other's path, and no tool that must run alone is in a concurrent batch.\<close>

theorem parallel_files_disjoint:
  assumes "should_parallelize calls"
  shows "(\<forall>tc \<in> set calls. bc_name tc \<notin> set NEVER_PARALLEL_TOOLS)
    \<and> ((\<forall>tc \<in> set calls. bc_name tc \<in> set PATH_SCOPED_TOOLS) \<longrightarrow>
        (\<exists>tc \<in> set calls. bc_name tc \<notin> set PARALLEL_SAFE_TOOLS) \<longrightarrow>
        (\<forall>i j. i < j \<longrightarrow> j < length calls \<longrightarrow> \<not> paths_overlap (call_path (calls ! i)) (call_path (calls ! j))))"
proof -
  have never: "\<forall>tc \<in> set calls. bc_name tc \<notin> set NEVER_PARALLEL_TOOLS"
    using assms by (auto simp: should_parallelize_def Let_def split: if_splits)
  have "\<not> paths_overlap (call_path (calls ! i)) (call_path (calls ! j))"
    if "\<forall>tc \<in> set calls. bc_name tc \<in> set PATH_SCOPED_TOOLS" "\<exists>tc \<in> set calls. bc_name tc \<notin> set PARALLEL_SAFE_TOOLS"
      "i < j" "j < length calls" for i j
    using assms that by (auto simp: should_parallelize_def Let_def split: if_splits)
  with never show ?thesis by blast
qed

definition demo_batch :: "pystr \<Rightarrow> pystr \<Rightarrow> batch_call list" where
  "demo_batch p q =
     [\<lparr>bc_id = ''1'', bc_name = ''read_file'', bc_arguments = JDict [(''path'', JStr p)]\<rparr>,
      \<lparr>bc_id = ''2'', bc_name = ''write_file'', bc_arguments = JDict [(''path'', JStr q)]\<rparr>]"

theorem parallel_files_disjoint_witness:
  "should_parallelize (demo_batch ''a/x'' ''a/y'')
   \<and> \<not> paths_overlap (Some ''a/x'') (Some ''a/y'') \<and> \<not> should_parallelize (demo_batch ''a'' ''a/y'')"
proof -
  have A: "should_parallelize (demo_batch ''a/x'' ''a/y'')" and B: "\<not> should_parallelize (demo_batch ''a'' ''a/y'')"
    by (simp_all add: should_parallelize_def demo_batch_def NEVER_PARALLEL_TOOLS_def PARALLEL_SAFE_TOOLS_def
        PATH_SCOPED_TOOLS_def call_path_def extract_path_arg_def dhas_def paths_overlap_def py_rstrip_of_def
        py_startswith_def Let_def atLeast0_lessThan_Suc)
  from parallel_files_disjoint[OF A] have "\<not> paths_overlap (Some ''a/x'') (Some ''a/y'')"
    by (force simp: demo_batch_def NEVER_PARALLEL_TOOLS_def PARALLEL_SAFE_TOOLS_def PATH_SCOPED_TOOLS_def
        call_path_def extract_path_arg_def dhas_def)
  with A B show ?thesis by blast
qed

text \<open>A mixed batch is let through on the strength of one read-only call: two edits of the same file run
  concurrently when a directory listing is in the batch, although they would not without it.\<close>

theorem mixed_batch_races:
  "should_parallelize
     [\<lparr>bc_id = ''1'', bc_name = ''list_dir'', bc_arguments = JDict []\<rparr>,
      \<lparr>bc_id = ''2'', bc_name = ''edit_file'', bc_arguments = JDict [(''path'', JStr ''a'')]\<rparr>,
      \<lparr>bc_id = ''3'', bc_name = ''edit_file'', bc_arguments = JDict [(''path'', JStr ''a'')]\<rparr>]"
  by (simp add: should_parallelize_def NEVER_PARALLEL_TOOLS_def PARALLEL_SAFE_TOOLS_def PATH_SCOPED_TOOLS_def Let_def)

end
