(* ===== verification/PyRegex.thy ===== *)
theory PyRegex
  imports PyStr
begin

text \<open>
  The part of Python's \<open>re\<close> that the program uses: character classes, literals, greedy repetition of a class, word
  boundaries, the end of the text, sequences, alternatives, repetition of a group and negative lookahead.  A state of the matcher is the character before the current position, if there is
  one, and the rest of the text; \<open>rx_run\<close> lists the states after a match in the order in which the backtracking
  matcher of Python tries them, so the first is the match it finds.
\<close>

definition re_word :: "char \<Rightarrow> bool" where
  "re_word c = (let n = (of_char c :: nat) in
     48 \<le> n \<and> n \<le> 57 \<or> 65 \<le> n \<and> n \<le> 90 \<or> n = 95 \<or> 97 \<le> n \<and> n \<le> 122 \<or>
     n \<in> {170, 178, 179, 181, 185, 186, 188, 189, 190} \<or> 192 \<le> n \<and> n \<noteq> 215 \<and> n \<noteq> 247)"

definition word_boundary :: "char option \<Rightarrow> char option \<Rightarrow> bool" where
  "word_boundary p n = ((case p of None \<Rightarrow> False | Some c \<Rightarrow> re_word c) \<noteq> (case n of None \<Rightarrow> False | Some c \<Rightarrow> re_word c))"

datatype rx =
    RChar "char \<Rightarrow> bool"
  | RMany "char \<Rightarrow> bool"
  | RLit pystr
  | RBound
  | REnd
  | RSeq rx rx
  | RAlt rx rx
  | RStar rx
  | RNot rx

type_synonym rx_state = "char option \<times> pystr"

definition rx_advance :: "nat \<Rightarrow> rx_state \<Rightarrow> rx_state" where
  "rx_advance n st = (case st of (p, s) \<Rightarrow> (if n = 0 then p else Some (last (take n s)), drop n s))"

text \<open>A repeated group is tried again as long as it consumes something: the length of the text bounds the rounds.\<close>

fun rx_star :: "(rx_state \<Rightarrow> rx_state list) \<Rightarrow> nat \<Rightarrow> rx_state \<Rightarrow> rx_state list" where
  "rx_star m 0 st = [st]"
| "rx_star m (Suc n) st =
     concat (map (rx_star m n) (filter (\<lambda>st'. length (snd st') < length (snd st)) (m st))) @ [st]"

fun rx_run :: "rx \<Rightarrow> rx_state \<Rightarrow> rx_state list" where
  "rx_run (RChar P) (p, s) = (case s of c # t \<Rightarrow> if P c then [(Some c, t)] else [] | [] \<Rightarrow> [])"
| "rx_run (RMany P) (p, s) = map (\<lambda>n. rx_advance n (p, s)) (rev [0..<Suc (length (takeWhile P s))])"
| "rx_run (RLit w) (p, s) = (if py_startswith s w then [rx_advance (length w) (p, s)] else [])"
| "rx_run RBound (p, s) = (if word_boundary p (case s of c # _ \<Rightarrow> Some c | [] \<Rightarrow> None) then [(p, s)] else [])"
| "rx_run REnd (p, s) = (if s = [] \<or> s = [CHR 0x0A] then [(p, s)] else [])"
| "rx_run (RSeq a b) st = concat (map (rx_run b) (rx_run a st))"
| "rx_run (RAlt a b) st = rx_run a st @ rx_run b st"
| "rx_run (RStar r) st = rx_star (rx_run r) (length (snd st)) st"
| "rx_run (RNot r) st = (if rx_run r st = [] then [st] else [])"

definition rx_seq :: "rx list \<Rightarrow> rx" where
  "rx_seq rs = foldr RSeq (butlast rs) (last rs)"

definition rx_alts :: "rx list \<Rightarrow> rx" where
  "rx_alts rs = foldr RAlt (butlast rs) (last rs)"

definition rx_words :: "pystr list \<Rightarrow> rx" where
  "rx_words ws = rx_alts (map RLit ws)"

definition rx_space :: rx where
  "rx_space = RMany py_isspace"

definition rx_some :: "(char \<Rightarrow> bool) \<Rightarrow> rx" where
  "rx_some P = RSeq (RChar P) (RMany P)"

definition rx_opt :: "rx \<Rightarrow> rx" where
  "rx_opt r = RAlt r (RLit '''')"

text \<open>\<open>bool(r.search(s))\<close> and \<open>r.finditer(s)\<close> as spans, for expressions that do not match the empty text.\<close>

fun rx_search_from :: "rx \<Rightarrow> rx_state \<Rightarrow> bool" where
  "rx_search_from r (p, []) = (rx_run r (p, []) \<noteq> [])"
| "rx_search_from r (p, c # s) = (rx_run r (p, c # s) \<noteq> [] \<or> rx_search_from r (Some c, s))"

definition rx_search :: "rx \<Rightarrow> pystr \<Rightarrow> bool" where
  "rx_search r s = rx_search_from r (None, s)"

function rx_spans_from :: "rx \<Rightarrow> nat \<Rightarrow> rx_state \<Rightarrow> (nat \<times> nat) list" where
  "rx_spans_from r i (p, []) = []"
| "rx_spans_from r i (p, c # s) =
     (case rx_run r (p, c # s) of
        [] \<Rightarrow> rx_spans_from r (Suc i) (Some c, s)
      | (q, t) # _ \<Rightarrow>
          (let n = length (c # s) - length t in
           if n = 0 then rx_spans_from r (Suc i) (Some c, s) else (i, i + n) # rx_spans_from r (i + n) (q, t)))"
  by pat_completeness auto
termination by (relation "measure (\<lambda>(_, _, _, s). length s)") auto

definition rx_spans :: "rx \<Rightarrow> pystr \<Rightarrow> (nat \<times> nat) list" where
  "rx_spans r s = rx_spans_from r 0 (None, s)"

text \<open>\<open>re.sub(r, '', s)\<close>.\<close>

function rx_remove_from :: "rx \<Rightarrow> rx_state \<Rightarrow> pystr" where
  "rx_remove_from r (p, []) = []"
| "rx_remove_from r (p, c # s) =
     (case rx_run r (p, c # s) of
        [] \<Rightarrow> c # rx_remove_from r (Some c, s)
      | (q, t) # _ \<Rightarrow> if length t < length (c # s) then rx_remove_from r (q, t) else c # rx_remove_from r (Some c, s))"
  by pat_completeness auto
termination by (relation "measure (\<lambda>(_, _, s). length s)") auto

definition rx_remove :: "rx \<Rightarrow> pystr \<Rightarrow> pystr" where
  "rx_remove r s = rx_remove_from r (None, s)"

end
