(* ===== verification/ToolArgs.thy ===== *)
theory ToolArgs
  imports PyJson PyRegex
begin

text \<open>
  The helpers of the orchestrator (\<open>execution/orchestrator.py\<close>): renaming the argument names that
  providers use, and cutting and masking what goes to the log, to the approval card and to the user
  interface.  The ellipsis that marks a cut is outside the modelled code points and written as three dots.
\<close>

subsection \<open>Argument names\<close>

definition ARG_ALIASES :: "(pystr \<times> pystr) list" where
  "ARG_ALIASES = [(''file_path'', ''path''), (''filename'', ''path''), (''cmd'', ''command'')]"

definition has_key :: "(pystr \<times> 'v) list \<Rightarrow> pystr \<Rightarrow> bool" where
  "has_key kw k = (map_of kw k \<noteq> None)"

definition pop_key :: "pystr \<Rightarrow> (pystr \<times> 'v) list \<Rightarrow> (pystr \<times> 'v) list" where
  "pop_key k kw = filter (\<lambda>p. fst p \<noteq> k) kw"

text \<open>\<open>kwargs[new] = kwargs.pop(old)\<close>\<close>

definition move_key :: "pystr \<Rightarrow> pystr \<Rightarrow> (pystr \<times> 'v) list \<Rightarrow> (pystr \<times> 'v) list" where
  "move_key old new kw = AList.update new (the (map_of kw old)) (pop_key old kw)"

text \<open>\<open>props\<close> is \<open>None\<close> when no tool is given, otherwise the declared property names.\<close>

definition normalize_alias :: "pystr list option \<Rightarrow> pystr \<times> pystr \<Rightarrow> (pystr \<times> 'v) list \<Rightarrow> (pystr \<times> 'v) list" where
  "normalize_alias props ac kw =
     (case ac of (alias, canonical) \<Rightarrow>
      if \<not> has_key kw alias then kw
      else if canonical = ''path'' \<and> props \<noteq> None \<and> ''path'' \<notin> set (the props) then
        (if alias = ''filename'' \<and> ''file_path'' \<in> set (the props) then
           (if \<not> has_key kw ''file_path'' then move_key alias ''file_path'' kw else pop_key alias kw)
         else kw)
      else if \<not> has_key kw canonical then move_key alias canonical kw
      else pop_key alias kw)"

definition normalize_tool_args :: "pystr list option \<Rightarrow> (pystr \<times> 'v) list \<Rightarrow> (pystr \<times> 'v) list" where
  "normalize_tool_args props kw = fold (normalize_alias props) ARG_ALIASES kw"

definition schema_props :: "dict \<Rightarrow> pystr list" where
  "schema_props params = dkeys (the_jdict (jor (dget_null params ''properties'') (JDict [])))"

lemma map_of_pop_key [simp]: "map_of (pop_key k kw) k' = (if k' = k then None else map_of kw k')"
  unfolding pop_key_def by (induction kw) auto

lemma has_key_pop [simp]: "has_key (pop_key k kw) k' \<longleftrightarrow> k' \<noteq> k \<and> has_key kw k'"
  by (simp add: has_key_def)

lemma map_of_move_key [simp]:
  "map_of (move_key old new kw) k =
     (if k = new then Some (the (map_of kw old)) else if k = old then None else map_of kw k)"
  by (simp add: move_key_def update_conv')

lemma has_key_move [simp]: "has_key (move_key old new kw) k \<longleftrightarrow> k = new \<or> (k \<noteq> old \<and> has_key kw k)"
  by (simp add: has_key_def)

definition alias_done :: "pystr list option \<Rightarrow> pystr \<times> pystr \<Rightarrow> (pystr \<times> 'v) list \<Rightarrow> bool" where
  "alias_done props ac kw \<longleftrightarrow> \<not> has_key kw (fst ac) \<or>
     snd ac = ''path'' \<and> props \<noteq> None \<and> ''path'' \<notin> set (the props) \<and>
     \<not> (fst ac = ''filename'' \<and> ''file_path'' \<in> set (the props))"

lemma normalize_alias_done: "alias_done props ac kw \<Longrightarrow> normalize_alias props ac kw = kw"
  by (cases ac) (auto simp: alias_done_def normalize_alias_def)

lemma alias_done_now: "a \<noteq> c \<Longrightarrow> a \<noteq> ''file_path'' \<or> c = ''path'' \<Longrightarrow> alias_done props (a, c) (normalize_alias props (a, c) kw)"
  by (auto simp: normalize_alias_def alias_done_def)

lemma has_key_normalized:
  "has_key (normalize_alias props (a, c) kw) k \<Longrightarrow>
   has_key kw k \<or> k = c \<or> k = ''file_path'' \<and> props \<noteq> None \<and> ''path'' \<notin> set (the props)"
  by (auto simp: normalize_alias_def split: if_splits)

lemma alias_done_kept:
  "alias_done props (a, c) kw \<Longrightarrow> a \<noteq> c' \<Longrightarrow> a \<noteq> ''file_path'' \<or> c = ''path'' \<Longrightarrow>
   alias_done props (a, c) (normalize_alias props (a', c') kw)"
  unfolding alias_done_def by (auto dest: has_key_normalized)

lemma map_of_normalized:
  "k \<noteq> a \<Longrightarrow> k \<noteq> ''file_path'' \<Longrightarrow> has_key kw k \<Longrightarrow> map_of (normalize_alias props (a, c) kw) k = map_of kw k"
  by (auto simp: normalize_alias_def)

lemma normalize_done: "\<forall>ac \<in> set ARG_ALIASES. alias_done props ac (normalize_tool_args props kw)"
  by (simp add: ARG_ALIASES_def normalize_tool_args_def alias_done_now alias_done_kept)

text \<open>Renaming the arguments is idempotent: the second run, on the arguments that were already renamed
  before validation, changes nothing; and it never invents or loses a value under a canonical name that was
  already given.\<close>

theorem normalize_idempotent:
  "normalize_tool_args props (normalize_tool_args props kw) = normalize_tool_args props kw
   \<and> (k \<notin> fst ` set ARG_ALIASES \<and> has_key kw k \<longrightarrow> map_of (normalize_tool_args props kw) k = map_of kw k)"
proof
  have "\<forall>ac \<in> set acs. alias_done props ac kw \<Longrightarrow> fold (normalize_alias props) acs kw = kw"
    for acs and kw :: "(pystr \<times> 'v) list"
    by (induction acs) (auto simp: normalize_alias_done)
  then show "normalize_tool_args props (normalize_tool_args props kw) = normalize_tool_args props kw"
    using normalize_done[of props kw] by (simp add: normalize_tool_args_def)
  show "k \<notin> fst ` set ARG_ALIASES \<and> has_key kw k \<longrightarrow> map_of (normalize_tool_args props kw) k = map_of kw k"
    by (simp add: normalize_tool_args_def ARG_ALIASES_def map_of_normalized has_key_def)
qed

theorem normalize_idempotent_witness:
  "normalize_tool_args (Some [''path'']) [(''filename'', JStr ''a''), (''n'', JNum 1)] = [(''n'', JNum 1), (''path'', JStr ''a'')]
   \<and> map_of (normalize_tool_args (Some [''path'']) [(''filename'', JStr ''a''), (''n'', JNum 1)]) ''n'' = Some (JNum 1)"
  using normalize_idempotent[where k = "''n''" and props = "Some [''path'']" and kw = "[(''filename'', JStr ''a''), (''n'', JNum 1)]"]
  by (simp add: normalize_tool_args_def ARG_ALIASES_def normalize_alias_def has_key_def move_key_def pop_key_def)

subsection \<open>The log\<close>

definition ellipsis :: pystr where "ellipsis = ''...''"

definition SENSITIVE_ARG_PATTERNS :: "pystr list" where
  "SENSITIVE_ARG_PATTERNS = [''api_key'', ''apikey'', ''token'', ''secret'', ''password'', ''passwd'', ''key'',
     ''auth'', ''credential'']"

definition sanitize_arg :: "pystr \<times> json \<Rightarrow> (pystr \<times> json) list" where
  "sanitize_arg kv = (case kv of (k, v) \<Rightarrow>
     if py_startswith k ''_'' then []
     else if \<exists>pat \<in> set SENSITIVE_ARG_PATTERNS. py_in pat (py_lower k) then [(k, JStr ''[REDACTED]'')]
     else case v of
       JStr s \<Rightarrow> [(k, if 200 < length s then JStr (take 200 s @ ellipsis) else v)]
     | _ \<Rightarrow> [(k, v)])"

definition sanitize_args_for_log :: "dict \<Rightarrow> dict" where
  "sanitize_args_for_log kw = concat (map sanitize_arg kw)"

definition MAX_COMMAND_LENGTH :: nat where "MAX_COMMAND_LENGTH = 500"

definition summarize_pattern_for_log :: "pystr \<Rightarrow> pystr" where
  "summarize_pattern_for_log pattern =
     (if py_startswith pattern ''exec:'' then
        (let cmd = drop (length ''exec:'') pattern in
         if MAX_COMMAND_LENGTH < length cmd then ''exec:'' @ take MAX_COMMAND_LENGTH cmd @ ellipsis else pattern)
      else pattern)"

subsection \<open>The approval card\<close>

definition MAX_DESCRIPTION_LENGTH :: nat where "MAX_DESCRIPTION_LENGTH = 500"
definition MAX_DETAILS_STRING_LENGTH :: nat where "MAX_DETAILS_STRING_LENGTH = 2000"
definition MAX_DETAILS_DEPTH :: nat where "MAX_DETAILS_DEPTH = 10"

definition UNSAFE_DETAIL_KEYS :: "pystr list" where
  "UNSAFE_DETAIL_KEYS = [''exception'', ''traceback'', ''secret'', ''password'', ''token'', ''api_key'',
     ''_future'', ''_process'', ''credential'', ''authorization'']"

text \<open>\<open>_sanitize_details\<close> on data without cycles, with the levels that are left, \<open>_MAX_DETAILS_DEPTH - _depth\<close>,
  as the argument of the recursion.\<close>

fun sanitize_details :: "nat \<Rightarrow> dict \<Rightarrow> dict" where
  "sanitize_details left [] = []"
| "sanitize_details left ((k, v) # d) =
     (if py_lower k \<in> set UNSAFE_DETAIL_KEYS then sanitize_details left d
      else (k, case v of
          JStr s \<Rightarrow> JStr (take MAX_DETAILS_STRING_LENGTH s)
        | JList xs \<Rightarrow> JStr (take MAX_DETAILS_STRING_LENGTH (py_str v))
        | JDict e \<Rightarrow> (case left of 0 \<Rightarrow> JStr ''<max_depth_exceeded>'' | Suc l \<Rightarrow> JDict (sanitize_details l e))
        | _ \<Rightarrow> v) # sanitize_details left d)"

text \<open>What may be shown: no key of the list at any depth, short strings, bounded nesting.\<close>

fun showable :: "nat \<Rightarrow> json \<Rightarrow> bool" where
  "showable n (JStr s) = (length s \<le> MAX_DETAILS_STRING_LENGTH)"
| "showable n (JList xs) = False"
| "showable 0 (JDict d) = False"
| "showable (Suc n) (JDict d) = (\<forall>(k, v) \<in> set d. py_lower k \<notin> set UNSAFE_DETAIL_KEYS \<and> showable n v)"
| "showable n v = True"

text \<open>The details of an approval card hold no value under one of the unsafe keys at any depth, no string
  longer than 2000 characters and no nesting deeper than the limit.\<close>

theorem details_are_showable:
  "showable (Suc left) (JDict (sanitize_details left d))"
proof (induction left d rule: sanitize_details.induct)
  case (2 left k v d)
  then show ?case
    by (auto simp: MAX_DETAILS_STRING_LENGTH_def split: json.split nat.split)
qed auto

text \<open>The keys are not removed below a list, which is rendered as a whole: a password inside a list is shown.\<close>

theorem details_list_shows_password:
  "py_in ''hunter2'' (py_str (dget_null (sanitize_details MAX_DETAILS_DEPTH
     [(''items'', JList [JDict [(''password'', JStr ''hunter2'')]])]) ''items''))"
  by (simp add: UNSAFE_DETAIL_KEYS_def MAX_DETAILS_STRING_LENGTH_def py_in_def repr_str_def repr_char_def
      py_lower_def py_lower_char_def Let_def sublist_Cons_right)

subsection \<open>The error text of the user interface\<close>

text \<open>\<open>re.sub\<close> for a pattern that never matches the empty text: \<open>m prev s\<close> is the length of the match at the
  start of \<open>s\<close>, with \<open>prev\<close> the character before it.\<close>

function re_sub :: "(char option \<Rightarrow> pystr \<Rightarrow> nat) \<Rightarrow> pystr \<Rightarrow> char option \<Rightarrow> pystr \<Rightarrow> pystr" where
  "re_sub m repl prev [] = []"
| "re_sub m repl prev (c # s) =
     (let n = m prev (c # s) in
      if n = 0 then c # re_sub m repl (Some c) s
      else repl @ re_sub m repl (Some (last (take n (c # s)))) (drop n (c # s)))"
  by pat_completeness auto
termination by (relation "measure (\<lambda>(m, repl, prev, s). length s)") (auto simp: Let_def)

definition url_char :: "char \<Rightarrow> bool" where
  "url_char c = (\<not> py_isspace c \<and> c \<notin> {CHR 0x22, CHR 0x27, CHR ''<'', CHR ''>''})"

definition url_body :: "pystr \<Rightarrow> nat" where
  "url_body s = length (takeWhile url_char s)"

text \<open>\<open>https?://[^\s"'<>]+\<close>, ignoring case\<close>

definition url_match :: "char option \<Rightarrow> pystr \<Rightarrow> nat" where
  "url_match prev s =
     (let n = (if py_lower (take 8 s) = ''https://'' then 8
               else if py_lower (take 7 s) = ''http://'' then 7 else 0)
      in if n = 0 \<or> url_body (drop n s) = 0 then 0 else n + url_body (drop n s))"

definition path_char :: "char \<Rightarrow> bool" where
  "path_char c = (url_char c \<and> c \<noteq> CHR ''|'' \<and> c \<noteq> CHR '':'')"

text \<open>\<open>(?:/[^\s"'<>|:]{1,200})+\<close>: greedy, and never retried since nothing follows it.\<close>

function path_segments :: "pystr \<Rightarrow> nat" where
  "path_segments s =
     (let n = length (takeWhile path_char (take 200 (tl s))) in
      if s = [] \<or> hd s \<noteq> CHR ''/'' \<or> n = 0 then 0 else Suc n + path_segments (drop (Suc n) s))"
  by pat_completeness auto
termination by (relation "measure length") auto

definition path_match :: "char option \<Rightarrow> pystr \<Rightarrow> nat" where
  "path_match prev s =
     (if (case prev of None \<Rightarrow> False
          | Some c \<Rightarrow> re_word c \<and> (of_char c :: nat) < 128 \<or> c \<in> {CHR ''.'', CHR ''-''})
      then 0 else path_segments s)"

definition token_char :: "char \<Rightarrow> bool" where
  "token_char c = (re_word c \<and> (of_char c :: nat) < 128 \<and> c \<noteq> CHR ''_'' \<or> c \<in> set ''+/='')"

definition char_at :: "pystr \<Rightarrow> nat \<Rightarrow> char option" where
  "char_at s n = (if n < length s then Some (s ! n) else None)"

text \<open>\<open>\b[A-Za-z0-9+/=]{40,}\b\<close>: the longest run that ends at a word boundary.\<close>

definition token_match :: "char option \<Rightarrow> pystr \<Rightarrow> nat" where
  "token_match prev s =
     (if \<not> word_boundary prev (char_at s 0) then 0
      else case List.find (\<lambda>n. word_boundary (char_at s (n - 1)) (char_at s n))
                  (rev [40..<Suc (length (takeWhile token_char s))]) of
             Some n \<Rightarrow> n | None \<Rightarrow> 0)"

definition sanitize_exc_for_ui :: "pystr \<Rightarrow> pystr \<Rightarrow> pystr" where
  "sanitize_exc_for_ui type_name raw0 =
     (let raw1 = (if 300 < length raw0 then take 300 raw0 @ ellipsis else raw0);
          raw2 = re_sub url_match ''[url]'' None raw1;
          raw3 = re_sub path_match ''[path]'' None raw2;
          raw4 = re_sub token_match ''[token]'' None raw3
      in if raw4 \<noteq> '''' then type_name @ '': '' @ raw4 else type_name)"

declare path_segments.simps [simp del]

definition url_scheme :: "nat \<Rightarrow> pystr" where
  "url_scheme n = (if n = 8 then ''https://'' else ''http://'')"

lemma url_body_pos: "url_body s \<noteq> 0 \<longleftrightarrow> s \<noteq> [] \<and> url_char (hd s)"
  by (cases s) (auto simp: url_body_def)

lemma url_match_iff:
  "url_match p s \<noteq> 0 \<longleftrightarrow> (\<exists>n \<in> {7, 8}. py_lower (take n s) = url_scheme n \<and> n < length s \<and> url_char (s ! n))"
proof -
  have pos: "url_body (drop n s) \<noteq> 0 \<longleftrightarrow> n < length s \<and> url_char (s ! n)" for n
    unfolding url_body_pos by (cases "n < length s") (auto simp: hd_drop_conv_nth)
  have "py_lower (take 7 s) \<noteq> ''http://''" if 8: "py_lower (take 8 s) = ''https://''"
  proof
    assume 7: "py_lower (take 7 s) = ''http://''"
    have "py_lower (take 7 s) = take 7 (py_lower (take 8 s))" by (simp add: py_lower_def take_map)
    with 7 8 show False by simp
  qed
  with pos[of 7] pos[of 8] show ?thesis by (auto simp: url_match_def url_scheme_def Let_def)
qed

definition url_headed :: "(char option \<Rightarrow> pystr \<Rightarrow> nat) \<Rightarrow> bool" where
  "url_headed m = (\<forall>q t. m q t \<noteq> 0 \<longrightarrow> t \<noteq> [] \<and> url_char (hd t))"

text \<open>The result of a substitution whose matches start with a character of a URL agrees with the text up
  to the first replacement.\<close>

lemma re_sub_front:
  assumes m: "url_headed m"
  shows "take n (re_sub m (CHR ''['' # r) p s) = take n s \<or>
    (\<exists>k < n. k < length s \<and> take k (re_sub m (CHR ''['' # r) p s) = take k s \<and>
       k < length (re_sub m (CHR ''['' # r) p s) \<and> re_sub m (CHR ''['' # r) p s ! k = CHR ''['' \<and> url_char (s ! k))"
proof (induction s arbitrary: n p)
  case (Cons c s)
  show ?case
  proof (cases n)
    case (Suc j)
    show ?thesis
    proof (cases "m p (c # s) = 0")
      case True
      with Cons[of j "Some c"] Suc show ?thesis by (auto simp: Let_def)
    next
      case False
      then have "url_char c" using m unfolding url_headed_def by (metis list.sel(1))
      with False Suc show ?thesis by (auto simp: Let_def intro!: exI[of _ 0])
    qed
  qed simp
qed simp

definition no_url :: "pystr \<Rightarrow> bool" where
  "no_url s = (\<forall>i. url_match None (drop i s) = 0)"

lemma url_match_prev: "url_match p s = url_match None s"
  by (simp add: url_match_def)

lemma no_url_Cons: "no_url (c # s) \<longleftrightarrow> url_match None (c # s) = 0 \<and> no_url s"
  unfolding no_url_def by (auto simp: drop_Cons' split: if_splits) (metis drop_Suc_Cons drop0 Suc_pred gr0I)

lemma no_url_replacement:
  assumes "no_url s" "r \<in> {''[url]'', ''[path]'', ''[token]''}"
  shows "no_url (r @ s)"
proof -
  have no: "url_match None t = 0" if "t \<noteq> []" "py_lower (take 2 t) \<noteq> ''ht''" for t
  proof (rule ccontr)
    assume "url_match None t \<noteq> 0"
    then obtain n where "n \<in> {7, 8}" "py_lower (take n t) = url_scheme n" using url_match_iff by blast
    moreover have "py_lower (take 2 t) = take 2 (py_lower (take n t))" if "n \<in> {7, 8}" for n
      using that by (auto simp: py_lower_def take_map)
    ultimately show False using that(2) by (auto simp: url_scheme_def)
  qed
  show ?thesis using assms
    by (auto simp: no_url_Cons no py_lower_def py_lower_char_def Let_def)
qed

lemma url_match_front:
  assumes m: "url_headed m" and c: "url_match None (c # s) = 0"
  shows "url_match None (c # re_sub m (CHR ''['' # r) p s) = 0"
proof (rule ccontr)
  let ?o = "re_sub m (CHR ''['' # r) p s"
  assume "url_match None (c # ?o) \<noteq> 0"
  then obtain n where n: "n \<in> {7, 8}" and sch: "py_lower (take n (c # ?o)) = url_scheme n"
    and len: "n < length (c # ?o)" and ch: "url_char ((c # ?o) ! n)"
    unfolding url_match_iff by blast
  have same: False if "take n (c # ?o) = take n (c # s)" "n < length (c # s)" "url_char ((c # s) ! n)"
    using c that n sch url_match_iff[of None "c # s"] by auto
  from re_sub_front[of m n r p s, OF m] show False
  proof (elim disjE exE conjE)
    assume eq: "take n ?o = take n s"
    have "length (take n ?o) = n" using len by simp
    then have l: "n \<le> length s" unfolding eq by simp
    obtain j where j: "n = Suc j" using n by (cases n) auto
    have "take j ?o = take j s" using arg_cong[OF eq, of "take j"] j by (simp add: take_take min_def)
    then have "take n (c # ?o) = take n (c # s)" using j by simp
    moreover have "(c # ?o) ! n = (c # s) ! n"
      using arg_cong[OF eq, of "\<lambda>l. l ! j"] j by (simp add: nth_take)
    ultimately show False using same l ch by simp
  next
    fix k assume k: "k < n" "k < length s" "take k ?o = take k s" "k < length ?o" "?o ! k = CHR ''[''" "url_char (s ! k)"
    show False
    proof (cases "Suc k = n")
      case True
      then show False using same k by auto
    next
      case False
      with k(1) have "Suc k < n" by simp
      then have "py_lower (take n (c # ?o)) ! Suc k = CHR ''[''"
        using k len by (simp add: py_lower_def py_lower_char_def)
      moreover have "CHR ''['' \<notin> set (url_scheme n)" "Suc k < length (url_scheme n)"
        using \<open>Suc k < n\<close> n by (auto simp: url_scheme_def)
      ultimately show False unfolding sch by (metis nth_mem)
    qed
  qed
qed

lemma no_url_re_sub:
  assumes m: "url_headed m"
    and r: "CHR ''['' # r \<in> {''[url]'', ''[path]'', ''[token]''}"
    and u: "\<And>i q. m q (drop i s) = 0 \<Longrightarrow> url_match None (drop i s) = 0"
  shows "no_url (re_sub m (CHR ''['' # r) p s)"
  using u
proof (induction s arbitrary: p rule: length_induct)
  case (1 s)
  show ?case
  proof (cases s)
    case Nil
    then show ?thesis by (simp add: no_url_def url_match_def Let_def py_lower_def)
  next
    case (Cons c t)
    have u: "m q (drop i t) = 0 \<Longrightarrow> url_match None (drop i t) = 0" for i q
      using 1(2)[of q "Suc i"] Cons by simp
    show ?thesis
    proof (cases "m p (c # t) = 0")
      case True
      then have "url_match None (c # t) = 0" using 1(2)[of p 0] Cons by simp
      from url_match_front[of m c t r "Some c", OF m this]
      have "url_match None (c # re_sub m (CHR ''['' # r) (Some c) t) = 0" by blast
      moreover have "no_url (re_sub m (CHR ''['' # r) (Some c) t)"
        using 1(1) u Cons by simp
      ultimately show ?thesis using True Cons by (simp add: no_url_Cons Let_def)
    next
      case False
      let ?d = "drop (m p (c # t)) (c # t)"
      have "no_url (re_sub m (CHR ''['' # r) q ?d)" for q
      proof -
        have "length ?d < length s" using False Cons by simp
        moreover have "m q (drop i ?d) = 0 \<Longrightarrow> url_match None (drop i ?d) = 0" for i q
          using 1(2)[of q "i + m p (c # t)"] Cons by (simp add: drop_drop)
        ultimately show ?thesis using 1(1) by blast
      qed
      then show ?thesis using False Cons no_url_replacement[OF _ r] by (simp add: Let_def)
    qed
  qed
qed

lemma path_match_headed: "url_headed path_match"
  unfolding url_headed_def path_match_def
  by (subst path_segments.simps) (auto simp: url_char_def py_isspace_def Let_def split: if_splits)

lemma token_char_url: "token_char c \<Longrightarrow> url_char c"
  by (auto simp: token_char_def url_char_def py_isspace_def re_word_def Let_def)

lemma token_match_headed: "url_headed token_match"
  unfolding url_headed_def
proof (intro allI impI)
  fix q t
  assume "token_match q t \<noteq> 0"
  then obtain n where "n \<in> set (rev [40..<Suc (length (takeWhile token_char t))])"
    by (auto simp: token_match_def find_Some_iff split: if_splits option.splits)
  then have "takeWhile token_char t \<noteq> []" by auto
  then show "t \<noteq> [] \<and> url_char (hd t)" by (cases t) (auto simp: token_char_url split: if_splits)
qed

lemma lower_h_url: "py_lower_char c = CHR ''h'' \<Longrightarrow> url_char c"
proof (rule ccontr)
  assume h: "py_lower_char c = CHR ''h''" and "\<not> url_char c"
  then have "py_lower_char c = c"
    by (auto simp: url_char_def py_isspace_def py_lower_char_def Let_def)
  with h \<open>\<not> url_char c\<close> show False by (simp add: url_char_def py_isspace_def Let_def)
qed

lemma lower_colon: "py_lower_char c = CHR '':'' \<Longrightarrow> c = CHR '':''"
proof (rule ccontr)
  assume h: "py_lower_char c = CHR '':''" and "c \<noteq> CHR '':''"
  then have up: "(of_char c :: nat) + 32 < 256" "char_of ((of_char c :: nat) + 32) = CHR '':''"
    "65 \<le> (of_char c :: nat)"
    by (auto simp: py_lower_char_def Let_def split: if_splits)
  then have "(of_char c :: nat) + 32 = of_char (CHR '':'')" by (metis of_char_of mod_less)
  with up show False by simp
qed

lemma url_match_headed: "url_headed url_match"
  unfolding url_headed_def
proof (intro allI impI)
  fix q t
  assume "url_match q t \<noteq> 0"
  then obtain n where n: "n \<in> {7, 8}" "py_lower (take n t) = url_scheme n" unfolding url_match_iff by blast
  then have "t \<noteq> [] \<and> py_lower_char (hd t) = CHR ''h''"
    by (cases t) (auto simp: py_lower_def url_scheme_def)
  then show "t \<noteq> [] \<and> url_char (hd t)" using lower_h_url by blast
qed

lemma url_match_prefixed:
assumes that: "CHR '':'' \<notin> set u"
shows "url_match None (u @ '': '' @ t) = 0"
proof (rule ccontr)
  let ?x = "u @ '': '' @ t"
  assume "url_match None ?x \<noteq> 0"
  then obtain n where n: "n \<in> {7, 8}" "py_lower (take n ?x) = url_scheme n" "n < length ?x"
    unfolding url_match_iff by blast
  have "i < n \<Longrightarrow> py_lower (take n ?x) ! i = py_lower_char (?x ! i)" for i
    unfolding py_lower_def using n(3) by (subst nth_map) (simp_all del: take_append append_Cons append_Nil)
  with n(2) have at: "i < n \<Longrightarrow> py_lower_char (?x ! i) = url_scheme n ! i" for i by simp
  define d where "d = n - 3"
  have d: "url_scheme n ! d = CHR '':''" "url_scheme n ! Suc d = CHR ''/''" "d < n" "Suc d < n"
    "\<forall>i < d. url_scheme n ! i \<noteq> CHR '':''"
    using n(1) by (auto simp: d_def url_scheme_def less_Suc_eq numeral_eq_Suc)
  consider "d < length u" | "d = length u" | "length u < d" by linarith
  then show False
  proof cases
    case 1
    then have "?x ! d \<in> set u" by (simp add: nth_append)
    moreover have "?x ! d = CHR '':''" using at[OF d(3)] d(1) lower_colon by metis
    ultimately show False using that by simp
  next
    case 2
    then have "?x ! Suc d = CHR '' ''" by (simp add: nth_append)
    then show False using at[OF d(4)] d(2) by (simp add: py_lower_char_def)
  next
    case 3
    then have "?x ! length u = CHR '':''" by (simp add: nth_append)
    then show False using at[of "length u"] 3 d(3,5) by (auto simp: py_lower_char_def)
  qed
qed

lemma no_url_prefixed:
assumes "CHR '':'' \<notin> set u" "no_url t"
shows "no_url (u @ '': '' @ t)"
  using assms
proof (induction u)
  case Nil
  have "url_match None ('' '' @ t) = 0"
    using no_url_replacement[of t] by (auto simp: url_match_def py_lower_def py_lower_char_def Let_def)
  with Nil url_match_prefixed[of "[]" t] show ?case by (simp add: no_url_Cons)
next
  case (Cons x u)
  with url_match_prefixed[of "x # u" t] show ?case by (simp add: no_url_Cons)
qed

lemma no_url_plain:
assumes "CHR '':'' \<notin> set s"
shows "no_url s"
proof -
  have "url_match None u = 0" if "CHR '':'' \<notin> set u" for u
  proof (rule ccontr)
    assume "url_match None u \<noteq> 0"
    then obtain n where n: "n \<in> {7, 8}" "py_lower (take n u) = url_scheme n" unfolding url_match_iff by blast
    then have "CHR '':'' \<in> set (py_lower (take n u))" by (auto simp: url_scheme_def)
    then obtain c where "c \<in> set u" "py_lower_char c = CHR '':''" by (auto simp: py_lower_def dest: in_set_takeD)
    with that lower_colon show False by metis
  qed
  then show ?thesis using assms by (auto simp: no_url_def dest: in_set_dropD)
qed

text \<open>No URL reaches the user interface: in the masked text of an exception no position starts a
  match of the URL pattern, whatever the text of the exception, so credentials inside a URL are not shown.\<close>

theorem ui_text_has_no_url:
  assumes "CHR '':'' \<notin> set type_name"
  shows "no_url (sanitize_exc_for_ui type_name raw)"
proof -
  have step: "no_url t \<Longrightarrow> no_url (re_sub m (CHR ''['' # r) None t)"
    if "url_headed m" "CHR ''['' # r \<in> {''[url]'', ''[path]'', ''[token]''}" for m r t
    by (rule no_url_re_sub[OF that]) (simp add: no_url_def)
  have url: "no_url (re_sub url_match ''[url]'' None t)" for t
    by (rule no_url_re_sub[OF url_match_headed]) (simp, metis url_match_prev)
  have path: "no_url (re_sub path_match ''[path]'' None (re_sub url_match ''[url]'' None t))" for t
    by (rule step[OF path_match_headed _ url]) simp
  have token: "no_url (re_sub token_match ''[token]'' None (re_sub path_match ''[path]'' None
      (re_sub url_match ''[url]'' None t)))" for t
    by (rule step[OF token_match_headed _ path]) simp
  show ?thesis
    unfolding sanitize_exc_for_ui_def Let_def
    using no_url_prefixed[OF assms token] no_url_plain[OF assms] by simp
qed

lemma eval_masked:
  "sanitize_exc_for_ui ''E'' ''at http://u:pw@h/x now'' = ''E: at [url] now''"
  by (simp add: sanitize_exc_for_ui_def url_match_def path_match_def token_match_def url_body_def url_char_def
      path_segments.simps py_isspace_def py_lower_def py_lower_char_def Let_def path_char_def word_boundary_def
      char_at_def token_char_def re_word_def)

theorem ui_text_has_no_url_witness:
  "no_url (sanitize_exc_for_ui ''E'' ''at http://u:pw@h/x now'') \<and>
   sanitize_exc_for_ui ''E'' ''at http://u:pw@h/x now'' = ''E: at [url] now''"
  using ui_text_has_no_url[of "''E''" "''at http://u:pw@h/x now''"] eval_masked by simp

end
