(* ===== verification/Orchestrator.thy ===== *)
theory Orchestrator
  imports SandboxPolicy Hooks ToolBase ToolArgs Gates
begin

text \<open>
  The tool orchestrator (\<open>execution/orchestrator.py\<close>): hooks, argument check, permission, approval, sandbox,
  execution and retry for every tool call.  The coroutine \<open>execute\<close> is cut at the one place where it waits
  for somebody else, the future of an approval: \<open>execute_start\<close> ends with a finished call or with a
  suspended one, and \<open>execute_resume\<close> continues it with the decision.  Futures live in a store of their own,
  since the waiting coroutine keeps its future when the tables have dropped it.  The bodies of the tools, the
  sandbox flags at each attempt, the write grants, the clock and the digest are an environment.  Texts that are
  Chinese in the source have an English stand-in.
\<close>

subsection \<open>Session write grants (\<open>agent/tools/write_grants.py\<close>)\<close>

text \<open>On POSIX \<open>os.path.normcase\<close> is the identity, so a bucket is the list of its paths in order.\<close>

type_synonym write_grants = "(pystr \<times> pystr list) list"

definition norm_session_key :: "json \<Rightarrow> pystr" where
  "norm_session_key k = (if truthy k then py_str k else '''')"

definition grant_bucket :: "write_grants \<Rightarrow> pystr \<Rightarrow> pystr list" where
  "grant_bucket g key = (case map_of g key of None \<Rightarrow> [] | Some ps \<Rightarrow> ps)"

definition grants_add :: "json \<Rightarrow> json \<Rightarrow> write_grants \<Rightarrow> write_grants" where
  "grants_add session path g =
     (case path of
        JStr p \<Rightarrow>
          if p = '''' then g
          else (let key = norm_session_key session; b = grant_bucket g key
                in AList.update key (if p \<in> set b then b else b @ [p]) g)
      | _ \<Rightarrow> g)"

definition grants_get :: "json \<Rightarrow> write_grants \<Rightarrow> pystr set" where
  "grants_get session g = set (grant_bucket g (norm_session_key session))"

definition grants_session_keys :: "write_grants \<Rightarrow> pystr list" where
  "grants_session_keys g = map fst g"

definition grants_clear :: "write_grants \<Rightarrow> write_grants" where
  "grants_clear g = []"

lemma grants_get_add:
  "grants_get s (grants_add t (JStr p) g) =
     grants_get s g \<union> (if p \<noteq> '''' \<and> norm_session_key s = norm_session_key t then {p} else {})"
  by (auto simp: grants_get_def grants_add_def grant_bucket_def Let_def update_conv')

subsection \<open>Contexts and state\<close>

datatype orch_status =
    SUCCESS | DENIED_BY_POLICY | DENIED_BY_USER | SANDBOX_FAILED | TOOL_ERROR | TIMEOUT | CANCELLED

record exec_ctx =
  xc_call :: tool_ctx
  xc_call_id :: pystr
  xc_turn :: pystr
  xc_thread :: pystr
  xc_client :: pystr
  xc_session :: pystr
  xc_has_cancel :: bool
  xc_roots :: "pystr list"
  xc_decision :: "permission_decision option"
  xc_selection :: "sandbox_selection option"
  xc_result :: "pystr option"
  xc_status :: "orch_status option"
  xc_retry :: nat

abbreviation xc_tool :: "exec_ctx \<Rightarrow> pystr" where
  "xc_tool ctx \<equiv> tc_tool_name (xc_call ctx)"

abbreviation xc_args :: "exec_ctx \<Rightarrow> dict" where
  "xc_args ctx \<equiv> tc_arguments (xc_call ctx)"

definition with_args :: "dict \<Rightarrow> exec_ctx \<Rightarrow> exec_ctx" where
  "with_args args ctx = ctx\<lparr>xc_call := (xc_call ctx)\<lparr>tc_arguments := args\<rparr>\<rparr>"

definition finish :: "pystr \<Rightarrow> orch_status \<Rightarrow> exec_ctx \<Rightarrow> exec_ctx" where
  "finish result status ctx = ctx\<lparr>xc_result := Some result, xc_status := Some status\<rparr>"

text \<open>The keyword arguments of a tool: JSON values from the model, and objects the harness injects.\<close>

datatype kwarg = KJson json | KSandbox sandbox_selection | KEmitter | KCancel | KLedger

datatype run_outcome = RunReturns pystr | RunRaises pystr pystr | RunCancelled

datatype orch_event =
    EvApprovalRequested pystr pystr pystr pystr pystr dict bool
  | EvApprovalResolved pystr pystr pystr
  | EvToolError pystr pystr pystr pystr

record ledger_item =
  li_thread :: pystr
  li_turn :: pystr
  li_type :: pystr
  li_payload :: dict

record approval_meta =
  am_id :: pystr
  am_client :: pystr
  am_session :: pystr
  am_thread :: pystr
  am_turn :: pystr
  am_call :: pystr
  am_tool :: pystr
  am_category :: pystr
  am_description :: pystr
  am_details :: dict
  am_command :: pystr
  am_command_key :: pystr
  am_allow_permanent :: bool
  am_decision_key :: pystr
  am_created :: nat
  am_timeout_ms :: int
  am_resolved :: "pystr option"

datatype future_state = FutPending | FutResult permission_decision | FutCancelled

record orch =
  or_engine :: permission_engine
  or_global :: "pystr set option"
  or_tools :: "registry option"
  or_hooks :: "exec_ctx hook_runtime"
  or_timeout_ms :: int
  or_responder :: bool
  or_events :: "orch_event list"
  or_ledger :: "ledger_item list option"
  or_pending :: "(pystr \<times> nat) list"
  or_meta :: "(pystr \<times> approval_meta) list"
  or_threads :: "(pystr \<times> pystr list) list"
  or_futures :: "future_state list"
  or_runs :: "(pystr \<times> (pystr \<times> kwarg) list) list"
  or_hook_runs :: "(hook_point \<times> pystr) list"

record orch_env =
  oe_sha :: "pystr \<Rightarrow> pystr"
  oe_sandbox :: "nat \<Rightarrow> sandbox_engine"
  oe_run :: "pystr \<Rightarrow> (pystr \<times> kwarg) list \<Rightarrow> run_outcome"
  oe_grants :: "pystr \<Rightarrow> pystr list"
  oe_now :: nat

definition MAX_RETRIES :: nat where "MAX_RETRIES = 2"

definition emit :: "orch_event \<Rightarrow> orch \<Rightarrow> orch" where
  "emit ev o' = o'\<lparr>or_events := or_events o' @ [ev]\<rparr>"

definition append_ledger :: "ledger_item \<Rightarrow> orch \<Rightarrow> orch" where
  "append_ledger it o' = o'\<lparr>or_ledger := map_option (\<lambda>l. l @ [it]) (or_ledger o')\<rparr>"

definition run_point :: "hook_point \<Rightarrow> exec_ctx \<Rightarrow> orch \<Rightarrow> hook_outcome \<times> orch" where
  "run_point p ctx o' =
     (run_with_outcome (or_hooks o') p (xc_tool ctx) ctx, o'\<lparr>or_hook_runs := or_hook_runs o' @ [(p, xc_tool ctx)]\<rparr>)"

subsection \<open>Approval keys\<close>

definition APPROVAL_PATH_TOOLS :: "pystr list" where
  "APPROVAL_PATH_TOOLS = [''write_file'', ''edit_file'', ''delete_file'', ''apply_patch'', ''docx_write'',
     ''pptx_write'', ''xlsx_write'', ''create_docx'', ''create_pptx'', ''create_xlsx'', ''edit_docx'', ''append_xlsx'']"

definition make_approval_pattern :: "(pystr \<Rightarrow> pystr) \<Rightarrow> approval_meta \<Rightarrow> pystr option" where
  "make_approval_pattern sha m =
     (let tool = am_tool m in
      if tool = ''exec'' then
        (let cmd = (if am_command_key m \<noteq> '''' then am_command_key m else am_command m)
         in if cmd = '''' then None else Some (''exec:'' @ cmd))
      else if tool \<in> set APPROVAL_PATH_TOOLS then
        (let path = jor (dget_or (am_details m) ''path'' (JStr '''')) (dget_or (am_details m) ''filename'' (JStr ''''))
         in if \<not> truthy path then None else Some (tool @ '':'' @ py_str path))
      else if am_decision_key m \<noteq> '''' then Some (am_decision_key m)
      else (case dget (am_details m) ''arguments'' of
              Some (JDict args) \<Rightarrow> Some (key_for sha tool args)
            | _ \<Rightarrow> (let p = py_strip (am_description m) in if p = '''' then None else Some p)))"

definition record_permanent_approval :: "(pystr \<Rightarrow> pystr) \<Rightarrow> approval_meta \<Rightarrow> orch \<Rightarrow> orch" where
  "record_permanent_approval sha m o' =
     (case make_approval_pattern sha m of
        None \<Rightarrow> o'
      | Some p \<Rightarrow> o'\<lparr>or_engine := (or_engine o')\<lparr>pe_permanent := insert p (pe_permanent (or_engine o'))\<rparr>,
                     or_global := map_option (insert p) (or_global o')\<rparr>)"

definition record_session_approval :: "(pystr \<Rightarrow> pystr) \<Rightarrow> approval_meta \<Rightarrow> orch \<Rightarrow> orch" where
  "record_session_approval sha m o' =
     (case make_approval_pattern sha m of
        None \<Rightarrow> o'
      | Some p \<Rightarrow> o'\<lparr>or_engine := (or_engine o')\<lparr>pe_session := insert p (pe_session (or_engine o'))\<rparr>\<rparr>)"

subsection \<open>The approval request\<close>

definition approval_id :: "exec_ctx \<Rightarrow> pystr" where
  "approval_id ctx = xc_turn ctx @ '':'' @ xc_call_id ctx"

text \<open>\<open>decision.details.get(k, '')\<close>; the engine stores strings there.\<close>

definition detail_text :: "permission_decision \<Rightarrow> pystr \<Rightarrow> pystr" where
  "detail_text d k = (case dget (pd_details d) k of Some (JStr s) \<Rightarrow> s | _ \<Rightarrow> '''')"

definition new_meta :: "orch_env \<Rightarrow> orch \<Rightarrow> exec_ctx \<Rightarrow> permission_decision \<Rightarrow> approval_meta" where
  "new_meta env o' ctx d =
     \<lparr>am_id = approval_id ctx, am_client = xc_client ctx, am_session = xc_session ctx, am_thread = xc_thread ctx,
      am_turn = xc_turn ctx, am_call = xc_call_id ctx, am_tool = xc_tool ctx, am_category = pd_category d,
      am_description = take MAX_DESCRIPTION_LENGTH (pd_description d),
      am_details = sanitize_details MAX_DETAILS_DEPTH (pd_details d),
      am_command = take MAX_COMMAND_LENGTH (detail_text d ''command''),
      am_command_key = detail_text d ''command'',
      am_allow_permanent = pd_allow_permanent d,
      am_decision_key = key_for (oe_sha env) (xc_tool ctx) (xc_args ctx),
      am_created = oe_now env, am_timeout_ms = or_timeout_ms o', am_resolved = None\<rparr>"

definition ids_of_thread :: "orch \<Rightarrow> pystr \<Rightarrow> pystr list" where
  "ids_of_thread o' t = (case map_of (or_threads o') t of None \<Rightarrow> [] | Some l \<Rightarrow> l)"

definition requested_item :: "exec_ctx \<Rightarrow> permission_decision \<Rightarrow> ledger_item" where
  "requested_item ctx d =
     \<lparr>li_thread = xc_thread ctx, li_turn = xc_turn ctx, li_type = ''approval_requested'',
      li_payload = [(''approval_id'', JStr (approval_id ctx)), (''tool_call_id'', JStr (xc_call_id ctx)),
        (''tool_name'', JStr (xc_tool ctx)), (''category'', JStr (pd_category d)),
        (''description'', JStr (take MAX_DESCRIPTION_LENGTH (pd_description d))),
        (''allow_permanent'', JBool (pd_allow_permanent d))]\<rparr>"

definition resolved_item :: "exec_ctx \<Rightarrow> permission_decision \<Rightarrow> pystr \<Rightarrow> ledger_item" where
  "resolved_item ctx d decision =
     \<lparr>li_thread = xc_thread ctx, li_turn = xc_turn ctx, li_type = ''approval_resolved'',
      li_payload = [(''approval_id'', JStr (approval_id ctx)), (''tool_call_id'', JStr (xc_call_id ctx)),
        (''decision'', JStr decision), (''tool_name'', JStr (xc_tool ctx)), (''category'', JStr (pd_category d))]\<rparr>"

text \<open>\<open>_request_approval\<close> up to its \<open>await\<close>; the number is the future the call then waits for.\<close>

definition request_approval :: "orch_env \<Rightarrow> orch \<Rightarrow> exec_ctx \<Rightarrow> permission_decision \<Rightarrow> orch \<times> nat" where
  "request_approval env o' ctx d =
     (let aid = approval_id ctx; fid = length (or_futures o');
          o1 = emit (EvApprovalRequested aid (xc_turn ctx) (xc_thread ctx) (pd_category d)
                 (take MAX_DESCRIPTION_LENGTH (pd_description d))
                 (sanitize_details MAX_DETAILS_DEPTH (pd_details d)) (pd_allow_permanent d)) o';
          o2 = append_ledger (requested_item ctx d) o1;
          ids = ids_of_thread o2 (xc_thread ctx)
      in (o2\<lparr>or_futures := or_futures o2 @ [FutPending],
             or_pending := AList.update aid fid (or_pending o2),
             or_meta := AList.update aid (new_meta env o2 ctx d) (or_meta o2),
             or_threads := AList.update (xc_thread ctx) (if aid \<in> set ids then ids else ids @ [aid]) (or_threads o2)\<rparr>,
          fid))"

definition drop_entry :: "'a \<Rightarrow> ('a \<times> 'b) list \<Rightarrow> ('a \<times> 'b) list" where
  "drop_entry k l = filter (\<lambda>p. fst p \<noteq> k) l"

text \<open>The \<open>finally\<close> block of the request.\<close>

definition approval_cleanup :: "exec_ctx \<Rightarrow> orch \<Rightarrow> orch" where
  "approval_cleanup ctx o' =
     (let aid = approval_id ctx; t = xc_thread ctx; ids = removeAll aid (ids_of_thread o' t)
      in o'\<lparr>or_pending := drop_entry aid (or_pending o'),
            or_meta := drop_entry aid (or_meta o'),
            or_threads := (if map_of (or_threads o') t = None then or_threads o'
                           else if ids = [] then drop_entry t (or_threads o')
                           else AList.update t ids (or_threads o'))\<rparr>)"

definition approval_answered :: "exec_ctx \<Rightarrow> permission_decision \<Rightarrow> orch \<Rightarrow> orch" where
  "approval_answered ctx d o' =
     (let decision = (case map_of (or_meta o') (approval_id ctx) of
            None \<Rightarrow> ''deny'' | Some m \<Rightarrow> (case am_resolved m of None \<Rightarrow> ''deny'' | Some x \<Rightarrow> x))
      in approval_cleanup ctx (append_ledger (resolved_item ctx d decision) o'))"

definition timeout_decision :: permission_decision where
  "timeout_decision = plain_decision PV_DENY ''Approval timeout''"

definition approval_timed_out :: "exec_ctx \<Rightarrow> permission_decision \<Rightarrow> nat \<Rightarrow> orch \<Rightarrow> orch" where
  "approval_timed_out ctx d fid o' =
     (let o1 = o'\<lparr>or_futures := (or_futures o')[fid := FutCancelled]\<rparr>;
          o2 = emit (EvApprovalResolved (approval_id ctx) ''timeout'' (xc_turn ctx)) o1
      in approval_cleanup ctx (append_ledger (resolved_item ctx d ''timeout'') o2))"

subsection \<open>Answers\<close>

definition VALID_APPROVAL_DECISIONS :: "pystr list" where
  "VALID_APPROVAL_DECISIONS = [''once'', ''session'', ''always'', ''deny'', ''allow'', ''allow_permanent'']"

definition legacy_decision :: "pystr \<Rightarrow> pystr" where
  "legacy_decision d = (case map_of [(''allow'', ''once''), (''allow_permanent'', ''always'')] d of Some x \<Rightarrow> x | None \<Rightarrow> d)"

record resolve_result =
  rr_resolved :: bool
  rr_id :: pystr
  rr_decision :: pystr
  rr_turn :: pystr
  rr_reason :: pystr

definition answer_decision :: "pystr \<Rightarrow> permission_decision" where
  "answer_decision d =
     (if d = ''deny'' then plain_decision PV_DENY ''User denied the request.''
      else (plain_decision PV_ALLOW (''Approved by user (scope: '' @ d @ '')''))\<lparr>pd_allow_permanent := (d = ''always'')\<rparr>)"

definition future_of :: "orch \<Rightarrow> nat \<Rightarrow> future_state" where
  "future_of o' fid = (if fid < length (or_futures o') then or_futures o' ! fid else FutCancelled)"


definition settle_future :: "permission_decision option \<Rightarrow> future_state \<Rightarrow> future_state" where
  "settle_future r f =
     (case f of FutPending \<Rightarrow> (case r of Some d \<Rightarrow> FutResult d | None \<Rightarrow> FutCancelled) | _ \<Rightarrow> f)"


definition set_result :: "nat \<Rightarrow> permission_decision \<Rightarrow> orch \<Rightarrow> orch" where
  "set_result fid d o' = o'\<lparr>or_futures := (or_futures o')[fid := settle_future (Some d) (future_of o' fid)]\<rparr>"

definition mark_resolved :: "pystr \<Rightarrow> pystr \<Rightarrow> orch \<Rightarrow> orch" where
  "mark_resolved aid d o' =
     o'\<lparr>or_meta := map (\<lambda>(k, m). if k = aid then (k, m\<lparr>am_resolved := Some d\<rparr>) else (k, m)) (or_meta o')\<rparr>"

definition record_scope :: "(pystr \<Rightarrow> pystr) \<Rightarrow> pystr \<Rightarrow> approval_meta option \<Rightarrow> orch \<Rightarrow> orch" where
  "record_scope sha d m o' =
     (case m of
        None \<Rightarrow> o'
      | Some m \<Rightarrow>
          if d = ''always'' then record_permanent_approval sha m o'
          else if d = ''session'' then record_session_approval sha m o'
          else o')"

definition resolve_approval :: "(pystr \<Rightarrow> pystr) \<Rightarrow> pystr \<Rightarrow> pystr \<Rightarrow> orch \<Rightarrow> resolve_result \<times> orch" where
  "resolve_approval sha aid decision0 o' =
     (let decision = legacy_decision decision0 in
      if decision \<notin> set VALID_APPROVAL_DECISIONS
      then (\<lparr>rr_resolved = False, rr_id = aid, rr_decision = decision, rr_turn = '''',
             rr_reason = ''Invalid decision: '' @ repr_str decision0\<rparr>, o')
      else (case map_of (or_pending o') aid of
          Some fid \<Rightarrow>
            if future_of o' fid = FutPending then
              (let m = map_of (or_meta o') aid;
                   turn = (case m of None \<Rightarrow> '''' | Some m \<Rightarrow> am_turn m)
               in (\<lparr>rr_resolved = True, rr_id = aid, rr_decision = decision, rr_turn = turn, rr_reason = ''''\<rparr>,
                   set_result fid (answer_decision decision)
                     (mark_resolved aid decision (record_scope sha decision m o'))))
            else (\<lparr>rr_resolved = False, rr_id = aid, rr_decision = decision, rr_turn = '''',
                   rr_reason = ''Approval not found or already resolved''\<rparr>, o')
        | None \<Rightarrow> (\<lparr>rr_resolved = False, rr_id = aid, rr_decision = decision, rr_turn = '''',
                    rr_reason = ''Approval not found or already resolved''\<rparr>, o')))"

definition list_pending_approvals :: "nat \<Rightarrow> orch \<Rightarrow> (approval_meta \<times> nat) list" where
  "list_pending_approvals now o' =
     concat (map (\<lambda>(aid, _). case map_of (or_meta o') aid of None \<Rightarrow> [] | Some m \<Rightarrow> [(m, now - am_created m)])
       (or_pending o'))"

definition has_approval :: "pystr \<Rightarrow> orch \<Rightarrow> bool" where
  "has_approval aid o' = (map_of (or_pending o') aid \<noteq> None)"

text \<open>One approval of an aborted turn; the count of those that were still open is threaded through.\<close>

definition cancel_approval :: "pystr \<Rightarrow> pystr \<Rightarrow> pystr \<Rightarrow> orch \<times> nat \<Rightarrow> orch \<times> nat" where
  "cancel_approval thread why aid on =
     (case on of (o', n) \<Rightarrow>
       let m = map_of (or_meta o') aid;
           text = (\<lambda>f. case m of None \<Rightarrow> '''' | Some m \<Rightarrow> f m);
           open_fid = (case map_of (or_pending o') aid of
               Some fid \<Rightarrow> if future_of o' fid = FutPending then Some fid else None | None \<Rightarrow> None);
           o1 = (case open_fid of Some fid \<Rightarrow> set_result fid (plain_decision PV_DENY why) o' | None \<Rightarrow> o');
           o2 = o1\<lparr>or_pending := drop_entry aid (or_pending o1), or_meta := drop_entry aid (or_meta o1)\<rparr>;
           o3 = emit (EvApprovalResolved aid ''abort'' (text am_turn)) o2;
           o4 = append_ledger \<lparr>li_thread = thread, li_turn = text am_turn, li_type = ''approval_resolved'',
                  li_payload = [(''approval_id'', JStr aid), (''tool_call_id'', JStr (text am_call)),
                    (''decision'', JStr ''abort''), (''tool_name'', JStr (text am_tool)),
                    (''category'', JStr (text am_category))]\<rparr> o3
       in (o4, if open_fid = None then n else Suc n))"

definition cancel_approvals_for_thread :: "pystr \<Rightarrow> pystr \<Rightarrow> orch \<Rightarrow> nat \<times> orch" where
  "cancel_approvals_for_thread thread why o' =
     (case fold (cancel_approval thread why) (ids_of_thread o' thread) (o', 0) of
        (o1, n) \<Rightarrow> (n, o1\<lparr>or_threads := drop_entry thread (or_threads o1)\<rparr>))"

subsection \<open>Execution inside a sandbox\<close>

definition ORCH_FILE_TOOLS :: "pystr list" where
  "ORCH_FILE_TOOLS = [''write_file'', ''edit_file'', ''delete_file'', ''apply_patch'', ''read_file'', ''list_dir'',
     ''docx_write'', ''pptx_write'', ''xlsx_write'', ''create_docx'', ''create_pptx'', ''create_xlsx'',
     ''create_pdf'', ''pdf_write'', ''pdf_read'', ''edit_docx'', ''append_xlsx'', ''paper_download'',
     ''graph_render'', ''declare_result_files'', ''spawn'']"

definition EMITTING_TOOLS :: "pystr list" where
  "EMITTING_TOOLS = [''exec'', ''paper_download'', ''paper_search'', ''web_search'', ''web_fetch'']"

abbreviation set_kw :: "pystr \<Rightarrow> kwarg \<Rightarrow> (pystr \<times> kwarg) list \<Rightarrow> (pystr \<times> kwarg) list" where
  "set_kw \<equiv> AList.update"

definition user_roots :: "orch_env \<Rightarrow> exec_ctx \<Rightarrow> pystr list" where
  "user_roots env ctx = xc_roots ctx @ oe_grants env (xc_session ctx)"

definition sandbox_kwargs :: "orch_env \<Rightarrow> exec_ctx \<Rightarrow> sandbox_selection \<Rightarrow> (pystr \<times> kwarg) list" where
  "sandbox_kwargs env ctx sel =
     (let kw = pop_key ''_user_roots'' (map (\<lambda>(k, v). (k, KJson v)) (xc_args ctx)) in
      if xc_tool ctx = ''exec'' \<or> xc_tool ctx \<in> set ORCH_FILE_TOOLS then
        set_kw ''_user_roots'' (KJson (JList (map JStr (user_roots env ctx))))
          (set_kw ''_session_key'' (KJson (JStr (xc_session ctx))) (set_kw ''_sandbox'' (KSandbox sel) kw))
      else if py_startswith (xc_tool ctx) ''mcp_'' then
        set_kw ''_tool_call_id'' (KJson (JStr (xc_call_id ctx)))
          (set_kw ''_turn_id'' (KJson (JStr (xc_turn ctx))) (set_kw ''_session_key'' (KJson (JStr (xc_session ctx))) kw))
      else if ss_type sel \<noteq> SB_NONE then set_kw ''_sandbox'' (KSandbox sel) kw
      else kw)"

definition emitter_kwargs :: "orch \<Rightarrow> exec_ctx \<Rightarrow> (pystr \<times> kwarg) list \<Rightarrow> (pystr \<times> kwarg) list" where
  "emitter_kwargs o' ctx kw =
     (if xc_tool ctx \<notin> set EMITTING_TOOLS then kw
      else let kw1 = set_kw ''_tool_call_id'' (KJson (JStr (xc_call_id ctx)))
                 (set_kw ''_turn_id'' (KJson (JStr (xc_turn ctx))) (set_kw ''_event_emitter'' KEmitter kw));
               kw2 = (if xc_has_cancel ctx then set_kw ''_cancel_event'' KCancel kw1 else kw1)
           in if or_ledger o' \<noteq> None
              then set_kw ''_thread_id'' (KJson (JStr (xc_thread ctx))) (set_kw ''_ledger_runtime'' KLedger kw2)
              else kw2)"

definition tool_kwargs :: "orch_env \<Rightarrow> orch \<Rightarrow> exec_ctx \<Rightarrow> sandbox_selection \<Rightarrow> dict \<Rightarrow> (pystr \<times> kwarg) list" where
  "tool_kwargs env o' ctx sel params =
     normalize_tool_args (Some (schema_props params)) (emitter_kwargs o' ctx (sandbox_kwargs env ctx sel))"

datatype sandbox_outcome = Ran orch exec_ctx pystr | Raised orch exec_ctx | WasCancelled orch exec_ctx

text \<open>\<open>Raised\<close> is an exception that leaves \<open>_execute_in_sandbox\<close>: without a registry \<open>self.tools.get\<close> fails.
  Whatever the tool itself raises, short of a cancellation, becomes a result.\<close>

definition execute_in_sandbox :: "orch_env \<Rightarrow> orch \<Rightarrow> exec_ctx \<Rightarrow> sandbox_selection \<Rightarrow> sandbox_outcome" where
  "execute_in_sandbox env o' ctx sel =
     (case or_tools o' of
        None \<Rightarrow> Raised o' ctx
      | Some reg \<Rightarrow>
     (case get_tool reg (xc_tool ctx) of
        None \<Rightarrow> Ran o' (ctx\<lparr>xc_status := Some TOOL_ERROR\<rparr>) (''error: unknown tool '' @ xc_tool ctx)
      | Some t \<Rightarrow>
          (let kw = tool_kwargs env o' ctx sel (tl_parameters t);
               o1 = o'\<lparr>or_runs := or_runs o' @ [(xc_tool ctx, kw)]\<rparr>
           in case oe_run env (xc_tool ctx) kw of
                RunReturns s \<Rightarrow> Ran o1 ctx s
              | RunRaises ty msg \<Rightarrow>
                  (let safe = sanitize_exc_for_ui ty msg
                   in Ran (emit (EvToolError (xc_turn ctx) (xc_tool ctx) (xc_call_id ctx) safe) o1)
                        (ctx\<lparr>xc_status := Some TOOL_ERROR\<rparr>)
                        (''tool failed '' @ xc_tool ctx @ '': '' @ safe @
                          (if xc_turn ctx \<noteq> '''' then
                             CHR 0x0A # ''[Hint: Use '' @ [CHR 0x27] @ ''exec'' @ [CHR 0x27] @
                               '' to inspect the environment or try a different approach.]'' else '''')))
              | RunCancelled \<Rightarrow> WasCancelled o1 ctx)))"

definition tool_exception :: "exec_ctx \<Rightarrow> exec_ctx" where
  "tool_exception ctx = finish (''tool failed '' @ xc_tool ctx @ '': exception'') TOOL_ERROR ctx"

text \<open>The retry loop and what follows it.\<close>

function run_attempts :: "orch_env \<Rightarrow> orch \<Rightarrow> exec_ctx \<Rightarrow> orch \<times> exec_ctx" where
  "run_attempts env o' ctx =
     (if MAX_RETRIES < xc_retry ctx then (snd (run_point POST_TOOL_USE ctx o'), ctx)
      else case select_sandbox (oe_sandbox env (xc_retry ctx)) (xc_tool ctx) (xc_args ctx) (tc_profile (xc_call ctx)) (xc_retry ctx) of
        Inl why \<Rightarrow>
          (let ctx1 = ctx\<lparr>xc_retry := Suc (xc_retry ctx)\<rparr>
           in if MAX_RETRIES < xc_retry ctx1 then (o', finish ''error: sandbox retries exhausted'' SANDBOX_FAILED ctx1)
              else run_attempts env o' ctx1)
      | Inr sel \<Rightarrow>
          (case execute_in_sandbox env o' (ctx\<lparr>xc_selection := Some sel\<rparr>) sel of
             Ran o1 ctx1 r \<Rightarrow>
               (let ctx2 = ctx1\<lparr>xc_result := Some r,
                                xc_status := (if xc_status ctx1 = None then Some SUCCESS else xc_status ctx1)\<rparr>
                in (snd (run_point POST_TOOL_USE ctx2 o1), ctx2))
           | Raised o1 ctx1 \<Rightarrow> (o1, tool_exception ctx1)
           | WasCancelled o1 ctx1 \<Rightarrow> (o1, finish ''cancelled'' CANCELLED ctx1)))"
  by pat_completeness auto
termination by (relation "measure (\<lambda>(env, o', ctx). Suc MAX_RETRIES - xc_retry ctx)") (auto simp: MAX_RETRIES_def)

declare run_attempts.simps [simp del]

subsection \<open>The pipeline\<close>

datatype phase = Finished exec_ctx | Awaiting exec_ctx permission_decision nat

text \<open>\<open>dict.update(v)\<close>: from a dictionary, or from a list of pairs.\<close>

fun update_pairs :: "dict \<Rightarrow> json list \<Rightarrow> dict result" where
  "update_pairs d [] = Inr d"
| "update_pairs d (JList [JStr k, v] # xs) = update_pairs (dset k v d) xs"
| "update_pairs d (JStr [a, b] # xs) = update_pairs (dset [a] (JStr [b]) d) xs"
| "update_pairs d (x # xs) = Inl (ValueError ''dictionary update sequence'')"

definition py_update :: "dict \<Rightarrow> json \<Rightarrow> dict result" where
  "py_update d v =
     (case v of
        JDict e \<Rightarrow> Inr (dmerge d e)
      | JList xs \<Rightarrow> update_pairs d xs
      | JStr [] \<Rightarrow> Inr d
      | _ \<Rightarrow> Inl (TypeError ''cannot convert dictionary update sequence''))"

definition hook_denied :: "pystr \<Rightarrow> exec_ctx \<Rightarrow> exec_ctx" where
  "hook_denied why ctx = (finish (''denied: '' @ why) DENIED_BY_POLICY ctx)
     \<lparr>xc_decision := Some (plain_decision PV_DENY (''Blocked by hook: '' @ why))\<rparr>"

definition hook_patched_args :: "hook_outcome \<Rightarrow> dict \<Rightarrow> dict result" where
  "hook_patched_args outcome args =
     (case ho_patch outcome of
        Some patch \<Rightarrow>
          (if ho_action outcome = ''modify'' \<and> patch \<noteq> [] then
             (case dget patch ''arguments'' of Some v \<Rightarrow> py_update args v | None \<Rightarrow> Inr args)
           else Inr args)
      | None \<Rightarrow> Inr args)"

definition apply_profile :: "exec_ctx \<Rightarrow> orch \<Rightarrow> orch" where
  "apply_profile ctx o' =
     (case tc_profile (xc_call ctx) of
        None \<Rightarrow> o'
      | Some p \<Rightarrow> o'\<lparr>or_engine := (or_engine o')
          \<lparr>pe_permanent := pe_permanent (or_engine o') \<union> set (pp_permanent_allowlist p)\<rparr>\<rparr>)"

text \<open>The argument check: the context to go on with, or the finished one.\<close>

definition check_arguments :: "orch \<Rightarrow> exec_ctx \<Rightarrow> exec_ctx + exec_ctx" where
  "check_arguments o' ctx =
     (case or_tools o' of
        None \<Rightarrow> Inr ctx
      | Some reg \<Rightarrow>
     (case get_tool reg (xc_tool ctx) of
        None \<Rightarrow> Inl ((finish (''error: unknown tool '' @ xc_tool ctx) TOOL_ERROR ctx)
                  \<lparr>xc_decision := Some (plain_decision PV_DENY (''Unknown tool: '' @ xc_tool ctx))\<rparr>)
      | Some t \<Rightarrow>
          (let ctx1 = with_args (normalize_tool_args (Some (schema_props (tl_parameters t))) (xc_args ctx)) ctx
           in case validate_params (tl_parameters t) (xc_args ctx1) of
                Inl e \<Rightarrow> Inl (tool_exception ctx1)
              | Inr [] \<Rightarrow> Inr ctx1
              | Inr errs \<Rightarrow>
                  Inl ((finish (''error: tool '' @ xc_tool ctx @ '': invalid parameters: '' @ py_join ''; '' errs @ retry_hint)
                         TOOL_ERROR ctx1)
                    \<lparr>xc_decision := Some (plain_decision PV_DENY (''Invalid parameters: '' @ py_join ''; '' errs))\<rparr>))))"

definition run_finished :: "orch_env \<Rightarrow> orch \<Rightarrow> exec_ctx \<Rightarrow> orch \<times> phase" where
  "run_finished env o' ctx = (case run_attempts env o' ctx of (o1, ctx1) \<Rightarrow> (o1, Finished ctx1))"

definition ask_user :: "orch_env \<Rightarrow> orch \<Rightarrow> exec_ctx \<Rightarrow> permission_decision \<Rightarrow> orch \<times> phase" where
  "ask_user env o' ctx d =
     (case run_point PERMISSION_REQUEST ctx o' of
        (outcome, o1) \<Rightarrow>
          if ho_action outcome = ''block'' then (o1, Finished (hook_denied (ho_reason outcome) ctx))
          else if \<not> or_responder o1
          then (o1, Finished ((finish (''error: no approval channel for '' @ pd_category d) DENIED_BY_POLICY ctx)
                  \<lparr>xc_decision := Some (plain_decision PV_DENY ''deny_no_channel'')\<rparr>))
          else (case request_approval env o1 ctx d of (o2, fid) \<Rightarrow> (o2, Awaiting ctx d fid)))"

text \<open>From the permission check on.\<close>

definition permitted_call :: "orch_env \<Rightarrow> orch \<Rightarrow> exec_ctx \<Rightarrow> orch \<times> phase" where
  "permitted_call env o' ctx =
     (let d = permission_check (oe_sha env) (or_global o') (or_engine o') (xc_call ctx);
          ctx1 = ctx\<lparr>xc_decision := Some d\<rparr>
      in case pd_verdict d of
           PV_DENY \<Rightarrow> (o', Finished (finish (''denied: '' @ pd_reason d) DENIED_BY_POLICY ctx1))
         | PV_ALLOW \<Rightarrow> run_finished env o' ctx1
         | PV_APPROVAL_REQUIRED \<Rightarrow> ask_user env o' ctx1 d)"

definition checked_call :: "orch_env \<Rightarrow> orch \<Rightarrow> exec_ctx \<Rightarrow> orch \<times> phase" where
  "checked_call env o' ctx =
     (case check_arguments o' ctx of
        Inl ctx1 \<Rightarrow> (o', Finished ctx1)
      | Inr ctx1 \<Rightarrow> permitted_call env o' ctx1)"

definition execute_start :: "orch_env \<Rightarrow> orch \<Rightarrow> exec_ctx \<Rightarrow> orch \<times> phase" where
  "execute_start env o' ctx =
     (case run_point PRE_TOOL_USE ctx o' of
        (outcome, o1) \<Rightarrow>
          if ho_action outcome = ''block'' then (o1, Finished (hook_denied (ho_reason outcome) ctx))
          else case hook_patched_args outcome (xc_args ctx) of
            Inl e \<Rightarrow> (o1, Finished (tool_exception ctx))
          | Inr args \<Rightarrow> checked_call env (apply_profile ctx o1) (with_args args ctx))"

text \<open>The suspended call wakes up: with the result of its future, or by the time-out.\<close>

definition execute_resume :: "orch_env \<Rightarrow> orch \<Rightarrow> exec_ctx \<Rightarrow> permission_decision \<Rightarrow> orch \<times> phase" where
  "execute_resume env o' ctx d =
     (if pd_verdict d \<noteq> PV_ALLOW
      then (o', Finished (finish (''denied by user: '' @ (if pd_reason d = '''' then ''no reason'' else pd_reason d))
              DENIED_BY_USER ctx))
      else run_finished env o' ctx)"

definition wake :: "orch_env \<Rightarrow> orch \<Rightarrow> exec_ctx \<Rightarrow> permission_decision \<Rightarrow> nat \<Rightarrow> orch \<times> phase" where
  "wake env o' ctx d fid =
     (case future_of o' fid of
        FutPending \<Rightarrow> (o', Awaiting ctx d fid)
      | FutResult r \<Rightarrow> execute_resume env (approval_answered ctx d o') ctx r
      | FutCancelled \<Rightarrow> (approval_cleanup ctx o', Finished (finish ''cancelled'' CANCELLED ctx)))"

definition expire :: "orch_env \<Rightarrow> orch \<Rightarrow> exec_ctx \<Rightarrow> permission_decision \<Rightarrow> nat \<Rightarrow> orch \<times> phase" where
  "expire env o' ctx d fid =
     (case future_of o' fid of
        FutPending \<Rightarrow> execute_resume env (approval_timed_out ctx d fid o') ctx timeout_decision
      | _ \<Rightarrow> wake env o' ctx d fid)"

subsection \<open>What a tool is given\<close>



subsection \<open>Runs of the orchestrator\<close>

datatype orch_op =
    OpStart exec_ctx
  | OpResolve pystr pystr
  | OpCancel pystr pystr
  | OpWake nat
  | OpExpire nat

type_synonym waiting = "(exec_ctx \<times> permission_decision \<times> nat) list"

definition park :: "waiting \<Rightarrow> orch \<times> phase \<Rightarrow> orch \<times> waiting" where
  "park w r = (case r of
     (o', Finished ctx) \<Rightarrow> (o', w)
   | (o', Awaiting ctx d fid) \<Rightarrow> (o', w @ [(ctx, d, fid)]))"

definition resume_with ::
  "(exec_ctx \<Rightarrow> permission_decision \<Rightarrow> nat \<Rightarrow> orch \<times> phase) \<Rightarrow> nat \<Rightarrow> orch \<times> waiting \<Rightarrow> orch \<times> waiting" where
  "resume_with f fid s =
     (case List.find (\<lambda>(ctx, d, n). n = fid) (snd s) of
        None \<Rightarrow> s
      | Some (ctx, d, n) \<Rightarrow> park (filter (\<lambda>(ctx, d, n). n \<noteq> fid) (snd s)) (f ctx d fid))"

text \<open>One step of the session: a call starts, an answer or an abort arrives, or a suspended call goes on.\<close>

fun orch_step :: "orch_env \<Rightarrow> orch_op \<Rightarrow> orch \<times> waiting \<Rightarrow> orch \<times> waiting" where
  "orch_step env (OpStart ctx) s = park (snd s) (execute_start env (fst s) ctx)"
| "orch_step env (OpResolve aid d) s = (snd (resolve_approval (oe_sha env) aid d (fst s)), snd s)"
| "orch_step env (OpCancel t why) s = (snd (cancel_approvals_for_thread t why (fst s)), snd s)"
| "orch_step env (OpWake fid) s = resume_with (wake env (fst s)) fid s"
| "orch_step env (OpExpire fid) s = resume_with (expire env (fst s)) fid s"

definition orch_run :: "orch_env \<Rightarrow> orch_op list \<Rightarrow> orch \<times> waiting \<Rightarrow> orch \<times> waiting" where
  "orch_run env ops s = fold (orch_step env) ops s"

subsection \<open>Executions and the frame of each operation\<close>

text \<open>The parts of the state that only approvals touch.\<close>

definition approvals_of :: "orch \<Rightarrow> future_state list \<times> (pystr \<times> nat) list" where
  "approvals_of o' = (or_futures o', or_pending o')"

lemma frame_simps [simp]:
  "or_runs (emit ev o') = or_runs o'" "approvals_of (emit ev o') = approvals_of o'"
  "or_runs (append_ledger it o') = or_runs o'" "approvals_of (append_ledger it o') = approvals_of o'"
  "or_runs (snd (run_point p ctx o')) = or_runs o'" "approvals_of (snd (run_point p ctx o')) = approvals_of o'"
  "or_runs (apply_profile ctx o') = or_runs o'" "approvals_of (apply_profile ctx o') = approvals_of o'"
  "or_runs (mark_resolved aid x o') = or_runs o'" "approvals_of (mark_resolved aid x o') = approvals_of o'"
  "or_runs (record_scope sha x m o') = or_runs o'" "approvals_of (record_scope sha x m o') = approvals_of o'"
  "or_runs (set_result fid d o') = or_runs o'" "or_pending (set_result fid d o') = or_pending o'"
  "or_runs (approval_cleanup ctx o') = or_runs o'" "or_futures (approval_cleanup ctx o') = or_futures o'"
  "or_runs (approval_answered ctx d o') = or_runs o'" "or_futures (approval_answered ctx d o') = or_futures o'"
  "or_runs (approval_timed_out ctx d fid o') = or_runs o'"
  by (auto simp: emit_def append_ledger_def run_point_def apply_profile_def mark_resolved_def record_scope_def
      record_permanent_approval_def record_session_approval_def set_result_def approval_cleanup_def
      approval_answered_def approval_timed_out_def approvals_of_def Let_def split: option.split)


lemma request_frame:
  "request_approval env o' ctx d = (o1, fid) \<Longrightarrow> fid = length (or_futures o') \<and> or_futures o1 = or_futures o' @ [FutPending]
     \<and> or_pending o1 = AList.update (approval_id ctx) fid (or_pending o') \<and> or_runs o1 = or_runs o'"
  by (auto simp: request_approval_def emit_def append_ledger_def Let_def)

lemma ask_user_frame:
  assumes "ask_user env o' ctx d = (o1, ph)"
  shows "or_runs o1 = or_runs o' \<and> (case ph of Finished c \<Rightarrow> approvals_of o1 = approvals_of o'
    | Awaiting c d' fid \<Rightarrow> fid = length (or_futures o') \<and> or_futures o1 = or_futures o' @ [FutPending] \<and>
        or_pending o1 = AList.update (approval_id c) fid (or_pending o'))"
  using assms
  by (auto simp: ask_user_def run_point_def approvals_of_def request_approval_def emit_def append_ledger_def Let_def
      split: if_splits)














lemma length_set_result [simp]: "length (or_futures (set_result fid d o')) = length (or_futures o')"
  by (simp add: set_result_def)





















lemma timeout_denies [simp]: "pd_verdict timeout_decision = PV_DENY"
  by (simp add: timeout_decision_def plain_decision_def)








subsection \<open>A small session\<close>

definition demo_env :: orch_env where
  "demo_env = \<lparr>oe_sha = (\<lambda>s. s), oe_sandbox = (\<lambda>_. demo_sandbox_engine True True), oe_run = (\<lambda>_ _. RunReturns ''ok''),
     oe_grants = (\<lambda>_. []), oe_now = 0\<rparr>"

definition demo_call :: "pystr \<Rightarrow> dict \<Rightarrow> exec_ctx" where
  "demo_call tool args = \<lparr>xc_call = \<lparr>tc_tool_name = tool, tc_arguments = args, tc_profile = None,
       tc_bypass_approval = False, tc_force_approval = False\<rparr>,
     xc_call_id = ''c'', xc_turn = ''t'', xc_thread = ''th'', xc_client = '''', xc_session = ''s'', xc_has_cancel = False,
     xc_roots = [], xc_decision = None, xc_selection = None, xc_result = None, xc_status = None, xc_retry = 0\<rparr>"

definition demo_tool :: "pystr \<Rightarrow> tool" where
  "demo_tool name = \<lparr>tl_name = name, tl_description = '''', tl_parameters = [], tl_timeout = None,
     tl_execute = (\<lambda>_. ToolReturns '''')\<rparr>"

definition demo_orch :: orch where
  "demo_orch = \<lparr>or_engine = \<lparr>pe_permanent = {}, pe_deny_patterns = [], pe_session = {}, pe_bypass = PB_None\<rparr>,
     or_global = None, or_tools = Some (register (demo_tool ''exec'') (register (demo_tool ''apply_patch'') (new_registry 120))),
     or_hooks = new_hook_runtime, or_timeout_ms = 60000, or_responder = True, or_events = [], or_ledger = Some [],
     or_pending = [], or_meta = [], or_threads = [], or_futures = [], or_runs = [], or_hook_runs = []\<rparr>"


definition demo_ops :: "orch_op list" where
  "demo_ops = [OpStart (demo_call ''exec'' [(''command'', JStr ''make'')]), OpResolve ''t:c'' ''once'']"




subsection \<open>Every finished call is classified\<close>

lemma run_attempts_status:
  assumes "run_attempts env o' ctx = (o1, c)" "xc_status ctx = None" "xc_retry ctx \<le> MAX_RETRIES"
  shows "xc_result c \<noteq> None \<and> (xc_status c = Some SUCCESS \<and> or_runs o1 \<noteq> or_runs o' \<or> xc_status c = Some TOOL_ERROR \<or>
    xc_status c = Some CANCELLED \<or> xc_status c = Some SANDBOX_FAILED \<and> or_runs o1 = or_runs o')"
  using assms
proof (induction env o' ctx rule: run_attempts.induct)
  case (1 env o' ctx)
  let ?sel = "select_sandbox (oe_sandbox env (xc_retry ctx)) (xc_tool ctx) (xc_args ctx) (tc_profile (xc_call ctx)) (xc_retry ctx)"
  have le: "\<not> MAX_RETRIES < xc_retry ctx" using 1(4) by simp
  show ?case
  proof (cases ?sel)
    case (Inl why)
    let ?next = "ctx\<lparr>xc_retry := Suc (xc_retry ctx)\<rparr>"
    have eq: "run_attempts env o' ctx =
        (if MAX_RETRIES < xc_retry ?next then (o', finish ''error: sandbox retries exhausted'' SANDBOX_FAILED ?next)
         else run_attempts env o' ?next)"
      using le Inl by (subst run_attempts.simps) (simp add: Let_def)
    show ?thesis
    proof (cases "MAX_RETRIES < xc_retry ?next")
      case True
      with 1(2) eq show ?thesis by (auto simp: finish_def)
    next
      case next_ok: False
      with 1(2) eq have "run_attempts env o' ?next = (o1, c)" by simp
      from 1(1)[OF le Inl refl next_ok this] 1(3) next_ok show ?thesis by simp
    qed
  next
    case (Inr sel)
    with 1(2,3) le show ?thesis
      by (subst (asm) run_attempts.simps)
        (auto simp: Let_def execute_in_sandbox_def finish_def tool_exception_def emit_def run_point_def
          split: option.splits run_outcome.splits)
  qed
qed

text \<open>A call that finishes without waiting has a result and exactly one classification: it succeeded after
  executing its tool, it failed with a tool error or a cancellation, or it was denied or could not be
  sandboxed, and then its tool was not executed.\<close>

theorem finished_calls_are_classified:
  assumes "execute_start env o' ctx = (o1, Finished c)" "xc_status ctx = None" "xc_retry ctx \<le> MAX_RETRIES"
  shows "xc_result c \<noteq> None \<and> (xc_status c = Some SUCCESS \<and> or_runs o1 \<noteq> or_runs o' \<or> xc_status c = Some TOOL_ERROR \<or>
    xc_status c = Some CANCELLED \<or> xc_status c \<in> {Some SANDBOX_FAILED, Some DENIED_BY_POLICY} \<and> or_runs o1 = or_runs o')"
proof -
  let ?ok = "\<lambda>base o1 c. xc_result c \<noteq> None \<and> (xc_status c = Some SUCCESS \<and> or_runs o1 \<noteq> or_runs base \<or>
    xc_status c = Some TOOL_ERROR \<or> xc_status c = Some CANCELLED \<or>
    xc_status c \<in> {Some SANDBOX_FAILED, Some DENIED_BY_POLICY} \<and> or_runs o1 = or_runs base)"
  have ask: "ask_user env b k d = (o1, Finished c) \<Longrightarrow> ?ok b o1 c" for b k d
    using ask_user_frame[of env b k d o1 "Finished c"]
    by (auto simp: ask_user_def hook_denied_def finish_def split: prod.splits if_splits)
  have permitted: "?ok b o1 c" if "permitted_call env b k = (o1, Finished c)" "xc_status k = None" "xc_retry k \<le> MAX_RETRIES" for b k
    using that ask[of b] run_attempts_status[of env b _ o1 c]
    by (auto simp: permitted_call_def Let_def run_finished_def finish_def split: permission_verdict.splits prod.splits)
  have checked: "?ok b o1 c" if c: "checked_call env b k = (o1, Finished c)" "xc_status k = None" "xc_retry k \<le> MAX_RETRIES" for b k
  proof (cases "check_arguments b k")
    case (Inl k')
    with c show ?thesis
      by (auto simp: checked_call_def check_arguments_def tool_exception_def finish_def Let_def
          split: option.splits sum.splits list.splits)
  next
    case (Inr k')
    then have "xc_status k' = xc_status k" "xc_retry k' = xc_retry k"
      by (auto simp: check_arguments_def with_args_def Let_def split: option.splits sum.splits list.splits)
    with Inr c permitted[of b k'] show ?thesis by (simp add: checked_call_def)
  qed
  obtain outcome oa where pre: "run_point PRE_TOOL_USE ctx o' = (outcome, oa)" by fastforce
  then have oa: "or_runs oa = or_runs o'" using frame_simps(5)[of PRE_TOOL_USE ctx o'] by simp
  have "?ok oa o1 c"
  proof (cases "ho_action outcome = ''block''")
    case True
    with assms(1) pre show ?thesis by (auto simp: execute_start_def hook_denied_def finish_def)
  next
    case nb: False
    show ?thesis
    proof (cases "hook_patched_args outcome (xc_args ctx)")
      case (Inl e)
      with assms(1) pre nb show ?thesis by (auto simp: execute_start_def tool_exception_def finish_def)
    next
      case (Inr args)
      with assms pre nb checked[of "apply_profile ctx oa" "with_args args ctx"] show ?thesis
        by (simp add: execute_start_def with_args_def)
    qed
  qed
  with oa show ?thesis by simp
qed

lemma demo_classified: "\<exists>o1 c. execute_start demo_env demo_orch (demo_call ''nope'' []) = (o1, Finished c)"
  by (simp add: execute_start_def run_point_def run_with_outcome_def demo_orch_def new_hook_runtime_def continue_outcome_def
      hook_patched_args_def checked_call_def check_arguments_def get_tool_def register_def new_registry_def demo_tool_def
      demo_call_def with_args_def apply_profile_def)

theorem finished_calls_are_classified_witness:
  "\<exists>o1 c. execute_start demo_env demo_orch (demo_call ''nope'' []) = (o1, Finished c) \<and> xc_result c \<noteq> None"
proof -
  obtain o1 c where e: "execute_start demo_env demo_orch (demo_call ''nope'' []) = (o1, Finished c)"
    using demo_classified by blast
  from finished_calls_are_classified[OF e] e show ?thesis by (auto simp: demo_call_def)
qed

subsection \<open>Answers that are remembered\<close>

lemma path_tools_eq: "set APPROVAL_PATH_TOOLS = set FILE_WRITE_TOOLS"
  by (auto simp: APPROVAL_PATH_TOOLS_def FILE_WRITE_TOOLS_def)

lemma apply_policy_asks:
  "pd_verdict (apply_approval_policy e (ask cat des det perm) profile failed) = PV_APPROVAL_REQUIRED \<Longrightarrow>
   apply_approval_policy e (ask cat des det perm) profile failed = ask cat des det perm"
  by (auto simp: apply_approval_policy_def bypassed_decision_def split: option.splits if_splits)

lemma ask_details [simp]: "pd_details (ask cat des det perm) = det"
  by (simp add: ask_def)

text \<open>An approval that the engine asks for shows the command of a shell call and the path of a file call.\<close>

lemma check_asks_with_details:
  assumes "pd_verdict (permission_check sha g e c) = PV_APPROVAL_REQUIRED" "\<not> tc_force_approval c"
  shows "permission_check sha g e c = check_by_category e c
    \<and> deny_match e c = None \<and> sure_guard c = None \<and> tc_tool_name c \<noteq> ''ask_user_confirm_card'' \<and> \<not> tc_bypass_approval c
    \<and> (tc_tool_name c = ''exec'' \<longrightarrow> pd_details (check_by_category e c) = [(''command'', JStr (exec_command c))])
    \<and> (tc_tool_name c \<in> set FILE_WRITE_TOOLS \<longrightarrow> pd_details (check_by_category e c) =
        [(''path'', JStr (office_target_path (tc_tool_name c) (tc_arguments c))), (''operation'', JStr (tc_tool_name c))])"
proof -
  have sg: "sure_guard c = Some d \<Longrightarrow> pd_verdict d = PV_DENY" for d
    by (auto simp: sure_guard_def plain_decision_def split: if_splits json.splits)
  have eq: "permission_check sha g e c = check_by_category e c" "deny_match e c = None" "sure_guard c = None"
    "tc_tool_name c \<noteq> ''ask_user_confirm_card''" "\<not> tc_bypass_approval c"
    using assms sg by (auto simp: permission_check_def Let_def plain_decision_def split: option.splits if_splits)
  have asked: "pd_verdict (check_by_category e c) = PV_APPROVAL_REQUIRED" using assms(1) eq(1) by simp
  have ex: "pd_details (check_by_category e c) = [(''command'', JStr (exec_command c))]" if "tc_tool_name c = ''exec''"
    using asked that
    by (auto simp: check_by_category_def check_exec_def exec_by_policy_def exec_by_prefix_def plain_decision_def
        exec_command_def[symmetric] Let_def dest!: apply_policy_asks
        split: option.splits if_splits policy_verdict.splits)
  have fw: "pd_details (check_by_category e c) =
      [(''path'', JStr (office_target_path (tc_tool_name c) (tc_arguments c))), (''operation'', JStr (tc_tool_name c))]"
    if "tc_tool_name c \<in> set FILE_WRITE_TOOLS"
  proof -
    have "tc_tool_name c \<noteq> ''exec''" using that by (auto simp: FILE_WRITE_TOOLS_def)
    with asked that show ?thesis by (auto simp: check_by_category_def Let_def dest!: apply_policy_asks)
  qed
  from eq ex fw show ?thesis by blast
qed


text \<open>The answer ``allow for this session'' is remembered: when the engine asks for a call and the answer
  records an allowlist key, that key is the one the engine looks up for the same call, which then runs
  unasked (a file path is compared as shown on the card, that is up to 2000 characters).\<close>

theorem session_grant_is_remembered:
  assumes "d = permission_check (oe_sha env) g e (xc_call ctx)" "pd_verdict d = PV_APPROVAL_REQUIRED"
    and "\<not> tc_force_approval (xc_call ctx)"
    and "length (office_target_path (xc_tool ctx) (xc_args ctx)) \<le> MAX_DETAILS_STRING_LENGTH"
    and "make_approval_pattern (oe_sha env) (new_meta env o' ctx d) = Some p"
  shows "p = make_key (oe_sha env) (xc_tool ctx) (xc_args ctx)
    \<and> pd_verdict (permission_check (oe_sha env) g (e\<lparr>pe_session := insert p (pe_session e)\<rparr>) (xc_call ctx)) = PV_ALLOW"
proof -
  note asks = check_asks_with_details[OF assms(2)[unfolded assms(1)] assms(3)]
  have p: "p = make_key (oe_sha env) (xc_tool ctx) (xc_args ctx)"
  proof -
    consider "xc_tool ctx = ''exec''" | "xc_tool ctx \<noteq> ''exec''" "xc_tool ctx \<in> set FILE_WRITE_TOOLS"
      | "xc_tool ctx \<noteq> ''exec''" "xc_tool ctx \<notin> set FILE_WRITE_TOOLS" by blast
    then show ?thesis
    proof cases
      case 1
      with asks assms(1,5) show ?thesis
        by (auto simp: make_approval_pattern_def new_meta_def detail_text_def make_key_def exec_command_def Let_def split: if_splits)
    next
      case 2
      with asks assms(1,4,5) show ?thesis
        by (auto simp: make_approval_pattern_def new_meta_def make_key_def path_tools_eq UNSAFE_DETAIL_KEYS_def
            py_lower_def py_lower_char_def jor_def Let_def split: if_splits)
    next
      case 3
      with assms(5) show ?thesis
        by (auto simp: make_approval_pattern_def new_meta_def make_key_def path_tools_eq key_for_def Let_def split: if_splits)
    qed
  qed
  have "deny_match (e\<lparr>pe_session := insert p (pe_session e)\<rparr>) (xc_call ctx) = None"
    using asks by (simp add: deny_match_def)
  with p asks assms(3) show ?thesis
    by (simp add: permission_check_def allowlisted_def plain_decision_def Let_def)
qed

lemma demo_asks: "pd_verdict (permission_check (oe_sha demo_env) None (or_engine demo_orch)
    (xc_call (demo_call ''exec'' [(''command'', JStr ''make'')]))) = PV_APPROVAL_REQUIRED"
  by code_simp

lemma demo_pattern: "make_approval_pattern (oe_sha demo_env) (new_meta demo_env demo_orch (demo_call ''exec'' [(''command'', JStr ''make'')])
    (permission_check (oe_sha demo_env) None (or_engine demo_orch) (xc_call (demo_call ''exec'' [(''command'', JStr ''make'')])))) = Some ''exec:make''"
  by code_simp

theorem session_grant_is_remembered_witness:
  "pd_verdict (permission_check (oe_sha demo_env) None
     ((or_engine demo_orch)\<lparr>pe_session := insert ''exec:make'' (pe_session (or_engine demo_orch))\<rparr>)
     (xc_call (demo_call ''exec'' [(''command'', JStr ''make'')]))) = PV_ALLOW"
proof -
  have "\<not> tc_force_approval (xc_call (demo_call ''exec'' [(''command'', JStr ''make'')]))"
    "length (office_target_path (xc_tool (demo_call ''exec'' [(''command'', JStr ''make'')]))
       (xc_args (demo_call ''exec'' [(''command'', JStr ''make'')]))) \<le> MAX_DETAILS_STRING_LENGTH"
    by (simp_all add: demo_call_def office_target_path_def)
  from session_grant_is_remembered[OF refl demo_asks this demo_pattern] show ?thesis by blast
qed

text \<open>For \<open>apply_patch\<close> no key is recorded at all: its only argument is the patch, so the path of the card is
  empty and both ``allow for this session'' and ``allow always'' are silently forgotten.\<close>

theorem apply_patch_grant_is_forgotten:
  assumes "xc_tool ctx = ''apply_patch''" "xc_args ctx = [(''patch'', v)]" "\<not> tc_force_approval (xc_call ctx)"
    and "d = permission_check (oe_sha env) g e (xc_call ctx)" "pd_verdict d = PV_APPROVAL_REQUIRED"
  shows "make_approval_pattern (oe_sha env) (new_meta env o' ctx d) = None"
proof -
  have "xc_tool ctx \<in> set FILE_WRITE_TOOLS" "office_target_path (xc_tool ctx) (xc_args ctx) = ''''"
    using assms(1,2) by (simp_all add: FILE_WRITE_TOOLS_def office_target_path_def)
  with assms check_asks_with_details[OF assms(5)[unfolded assms(4)] assms(3)] show ?thesis
    by (simp add: make_approval_pattern_def new_meta_def APPROVAL_PATH_TOOLS_def UNSAFE_DETAIL_KEYS_def
        py_lower_def py_lower_char_def jor_def Let_def)
qed

subsection \<open>Where the code and its comments part\<close>

text \<open>An aborted approval gets two terminal entries in the ledger: the abort, and, once the waiting call wakes
  up and no longer finds its metadata, a denial by nobody.\<close>

theorem aborted_approval_resolved_twice:
  "map (\<lambda>it. dget_null (li_payload it) ''decision'')
     (filter (\<lambda>it. li_type it = ''approval_resolved'')
       (the (or_ledger (fst (orch_run demo_env
          [OpStart (demo_call ''exec'' [(''command'', JStr ''make'')]), OpCancel ''th'' ''Turn aborted'', OpWake 0] (demo_orch, []))))))
   = [JStr ''abort'', JStr ''deny'']"
  by code_simp

definition demo_profile :: permission_profile where
  "demo_profile = \<lparr>pp_exec_policy = None, pp_exec_deny_prefixes = [], pp_exec_allow_prefixes = [], pp_approval_policy = None,
     pp_network = ''restricted'', pp_network_allowed = False, pp_permanent_allowlist = [''exec:make'']\<rparr>"

text \<open>The allowlist of a per-turn profile is merged into the engine and stays there: after one call under such a
  profile, the same command runs unasked in a turn without it.\<close>

theorem profile_allowlist_outlives_turn:
  "map fst (or_runs (fst (orch_run demo_env
      [OpStart (demo_call ''exec'' [(''command'', JStr ''make'')])] (demo_orch, [])))) = []
   \<and> map fst (or_runs (fst (orch_run demo_env
      [OpStart ((demo_call ''nope'' [])\<lparr>xc_call := \<lparr>tc_tool_name = ''nope'', tc_arguments = [], tc_profile = Some demo_profile,
          tc_bypass_approval = False, tc_force_approval = False\<rparr>\<rparr>),
       OpStart (demo_call ''exec'' [(''command'', JStr ''make'')])] (demo_orch, [])))) = [''exec'']"
  by code_simp

text \<open>A denial raised by the tool inside its sandbox is a tool error after one attempt; the escalation to a
  weaker sandbox, announced for that case, and the \<open>TIMEOUT\<close> status are not reached from a tool.\<close>

theorem tool_denial_is_not_escalated:
  "(case orch_run (demo_env\<lparr>oe_run := (\<lambda>_ _. RunRaises ''SandboxDeniedError'' ''no'')\<rparr>) demo_ops (demo_orch, []) of
      (o1, w) \<Rightarrow> map (\<lambda>(ctx, d, fid).
        (case wake (demo_env\<lparr>oe_run := (\<lambda>_ _. RunRaises ''SandboxDeniedError'' ''no'')\<rparr>) o1 ctx d fid of
           (o2, Finished c) \<Rightarrow> (length (or_runs o2), xc_retry c, xc_status c)
         | (o2, Awaiting c _ _) \<Rightarrow> (0, 0, None))) w)
   = [(1, 0, Some TOOL_ERROR)]"
  by code_simp

end
