(* ===== verification/ApplyPatch.thy ===== *)
theory ApplyPatch
  imports PyJson
begin

text \<open>
  The unified-diff parser and applier (\<open>agent/tools/apply_patch.py\<close>, the functions above the tool class).  The
  loops over a line index are recursions over the remaining lines; the index is kept for the messages.
  A diff that a writer produces is parsed back exactly, and applying a hunk replaces an occurrence of its
  old lines by its new lines and nothing else.
\<close>

datatype patch_error = PatchParseError pystr | PatchApplyError pystr

record hunk =
  old_start :: nat
  old_count :: nat
  new_start :: nat
  new_count :: nat
  hunk_lines :: "pystr list"

record file_patch =
  fp_path :: pystr
  fp_hunks :: "hunk list"

subsection \<open>Parsing\<close>

text \<open>\<open>\s+\<close>, \<open>\d+\<close> and a literal, each with the rest of the text.\<close>

definition re_spaces :: "pystr \<Rightarrow> pystr option" where
  "re_spaces s = (if s \<noteq> [] \<and> py_isspace (hd s) then Some (dropWhile py_isspace s) else None)"

definition re_digits :: "pystr \<Rightarrow> (nat \<times> pystr) option" where
  "re_digits s = (let ds = takeWhile py_isdigit s in if ds = [] then None else Some (parse_nat ds, dropWhile py_isdigit s))"

definition re_lit :: "pystr \<Rightarrow> pystr \<Rightarrow> pystr option" where
  "re_lit p s = (if prefix p s then Some (drop (length p) s) else None)"

text \<open>\<open>(?:,(\d+))?\<close> with the default 1.\<close>

definition re_count :: "pystr \<Rightarrow> nat \<times> pystr" where
  "re_count s = (case re_lit '','' s of None \<Rightarrow> (1, s)
     | Some r \<Rightarrow> (case re_digits r of None \<Rightarrow> (1, s) | Some (n, r') \<Rightarrow> (n, r')))"

definition hunk_header :: "pystr \<Rightarrow> (nat \<times> nat \<times> nat \<times> nat) option" where
  "hunk_header line =
     Option.bind (re_lit ''@@'' line) (\<lambda>s1. Option.bind (re_spaces s1) (\<lambda>s2. Option.bind (re_lit ''-'' s2) (\<lambda>s3.
     Option.bind (re_digits s3) (\<lambda>(os, s4). case re_count s4 of (oc, s5) \<Rightarrow>
     Option.bind (re_spaces s5) (\<lambda>s6. Option.bind (re_lit ''+'' s6) (\<lambda>s7. Option.bind (re_digits s7) (\<lambda>(ns, s8).
     case re_count s8 of (nc, s9) \<Rightarrow>
     Option.bind (re_spaces s9) (\<lambda>s10. Option.bind (re_lit ''@@'' s10) (\<lambda>_. Some (os, oc, ns, nc))))))))))"

definition strip_prefix :: "pystr \<Rightarrow> pystr" where
  "strip_prefix path = (if py_startswith path ''a/'' \<or> py_startswith path ''b/'' then drop 2 path else path)"

definition line_no :: "nat \<Rightarrow> pystr" where
  "line_no i = nat_str (Suc i)"

text \<open>The lines of a hunk, up to the next hunk or file header.\<close>

fun read_hunk_lines :: "nat \<Rightarrow> pystr list \<Rightarrow> patch_error + pystr list \<times> nat \<times> pystr list" where
  "read_hunk_lines i [] = Inr ([], i, [])"
| "read_hunk_lines i (inner # rest) =
     (if py_startswith inner ''@@'' \<or> py_startswith inner ''--- '' then Inr ([], i, inner # rest)
      else if inner = '''' then
        (case read_hunk_lines (Suc i) rest of Inl e \<Rightarrow> Inl e | Inr (ls, j, r) \<Rightarrow> Inr ('' '' # ls, j, r))
      else if hd inner \<in> {CHR '' '', CHR ''-'', CHR ''+''} then
        (case read_hunk_lines (Suc i) rest of Inl e \<Rightarrow> Inl e | Inr (ls, j, r) \<Rightarrow> Inr (inner # ls, j, r))
      else if py_startswith inner [CHR 0x5C] then read_hunk_lines (Suc i) rest
      else Inl (PatchParseError (''Unexpected line in hunk at line '' @ line_no i @ '': '' @ repr_str inner)))"

lemma read_hunk_lines_shorter: "read_hunk_lines i ls = Inr (hs, j, rest) \<Longrightarrow> length rest \<le> length ls"
  by (induction i ls arbitrary: hs rule: read_hunk_lines.induct)
    (auto split: if_splits sum.splits intro: le_SucI)

function read_hunks :: "nat \<Rightarrow> pystr list \<Rightarrow> patch_error + hunk list \<times> nat \<times> pystr list" where
  "read_hunks i [] = Inr ([], i, [])"
| "read_hunks i (line # rest) =
     (if py_startswith line ''--- '' \<or> py_startswith line ''+++ '' then Inr ([], i, line # rest)
      else if \<not> py_startswith line ''@@''
      then Inl (PatchParseError (''Expected hunk header at line '' @ line_no i @ '', got: '' @ repr_str line))
      else case hunk_header line of
        None \<Rightarrow> Inl (PatchParseError (''Malformed hunk header at line '' @ line_no i @ '': '' @ repr_str line))
      | Some (os, oc, ns, nc) \<Rightarrow>
          (case read_hunk_lines (Suc i) rest of
             Inl e \<Rightarrow> Inl e
           | Inr (ls, j, rest') \<Rightarrow>
               (case read_hunks j rest' of
                  Inl e \<Rightarrow> Inl e
                | Inr (hs, k, r) \<Rightarrow>
                    Inr (\<lparr>old_start = os, old_count = oc, new_start = ns, new_count = nc, hunk_lines = ls\<rparr> # hs, k, r))))"
  by pat_completeness auto
termination
  by (relation "measure (\<lambda>(i, ls). length ls)") (auto dest: read_hunk_lines_shorter)

lemma read_hunks_shorter: "read_hunks i ls = Inr (hs, j, rest) \<Longrightarrow> length rest \<le> length ls"
  by (induction i ls arbitrary: hs j rest rule: read_hunks.induct)
    (fastforce split: if_splits option.splits sum.splits prod.splits dest: read_hunk_lines_shorter intro: le_SucI)+

function parse_files :: "nat \<Rightarrow> pystr list \<Rightarrow> patch_error + file_patch list" where
  "parse_files i [] = Inr []"
| "parse_files i (line # rest) =
     (if py_strip line = '''' then parse_files (Suc i) rest
      else if \<not> py_startswith line ''--- ''
      then Inl (PatchParseError (''Expected '--- ' file header at line '' @ line_no i))
      else case rest of
        [] \<Rightarrow> Inl (PatchParseError (''Expected '+++ ' file header after line '' @ nat_str (Suc i)))
      | line2 # rest2 \<Rightarrow>
          (if \<not> py_startswith line2 ''+++ ''
           then Inl (PatchParseError (''Expected '+++ ' file header after line '' @ nat_str (Suc i)))
           else let old_path = py_strip (drop 4 line);
                    new_path = py_strip (drop 4 line2);
                    path = (if strip_prefix new_path \<noteq> '''' then strip_prefix new_path else strip_prefix old_path)
             in case read_hunks (Suc (Suc i)) rest2 of
                  Inl e \<Rightarrow> Inl e
                | Inr (hs, j, rest3) \<Rightarrow>
                    (if hs = [] then Inl (PatchParseError (''No hunks found for file '' @ repr_str path))
                     else case parse_files j rest3 of
                            Inl e \<Rightarrow> Inl e
                          | Inr fs \<Rightarrow> Inr (\<lparr>fp_path = path, fp_hunks = hs\<rparr> # fs))))"
  by pat_completeness auto
termination
  by (relation "measure (\<lambda>(i, ls). length ls)") (auto dest!: read_hunks_shorter)

definition parse_patch :: "pystr \<Rightarrow> patch_error + file_patch list" where
  "parse_patch text =
     (case parse_files 0 (py_splitlines text) of
        Inl e \<Rightarrow> Inl e
      | Inr fs \<Rightarrow> if fs = [] then Inl (PatchParseError ''No file headers found in patch'') else Inr fs)"

subsection \<open>Applying\<close>

definition rstrip_newlines :: "pystr \<Rightarrow> pystr" where
  "rstrip_newlines s = py_rstrip_of (\<lambda>c. c = CHR 0x0A) s"

text \<open>The old and the new lines of a hunk; a line without a prefix counts as a context line.\<close>

definition raw_prefix :: "pystr \<Rightarrow> char" where
  "raw_prefix raw = (if raw = [] then CHR '' '' else hd raw)"

definition hunk_context :: "hunk \<Rightarrow> pystr list" where
  "hunk_context h = map tl (filter (\<lambda>raw. raw_prefix raw \<noteq> CHR ''+'' \<and> raw_prefix raw \<in> {CHR '' '', CHR ''-''}) (hunk_lines h))"

definition hunk_replacement :: "hunk \<Rightarrow> pystr list" where
  "hunk_replacement h = map tl (filter (\<lambda>raw. raw_prefix raw \<in> {CHR '' '', CHR ''+''}) (hunk_lines h))"

definition match_at :: "pystr list \<Rightarrow> pystr list \<Rightarrow> int \<Rightarrow> bool" where
  "match_at ls context start \<longleftrightarrow> 0 \<le> start \<and> start + int (length context) \<le> int (length ls) \<and>
     map rstrip_newlines (take (length context) (drop (nat start) ls)) = context"

text \<open>The candidates of the fuzzy search, in the order they are tried.\<close>

definition fuzz_candidates :: "pystr list \<Rightarrow> pystr list \<Rightarrow> int \<Rightarrow> int list" where
  "fuzz_candidates ls context target =
     filter (\<lambda>c. 0 \<le> c \<and> c \<le> int (length ls) - int (length context))
       (concat (map (\<lambda>delta. [target - delta, target + delta]) [1, 2, 3, 4, 5]))"

definition find_hunk_position :: "pystr list \<Rightarrow> hunk \<Rightarrow> int \<Rightarrow> patch_error + nat \<times> pystr list" where
  "find_hunk_position ls h offset =
     (let context = hunk_context h; target = int (old_start h) - 1 + offset in
      if match_at ls context target then Inr (nat target, context)
      else case List.find (match_at ls context) (fuzz_candidates ls context target) of
        Some c \<Rightarrow> Inr (nat c, context)
      | None \<Rightarrow> Inl (PatchApplyError (''Could not apply hunk at line '' @ nat_str (old_start h) @ '' for '' @
                  py_repr (JList (map JStr context)))))"

definition splice :: "nat \<Rightarrow> nat \<Rightarrow> 'a list \<Rightarrow> 'a list \<Rightarrow> 'a list" where
  "splice pos n new ls = take pos ls @ new @ drop (pos + n) ls"

fun apply_hunks :: "int \<Rightarrow> hunk list \<Rightarrow> pystr list \<Rightarrow> patch_error + pystr list" where
  "apply_hunks offset [] bare = Inr bare"
| "apply_hunks offset (h # hs) bare =
     (case find_hunk_position bare h offset of
        Inl e \<Rightarrow> Inl e
      | Inr (pos, context) \<Rightarrow>
          apply_hunks ((int pos + int (length (hunk_replacement h))) - (int (new_start h) - 1)) hs
            (splice pos (length context) (hunk_replacement h) bare))"

definition split_lines_keepends :: "pystr \<Rightarrow> pystr list" where
  "split_lines_keepends text = (if text = '''' then [] else py_splitlines_keep text)"

definition apply_file_patch :: "pystr \<Rightarrow> file_patch \<Rightarrow> patch_error + pystr" where
  "apply_file_patch original fp =
     (let trailing = py_endswith original [CHR 0x0A] in
      case apply_hunks 0 (fp_hunks fp) (map rstrip_newlines (split_lines_keepends original)) of
        Inl e \<Rightarrow> Inl e
      | Inr bare \<Rightarrow>
          Inr (if bare = [] \<and> \<not> trailing then ''''
               else if trailing then py_join [CHR 0x0A] bare @ [CHR 0x0A]
               else py_join [CHR 0x0A] bare))"


subsection \<open>A diff is read back as it was written\<close>

definition render_header :: "hunk \<Rightarrow> pystr" where
  "render_header h = ''@@ -'' @ nat_str (old_start h) @ '','' @ nat_str (old_count h) @ '' +'' @ nat_str (new_start h) @
     '','' @ nat_str (new_count h) @ '' @@''"

definition render_hunk :: "hunk \<Rightarrow> pystr list" where
  "render_hunk h = render_header h # hunk_lines h"

definition render_file :: "file_patch \<Rightarrow> pystr list" where
  "render_file f = (''--- a/'' @ fp_path f) # (''+++ b/'' @ fp_path f) # concat (map render_hunk (fp_hunks f))"

definition render_patch :: "file_patch list \<Rightarrow> pystr" where
  "render_patch fs = concat (map (\<lambda>l. l @ [CHR 0x0A]) (concat (map render_file fs)))"




lemma re_lit_append [simp]: "re_lit p (p @ s) = Some s"
  by (simp add: re_lit_def)














definition demo_hunk :: "nat \<Rightarrow> nat \<Rightarrow> pystr list \<Rightarrow> hunk" where
  "demo_hunk os ns ls = \<lparr>old_start = os, old_count = length ls, new_start = ns, new_count = length ls, hunk_lines = ls\<rparr>"


text \<open>A deleted line that begins with two hyphens and a blank is written as a line that begins with three: the
  parser takes it for a file header and refuses the patch.\<close>

theorem deleted_comment_line_breaks_parser:
  "\<exists>why. parse_patch (render_patch [\<lparr>fp_path = ''q.sql'', fp_hunks = [demo_hunk 1 1 [''--- drop it'', ''+select 1'']]\<rparr>])
     = Inl (PatchParseError why)"
proof -
  have "(case parse_patch (render_patch [\<lparr>fp_path = ''q.sql'', fp_hunks = [demo_hunk 1 1 [''--- drop it'', ''+select 1'']]\<rparr>]) of
      Inl (PatchParseError w) \<Rightarrow> True | _ \<Rightarrow> False)"
    by code_simp
  then show ?thesis by (auto split: sum.splits patch_error.splits)
qed


subsection \<open>Applying replaces occurrences\<close>

lemma rstrip_newlines_id: "CHR 0x0A \<notin> set l \<Longrightarrow> rstrip_newlines l = l"
proof (cases l rule: rev_cases)
  case (snoc q x)
  moreover assume "CHR 0x0A \<notin> set l"
  ultimately show ?thesis by (auto simp: rstrip_newlines_def py_rstrip_of_def)
qed (simp add: rstrip_newlines_def py_rstrip_of_def)

definition newline_free :: "pystr list \<Rightarrow> bool" where
  "newline_free ls \<longleftrightarrow> (\<forall>l \<in> set ls. CHR 0x0A \<notin> set l)"

lemma newline_free_append [simp]: "newline_free (a @ b) \<longleftrightarrow> newline_free a \<and> newline_free b"
  by (auto simp: newline_free_def)


lemma rstrip_newline_free: "newline_free ls \<Longrightarrow> map rstrip_newlines ls = ls"
  by (induction ls) (auto simp: newline_free_def rstrip_newlines_id)








lemma join_lines: "ls \<noteq> [] \<Longrightarrow> py_join [CHR 0x0A] ls @ [CHR 0x0A] = concat (map (\<lambda>l. l @ [CHR 0x0A]) ls)"
  by (induction ls rule: induct_list012) simp_all

lemma keepends_lines:
  "\<forall>l \<in> set ls. \<forall>c \<in> set l. \<not> py_linebreak c \<Longrightarrow>
     py_splitlines_keep (concat (map (\<lambda>l. l @ [CHR 0x0A]) ls)) = map (\<lambda>l. l @ [CHR 0x0A]) ls"
proof (induction ls)
  case Nil
  then show ?case by (simp add: py_splitlines_keep_def)
next
  case (Cons l ls)
  then show ?case
    using splitlines_keep_line[of l "[]" "concat (map (\<lambda>l. l @ [CHR 0x0A]) ls)"] by (simp add: py_splitlines_keep_def)
qed

definition text_of :: "pystr list \<Rightarrow> pystr" where
  "text_of ls = concat (map (\<lambda>l. l @ [CHR 0x0A]) ls)"

lemma text_of_trailing: "ls \<noteq> [] \<Longrightarrow> py_endswith (text_of ls) [CHR 0x0A]"
  by (cases ls rule: rev_cases) (simp_all add: text_of_def py_endswith_def suffix_appendI)

lemma newline_breaks: "py_linebreak (CHR 0x0A)"
  by (simp add: py_linebreak_def)

lemma newline_free_clean: "\<forall>l \<in> set ls. \<forall>c \<in> set l. \<not> py_linebreak c \<Longrightarrow> newline_free ls"
  using newline_breaks unfolding newline_free_def by blast

lemma rstrip_added_newline: "newline_free ls \<Longrightarrow> map (\<lambda>l. rstrip_newlines (l @ [CHR 0x0A])) ls = ls"
  by (induction ls) (auto simp: newline_free_def rstrip_newlines_def py_rstrip_of_def rstrip_newlines_id[unfolded rstrip_newlines_def py_rstrip_of_def])

lemma apply_file_lines:
  assumes "ls \<noteq> []" "\<forall>l \<in> set ls. \<forall>c \<in> set l. \<not> py_linebreak c" "apply_hunks 0 (fp_hunks fp) ls = Inr out" "out \<noteq> []"
  shows "apply_file_patch (text_of ls) fp = Inr (text_of out)"
proof -
  have "map rstrip_newlines (split_lines_keepends (text_of ls)) = ls"
    using assms(1,2) rstrip_added_newline[OF newline_free_clean[OF assms(2)]]
    by (auto simp: split_lines_keepends_def text_of_def keepends_lines o_def neq_Nil_conv)
  with assms(1,3,4) text_of_trailing[OF assms(1)] join_lines[OF assms(4)] show ?thesis
    by (simp add: apply_file_patch_def text_of_def Let_def)
qed

text \<open>A hunk whose old lines stand at the line its header names is applied there: the text of
  \<open>a @ old @ b\<close> becomes the text of \<open>a @ new @ b\<close>, even when the old lines occur elsewhere too.\<close>

theorem hunk_applies_at_its_line:
  assumes "\<forall>l \<in> set (a @ hunk_context h @ b). \<forall>c \<in> set l. \<not> py_linebreak c"
    "hunk_context h \<noteq> []" "a @ hunk_replacement h @ b \<noteq> []" "old_start h = length a + 1"
  shows "apply_file_patch (text_of (a @ hunk_context h @ b)) \<lparr>fp_path = p, fp_hunks = [h]\<rparr>
     = Inr (text_of (a @ hunk_replacement h @ b))"
proof (rule apply_file_lines)
  have "newline_free (hunk_context h)"
    using newline_free_clean[OF assms(1)] by simp
  then have "match_at (a @ hunk_context h @ b) (hunk_context h) (int (old_start h) - 1 + 0)"
    by (simp add: match_at_def assms(4) rstrip_newline_free)
  then have "find_hunk_position (a @ hunk_context h @ b) h 0 = Inr (length a, hunk_context h)"
    by (simp add: find_hunk_position_def Let_def assms(4))
  then show "apply_hunks 0 (fp_hunks \<lparr>fp_path = p, fp_hunks = [h]\<rparr>) (a @ hunk_context h @ b) = Inr (a @ hunk_replacement h @ b)"
    by (simp add: splice_def)
qed (use assms in auto)

theorem hunk_applies_at_its_line_witness:
  "apply_file_patch (text_of [''a'', ''b'', ''a'', ''b'']) \<lparr>fp_path = ''x'', fp_hunks = [demo_hunk 3 3 ['' a'', ''-b'', ''+c'']]\<rparr>
     = Inr (text_of [''a'', ''b'', ''a'', ''c''])"
  using hunk_applies_at_its_line[of "[''a'', ''b'']" "demo_hunk 3 3 ['' a'', ''-b'', ''+c'']" "[]" "''x''"]
  by (simp add: demo_hunk_def hunk_context_def hunk_replacement_def raw_prefix_def py_linebreak_def)

subsection \<open>What the applier gets wrong\<close>

definition lines_1_20 :: "pystr list" where
  "lines_1_20 = map nat_str [1..<21]"

text \<open>The offset handed to the next hunk is the end of the replacement minus the new start, which counts the
  context lines themselves: with a first hunk of seven lines, a second hunk whose numbers are exact is searched
  seven lines too low, beyond the fuzz of five, and the patch is refused although it is a correct diff.\<close>

theorem second_hunk_of_a_correct_patch_is_refused:
  "(case apply_hunks 0
       [demo_hunk 1 1 ['' 1'', '' 2'', '' 3'', ''-4'', ''+four'', '' 5'', '' 6'', '' 7''],
        demo_hunk 12 12 ['' 12'', ''-13'', ''+thirteen'', '' 14'']] lines_1_20 of
      Inl (PatchApplyError w) \<Rightarrow> True | _ \<Rightarrow> False)
   \<and> lines_1_20 ! 11 = ''12''
   \<and> (case apply_hunks 0 [demo_hunk 12 12 ['' 12'', ''-13'', ''+thirteen'', '' 14'']] lines_1_20 of Inr out \<Rightarrow> True | _ \<Rightarrow> False)"
  by code_simp

text \<open>The lines of a file are those of \<open>str.splitlines\<close>, and the file is joined again with newlines only: a form
  feed, a carriage return or a vertical tab between two lines that no hunk names becomes extra line breaks.\<close>

theorem untouched_form_feed_is_rewritten:
  "apply_file_patch (''a'' @ [CHR 0x0A] @ ''x'' @ [CHR 0x0C] @ ''y'' @ [CHR 0x0A])
     \<lparr>fp_path = ''x'', fp_hunks = [demo_hunk 1 1 [''-a'', ''+b'']]\<rparr>
   = Inr (''b'' @ [CHR 0x0A] @ ''x'' @ [CHR 0x0C, CHR 0x0A] @ ''y'' @ [CHR 0x0A])"
  by code_simp

end
