(* ===== verification/ContextRuntime.thy ===== *)
theory ContextRuntime
  imports Hooks
begin

text \<open>
  The messages sent to a model and their size (\<open>runtime/context_runtime.py\<close>): pairing tool calls with their
  results, the token estimate, the trimming before a provider call.  A message is a dictionary.  Identifiers
  are compared as values; a \<open>tool_calls\<close> entry is a list or a dictionary, as the providers build it.
  The provider interface refuses a list in which a tool result has no call or a call no result; \<open>well_paired\<close>
  is that contract, and every list that leaves this module meets it.
\<close>

subsection \<open>Messages\<close>

definition role_is :: "pystr \<Rightarrow> dict \<Rightarrow> bool" where
  "role_is r m \<longleftrightarrow> dget m ''role'' = Some (JStr r)"

abbreviation "is_tool \<equiv> role_is ''tool''"
abbreviation "is_user \<equiv> role_is ''user''"
abbreviation "is_assistant \<equiv> role_is ''assistant''"
abbreviation "is_system \<equiv> role_is ''system''"

definition has_calls :: "dict \<Rightarrow> bool" where
  "has_calls m \<longleftrightarrow> is_assistant m \<and> truthy (dget_null m ''tool_calls'')"

text \<open>Iteration over a value: the elements of a list, the keys of a dictionary.\<close>

fun iter_json :: "json \<Rightarrow> json list" where
  "iter_json (JList xs) = xs"
| "iter_json (JDict d) = map JStr (dkeys d)"
| "iter_json _ = []"

definition call_ids :: "dict \<Rightarrow> json set" where
  "call_ids m = set (map (\<lambda>tc. dget_null (the_jdict tc) ''id'') (filter is_jdict (iter_json (dget_null m ''tool_calls''))))"

definition result_id :: "dict \<Rightarrow> json" where
  "result_id m = dget_null m ''tool_call_id''"

lemma role_is_unique: "role_is r m \<Longrightarrow> role_is r' m \<Longrightarrow> r = r'"
  by (simp add: role_is_def)

lemma roles_disjoint [simp]:
  "is_tool m \<Longrightarrow> \<not> has_calls m" "is_user m \<Longrightarrow> \<not> is_tool m" "is_user m \<Longrightarrow> \<not> is_assistant m"
  "is_assistant m \<Longrightarrow> \<not> is_tool m" "is_system m \<Longrightarrow> \<not> is_tool m" "is_system m \<Longrightarrow> \<not> has_calls m"
  by (auto simp: role_is_def has_calls_def)

subsection \<open>Pairing\<close>

text \<open>The tool messages after a call: those kept, the ids kept (\<open>{m.get(..) for m in kept[1:]}\<close>), and the
  messages after the block.\<close>

fun take_results :: "json set \<Rightarrow> json set \<Rightarrow> dict list \<Rightarrow> dict list \<times> dict list" where
  "take_results ids seen [] = ([], [])"
| "take_results ids seen (m # ms) =
     (if \<not> is_tool m then ([], m # ms)
      else if result_id m \<in> ids \<and> result_id m \<notin> seen
      then (case take_results ids (insert (result_id m) seen) ms of (kept, rest) \<Rightarrow> (m # kept, rest))
      else take_results ids seen ms)"

lemma take_results_shorter: "take_results ids seen ms = (kept, rest) \<Longrightarrow> length rest \<le> length ms"
  by (induction ids seen ms arbitrary: kept rule: take_results.induct)
    (auto split: if_splits prod.splits intro: le_SucI)

function prune_unpaired :: "dict list \<Rightarrow> dict list" where
  "prune_unpaired [] = []"
| "prune_unpaired (m # ms) =
     (if has_calls m then
        (case take_results (call_ids m) {} ms of (kept, rest) \<Rightarrow>
           (if call_ids m \<noteq> {} \<and> set (map result_id kept) = call_ids m then m # kept else []) @ prune_unpaired rest)
      else if is_tool m then prune_unpaired ms
      else m # prune_unpaired ms)"
  by pat_completeness auto
termination
  by (relation "measure length") (auto dest!: take_results_shorter[OF sym])

text \<open>What the provider interface accepts.\<close>

inductive well_paired :: "dict list \<Rightarrow> bool" where
  wp_Nil: "well_paired []"
| wp_plain: "\<not> is_tool m \<Longrightarrow> \<not> has_calls m \<Longrightarrow> well_paired ms \<Longrightarrow> well_paired (m # ms)"
| wp_group: "has_calls m \<Longrightarrow> call_ids m \<noteq> {} \<Longrightarrow> \<forall>t \<in> set ts. is_tool t \<Longrightarrow> distinct (map result_id ts) \<Longrightarrow>
    set (map result_id ts) = call_ids m \<Longrightarrow> well_paired ms \<Longrightarrow> well_paired (m # ts @ ms)"

lemma take_results_kept:
  "take_results ids seen ms = (kept, rest) \<Longrightarrow>
     (\<forall>t \<in> set kept. is_tool t) \<and> distinct (map result_id kept) \<and> set (map result_id kept) \<subseteq> ids - seen \<and>
     (rest = [] \<or> \<not> is_tool (hd rest))"
proof (induction ids seen ms arbitrary: kept rule: take_results.induct)
  case (2 ids seen m ms)
  consider "\<not> is_tool m" | "is_tool m" "result_id m \<in> ids" "result_id m \<notin> seen"
    | "is_tool m" "\<not> (result_id m \<in> ids \<and> result_id m \<notin> seen)" by blast
  then show ?case
  proof cases
    case 2
    then obtain k where k: "take_results ids (insert (result_id m) seen) ms = (k, rest)" "kept = m # k"
      using "2.prems" by (auto split: prod.splits)
    have "(\<forall>t \<in> set k. is_tool t) \<and> distinct (map result_id k) \<and>
        set (map result_id k) \<subseteq> ids - insert (result_id m) seen \<and> (rest = [] \<or> \<not> is_tool (hd rest))"
      using "2.IH"(1)[OF _ _ k(1)] 2 by blast
    with 2 k(2) show ?thesis by auto
  next
    case 3
    then have "take_results ids seen ms = (kept, rest)" using "2.prems" by auto
    then show ?thesis using "2.IH"(2) 3 by blast
  qed (use "2.prems" in auto)
qed auto

lemma take_results_all:
  "\<forall>t \<in> set ts. is_tool t \<Longrightarrow> distinct (map result_id ts) \<Longrightarrow> set (map result_id ts) \<subseteq> ids - seen \<Longrightarrow>
   rest = [] \<or> \<not> is_tool (hd rest) \<Longrightarrow> take_results ids seen (ts @ rest) = (ts, rest)"
proof (induction ts arbitrary: seen)
  case Nil
  then show ?case by (cases rest) auto
next
  case (Cons t ts)
  have "set (map result_id ts) \<subseteq> ids - insert (result_id t) seen"
    using Cons.prems(2,3) by (auto simp: subset_Diff_insert)
  then have "take_results ids (insert (result_id t) seen) (ts @ rest) = (ts, rest)"
    using Cons.IH[of "insert (result_id t) seen"] Cons.prems by simp
  with Cons.prems show ?case by simp
qed

lemma well_paired_head: "well_paired ms \<Longrightarrow> ms = [] \<or> \<not> is_tool (hd ms)"
  by (induction rule: well_paired.induct) auto

lemma prune_well_paired: "well_paired (prune_unpaired ms)"
proof (induction ms rule: prune_unpaired.induct)
  case (2 m ms)
  show ?case
  proof (cases "has_calls m")
    case True
    obtain kept rest where t: "take_results (call_ids m) {} ms = (kept, rest)" by fastforce
    have "well_paired (prune_unpaired rest)" using 2(1)[OF True] t by auto
    with True t take_results_kept[OF t] show ?thesis by (auto intro: well_paired.wp_group)
  next
    case False
    with 2 show ?thesis by (auto intro: well_paired.intros)
  qed
qed (simp add: well_paired.wp_Nil)

lemma prune_id: "well_paired ms \<Longrightarrow> prune_unpaired ms = ms"
proof (induction rule: well_paired.induct)
  case (wp_group m ts ms)
  have "take_results (call_ids m) {} (ts @ ms) = (ts, ms)"
    using wp_group well_paired_head[OF wp_group(6)] by (intro take_results_all) auto
  with wp_group show ?case by simp
qed auto

definition plain :: "dict \<Rightarrow> bool" where
  "plain m \<longleftrightarrow> \<not> is_tool m \<and> \<not> has_calls m"

lemma plain_simps [simp]: "has_calls m \<Longrightarrow> \<not> plain m" "is_tool m \<Longrightarrow> \<not> plain m"
  "\<not> has_calls m \<Longrightarrow> \<not> is_tool m \<Longrightarrow> plain m"
  by (simp_all add: plain_def)

lemma take_results_plain:
  "take_results ids seen ms = (kept, rest) \<Longrightarrow> filter plain kept = [] \<and> filter plain rest = filter plain ms"
  by (induction ids seen ms arbitrary: kept rule: take_results.induct)
    (auto split: if_splits prod.splits)

lemma prune_plain: "filter plain (prune_unpaired ms) = filter plain ms"
proof (induction ms rule: prune_unpaired.induct)
  case (2 m ms)
  show ?case
  proof (cases "has_calls m")
    case True
    obtain kept rest where t: "take_results (call_ids m) {} ms = (kept, rest)" by fastforce
    have "filter plain (prune_unpaired rest) = filter plain rest" using 2(1)[OF True] t by auto
    with True take_results_plain[OF t] t show ?thesis by simp
  next
    case False
    with 2 show ?thesis by auto
  qed
qed simp

lemma take_results_subseq: "take_results ids seen ms = (kept, rest) \<Longrightarrow> subseq (kept @ rest) ms"
  by (induction ids seen ms arbitrary: kept rule: take_results.induct)
    (auto split: if_splits prod.splits)

lemma prune_subseq: "subseq (prune_unpaired ms) ms"
proof (induction ms rule: prune_unpaired.induct)
  case (2 m ms)
  show ?case
  proof (cases "has_calls m")
    case True
    obtain kept rest where t: "take_results (call_ids m) {} ms = (kept, rest)" by fastforce
    have "subseq (prune_unpaired rest) rest" using 2(1)[OF True] t by auto
    then have "subseq (kept @ prune_unpaired rest) (kept @ rest)" by (simp add: list_emb_append_mono)
    then have k: "subseq (kept @ prune_unpaired rest) ms" using take_results_subseq[OF t] subseq_order.trans by blast
    then have "subseq (prune_unpaired rest) ms" using subseq_order.trans[OF list_emb_append2[of _ _ _ kept]] by blast
    with k True t show ?thesis by auto
  next
    case False
    with 2 show ?thesis by auto
  qed
qed simp

text \<open>C16. Pairing: the list the pass returns is one a provider accepts; a list that a provider accepts is returned
  unchanged; what it returns is a subsequence of the list, and every message that is neither a tool call nor
  a tool result is kept, in its place.\<close>

theorem prune_pairs:
  "well_paired (prune_unpaired ms) \<and> subseq (prune_unpaired ms) ms
   \<and> filter plain (prune_unpaired ms) = filter plain ms \<and> (well_paired ms \<longleftrightarrow> prune_unpaired ms = ms)"
  using prune_well_paired[of ms] prune_id[of ms] prune_plain prune_subseq by metis



text \<open>A turn that was cut: the result of \<open>b\<close> is missing, and a result without a call is left over.\<close>

definition demo_call :: "pystr list \<Rightarrow> dict" where
  "demo_call ids = [(''role'', JStr ''assistant''), (''content'', JStr ''''),
     (''tool_calls'', JList (map (\<lambda>i. JDict [(''id'', JStr i)]) ids))]"

definition demo_result :: "pystr \<Rightarrow> dict" where
  "demo_result i = [(''role'', JStr ''tool''), (''tool_call_id'', JStr i), (''content'', JStr ''ok'')]"

definition demo_msg :: "pystr \<Rightarrow> pystr \<Rightarrow> dict" where
  "demo_msg r s = [(''role'', JStr r), (''content'', JStr s)]"

lemma prune_example:
  "prune_unpaired [demo_result ''x'', demo_msg ''user'' ''hi'', demo_call [''a''], demo_result ''a'', demo_result ''a'',
      demo_call [''b'', ''c''], demo_result ''c'']
   = [demo_msg ''user'' ''hi'', demo_call [''a''], demo_result ''a'']"
  by code_simp

subsection \<open>The size of a list of messages\<close>

text \<open>No code point below 256 is of the width \<open>W\<close> or \<open>F\<close> in the Unicode tables of \<open>unicodedata\<close>.\<close>

definition wide_char :: "char \<Rightarrow> bool" where
  "wide_char c = False"

definition count_cjk_ascii :: "pystr \<Rightarrow> nat \<times> nat" where
  "count_cjk_ascii text = (length (filter wide_char text), length (filter (\<lambda>c. \<not> wide_char c) text))"

definition content_str :: "pystr \<Rightarrow> dict \<Rightarrow> pystr" where
  "content_str key m = py_str (jor (dget_null m key) (JStr ''''))"

definition message_texts :: "dict \<Rightarrow> pystr list" where
  "message_texts m = [content_str ''content'' m, content_str ''reasoning_content'' m] @
     (if truthy (dget_null m ''tool_calls'') then [py_str (dget_null m ''tool_calls'')] else [])"

definition message_counts :: "dict list \<Rightarrow> nat \<times> nat" where
  "message_counts ms =
     (sum_list (map (\<lambda>m. sum_list (map (fst \<circ> count_cjk_ascii) (message_texts m))) ms),
      sum_list (map (\<lambda>m. sum_list (map (snd \<circ> count_cjk_ascii) (message_texts m))) ms))"

text \<open>\<open>int(cjk * 1.0 + ascii * 0.25)\<close>, at least 1.\<close>

definition estimate_tokens :: "dict list \<Rightarrow> nat" where
  "estimate_tokens ms = (case message_counts ms of (cjk, ascii) \<Rightarrow> max 1 (cjk + ascii div 4))"

definition should_auto_compact :: "dict list \<Rightarrow> nat \<Rightarrow> bool" where
  "should_auto_compact ms limit \<longleftrightarrow> limit \<le> estimate_tokens ms"

lemma sum_list_subseq: "subseq xs ys \<Longrightarrow> sum_list (map f xs) \<le> sum_list (map f ys)" for f :: "'a \<Rightarrow> nat"
  by (induction rule: list_emb.induct) auto

lemma estimate_subseq: "subseq xs ys \<Longrightarrow> estimate_tokens xs \<le> estimate_tokens ys"
proof -
  assume s: "subseq xs ys"
  have "max 1 (a + b div 4) \<le> max 1 (c + d div 4)" if "a \<le> c" "b \<le> d" for a b c d :: nat
    by (intro max.mono add_mono div_le_mono that order_refl)
  with sum_list_subseq[OF s] show ?thesis by (simp add: estimate_tokens_def message_counts_def)
qed

subsection \<open>Trimming before a provider call\<close>

definition MODEL_MAX_INPUT_TOKENS :: "(pystr \<times> nat) list" where
  "MODEL_MAX_INPUT_TOKENS = [
     (''gpt-4o'', 128000), (''gpt-4o-mini'', 128000), (''gpt-4-turbo'', 128000), (''gpt-4'', 8192),
     (''gpt-3.5-turbo'', 16385), (''o1'', 200000), (''o1-mini'', 128000), (''o3'', 200000), (''o3-mini'', 200000),
     (''o4-mini'', 200000), (''claude-3.5-sonnet'', 200000), (''claude-3.5-haiku'', 200000), (''claude-3-opus'', 200000),
     (''claude-3-haiku'', 200000), (''claude-3-sonnet'', 200000), (''claude-opus-4'', 200000),
     (''claude-opus-4-5'', 200000), (''claude-sonnet-4'', 200000), (''claude-sonnet-4-5'', 200000),
     (''claude-haiku-4-5'', 200000), (''deepseek-chat'', 128000), (''deepseek-reasoner'', 128000),
     (''deepseek-v4-flash'', 102400), (''gemini-2.5-flash'', 1048576), (''gemini-2.5-pro'', 1048576),
     (''gemini-2.0-flash'', 1048576), (''qwen-max'', 131072), (''qwen-plus'', 131072), (''qwen-turbo'', 1000000),
     (''kimi-k2.5'', 128000), (''kimi-k2'', 128000), (''glm-4'', 128000), (''minimax-m1'', 1000000)]"

definition max_input_of :: "(pystr \<times> nat) list \<Rightarrow> pystr \<Rightarrow> nat" where
  "max_input_of table model =
     (case List.find (\<lambda>(k, _). py_in k (py_lower model)) table of Some (_, l) \<Rightarrow> l | None \<Rightarrow> 128000)"

definition resolve_model_max_input :: "pystr \<Rightarrow> nat" where
  "resolve_model_max_input model = max_input_of MODEL_MAX_INPUT_TOKENS model"

text \<open>\<open>int(max_input * 0.80)\<close>.\<close>

definition hard_limit :: "pystr \<Rightarrow> nat" where
  "hard_limit model = 4 * resolve_model_max_input model div 5"

text \<open>The first index from \<open>lo\<close> up to, not including, the last message whose role is \<open>r\<close>.\<close>

definition first_role :: "pystr \<Rightarrow> nat \<Rightarrow> dict list \<Rightarrow> nat option" where
  "first_role r lo work = List.find (\<lambda>i. role_is r (work ! i)) [lo..<length work - 1]"

definition find_cut :: "nat \<Rightarrow> dict list \<Rightarrow> (nat \<times> pystr) option" where
  "find_cut lo work =
     (case first_role ''user'' lo work of Some i \<Rightarrow> Some (i, ''user'')
      | None \<Rightarrow> (case first_role ''assistant'' lo work of Some i \<Rightarrow> Some (i, ''assistant'') | None \<Rightarrow> None))"

definition starts_turn :: "pystr \<Rightarrow> dict \<Rightarrow> bool" where
  "starts_turn g m \<longleftrightarrow> is_user m \<or> g = ''assistant'' \<and> is_assistant m"

definition cut_group :: "nat \<Rightarrow> pystr \<Rightarrow> dict list \<Rightarrow> dict list" where
  "cut_group i g work = take i work @ dropWhile (\<lambda>m. \<not> starts_turn g m) (drop (Suc i) work)"

lemma find_cut_range: "find_cut lo work = Some (i, g) \<Longrightarrow> lo \<le> i \<and> i < length work - 1"
  by (auto simp: find_cut_def first_role_def find_Some_iff nth_append split: option.splits)

lemma cut_group_shorter: "i < length work \<Longrightarrow> length (cut_group i g work) < length work"
  using length_dropWhile_le[of "\<lambda>m. \<not> starts_turn g m" "drop (Suc i) work"] by (simp add: cut_group_def)

function trim_loop :: "nat \<Rightarrow> nat \<Rightarrow> dict list \<Rightarrow> dict list" where
  "trim_loop limit hp work =
     (if length work \<le> hp + 1 \<or> estimate_tokens work \<le> limit then work
      else case find_cut hp work of
        None \<Rightarrow> work
      | Some (i, g) \<Rightarrow> trim_loop limit hp (cut_group i g work))"
  by pat_completeness auto
termination
  by (relation "measure (\<lambda>(_, _, w). length w)") (auto dest!: find_cut_range intro: cut_group_shorter)

declare trim_loop.simps [simp del]

definition head_protect :: "dict list \<Rightarrow> nat" where
  "head_protect work = (if work \<noteq> [] \<and> is_system (hd work) then 2 else 1)"

definition trim_for_model :: "dict list \<Rightarrow> pystr \<Rightarrow> dict list" where
  "trim_for_model ms model =
     (if estimate_tokens ms \<le> hard_limit model then prune_unpaired ms
      else prune_unpaired (trim_loop (hard_limit model) (head_protect ms) ms))"

lemma cut_group_subseq: "subseq (cut_group i g work) work"
proof -
  have "subseq (dropWhile (\<lambda>m. \<not> starts_turn g m) (drop (Suc i) work)) (drop i work)"
    by (metis drop_Suc subseq_drop_many subseq_order.trans suffix_dropWhile suffix_imp_subseq suffix_tl tl_drop)
  then have "subseq (take i work @ dropWhile (\<lambda>m. \<not> starts_turn g m) (drop (Suc i) work)) (take i work @ drop i work)"
    by (intro list_emb_append_mono) auto
  then show ?thesis by (simp add: cut_group_def)
qed

lemma trim_loop_facts:
  "subseq (trim_loop limit hp work) work \<and> take hp (trim_loop limit hp work) = take hp work \<and>
   (estimate_tokens (trim_loop limit hp work) \<le> limit \<or> length (trim_loop limit hp work) \<le> hp + 1
     \<or> find_cut hp (trim_loop limit hp work) = None)"
proof (induction limit hp work rule: trim_loop.induct)
  case (1 limit hp work)
  consider "length work \<le> hp + 1 \<or> estimate_tokens work \<le> limit" | "find_cut hp work = None"
    | i g where "\<not> (length work \<le> hp + 1 \<or> estimate_tokens work \<le> limit)" "find_cut hp work = Some (i, g)"
    by fastforce
  then show ?case
  proof cases
    case 3
    have IH: "subseq (trim_loop limit hp (cut_group i g work)) (cut_group i g work) \<and>
        take hp (trim_loop limit hp (cut_group i g work)) = take hp (cut_group i g work) \<and>
        (estimate_tokens (trim_loop limit hp (cut_group i g work)) \<le> limit \<or>
          length (trim_loop limit hp (cut_group i g work)) \<le> hp + 1 \<or> find_cut hp (trim_loop limit hp (cut_group i g work)) = None)"
      using 1[OF 3(1) 3(2)] by simp
    have "take hp (cut_group i g work) = take hp work"
      using find_cut_range[OF 3(2)] by (simp add: cut_group_def min_def)
    moreover have "trim_loop limit hp work = trim_loop limit hp (cut_group i g work)"
      using 3 by (simp add: trim_loop.simps[of limit hp work])
    ultimately show ?thesis using IH cut_group_subseq subseq_order.trans by metis
  qed (auto simp: trim_loop.simps[of limit hp work])
qed

text \<open>C34. What leaves the guard before a provider call: the list is well paired and a subsequence of the messages;
  a system prompt at its head stays there; and either it fits the limit of the model, or the loop stopped because
  at most the protected head and one message were left, or no user or assistant message between the protected head
  and the last message was left to remove.\<close>

theorem trim_result:
  "well_paired (trim_for_model ms model) \<and> subseq (trim_for_model ms model) ms
   \<and> (ms \<noteq> [] \<and> is_system (hd ms) \<longrightarrow> trim_for_model ms model \<noteq> [] \<and> hd (trim_for_model ms model) = hd ms)
   \<and> (estimate_tokens (trim_for_model ms model) \<le> hard_limit model
      \<or> (\<exists>work. trim_for_model ms model = prune_unpaired work \<and> subseq work ms
           \<and> (length work \<le> head_protect ms + 1 \<or> find_cut (head_protect ms) work = None)))"
proof -
  define work where "work = (if estimate_tokens ms \<le> hard_limit model then ms
      else trim_loop (hard_limit model) (head_protect ms) ms)"
  have t: "trim_for_model ms model = prune_unpaired work" by (simp add: trim_for_model_def work_def)
  note F = trim_loop_facts[of "hard_limit model" "head_protect ms" ms]
  have s: "subseq work ms" and h: "take (head_protect ms) work = take (head_protect ms) ms"
    and e: "estimate_tokens work \<le> hard_limit model \<or> length work \<le> head_protect ms + 1 \<or> find_cut (head_protect ms) work = None"
    using F by (auto simp: work_def)
  have sub: "subseq (prune_unpaired work) ms" using s prune_subseq subseq_order.trans by blast
  have est: "estimate_tokens (prune_unpaired work) \<le> estimate_tokens work" by (intro estimate_subseq prune_subseq)
  have "prune_unpaired work \<noteq> [] \<and> hd (prune_unpaired work) = hd ms" if sys: "ms \<noteq> []" "is_system (hd ms)"
  proof -
    have "take 1 (take (head_protect ms) work) = take 1 (take (head_protect ms) ms)" using h by simp
    then have "take 1 work = take 1 ms" using sys by (simp add: head_protect_def)
    then obtain w where "work = hd ms # w" using sys(1) by (cases work; cases ms) auto
    with sys(2) show ?thesis by simp
  qed
  then show ?thesis unfolding t using prune_well_paired sub e est s le_trans by blast
qed


definition long_text :: pystr where
  "long_text = replicate 40000 (CHR ''x'')"

definition demo_turns :: "dict list" where
  "demo_turns = [demo_msg ''system'' ''s'', demo_msg ''user'' ''old'', demo_msg ''user'' long_text,
     demo_call [''a''], demo_result ''a'']"

theorem trim_result_witness:
  "hd (trim_for_model demo_turns ''gpt-4'') = demo_msg ''system'' ''s''"
proof -
  have "demo_turns \<noteq> [] \<and> is_system (hd demo_turns)" "hd demo_turns = demo_msg ''system'' ''s''"
    by (simp_all add: demo_turns_def demo_msg_def role_is_def)
  then show ?thesis using trim_result[of demo_turns "''gpt-4''"] by metis
qed

text \<open>The limit of a model is the first entry whose key occurs in its name: the entry of \<open>o1-mini\<close> is never
  reached, and a newer model such as \<open>gpt-4.1\<close> gets the 8192 tokens of \<open>gpt-4\<close>.\<close>

theorem model_entry_shadowed:
  "map_of MODEL_MAX_INPUT_TOKENS ''o1-mini'' = Some 128000 \<and> resolve_model_max_input ''o1-mini'' = 200000
   \<and> resolve_model_max_input ''gpt-4.1'' = 8192"
  by (simp add: MODEL_MAX_INPUT_TOKENS_def resolve_model_max_input_def max_input_of_def py_in_def py_lower_def
      py_lower_char_def sublist_Cons_right)

text \<open>The protected head is the system prompt and one message; the newest question is not protected.  In the
  middle of its own tool round an over-long question is removed together with its calls and results, and the
  model is asked to go on from the turn before it.\<close>

theorem newest_question_is_trimmed:
  "trim_loop 100 2 [demo_msg ''system'' ''s'', demo_msg ''user'' ''old'', demo_msg ''user'' (replicate 500 (CHR ''x'')),
     demo_call [''a''], demo_result ''a''] = [demo_msg ''system'' ''s'', demo_msg ''user'' ''old'']"
  by code_simp

end
