(* ===== verification/PairRepair.thy ===== *)
theory PairRepair
  imports Main
begin

text \<open>
  The contract that the two repair passes of the program share (\<open>_sanitize_tool_pairs\<close> of the context compressor
  and \<open>repair_model_history_items\<close> of the KUN runtime): results of calls that are gone are dropped, calls without
  a result get a stub right after them.  A provider gives the key of a result, the keys of a call and the stub.
\<close>

locale pair_repair =
  fixes is_res :: "'m \<Rightarrow> bool"
    and rkey :: "'m \<Rightarrow> 'k"
    and ckeys :: "'m \<Rightarrow> 'k list"
    and stub :: "'m \<Rightarrow> 'k \<Rightarrow> 'm"
  assumes stub_res: "is_res (stub m k)"
    and stub_key: "rkey (stub m k) = k"
    and res_no_call: "is_res m \<Longrightarrow> ckeys m = []"
begin

definition results :: "'m list \<Rightarrow> 'k set" where
  "results ms = rkey ` {m \<in> set ms. is_res m}"

definition calls :: "'m list \<Rightarrow> 'k set" where
  "calls ms = (\<Union>m \<in> set ms. set (ckeys m))"

fun repair_with :: "'k set \<Rightarrow> 'k set \<Rightarrow> 'm list \<Rightarrow> 'm list" where
  "repair_with R C [] = []"
| "repair_with R C (m # ms) =
     (if is_res m then (if rkey m \<in> C then [m] else []) else m # map (stub m) (filter (\<lambda>k. k \<notin> R) (ckeys m)))
     @ repair_with R C ms"

definition repair :: "'m list \<Rightarrow> 'm list" where
  "repair ms = repair_with (results ms) (calls ms) ms"

lemma filter_stubs [simp]: "filter (\<lambda>m. \<not> is_res m) (map (stub m) ks) = []"
  by (induction ks) (auto simp: stub_res)

lemma repair_others: "filter (\<lambda>m. \<not> is_res m) (repair_with R C ms) = filter (\<lambda>m. \<not> is_res m) ms"
  by (induction ms) auto

lemma calls_others: "calls (filter (\<lambda>m. \<not> is_res m) ms) = calls ms"
  by (auto simp: calls_def res_no_call)

lemma calls_repair: "calls (repair_with R C ms) = calls ms"
  by (metis calls_others repair_others)

lemma repair_answers: "t \<in> set (repair_with R C ms) \<Longrightarrow> is_res t \<Longrightarrow> rkey t \<in> C \<union> calls ms"
  by (induction ms) (auto simp: stub_key calls_def split: if_splits)

lemma repair_keeps: "m \<in> set ms \<Longrightarrow> is_res m \<Longrightarrow> rkey m \<in> C \<Longrightarrow> m \<in> set (repair_with R C ms)"
  by (induction ms) auto

lemma repair_stubs: "k \<in> calls ms \<Longrightarrow> k \<notin> R \<Longrightarrow> \<exists>m. stub m k \<in> set (repair_with R C ms)"
  by (induction ms) (auto simp: calls_def res_no_call split: if_splits)

lemma repair_fixed:
  "\<forall>t \<in> set ms. is_res t \<longrightarrow> rkey t \<in> C \<Longrightarrow> calls ms \<subseteq> R \<Longrightarrow> repair_with R C ms = ms"
proof (induction ms)
  case (Cons m ms)
  have "filter (\<lambda>k. k \<notin> R) (ckeys m) = []"
    using Cons.prems(2) by (auto simp: calls_def filter_empty_conv)
  with Cons show ?case by (auto simp: calls_def)
qed simp

lemma repair_pairs:
  "results (repair ms) = calls (repair ms)"
  "filter (\<lambda>m. \<not> is_res m) (repair ms) = filter (\<lambda>m. \<not> is_res m) ms"
  "repair (repair ms) = repair ms"
proof -
  let ?out = "repair ms"
  have c: "calls ?out = calls ms" by (simp add: repair_def calls_repair)
  have "k \<in> results ?out" if k: "k \<in> calls ?out" for k
  proof (cases "k \<in> results ms")
    case True
    then obtain m where "m \<in> set ms" "is_res m" "rkey m = k" by (auto simp: results_def)
    with k c show ?thesis using repair_keeps[of m ms "calls ms"] by (force simp: results_def repair_def)
  next
    case False
    then obtain m where "stub m k \<in> set ?out" using k c repair_stubs by (metis repair_def)
    then show ?thesis by (force simp: results_def stub_res stub_key)
  qed
  moreover have "k \<in> calls ?out" if "k \<in> results ?out" for k
    using that repair_answers[of _ "results ms" "calls ms" ms] c by (auto simp: results_def repair_def)
  ultimately show eq: "results ?out = calls ?out" by blast
  show "filter (\<lambda>m. \<not> is_res m) ?out = filter (\<lambda>m. \<not> is_res m) ms" by (simp add: repair_def repair_others)
  show "repair ?out = ?out"
    unfolding repair_def[of ?out] using eq by (intro repair_fixed) (auto simp: results_def)
qed

text \<open>Nothing is changed where nothing is wrong.\<close>

lemma repair_id: "results ms = calls ms \<Longrightarrow> repair ms = ms"
  unfolding repair_def by (intro repair_fixed) (auto simp: results_def)

end

end
