(* ===== verification/Compressor.thy ===== *)
theory Compressor
  imports ContextRuntime PairRepair
begin

text \<open>
  The context compressor (\<open>agent/context_compressor.py\<close>) and the compaction of a thread around it
  (\<open>runtime/context_runtime.py\<close>).  The call of the model is an argument that returns a text or raises; the
  time is in whole seconds.  Contents are strings, lists of text blocks or missing.
\<close>

subsection \<open>Sizes\<close>

definition HEAD_PROTECT_MSGS :: nat where "HEAD_PROTECT_MSGS = 4"
definition MIN_SUMMARY_TOKENS :: nat where "MIN_SUMMARY_TOKENS = 2000"
definition SUMMARY_TOKENS_CEILING :: nat where "SUMMARY_TOKENS_CEILING = 12000"
definition CONTENT_MAX :: nat where "CONTENT_MAX = 6000"
definition CONTENT_HEAD :: nat where "CONTENT_HEAD = 4000"
definition CONTENT_TAIL :: nat where "CONTENT_TAIL = 1500"
definition TOOL_ARGS_MAX :: nat where "TOOL_ARGS_MAX = 1500"
definition FAILURE_COOLDOWN :: int where "FAILURE_COOLDOWN = 600"

text \<open>\<open>json.dumps\<close> with its default \<open>ensure_ascii=True\<close>: other characters are written as \<open>\uXXXX\<close>.\<close>

definition ascii_char :: "char \<Rightarrow> pystr" where
  "ascii_char c = (let n = (of_char c :: nat) in
     if n < 127 then json_char c
     else [CHR 0x5C, CHR ''u'', CHR ''0'', CHR ''0'', hex_digit (n div 16), hex_digit (n mod 16)])"

definition ascii_str :: "pystr \<Rightarrow> pystr" where
  "ascii_str s = CHR 0x22 # concat (map ascii_char s) @ [CHR 0x22]"

fun ascii_dumps :: "json \<Rightarrow> pystr" where
  "ascii_dumps (JStr s) = ascii_str s"
| "ascii_dumps (JList xs) = ''['' @ py_join '', '' (map ascii_dumps xs) @ '']''"
| "ascii_dumps (JDict d) = ''{'' @ py_join '', '' (map (\<lambda>(k, v). ascii_str k @ '': '' @ ascii_dumps v) d) @ ''}''"
| "ascii_dumps v = json_dumps v"

definition block_text :: "dict \<Rightarrow> pystr" where
  "block_text b = (case dget b ''text'' of Some (JStr s) \<Rightarrow> s | _ \<Rightarrow> '''')"

definition text_blocks :: "json list \<Rightarrow> pystr list" where
  "text_blocks xs = map (\<lambda>b. block_text (the_jdict b)) (filter is_jdict xs)"

definition msg_chars :: "dict \<Rightarrow> nat" where
  "msg_chars m =
     (case jor (dget_null m ''content'') (JStr '''') of
        JStr s \<Rightarrow> length s
      | JList xs \<Rightarrow> sum_list (map length (text_blocks xs))
      | _ \<Rightarrow> 0)
     + (if truthy (dget_null m ''tool_calls'') then length (ascii_dumps (dget_null m ''tool_calls'')) else 0)"

text \<open>\<open>int(n / 2.5)\<close>.\<close>

definition chars_to_tokens :: "nat \<Rightarrow> nat" where
  "chars_to_tokens n = 2 * n div 5"

definition msg_tokens :: "dict \<Rightarrow> nat" where
  "msg_tokens m = chars_to_tokens (msg_chars m)"

subsection \<open>Phase 1: old tool results\<close>

definition pruned_result :: "dict \<Rightarrow> dict" where
  "pruned_result m = [(''role'', JStr ''tool''), (''tool_call_id'', dget_or m ''tool_call_id'' (JStr '''')),
     (''name'', dget_or m ''name'' (dget_or m ''tool_name'' (JStr ''''))),
     (''content'', JStr ''[tool result pruned to save context]'')]"

text \<open>The walk from the end, over the reversed list; \<open>used\<close> is \<open>tokens_so_far\<close>.\<close>

fun prune_old :: "nat \<Rightarrow> nat \<Rightarrow> dict list \<Rightarrow> dict list" where
  "prune_old budget used [] = []"
| "prune_old budget used (m # rev_ms) =
     (let used' = used + msg_tokens m
      in (if used' > budget \<and> is_tool m then pruned_result m else m) # prune_old budget used' rev_ms)"

definition prune_old_tool_results :: "dict list \<Rightarrow> dict list" where
  "prune_old_tool_results ms = rev (prune_old 8000 0 (rev ms))"

subsection \<open>Phase 3: the tail\<close>

fun back_while_tool :: "dict list \<Rightarrow> nat \<Rightarrow> nat" where
  "back_while_tool ms 0 = 0"
| "back_while_tool ms (Suc i) = (if is_tool (ms ! Suc i) then back_while_tool ms i else Suc i)"

fun back_while_prev_tool :: "dict list \<Rightarrow> nat \<Rightarrow> nat" where
  "back_while_prev_tool ms 0 = 0"
| "back_while_prev_tool ms (Suc i) = (if is_tool (ms ! i) then back_while_prev_tool ms i else Suc i)"

definition align_boundary_backward :: "dict list \<Rightarrow> nat \<Rightarrow> nat" where
  "align_boundary_backward ms i = back_while_prev_tool ms (back_while_tool ms i)"

text \<open>The loop over \<open>i = n - 1, ..., 0\<close>, called with \<open>i + 1\<close>; \<open>split\<close> is the value so far.\<close>

fun tail_walk :: "dict list \<Rightarrow> nat \<Rightarrow> nat \<Rightarrow> nat \<Rightarrow> nat \<Rightarrow> nat" where
  "tail_walk ms budget 0 tokens split = split"
| "tail_walk ms budget (Suc i) tokens split =
     (let t = msg_tokens (ms ! i) in
      if tokens + t > 3 * budget div 2 \<and> split < length ms then split
      else if tokens + t \<ge> budget \<and> i > 0 then align_boundary_backward ms i
      else tail_walk ms budget i (tokens + t) i)"

definition find_tail_cut :: "dict list \<Rightarrow> nat \<Rightarrow> nat \<times> dict list" where
  "find_tail_cut ms budget =
     (let split = min (tail_walk ms budget (length ms) 0 (length ms)) (length ms - 3)
      in (split, drop split ms))"

definition tail_token_budget :: "nat \<Rightarrow> dict list \<Rightarrow> nat" where
  "tail_token_budget context_limit_chars non_system =
     (let total = (if context_limit_chars > 0 then chars_to_tokens context_limit_chars
                   else chars_to_tokens (sum_list (map msg_chars non_system)))
      in max (min (total div 5) SUMMARY_TOKENS_CEILING) MIN_SUMMARY_TOKENS)"

subsection \<open>Tool pairs of the result\<close>

text \<open>\<open>msg["tool_calls"] if isinstance(.., list) else [msg["tool_calls"]]\<close> and the ids of the dictionaries in it.\<close>

definition batch_ids :: "dict \<Rightarrow> json list" where
  "batch_ids m = map (\<lambda>tc. dget_or (the_jdict tc) ''id'' (JStr ''''))
     (filter is_jdict (case dget_null m ''tool_calls'' of JList xs \<Rightarrow> xs | v \<Rightarrow> [v]))"

definition result_ids :: "dict list \<Rightarrow> json set" where
  "result_ids ms = set (map result_id (filter (\<lambda>m. is_tool m \<and> truthy (result_id m)) ms))"

definition called_ids :: "dict list \<Rightarrow> json set" where
  "called_ids ms = set (concat (map (\<lambda>m. filter truthy (batch_ids m)) (filter has_calls ms)))"

definition stub_result :: "json \<Rightarrow> dict" where
  "stub_result i = [(''role'', JStr ''tool''), (''tool_call_id'', i),
     (''content'', JStr ''[result not available - context was compressed]'')]"

definition tool_id :: "dict \<Rightarrow> json" where
  "tool_id m = dget_or m ''tool_call_id'' (JStr '''')"

fun sanitize_with :: "json set \<Rightarrow> json set \<Rightarrow> dict list \<Rightarrow> dict list" where
  "sanitize_with results calls [] = []"
| "sanitize_with results calls (m # ms) =
     (if is_tool m then (if tool_id m \<in> calls then [m] else [])
      else if has_calls m then m # map stub_result (filter (\<lambda>i. truthy i \<and> i \<notin> results) (batch_ids m))
      else [m]) @ sanitize_with results calls ms"

definition sanitize_tool_pairs :: "dict list \<Rightarrow> dict list" where
  "sanitize_tool_pairs ms = sanitize_with (result_ids ms) (called_ids ms) ms"


subsection \<open>Phase 4: the summary\<close>

definition message_content :: "dict \<Rightarrow> pystr" where
  "message_content m =
     (let text = (case jor (dget_null m ''content'') (JStr '''') of
                    JList xs \<Rightarrow> py_join '' '' (text_blocks xs) | v \<Rightarrow> py_str v)
      in if length text > CONTENT_MAX
         then take CONTENT_HEAD text @ [CHR 0x0A] @ ''...[truncated]...'' @ [CHR 0x0A] @ drop (length text - CONTENT_TAIL) text
         else text)"

definition call_text :: "json \<Rightarrow> pystr" where
  "call_text tc =
     (let fn = (case tc of JDict d \<Rightarrow> the_jdict (dget_or d ''function'' tc) | _ \<Rightarrow> []);
          args = py_str (dget_or fn ''arguments'' (JStr ''{}''));
          args' = (if is_jstr (dget_or fn ''arguments'' (JStr ''{}'')) \<and> length args > TOOL_ARGS_MAX
                   then take TOOL_ARGS_MAX args @ ''...[truncated]'' else args)
      in CHR 0x0A # ''  -> '' @ py_str (dget_or fn ''name'' (JStr ''?'')) @ ''('' @ args' @ '')'')"

definition message_parts :: "dict \<Rightarrow> pystr list" where
  "message_parts m =
     (let role = py_str (dget_or m ''role'' (JStr ''unknown'')); content = message_content m in
      if has_calls m then
        (''['' @ role @ '']'' @
           concat (map call_text (case dget_null m ''tool_calls'' of JList xs \<Rightarrow> xs | v \<Rightarrow> [v]))) #
        (if content \<noteq> '''' then [''  text: '' @ content] else [])
      else if is_tool m then
        [''[tool:'' @ py_str (jor (jor (dget_null m ''name'') (dget_null m ''tool_name'')) (JStr '''')) @ ''] '' @ content]
      else [''['' @ role @ ''] '' @ content])"

definition serialize_for_summary :: "dict list \<Rightarrow> pystr" where
  "serialize_for_summary ms = py_join [CHR 0x0A, CHR 0x0A] (concat (map message_parts ms))"

text \<open>The two prompts; the section list of the first is \<open>sections\<close>.\<close>

definition nl :: pystr where "nl = [CHR 0x0A]"

definition sections :: "(pystr \<times> pystr) list" where
  "sections = [
     (''Goal:** '', ''[1-2 sentences describing the overall task/goal]''),
     (''Progress:**'' @ nl, ''[Bullet points of what has been accomplished so far]''),
     (''Key Decisions:**'' @ nl, ''[Important decisions made during the conversation]''),
     (''Files & Resources Created/Modified:**'' @ nl, ''[List of files created, modified, or that are important to the task]''),
     (''Next Steps:**'' @ nl, ''[What still needs to be done to complete the task]''),
     (''Critical Context:**'' @ nl, ''[Any other critical information needed to continue effectively]''),
     (''Tools & Patterns Used:**'' @ nl, ''[Key tools used and successful approaches/patterns discovered]'')]"

definition initial_summary_prompt :: "pystr \<Rightarrow> pystr" where
  "initial_summary_prompt conversation =
     ''You are summarizing a conversation between a user and an AI assistant. '' @
     ''Create a structured summary that preserves all critical information needed '' @
     ''to continue the task. Focus on what was accomplished, what decisions were made, '' @
     ''what files were created/modified, and what still needs to be done.'' @ nl @ nl @
     ''Use this exact structure:'' @ nl @ ''## CONVERSATION SUMMARY'' @ nl @ nl @
     concat (map (\<lambda>(h, t). ''**'' @ h @ t @ nl @ nl) sections) @
     ''Conversation to summarize:'' @ nl @ conversation"

definition update_summary_prompt :: "pystr \<Rightarrow> pystr \<Rightarrow> pystr" where
  "update_summary_prompt previous new_turns =
     ''You are updating a conversation summary with new information from recent turns. '' @
     ''Merge the new information into the existing summary, updating all sections as needed. '' @
     ''Preserve all critical information from the previous summary unless it has been superseded.'' @ nl @ nl @
     ''PREVIOUS SUMMARY:'' @ nl @ previous @ nl @ nl @ ''NEW TURNS TO INCORPORATE:'' @ nl @ new_turns @ nl @ nl @
     ''Produce an updated summary using the same structure as the previous one.''"

record compressor =
  last_failure :: int
  previous_summary :: pystr

definition new_compressor :: compressor where
  "new_compressor = \<lparr>last_failure = 0, previous_summary = ''''\<rparr>"

definition fence :: pystr where "fence = ''```''"

definition strip_fences :: "pystr \<Rightarrow> pystr" where
  "strip_fences raw =
     (let s1 = py_strip raw;
          s2 = (if py_startswith s1 fence then py_join nl (tl (py_split_ch (CHR 0x0A) s1)) else s1);
          s3 = (if py_endswith s2 fence then py_join nl (butlast (py_split_ch (CHR 0x0A) s2)) else s2)
      in py_strip s3)"

text \<open>What a call of the model does: it returns a text or raises.\<close>

type_synonym llm = "pystr \<Rightarrow> pystr \<Rightarrow> pystr result"

definition summary_prompt :: "compressor \<Rightarrow> dict list \<Rightarrow> pystr" where
  "summary_prompt c ms =
     (if previous_summary c \<noteq> '''' then update_summary_prompt (previous_summary c) (serialize_for_summary ms)
      else initial_summary_prompt (serialize_for_summary ms))"

definition generate_summary :: "llm \<Rightarrow> dict list \<Rightarrow> pystr \<Rightarrow> compressor \<Rightarrow> pystr result \<times> compressor" where
  "generate_summary llm ms model c =
     (case llm (summary_prompt c ms) model of
        Inl e \<Rightarrow> (Inl e, c)
      | Inr raw \<Rightarrow> (Inr (strip_fences raw), c\<lparr>previous_summary := strip_fences raw\<rparr>))"

subsection \<open>The pipeline\<close>

definition summary_message :: "pystr \<Rightarrow> dict" where
  "summary_message summary = [(''role'', JStr ''system''),
     (''content'', JStr (''[CONTEXT SUMMARY - earlier conversation compressed]'' @ nl @ nl @ summary))]"

definition non_system_of :: "dict list \<Rightarrow> dict list" where
  "non_system_of ms = prune_old_tool_results (filter (\<lambda>m. \<not> is_system m) ms)"

definition body_of :: "dict list \<Rightarrow> dict list" where
  "body_of ms = drop HEAD_PROTECT_MSGS (non_system_of ms)"

definition tail_cut :: "nat \<Rightarrow> dict list \<Rightarrow> nat \<times> dict list" where
  "tail_cut limit ms = find_tail_cut (body_of ms) (tail_token_budget limit (non_system_of ms))"

definition compress_impl :: "nat \<Rightarrow> llm \<Rightarrow> dict list \<Rightarrow> pystr \<Rightarrow> compressor \<Rightarrow> dict list result \<times> compressor" where
  "compress_impl limit llm ms model c =
     (case tail_cut limit ms of (start, tail) \<Rightarrow>
      if body_of ms = [] \<or> take start (body_of ms) = [] then (Inr ms, c)
      else case generate_summary llm (take HEAD_PROTECT_MSGS (non_system_of ms) @ take start (body_of ms)) model c of
        (Inl e, c') \<Rightarrow> (Inl e, c')
      | (Inr summary, c') \<Rightarrow>
          (Inr (sanitize_tool_pairs (filter is_system ms @ [summary_message summary] @ tail)), c'))"

definition compress :: "nat \<Rightarrow> llm \<Rightarrow> int \<Rightarrow> dict list \<Rightarrow> pystr \<Rightarrow> compressor \<Rightarrow> dict list \<times> compressor" where
  "compress limit llm now ms model c =
     (if now - last_failure c < FAILURE_COOLDOWN then (ms, c)
      else if length ms < 6 then (ms, c)
      else case compress_impl limit llm ms model c of
        (Inr out, c') \<Rightarrow> (out, c')
      | (Inl e, c') \<Rightarrow> (ms, c'\<lparr>last_failure := now\<rparr>))"

subsection \<open>The context runtime around it\<close>

text \<open>\<open>c = None\<close> when no model is wired; the lifecycle hooks are those of \<open>Hooks\<close>, given the data of the point.\<close>

definition compact_ctx :: "pystr \<Rightarrow> pystr \<Rightarrow> nat \<Rightarrow> dict" where
  "compact_ctx session model n =
     [(''session_id'', JStr session), (''model'', JStr model), (''message_count'', JNum (int n))]"

text \<open>The result, the compressor, and the data the \<open>POST_COMPACT\<close> hooks are run with.\<close>

definition total_chars :: "dict list \<Rightarrow> nat" where
  "total_chars ms = sum_list (map (\<lambda>m. length (content_str ''content'' m)) ms)"

definition run_compressor :: "nat \<Rightarrow> nat \<Rightarrow> llm \<Rightarrow> int \<Rightarrow> dict list \<Rightarrow> pystr \<Rightarrow> compressor option \<Rightarrow> dict list \<times> compressor option" where
  "run_compressor limit threshold llm now ms model copt =
     (case copt of None \<Rightarrow> (ms, None)
      | Some c \<Rightarrow> (if threshold > 0 \<and> total_chars ms < threshold then (ms, copt)
                 else case compress limit llm now ms model c of (out, c') \<Rightarrow> (out, Some c')))"

definition compress_messages ::
  "dict hook_runtime option \<Rightarrow> nat \<Rightarrow> nat \<Rightarrow> llm \<Rightarrow> int \<Rightarrow> dict list \<Rightarrow> pystr \<Rightarrow> pystr \<Rightarrow> compressor option \<Rightarrow>
     dict list \<times> compressor option \<times> dict list" where
  "compress_messages hooks limit threshold llm now ms model session copt =
     (case hooks of
        None \<Rightarrow> (case run_compressor limit threshold llm now ms model copt of (out, c') \<Rightarrow> (out, c', []))
      | Some h \<Rightarrow>
          (if ho_action (run_with_outcome h PRE_COMPACT ''*'' (compact_ctx session model (length ms))) = ''block''
           then (ms, copt, [compact_ctx session model (length ms) @ [(''blocked'', JBool True)]])
           else case run_compressor limit threshold llm now ms model copt of
             (out, c') \<Rightarrow> (out, c', [compact_ctx session model (length out)])))"

text \<open>The replacement a thread gets, with the audit numbers handed to the history.\<close>

record compaction_result =
  messages_before :: nat
  messages_after :: nat
  tokens_saved :: nat
  replacement_messages :: "dict list"

definition compact_thread ::
  "dict hook_runtime option \<Rightarrow> nat \<Rightarrow> nat \<Rightarrow> llm \<Rightarrow> int \<Rightarrow> dict list \<Rightarrow> pystr \<Rightarrow> compressor option \<Rightarrow>
     compaction_result \<times> compressor option" where
  "compact_thread hooks limit threshold llm now ms model copt =
     (case compress_messages hooks limit threshold llm now ms model '''' copt of (out, c', _) \<Rightarrow>
        (\<lparr>messages_before = length ms, messages_after = length out,
          tokens_saved = nat (max 0 (int (estimate_tokens ms) - int (estimate_tokens out))),
          replacement_messages = out\<rparr>, c'))"


subsection \<open>What a compression returns\<close>

text \<open>The keys of a message: those of its calls that are set.\<close>

definition call_keys :: "dict \<Rightarrow> json list" where
  "call_keys m = (if has_calls m then filter truthy (batch_ids m) else [])"

lemma call_keys_simps: "has_calls m \<Longrightarrow> call_keys m = filter truthy (batch_ids m)" "\<not> has_calls m \<Longrightarrow> call_keys m = []"
  by (simp_all add: call_keys_def)

lemma stub_result_simps: "is_tool (stub_result i)" "tool_id (stub_result i) = i"
  by (simp_all add: stub_result_def role_is_def tool_id_def)

interpretation pairs: pair_repair is_tool tool_id call_keys "\<lambda>_. stub_result"
  by unfold_locales (auto simp: stub_result_simps call_keys_simps)

lemma truthy_tool_id: "truthy (result_id m) \<Longrightarrow> tool_id m = result_id m"
  by (auto simp: tool_id_def result_id_def dget_or_def split: option.splits)

lemma tool_id_truthy: "truthy (tool_id m) \<Longrightarrow> result_id m = tool_id m"
  by (auto simp: tool_id_def result_id_def dget_or_def split: option.splits)

lemma called_ids_calls: "called_ids ms = pairs.calls ms"
  by (auto simp: called_ids_def pairs.calls_def call_keys_def split: if_splits)

lemma result_ids_results: "truthy k \<Longrightarrow> k \<in> result_ids ms \<longleftrightarrow> k \<in> pairs.results ms"
proof -
  assume k: "truthy k"
  have "truthy (result_id m) \<and> result_id m = k \<longleftrightarrow> tool_id m = k" for m
    using k truthy_tool_id[of m] tool_id_truthy[of m] by metis
  then have "(\<exists>m \<in> set ms. is_tool m \<and> truthy (result_id m) \<and> result_id m = k) \<longleftrightarrow> (\<exists>m \<in> set ms. is_tool m \<and> tool_id m = k)"
    by blast
  then show ?thesis by (simp add: result_ids_def pairs.results_def image_iff Bex_def eq_commute[of k] conj_ac)
qed

lemma sanitize_repair: "sanitize_tool_pairs ms = pairs.repair ms"
proof -
  have "sanitize_with (result_ids ms) C xs = pairs.repair_with (pairs.results ms) C xs" for C xs
  proof (induction xs)
    case (Cons m xs)
    have "filter (\<lambda>i. truthy i \<and> i \<notin> result_ids ms) (batch_ids m) = filter (\<lambda>i. i \<notin> pairs.results ms) (filter truthy (batch_ids m))"
      using result_ids_results[of _ ms] by (auto simp: filter_filter intro!: filter_cong)
    with Cons show ?case by (cases "is_tool m"; cases "has_calls m") (simp_all add: call_keys_simps)
  qed simp
  then show ?thesis by (simp add: sanitize_tool_pairs_def pairs.repair_def called_ids_calls)
qed

text \<open>Tool pairs after a compression: the results that are left are those of the calls that are left, one or more
  for each (a stub where the result is gone), messages that are not tool results are all kept in order, and a
  second pass changes nothing.\<close>

theorem sanitize_pairs:
  "tool_id ` {t \<in> set (sanitize_tool_pairs ms). is_tool t} = called_ids (sanitize_tool_pairs ms)
   \<and> filter (\<lambda>m. \<not> is_tool m) (sanitize_tool_pairs ms) = filter (\<lambda>m. \<not> is_tool m) ms
   \<and> sanitize_tool_pairs (sanitize_tool_pairs ms) = sanitize_tool_pairs ms"
  unfolding sanitize_repair called_ids_calls
  using pairs.repair_pairs[of ms] by (simp add: pairs.results_def)

lemma prune_old_shape:
  "length (prune_old b u ms) = length ms \<and> (\<forall>i < length ms. prune_old b u ms ! i = ms ! i \<or>
     is_tool (ms ! i) \<and> prune_old b u ms ! i = pruned_result (ms ! i))"
proof (induction ms arbitrary: u)
  case (Cons m ms)
  show ?case
  proof (intro conjI allI impI)
    fix i assume "i < length (m # ms)"
    then show "prune_old b u (m # ms) ! i = (m # ms) ! i \<or>
        is_tool ((m # ms) ! i) \<and> prune_old b u (m # ms) ! i = pruned_result ((m # ms) ! i)"
      using Cons by (cases i) (simp_all add: Let_def)
  qed (simp add: Cons Let_def)
qed simp

lemma length_non_system: "length (non_system_of ms) = length (filter (\<lambda>m. \<not> is_system m) ms)"
  using prune_old_shape by (simp add: non_system_of_def prune_old_tool_results_def)

lemma tail_cutE:
  assumes "tail_cut limit ms = (start, tail)" "take start (body_of ms) \<noteq> []"
  shows "tail = drop (HEAD_PROTECT_MSGS + start) (non_system_of ms) \<and> 0 < start
    \<and> HEAD_PROTECT_MSGS + start + 3 \<le> length (non_system_of ms)"
proof -
  have "start \<le> length (body_of ms) - 3" "tail = drop start (body_of ms)" "0 < start"
    using assms by (auto simp: tail_cut_def find_tail_cut_def Let_def)
  then show ?thesis by (simp add: body_of_def add.commute)
qed

text \<open>C23. What a compression returns: either the messages as they were, or the system messages, the summary and a
  suffix of the other messages of at least three messages, with its tool pairs repaired; at least one message
  beyond the first four is then summarised.\<close>

theorem compress_shape:
  assumes "compress limit llm now ms model c = (out, c')"
  shows "out = ms \<or> (\<exists>summary k. HEAD_PROTECT_MSGS < k \<and> k + 3 \<le> length (filter (\<lambda>m. \<not> is_system m) ms)
      \<and> previous_summary c' = summary
      \<and> out = sanitize_tool_pairs (filter is_system ms @ [summary_message summary] @ drop k (non_system_of ms)))"
proof (cases "out = ms")
  case False
  obtain start tail where t: "tail_cut limit ms = (start, tail)" by fastforce
  with False assms obtain s where s: "fst (generate_summary llm (take HEAD_PROTECT_MSGS (non_system_of ms) @ take start (body_of ms)) model c) = Inr s"
      "c' = snd (generate_summary llm (take HEAD_PROTECT_MSGS (non_system_of ms) @ take start (body_of ms)) model c)"
      "take start (body_of ms) \<noteq> []"
      "out = sanitize_tool_pairs (filter is_system ms @ [summary_message s] @ tail)"
    by (simp add: compress_def compress_impl_def split: if_splits prod.splits sum.splits)
  have "previous_summary c' = s" using s(1,2) by (auto simp: generate_summary_def split: sum.splits)
  with tail_cutE[OF t s(3)] length_non_system[of ms] s(4) show ?thesis
    by (intro disjI2 exI[of _ s] exI[of _ "HEAD_PROTECT_MSGS + start"]) auto
qed simp

text \<open>When the model fails, the messages come back as they were and the summary kept for the next compression
  is not changed; a failed call starts ten minutes in which the compressor returns every list unchanged, whatever
  the model would answer.\<close>

theorem compress_failure:
  assumes "\<forall>p m. \<exists>e. llm p m = Inl e" "compress limit llm now ms model c = (out, c')"
  shows "out = ms \<and> previous_summary c' = previous_summary c
    \<and> (c' = c \<or> (\<forall>llm' ms' model' now'. now' < now + FAILURE_COOLDOWN \<longrightarrow> compress limit llm' now' ms' model' c' = (ms', c')))"
proof -
  have g: "generate_summary llm xs model c = (Inl (projl (llm (summary_prompt c xs) model)), c)" for xs
    using assms(1)[rule_format, of "summary_prompt c xs" model] by (auto simp: generate_summary_def)
  from assms(2) have "out = ms \<and> (c' = c \<or> c' = c\<lparr>last_failure := now\<rparr>)"
    by (auto simp: compress_def compress_impl_def g split: if_splits prod.splits)
  moreover have "compress limit llm' now' ms' model' (c\<lparr>last_failure := now\<rparr>) = (ms', c\<lparr>last_failure := now\<rparr>)"
    if "now' < now + FAILURE_COOLDOWN" for llm' ms' model' now'
    using that by (simp add: compress_def)
  ultimately show ?thesis by auto
qed

definition long_message :: pystr where
  "long_message = replicate 5000 (CHR ''x'')"

definition demo_history :: "dict list" where
  "demo_history = demo_msg ''system'' ''s'' # map (demo_msg ''user'') [''1'', ''2'', ''3'', ''4'', ''5'']
     @ [demo_msg ''user'' long_message, demo_call [''a''], demo_result ''a'']"

theorem compress_failure_witness:
  "fst (compress 0 (\<lambda>_ _. Inl (RuntimeError ''down'')) 1000 demo_history ''gpt-4'' new_compressor) = demo_history"
  using compress_failure[of "\<lambda>_ _. Inl (RuntimeError ''down'')" 0 1000 demo_history "''gpt-4''" new_compressor]
  by (metis prod.collapse)

lemma demo_tokens: "msg_tokens (demo_msg r [x]) = 0" "msg_tokens (demo_msg r long_message) = 2000"
    "msg_chars (demo_msg r [x]) = 1" "msg_chars (demo_msg r long_message) = 5000"
  by (simp_all add: msg_tokens_def chars_to_tokens_def msg_chars_def demo_msg_def long_message_def jor_def)

lemma demo_roles: "role_is r (demo_msg r' s) \<longleftrightarrow> r = r'" "role_is r (demo_call is) \<longleftrightarrow> r = ''assistant''"
    "role_is r (demo_result i) \<longleftrightarrow> r = ''tool''" "\<not> has_calls (demo_msg r' s)"
  by (auto simp: demo_msg_def demo_call_def demo_result_def role_is_def has_calls_def)

lemma demo_call_tokens: "msg_tokens (demo_call [''a'']) = 5" "msg_chars (demo_call [''a'']) = 13"
    "msg_tokens (demo_result ''a'') = 0" "msg_chars (demo_result ''a'') = 2"
  by code_simp+

lemma demo_non_system: "non_system_of demo_history = map (demo_msg ''user'') [''1'', ''2'', ''3'', ''4'', ''5'']
     @ [demo_msg ''user'' long_message, demo_call [''a''], demo_result ''a'']"
  by (simp add: non_system_of_def demo_history_def demo_roles prune_old_tool_results_def Let_def demo_tokens demo_call_tokens)

lemma tail_walk_4: "tail_walk ms b 4 t s = tail_walk ms b (Suc (Suc (Suc (Suc 0)))) t s"
  by (simp add: eval_nat_numeral)

lemma demo_cut: "tail_cut 0 demo_history = (1, [demo_msg ''user'' long_message, demo_call [''a''], demo_result ''a''])"
  by (simp add: tail_cut_def body_of_def demo_non_system HEAD_PROTECT_MSGS_def tail_token_budget_def demo_tokens
      demo_call_tokens chars_to_tokens_def MIN_SUMMARY_TOKENS_def SUMMARY_TOKENS_CEILING_def find_tail_cut_def
      tail_walk_4 Let_def align_boundary_backward_def demo_roles)

theorem compress_shape_witness:
  "\<exists>out c' k. compress 0 (\<lambda>_ _. Inr ''done'') 1000 demo_history ''gpt-4'' new_compressor = (out, c')
     \<and> 4 < k \<and> out = sanitize_tool_pairs (filter is_system demo_history @ [summary_message ''done''] @ drop k (non_system_of demo_history))"
proof -
  obtain out c' where e: "compress 0 (\<lambda>_ _. Inr ''done'') 1000 demo_history ''gpt-4'' new_compressor = (out, c')" by fastforce
  have "strip_fences ''done'' = ''done''" by code_simp
  moreover have "length demo_history = 9" "filter is_system demo_history = [demo_msg ''system'' ''s'']"
    by (simp_all add: demo_history_def demo_roles)
  moreover have "\<not> is_tool (summary_message x)" "\<not> has_calls (summary_message x)" for x
    by (simp_all add: summary_message_def role_is_def has_calls_def)
  ultimately have s: "previous_summary c' = ''done''" "hd (tl out) = summary_message ''done''"
    using e by (auto simp: compress_def compress_impl_def demo_cut body_of_def demo_non_system HEAD_PROTECT_MSGS_def
        generate_summary_def new_compressor_def FAILURE_COOLDOWN_def demo_roles sanitize_tool_pairs_def)
  have "hd (tl demo_history) \<noteq> summary_message ''done''"
    by (simp add: demo_history_def demo_msg_def summary_message_def)
  with s(2) have "out \<noteq> demo_history" by auto
  with compress_shape[OF e] s(1) e show ?thesis by (auto simp: HEAD_PROTECT_MSGS_def)
qed


subsection \<open>What the compressor gets wrong\<close>

text \<open>The alignment that is to keep groups together: started at the result of the second call, it passes the call that
  owns it and ends at the result of the first call, whose own call is then on the other side of the cut.\<close>

theorem alignment_splits_group:
  "align_boundary_backward [demo_msg ''user'' ''q'', demo_call [''a''], demo_result ''a'', demo_call [''b''], demo_result ''b''] 4 = 2
   \<and> sanitize_tool_pairs (drop 2 [demo_msg ''user'' ''q'', demo_call [''a''], demo_result ''a'', demo_call [''b''], demo_result ''b''])
       = [demo_call [''b''], demo_result ''b'']"
  by code_simp

text \<open>The summary kept for the next compression belongs to no thread: after the compression of one thread, the prompt for
  another thread asks the model to merge the first thread's summary into it.\<close>

theorem summary_crosses_threads:
  "summary_prompt (snd (generate_summary (\<lambda>_ _. Inr ''secret of thread A'') [] ''m'' new_compressor)) [demo_msg ''user'' ''B'']
   = update_summary_prompt ''secret of thread A'' (serialize_for_summary [demo_msg ''user'' ''B''])"
proof -
  have "strip_fences ''secret of thread A'' = ''secret of thread A''" by code_simp
  then show ?thesis by (simp add: generate_summary_def summary_prompt_def)
qed

end
