(* ===== verification/KunModel.thy ===== *)
theory KunModel
  imports ContextRuntime ToolBase
begin

text \<open>
  The model client of the KUN runtime (\<open>kun_runtime/model_client.py\<close>) and its token estimates
  (\<open>kun_runtime/context_estimator.py\<close>): from the items of a thread to the messages of a provider, the guard before
  the call, and the chunks the loop reads.  \<open>provider.chat\<close> is an argument that answers or raises.
\<close>

subsection \<open>Estimates\<close>

text \<open>\<open>int(len(text) / 2.5)\<close>, at least 1 for a text that is not empty.\<close>

definition text_tokens :: "pystr \<Rightarrow> nat" where
  "text_tokens s = (if s = '''' then 0 else max 1 (2 * length s div 5))"

definition str_at :: "dict \<Rightarrow> pystr \<Rightarrow> pystr" where
  "str_at item key = py_str (dget_or item key (JStr ''''))"

definition kind_of :: "dict \<Rightarrow> json" where
  "kind_of item = dget_or item ''kind'' (JStr '''')"

definition item_tokens :: "dict \<Rightarrow> nat" where
  "item_tokens item = max 1
     (if kind_of item \<in> {JStr ''user_message'', JStr ''assistant_text'', JStr ''assistant_reasoning''}
      then text_tokens (str_at item ''text'')
      else if kind_of item = JStr ''tool_call''
      then text_tokens (str_at item ''summary'') + text_tokens (json_dumps (dget_or item ''arguments'' (JDict [])))
      else if kind_of item = JStr ''tool_result'' then text_tokens (str_at item ''output'')
      else if kind_of item = JStr ''compaction'' then text_tokens (str_at item ''summary'')
      else if kind_of item = JStr ''error'' then text_tokens (str_at item ''message'')
      else 0)"

definition items_tokens :: "dict list \<Rightarrow> nat" where
  "items_tokens items = sum_list (map item_tokens items)"

definition request_input_tokens :: "pystr \<Rightarrow> pystr list \<Rightarrow> dict list \<Rightarrow> dict list \<Rightarrow> nat" where
  "request_input_tokens system_prompt instructions history tools = max 1
     (text_tokens system_prompt + sum_list (map text_tokens instructions) + items_tokens history
      + sum_list (map (\<lambda>t. text_tokens (str_at t ''description'')) tools))"

text \<open>The table of this module is the one of the context runtime without \<open>deepseek-v4-flash\<close>.\<close>

definition KUN_MODEL_MAX_INPUT_TOKENS :: "(pystr \<times> nat) list" where
  "KUN_MODEL_MAX_INPUT_TOKENS = filter (\<lambda>(k, _). k \<noteq> ''deepseek-v4-flash'') MODEL_MAX_INPUT_TOKENS"

definition model_max_input_tokens :: "pystr \<Rightarrow> nat" where
  "model_max_input_tokens model = max_input_of KUN_MODEL_MAX_INPUT_TOKENS model"

definition safe_context_limit :: "pystr \<Rightarrow> nat" where
  "safe_context_limit model = 4 * model_max_input_tokens model div 5"

lemma item_tokens_pos: "1 \<le> item_tokens item"
  by (simp add: item_tokens_def)

lemma items_tokens_append [simp]: "items_tokens (a @ b) = items_tokens a + items_tokens b"
  by (simp add: items_tokens_def)

lemma items_tokens_length: "length items \<le> items_tokens items"
proof (induction items)
  case (Cons x xs)
  then show ?case using item_tokens_pos[of x] by (simp add: items_tokens_def)
qed simp

subsection \<open>From items to messages\<close>

record tool_spec =
  ts_name :: pystr
  ts_description :: pystr
  ts_input_schema :: json
  ts_tool_kind :: "pystr option"

record model_request =
  mr_thread :: pystr
  mr_turn :: pystr
  mr_model :: pystr
  mr_system_prompt :: pystr
  mr_mode_instruction :: pystr
  mr_instructions :: "pystr list"
  mr_history :: "dict list"
  mr_tools :: "tool_spec list"
  mr_max_tokens :: nat

definition text_message :: "pystr \<Rightarrow> json \<Rightarrow> dict" where
  "text_message r content = [(''role'', JStr r), (''content'', content)]"

definition item_to_message :: "dict \<Rightarrow> dict option" where
  "item_to_message item =
     (let text = dget_or item ''text'' (JStr '''') in
      if kind_of item = JStr ''user_message'' then Some (text_message ''user'' text)
      else if kind_of item = JStr ''assistant_text'' then Some (text_message ''assistant'' text)
      else if kind_of item = JStr ''assistant_reasoning''
      then Some (text_message ''assistant'' text @ [(''reasoning_content'', text)])
      else if kind_of item = JStr ''tool_call'' then
        Some (text_message ''assistant'' (jor (dget_null item ''summary'') JNull) @
          [(''tool_calls'', JList [JDict
             [(''id'', dget_or item ''callId'' (JStr '''')),
              (''type'', JStr ''function''),
              (''function'', JDict [(''name'', dget_or item ''toolName'' (JStr '''')),
                 (''arguments'', dget_or item ''arguments'' (JDict []))])]])])
      else if kind_of item = JStr ''tool_result'' then
        Some [(''role'', JStr ''tool''), (''tool_call_id'', dget_or item ''callId'' (JStr '''')),
          (''name'', dget_or item ''toolName'' (JStr '''')), (''content'', dget_or item ''output'' (JStr ''''))]
      else if kind_of item = JStr ''error'' then
        Some (text_message ''system'' (JStr (''Error: '' @ str_at item ''message'')))
      else if kind_of item = JStr ''compaction'' then
        Some (text_message ''system'' (dget_or item ''summary'' (JStr '''')))
      else None)"

definition history_messages :: "dict list \<Rightarrow> dict list" where
  "history_messages items = concat (map (\<lambda>i. case item_to_message i of None \<Rightarrow> [] | Some m \<Rightarrow> [m]) items)"

definition system_parts :: "model_request \<Rightarrow> pystr list" where
  "system_parts req = filter (\<lambda>s. s \<noteq> '''') [mr_system_prompt req, mr_mode_instruction req] @ mr_instructions req"

definition build_messages :: "model_request \<Rightarrow> dict list" where
  "build_messages req =
     (if system_parts req = [] then []
      else [text_message ''system'' (JStr (py_join [CHR 0x0A, CHR 0x0A] (system_parts req)))])
     @ history_messages (mr_history req)"

definition build_tools :: "tool_spec list \<Rightarrow> dict list" where
  "build_tools specs = map (\<lambda>s. [(''type'', JStr ''function''),
     (''function'', JDict [(''name'', JStr (ts_name s)), (''description'', JStr (ts_description s)),
        (''parameters'', ts_input_schema s)])]) specs"

subsection \<open>The guard before the call\<close>

definition messages_tokens :: "dict list \<Rightarrow> nat" where
  "messages_tokens ms = text_tokens (py_str (JList (map JDict ms)))"

definition guard_head :: "dict list \<Rightarrow> nat" where
  "guard_head ms = (if ms \<noteq> [] \<and> is_system (hd ms) then 1 else 0)"

definition remove_at :: "nat \<Rightarrow> 'a list \<Rightarrow> 'a list" where
  "remove_at i xs = take i xs @ drop (Suc i) xs"

definition guard_victim :: "nat \<Rightarrow> dict list \<Rightarrow> nat option" where
  "guard_victim hp ms = List.find (\<lambda>i. is_assistant (ms ! i) \<or> is_tool (ms ! i)) [hp..<length ms - 1]"

lemma guard_victim_range: "guard_victim hp ms = Some i \<Longrightarrow> hp \<le> i \<and> i < length ms"
  by (auto simp: guard_victim_def find_Some_iff nth_append)

function guard_loop :: "nat \<Rightarrow> nat \<Rightarrow> dict list \<Rightarrow> dict list" where
  "guard_loop limit hp ms =
     (if hp + 1 < length ms \<and> limit < messages_tokens ms then
        (case guard_victim (guard_head ms) ms of
           None \<Rightarrow> ms
         | Some i \<Rightarrow> guard_loop limit (guard_head ms) (remove_at i ms))
      else ms)"
  by pat_completeness auto
termination
  by (relation "measure (\<lambda>(_, _, ms). length ms)") (auto dest!: guard_victim_range simp: remove_at_def)

declare guard_loop.simps [simp del]

definition sent_messages :: "pystr \<Rightarrow> model_request \<Rightarrow> dict list" where
  "sent_messages default_model req =
     (let ms = build_messages req;
          model = (if mr_model req \<noteq> '''' then mr_model req else default_model);
          limit = safe_context_limit model
      in prune_unpaired (if limit < messages_tokens ms then guard_loop limit (guard_head ms) ms else ms))"

subsection \<open>The chunks of a response\<close>

record wanted_call =
  wc_id :: pystr
  wc_name :: pystr
  wc_arguments :: dict
  wc_truncated :: bool

record chat_response =
  cr_content :: pystr
  cr_reasoning :: pystr
  cr_calls :: "wanted_call list"
  cr_usage :: dict
  cr_finish_reason :: pystr

datatype chunk =
    TextDelta pystr
  | ReasoningDelta pystr
  | ToolCallComplete pystr pystr dict
  | UsageChunk dict
  | Completed pystr
  | ErrorChunk pystr pystr

record chat_call =
  cc_messages :: "dict list"
  cc_tools :: "dict list option"
  cc_model :: pystr
  cc_max_tokens :: nat

type_synonym provider = "chat_call \<Rightarrow> chat_response result"

definition chat_call_of :: "pystr \<Rightarrow> model_request \<Rightarrow> chat_call" where
  "chat_call_of default_model req =
     \<lparr>cc_messages = sent_messages default_model req,
      cc_tools = (if mr_tools req = [] then None else Some (build_tools (mr_tools req))),
      cc_model = (if mr_model req \<noteq> '''' then mr_model req else default_model),
      cc_max_tokens = (if mr_max_tokens req \<noteq> 0 then mr_max_tokens req else 8192)\<rparr>"

definition usage_chunk :: "dict \<Rightarrow> dict" where
  "usage_chunk u = [(''promptTokens'', dget_or u ''prompt_tokens'' (JNum 0)),
     (''completionTokens'', dget_or u ''completion_tokens'' (JNum 0)),
     (''totalTokens'', dget_or u ''total_tokens'' (JNum 0))]"

definition response_chunks :: "chat_response result \<Rightarrow> chunk list" where
  "response_chunks resp =
     (case resp of
        Inl e \<Rightarrow> [ErrorChunk (exc_text e) ''provider_error'']
      | Inr r \<Rightarrow>
          if cr_finish_reason r = ''error''
          then [ErrorChunk (if cr_content r \<noteq> '''' then cr_content r else ''Provider returned an error'') ''api_error'']
          else (if cr_reasoning r \<noteq> '''' then [ReasoningDelta (cr_reasoning r)] else [])
            @ (if cr_content r \<noteq> '''' then [TextDelta (cr_content r)] else [])
            @ map (\<lambda>c. ToolCallComplete (wc_id c) (wc_name c) (wc_arguments c)) (cr_calls r)
            @ (if cr_usage r \<noteq> [] then [UsageChunk (usage_chunk (cr_usage r))] else [])
            @ [Completed (if cr_calls r \<noteq> [] then ''tool_calls'' else ''stop'')])"

definition model_stream :: "provider \<Rightarrow> pystr \<Rightarrow> model_request \<Rightarrow> chunk list" where
  "model_stream provider default_model req = response_chunks (provider (chat_call_of default_model req))"


subsection \<open>What a provider gets\<close>






definition demo_item :: "pystr \<Rightarrow> (pystr \<times> json) list \<Rightarrow> dict" where
  "demo_item k fields' = (''kind'', JStr k) # fields'"


text \<open>Each call item becomes a message of its own, and the loop writes the text of the step after its calls and before
  their results.  So a step that says something and calls a tool has no complete group: its calls and results are
  all removed, and the model never sees what its tools returned.  Of two calls in a step only the last keeps its result.\<close>

definition demo_step :: "pystr list \<Rightarrow> pystr list \<Rightarrow> dict list" where
  "demo_step texts ids =
     map (\<lambda>i. demo_item ''tool_call'' [(''callId'', JStr i), (''toolName'', JStr ''ls'')]) ids
     @ map (\<lambda>t. demo_item ''assistant_text'' [(''text'', JStr t)]) texts
     @ map (\<lambda>i. demo_item ''tool_result'' [(''callId'', JStr i), (''toolName'', JStr ''ls''), (''output'', JStr ''a.txt'')]) ids"

theorem tool_round_is_lost:
  "filter is_tool (prune_unpaired (history_messages (demo_step [''let me look''] [''c1'']))) = []
   \<and> filter is_tool (prune_unpaired (history_messages (demo_step [] [''c1'', ''c2''])))
       = history_messages [demo_item ''tool_result'' [(''callId'', JStr ''c2''), (''toolName'', JStr ''ls''), (''output'', JStr ''a.txt'')]]
   \<and> length (filter is_tool (prune_unpaired (history_messages (demo_step [] [''c1''])))) = 1"
  by code_simp

text \<open>A call that the provider marks as cut off by the token limit is passed on like a complete one.\<close>

theorem truncated_call_is_forwarded:
  "response_chunks (Inr \<lparr>cr_content = '''', cr_reasoning = '''', cr_calls = [c\<lparr>wc_truncated := True\<rparr>], cr_usage = [], cr_finish_reason = ''length''\<rparr>)
   = response_chunks (Inr \<lparr>cr_content = '''', cr_reasoning = '''', cr_calls = [c\<lparr>wc_truncated := False\<rparr>], cr_usage = [], cr_finish_reason = ''length''\<rparr>)"
  by (simp add: response_chunks_def)

end
