(* ===== verification/KunHistory.thy ===== *)
theory KunHistory
  imports KunModel PairRepair
begin

text \<open>
  The history of a KUN thread (\<open>kun_runtime/compactor.py\<close>, \<open>history_repair.py\<close>): when and how a long list of
  items is folded into a summary, and how a loaded list is repaired.  The clock gives \<open>now\<close> and \<open>ts\<close>.
\<close>

subsection \<open>When to compact\<close>

record compactor =
  soft_threshold :: nat
  hard_threshold :: nat

definition new_compactor :: compactor where
  "new_compactor = \<lparr>soft_threshold = 60000, hard_threshold = 128000\<rparr>"

record compaction_plan =
  cp_mode :: pystr
  cp_keep :: int
  cp_reason :: pystr

text \<open>The middle threshold is \<open>soft + (hard - soft) * 0.6\<close>.\<close>

definition plan_compaction :: "compactor \<Rightarrow> dict list \<Rightarrow> nat option \<Rightarrow> compaction_plan option" where
  "plan_compaction c items prompt_tokens =
     (let tokens = max (items_tokens items) (case prompt_tokens of None \<Rightarrow> 0 | Some n \<Rightarrow> n);
          soft = int (soft_threshold c); hard = int (hard_threshold c);
          (mode, keep) = (if int tokens \<ge> hard then (''force'', 1)
                          else if 5 * int tokens \<ge> 5 * soft + 3 * (hard - soft) then (''aggressive'', 2)
                          else (''normal'', 4))
      in if int tokens < soft then None
         else Some \<lparr>cp_mode = mode, cp_keep = keep,
           cp_reason = ''estimated '' @ nat_str tokens @ '' tokens reached '' @ mode @ '' compaction threshold''\<rparr>)"

definition should_compact :: "compactor \<Rightarrow> dict list \<Rightarrow> bool" where
  "should_compact c items \<longleftrightarrow> plan_compaction c items None \<noteq> None"

subsection \<open>The summary\<close>

definition clip :: "nat \<Rightarrow> pystr \<Rightarrow> pystr" where
  "clip max_chars text =
     (let compacted = py_join '' '' (py_words text)
      in if length compacted \<le> max_chars then compacted else py_strip (take (max_chars - 3) compacted) @ ''...'')"

text \<open>\<open>_clip\<close> of a value that is no string raises at \<open>split\<close>.\<close>

definition clip_value :: "nat \<Rightarrow> json \<Rightarrow> pystr result" where
  "clip_value n v = (case v of JStr s \<Rightarrow> Inr (clip n s) | _ \<Rightarrow> Inl (AttributeError ''split''))"

definition map_text :: "(pystr \<Rightarrow> pystr) \<Rightarrow> pystr result \<Rightarrow> pystr result" where
  "map_text f r = bind_result r (\<lambda>s. Inr (f s))"

definition summarize_item :: "dict \<Rightarrow> pystr result" where
  "summarize_item item =
     (let at = (\<lambda>key. dget_or item key (JStr '''')) in
      if kind_of item = JStr ''user_message'' then map_text (\<lambda>s. ''- User: '' @ s) (clip_value 360 (at ''text''))
      else if kind_of item = JStr ''assistant_text'' then map_text (\<lambda>s. ''- Assistant: '' @ s) (clip_value 360 (at ''text''))
      else if kind_of item = JStr ''assistant_reasoning'' then Inr ''''
      else if kind_of item = JStr ''tool_call'' then
        map_text (\<lambda>s. ''- Tool call '' @ py_str (at ''toolName'') @ '': '' @ s)
          (clip_value 360 (jor (at ''summary'') (JStr (py_str (at ''arguments'')))))
      else if kind_of item = JStr ''tool_result'' then
        map_text (\<lambda>s. ''- Tool result '' @ py_str (at ''toolName'') @
            (if truthy (dget_null item ''isError'') then '' error'' else '''') @ '': '' @ s)
          (clip_value 360 (JStr (py_str (at ''output''))))
      else if kind_of item = JStr ''compaction'' then
        map_text (\<lambda>s. ''- Earlier compaction: '' @ s) (clip_value 600 (at ''summary''))
      else if kind_of item = JStr ''error'' then map_text (\<lambda>s. ''- Error: '' @ s) (clip_value 360 (at ''message''))
      else Inr '''')"

fun summarize_items :: "dict list \<Rightarrow> pystr list result" where
  "summarize_items [] = Inr []"
| "summarize_items (item # items) =
     bind_result (summarize_item item) (\<lambda>line. bind_result (summarize_items items) (\<lambda>rest.
       Inr (if line = '''' then rest else line # rest)))"

definition summary_lines :: "dict list \<Rightarrow> dict list \<Rightarrow> pystr list \<Rightarrow> pystr \<Rightarrow> pystr \<Rightarrow> pystr list" where
  "summary_lines head tail pinned reason mode =
     (if reason \<noteq> '''' then [''Reason: '' @ reason] else [])
     @ (if mode \<noteq> '''' then [''Mode: '' @ mode] else [])
     @ [''Pinned constraints (preserved across compaction):'']
     @ map (\<lambda>p. ''- '' @ p) pinned
     @ ['''', ''Summarized '' @ nat_str (length head) @ '' item(s); '' @ nat_str (length tail) @ '' recent item(s) kept verbatim.'',
        ''Conversation summary:'']"

definition build_compaction_summary :: "dict list \<Rightarrow> dict list \<Rightarrow> pystr list \<Rightarrow> pystr \<Rightarrow> pystr \<Rightarrow> pystr result" where
  "build_compaction_summary head tail pinned reason mode =
     bind_result (summarize_items head) (\<lambda>ls. Inr (py_join [CHR 0x0A] (summary_lines head tail pinned reason mode @ ls)))"

subsection \<open>Compacting\<close>

definition trim_trailing_tool_calls :: "dict list \<Rightarrow> dict list" where
  "trim_trailing_tool_calls history = rev (dropWhile (\<lambda>i. dget i ''kind'' = Some (JStr ''tool_call'')) (rev history))"

definition compaction_item :: "pystr \<Rightarrow> pystr \<Rightarrow> pystr \<Rightarrow> pystr \<Rightarrow> pystr \<Rightarrow> nat \<Rightarrow> pystr list \<Rightarrow> dict" where
  "compaction_item sfx tid turn_id now summary replaced pinned =
     [(''id'', JStr (''compaction_'' @ turn_id @ ''_'' @ sfx)),
      (''turnId'', JStr turn_id), (''threadId'', JStr tid), (''role'', JStr ''system''),
      (''status'', JStr ''completed''), (''kind'', JStr ''compaction''), (''createdAt'', JStr now),
      (''summary'', JStr summary), (''replacedTokens'', JNum (int replaced)),
      (''pinnedConstraints'', JList (map JStr pinned))]"

definition source_ids :: "dict list \<Rightarrow> json" where
  "source_ids head = JList (filter truthy (map (\<lambda>i. dget_or i ''id'' (JStr '''')) head))"

record compaction_outcome =
  co_next :: "dict list"
  co_summary_item :: dict
  co_replaced :: nat

definition compact ::
  "pystr \<Rightarrow> pystr \<Rightarrow> pystr \<Rightarrow> pystr \<Rightarrow> dict list \<Rightarrow> pystr list \<Rightarrow> int \<Rightarrow> pystr \<Rightarrow> pystr \<Rightarrow> pystr option \<Rightarrow> compaction_outcome result" where
  "compact now ts tid turn_id history pinned keep_recent reason mode override =
     (let work = trim_trailing_tool_calls history;
          n = int (length work);
          keep = (if n > 1 then min keep_recent (n - 1) else n)
      in if n \<le> 1 \<or> n - keep \<le> 0 then
           Inr \<lparr>co_next = work,
                co_summary_item = compaction_item ''noop'' tid turn_id now ''no compaction needed'' 0 pinned,
                co_replaced = 0\<rparr>
         else let head = py_upto work (n - keep); tail = py_from work (- keep) in
           bind_result (case override of Some (c # s) \<Rightarrow> Inr (c # s)
                        | _ \<Rightarrow> build_compaction_summary head tail pinned reason mode) (\<lambda>summary.
           let item = compaction_item ts tid turn_id now summary (items_tokens head) pinned @ [(''sourceItemIds'', source_ids head)]
           in Inr \<lparr>co_next = item # tail, co_summary_item = item, co_replaced = items_tokens head\<rparr>))"

subsection \<open>Repairing a loaded history\<close>

definition call_id_of :: "dict \<Rightarrow> json" where
  "call_id_of item = dget_or item ''callId'' (JStr '''')"

definition kind_is :: "pystr \<Rightarrow> dict \<Rightarrow> bool" where
  "kind_is k item \<longleftrightarrow> dget item ''kind'' = Some (JStr k)"

definition healed_stub :: "dict \<Rightarrow> json \<Rightarrow> dict" where
  "healed_stub item cid =
     [(''kind'', JStr ''tool_result''), (''id'', JStr (''item_healed_'' @ py_str cid @ ''_stub'')),
      (''turnId'', dget_or item ''turnId'' (JStr '''')), (''threadId'', dget_or item ''threadId'' (JStr '''')),
      (''role'', JStr ''tool''), (''status'', JStr ''completed''), (''createdAt'', dget_or item ''createdAt'' (JStr '''')),
      (''toolName'', dget_or item ''toolName'' (JStr '''')), (''callId'', cid),
      (''toolKind'', dget_or item ''toolKind'' (JStr ''tool_call'')),
      (''output'', JStr ''[result not available - context was compressed]''), (''isError'', JBool False)]"

definition ids_of_kind :: "pystr \<Rightarrow> dict list \<Rightarrow> json set" where
  "ids_of_kind k items = set (filter truthy (map call_id_of (filter (kind_is k) items)))"

definition repair_item :: "json set \<Rightarrow> json set \<Rightarrow> dict \<Rightarrow> dict list" where
  "repair_item calls results item =
     (if kind_is ''tool_result'' item then (if call_id_of item \<in> calls then [item] else [])
      else item # (if kind_is ''tool_call'' item \<and> truthy (call_id_of item) \<and> call_id_of item \<notin> results
                   then [healed_stub item (call_id_of item)] else []))"

definition repair_model_history_items :: "dict list \<Rightarrow> dict list" where
  "repair_model_history_items items =
     concat (map (repair_item (ids_of_kind ''tool_call'' items) (ids_of_kind ''tool_result'' items)) items)"

text \<open>\<open>_normalize_loaded_item\<close> sets the identifier in the dictionary it is given: the first result is that
  dictionary afterwards, the second the item to keep.\<close>

definition normalize_loaded_item :: "nat \<Rightarrow> json \<Rightarrow> json \<times> dict option" where
  "normalize_loaded_item index v =
     (case v of
        JDict item \<Rightarrow>
          (let kind = py_str (kind_of item);
               item' = (if truthy (dget_null item ''id'') then item
                        else dset ''id'' (JStr (''item_healed_'' @ nat_str index @ ''_'' @ kind)) item)
           in if kind = '''' then (v, None)
              else if kind \<in> {''tool_call'', ''tool_result''}
                \<and> \<not> (truthy (dget_null item' ''callId'') \<and> truthy (dget_null item' ''toolName''))
              then (JDict item', None)
              else (JDict item', Some item'))
      | _ \<Rightarrow> (v, None))"

definition normalized :: "json list \<Rightarrow> (json \<times> dict option) list" where
  "normalized items = map (\<lambda>(i, v). normalize_loaded_item i v) (enumerate 0 items)"

definition heal_loaded_history_items :: "json list \<Rightarrow> dict list \<times> bool" where
  "heal_loaded_history_items items =
     (let rs = normalized items;
          repaired = repair_model_history_items (concat (map (\<lambda>(_, r). case r of None \<Rightarrow> [] | Some d \<Rightarrow> [d]) rs))
      in (repaired, json_dumps_sorted (JList (map fst rs)) \<noteq> json_dumps_sorted (JList (map JDict repaired))))"


subsection \<open>What a compaction keeps\<close>

lemma trim_trailing_split:
  "\<exists>ts. history = trim_trailing_tool_calls history @ ts \<and> (\<forall>i \<in> set ts. kind_is ''tool_call'' i)"
proof -
  let ?P = "\<lambda>i. dget i ''kind'' = Some (JStr ''tool_call'')"
  have "history = rev (dropWhile ?P (rev history)) @ rev (takeWhile ?P (rev history))"
    by (metis rev_append rev_rev_ident takeWhile_dropWhile_id)
  then show ?thesis
    by (intro exI[of _ "rev (takeWhile ?P (rev history))"])
      (auto simp: trim_trailing_tool_calls_def kind_is_def dest: set_takeWhileD)
qed

text \<open>A compaction keeps the newest items word for word: apart from calls without a result at the very end, the
  history is a head and a tail; the result is one summary item and the tail, which holds the number of items asked
  for (all but one of a shorter history); the summary item names what it replaces and counts its tokens, and
  nothing else is lost.  Otherwise there was at most one item and nothing is replaced.\<close>

theorem compact_keeps_tail:
  assumes "compact now ts tid turn_id history pinned keep reason mode override = Inr out" "1 \<le> keep"
  shows "\<exists>head tail calls. history = head @ tail @ calls \<and> (\<forall>i \<in> set calls. kind_is ''tool_call'' i)
    \<and> (if length (head @ tail) \<le> 1 then co_next out = head @ tail \<and> co_replaced out = 0
       else co_next out = co_summary_item out # tail \<and> int (length tail) = min keep (int (length (head @ tail)) - 1)
         \<and> kind_is ''compaction'' (co_summary_item out) \<and> co_replaced out = items_tokens head
         \<and> dget (co_summary_item out) ''sourceItemIds'' = Some (source_ids head))"
proof -
  let ?work = "trim_trailing_tool_calls history"
  obtain calls where c: "history = ?work @ calls" "\<forall>i \<in> set calls. kind_is ''tool_call'' i"
    using trim_trailing_split by blast
  show ?thesis
  proof (cases "length ?work \<le> 1")
    case True
    then have "co_next out = ?work \<and> co_replaced out = 0"
      using assms(1) by (auto simp: compact_def Let_def)
    with c True show ?thesis
      by - (rule exI[of _ ?work], rule exI[of _ "[]"], rule exI[of _ calls], simp)
  next
    case False
    define k where "k = nat (min keep (int (length ?work) - 1))"
    have k: "int k = min keep (int (length ?work) - 1)" "0 < k" "k < length ?work"
      using False assms(2) by (auto simp: k_def min_def)
    let ?head = "take (length ?work - k) ?work" and ?tail = "drop (length ?work - k) ?work"
    have ht: "py_upto ?work (int (length ?work) - int k) = ?head" "py_from ?work (- int k) = ?tail"
      using k(2,3) by (simp_all add: py_upto_def py_from_def flip: of_nat_diff)
    have keep: "(if int (length ?work) > 1 then min keep (int (length ?work) - 1) else int (length ?work)) = int k"
      "\<not> (int (length ?work) \<le> 1 \<or> int (length ?work) - int k \<le> 0)"
      using False k by auto
    from assms(1)[unfolded compact_def Let_def keep(1) if_not_P[OF keep(2)] ht] have "co_next out = co_summary_item out # ?tail \<and> kind_is ''compaction'' (co_summary_item out)
        \<and> co_replaced out = items_tokens ?head \<and> dget (co_summary_item out) ''sourceItemIds'' = Some (source_ids ?head)"
      by (auto simp: kind_is_def compaction_item_def)
    moreover have "int (length ?tail) = min keep (int (length (?head @ ?tail)) - 1)" using k by simp
    moreover have "history = ?head @ ?tail @ calls" using c(1) by (metis append_take_drop_id append_assoc)
    moreover have "\<not> length (?head @ ?tail) \<le> 1" using False by simp
    ultimately show ?thesis
      using c(2) by (metis (no_types, lifting))
  qed
qed

lemma case_sum_InrE: "(case x of Inr y \<Rightarrow> True | Inl z \<Rightarrow> False) \<Longrightarrow> \<exists>y. x = Inr y"
  by (cases x) auto

definition demo_user :: "pystr \<Rightarrow> dict" where
  "demo_user s = demo_item ''user_message'' [(''id'', JStr s), (''text'', JStr s)]"

theorem compact_keeps_tail_witness:
  "\<exists>out. compact ''now'' ''1'' ''th'' ''t'' (map demo_user [''a'', ''b'', ''c'']) [] 2 ''r'' ''force'' None = Inr out
     \<and> (\<exists>head tail calls. map demo_user [''a'', ''b'', ''c''] = head @ tail @ calls
          \<and> (length (head @ tail) \<le> 1 \<or> co_next out = co_summary_item out # tail))"
proof -
  have r: "case compact ''now'' ''1'' ''th'' ''t'' (map demo_user [''a'', ''b'', ''c'']) [] 2 ''r'' ''force'' None of Inr out \<Rightarrow> True | Inl _ \<Rightarrow> False"
    by code_simp
  obtain out where o: "compact ''now'' ''1'' ''th'' ''t'' (map demo_user [''a'', ''b'', ''c'']) [] 2 ''r'' ''force'' None = Inr out"
    using case_sum_InrE[OF r] by blast
  from compact_keeps_tail[OF o] obtain head tail calls where
      "map demo_user [''a'', ''b'', ''c''] = head @ tail @ calls"
      "length (head @ tail) \<le> 1 \<or> co_next out = co_summary_item out # tail"
    by (auto split: if_splits)
  with o show ?thesis by blast
qed

text \<open>With no item to keep, \<open>work[-0:]\<close> is the whole history: the summary is put in front of everything it
  summarises.\<close>

theorem keep_none_keeps_all:
  "(case compact ''now'' ''1'' ''th'' ''t'' (map demo_user [''a'', ''b'']) [] 0 ''r'' ''force'' None of
      Inr out \<Rightarrow> tl (co_next out) = map demo_user [''a'', ''b''] \<and> co_replaced out = 2 | Inl _ \<Rightarrow> False)"
  by code_simp

text \<open>The tail starts where the count says: a result can be kept whose call is in the summary.\<close>

theorem compaction_splits_pair:
  "(case compact ''now'' ''1'' ''th'' ''t'' (demo_user ''a'' # demo_step [] [''c1'']) [] 1 ''r'' ''force'' None of
      Inr out \<Rightarrow> prune_unpaired (history_messages (co_next out)) = history_messages [co_summary_item out] | Inl _ \<Rightarrow> False)"
  by code_simp

subsection \<open>Repaired histories\<close>

definition item_keys :: "dict \<Rightarrow> json list" where
  "item_keys item = (if kind_is ''tool_call'' item \<and> truthy (call_id_of item) then [call_id_of item] else [])"

lemma healed_stub_simps: "kind_is ''tool_result'' (healed_stub i k)" "call_id_of (healed_stub i k) = k"
  by (simp_all add: healed_stub_def kind_is_def call_id_of_def)

lemma item_keys_result: "kind_is ''tool_result'' i \<Longrightarrow> item_keys i = []"
  by (simp add: item_keys_def kind_is_def)

lemma item_keys_simps:
  "kind_is ''tool_call'' i \<Longrightarrow> truthy (call_id_of i) \<Longrightarrow> item_keys i = [call_id_of i]"
  "\<not> (kind_is ''tool_call'' i \<and> truthy (call_id_of i)) \<Longrightarrow> item_keys i = []"
  by (auto simp: item_keys_def)

interpretation items: pair_repair "kind_is ''tool_result''" call_id_of item_keys healed_stub
  by unfold_locales (auto simp: healed_stub_simps item_keys_result)

lemma ids_calls: "ids_of_kind ''tool_call'' xs = items.calls xs"
  by (auto simp: ids_of_kind_def items.calls_def item_keys_def split: if_splits)

lemma ids_results: "truthy k \<Longrightarrow> k \<in> ids_of_kind ''tool_result'' xs \<longleftrightarrow> k \<in> items.results xs"
  by (auto simp: ids_of_kind_def items.results_def)

lemma repair_items: "repair_model_history_items xs = items.repair xs"
proof -
  have "concat (map (repair_item C (ids_of_kind ''tool_result'' xs)) ys) = items.repair_with (items.results xs) C ys" for C ys
  proof (induction ys)
    case (Cons y ys)
    then show ?case
      by (cases "kind_is ''tool_result'' y"; cases "kind_is ''tool_call'' y \<and> truthy (call_id_of y)")
        (auto simp: repair_item_def[of _ _ y] item_keys_result item_keys_simps ids_results)
  qed simp
  then show ?thesis by (simp add: repair_model_history_items_def items.repair_def ids_calls)
qed

text \<open>A repaired history pairs calls and results: the results that are left belong to exactly the calls with an
  identifier, one or more for each; all other items stay in order; and a second repair changes nothing.\<close>

theorem repair_history_pairs:
  "call_id_of ` {i \<in> set (repair_model_history_items xs). kind_is ''tool_result'' i}
     = ids_of_kind ''tool_call'' (repair_model_history_items xs)
   \<and> filter (\<lambda>i. \<not> kind_is ''tool_result'' i) (repair_model_history_items xs) = filter (\<lambda>i. \<not> kind_is ''tool_result'' i) xs
   \<and> repair_model_history_items (repair_model_history_items xs) = repair_model_history_items xs"
  unfolding repair_items ids_calls using items.repair_pairs[of xs] by (simp add: items.results_def)

text \<open>Healing reports whether it changed something, but it sets missing identifiers in the very dictionaries it compares
  with: an item that gets an identifier is not reported.\<close>

theorem healed_id_is_not_reported:
  "heal_loaded_history_items [JDict (demo_item ''user_message'' [(''text'', JStr ''hi'')])]
   = ([demo_item ''user_message'' [(''text'', JStr ''hi''), (''id'', JStr ''item_healed_0_user_message'')]], False)"
  by code_simp

end
