(* ===== verification/ToolHost.thy ===== *)
theory ToolHost
  imports CollabPolicy ToolBase
begin

text \<open>
  The tool host of the KUN runtime (\<open>kun_runtime/tool_host.py\<close>) with the confirmation card of
  \<open>agent/tools/ask_user_confirm.py\<close>: what happens between a tool call of the model and the body of the tool.  The
  approval and the user-input channel are coroutines of the caller: functions of the payload and of a state, which
  answer or raise and leave a new state.  The body runs in the registry; what others do to the state meanwhile is
  \<open>hn_during\<close>.  Beside the result item the execution returns what it did, in order.
\<close>

subsection \<open>Names and kinds\<close>

definition HOST_PARALLEL_SAFE :: "pystr list" where
  "HOST_PARALLEL_SAFE = [''read'', ''grep'', ''find'', ''ls'', ''list_dir'', ''read_file'', ''web_search'', ''web_fetch'',
     ''paper_search'', ''paper_get'']"

definition HOST_NEVER_PARALLEL :: "pystr list" where
  "HOST_NEVER_PARALLEL = [''exec'', ''bash'', ''message'', ''spawn'', ''cron'', ''write'', ''edit'', ''delete'', ''move'',
     ''apply_patch'', ''edit_diff'']"

definition APPROVAL_EXEMPT :: "pystr list" where
  "APPROVAL_EXEMPT = HOST_PARALLEL_SAFE @ [''declare_result_files'']"

definition ASK_USER_CONFIRM_TOOL :: pystr where
  "ASK_USER_CONFIRM_TOOL = ''ask_user_confirm_card''"

definition SESSION_KEY_TOOLS :: "pystr list" where
  "SESSION_KEY_TOOLS = [''exec'', ''write_file'', ''edit_file'', ''delete_file'', ''apply_patch'', ''read_file'', ''list_dir'',
     ''docx_write'', ''pptx_write'', ''xlsx_write'', ''create_docx'', ''create_pptx'', ''create_xlsx'', ''create_pdf'',
     ''pdf_write'', ''pdf_read'', ''edit_docx'', ''append_xlsx'', ''paper_download'', ''graph_render'', ''declare_result_files'']"

definition USER_ROOTS_TOOLS :: "pystr list" where
  "USER_ROOTS_TOOLS = [''write_file'', ''edit_file'', ''read_file'', ''list_dir'', ''apply_patch'', ''graph_render'', ''spawn'']"

definition classify_tool_kind :: "pystr \<Rightarrow> pystr" where
  "classify_tool_kind name =
     (if name \<in> {''bash'', ''exec'', ''shell''} then ''command_execution''
      else if name \<in> set [''write'', ''edit'', ''edit_diff'', ''apply_patch'', ''delete'', ''move'', ''write_file'', ''edit_file'',
        ''create_docx'', ''create_pptx'', ''create_xlsx'', ''edit_docx'', ''append_xlsx'', ''docx_write'', ''pptx_write'', ''xlsx_write'']
      then ''file_change'' else ''tool_call'')"

definition requires_approval :: "pystr \<Rightarrow> pystr \<Rightarrow> bool" where
  "requires_approval name policy =
     (if name = ASK_USER_CONFIRM_TOOL then False
      else if policy \<in> {''never'', ''none'', ''disabled''} then False
      else if policy \<in> {''untrusted'', ''suggest'', ''on_request'', ''always''} then True
      else name \<notin> set APPROVAL_EXEMPT)"

fun parse_mode :: "pystr \<Rightarrow> autonomy_mode option" where
  "parse_mode s = (if s = ''plan'' then Some PLAN else if s = ''manual'' then Some MANUAL
     else if s = ''supervised'' then Some SUPERVISED else if s = ''autonomous'' then Some AUTONOMOUS else None)"

definition host_verdict :: "pystr \<Rightarrow> pystr \<Rightarrow> collab_verdict" where
  "host_verdict name mode = evaluate name (case parse_mode mode of Some m \<Rightarrow> m | None \<Rightarrow> MANUAL)"

subsection \<open>The confirmation card\<close>

definition DEFAULT_CHOICES :: "json list" where
  "DEFAULT_CHOICES = [
     JDict [(''id'', JStr ''confirm''), (''label'', JStr ''confirm'')],
     JDict [(''id'', JStr ''adjust''), (''label'', JStr ''adjust the plan''), (''role'', JStr ''adjust'')],
     JDict [(''id'', JStr ''cancel''), (''label'', JStr ''cancel''), (''role'', JStr ''cancel'')]]"

definition DEFAULT_TIMEOUT_SECONDS :: int where "DEFAULT_TIMEOUT_SECONDS = 120"

text \<open>\<open>str(x or y)\<close>.\<close>

definition str_or :: "json \<Rightarrow> pystr \<Rightarrow> pystr" where
  "str_or v d = py_str (jor v (JStr d))"

definition card_step :: "nat \<times> json \<Rightarrow> json list" where
  "card_step p = (case p of (i, v) \<Rightarrow>
     if is_jdict v then [JDict [(''id'', JStr (str_or (dget_null (the_jdict v) ''id'') (''step_'' @ nat_str i))),
        (''title'', JStr (str_or (dget_null (the_jdict v) ''title'') (''step '' @ nat_str (Suc i))))]]
     else [])"

definition card_choice :: "nat \<times> json \<Rightarrow> json list" where
  "card_choice p = (case p of (i, v) \<Rightarrow>
     let c = the_jdict v; cid = dget_null c ''id''; label = dget_null c ''label'' in
     if is_jdict v \<and> (truthy cid \<or> truthy label)
     then [JDict ([(''id'', JStr (str_or cid (''choice_'' @ nat_str i))),
        (''label'', JStr (str_or label (str_or cid (''option '' @ nat_str (Suc i)))))] @
        (case dget c ''role'' of Some (JStr r) \<Rightarrow> [(''role'', JStr r)] | _ \<Rightarrow> []))]
     else [])"

text \<open>\<open>int(x)\<close>, \<open>None\<close> for a \<open>TypeError\<close> or \<open>ValueError\<close>: numbers, Booleans, and texts of digits with
  single underscores between them, a sign and white space around.\<close>

definition digit_text :: "pystr \<Rightarrow> bool" where
  "digit_text s \<longleftrightarrow> s \<noteq> '''' \<and> (\<forall>w \<in> set (py_split_ch (CHR ''_'') s). w \<noteq> '''' \<and> (\<forall>c \<in> set w. py_isdigit c))"

definition int_of :: "json \<Rightarrow> int option" where
  "int_of v = (case v of
     JStr t \<Rightarrow>
       (let s = py_strip t;
            (neg, body) = (case s of c # r \<Rightarrow> if c = CHR ''-'' then (True, r) else if c = CHR ''+'' then (False, r) else (False, s)
                           | [] \<Rightarrow> (False, s));
            n = int (parse_nat (filter (\<lambda>c. c \<noteq> CHR ''_'') body))
        in if digit_text body then Some (if neg then - n else n) else None)
   | _ \<Rightarrow> as_int v)"

definition normalize_card :: "dict \<Rightarrow> dict" where
  "normalize_card args =
     (let choices = concat (map card_choice (enumerate 0 (the_jlist (jor (dget_null args ''choices'') (JList DEFAULT_CHOICES)))));
          timeout = (case int_of (dget_or args ''timeout_seconds'' (JNum DEFAULT_TIMEOUT_SECONDS)) of
                       Some n \<Rightarrow> n | None \<Rightarrow> DEFAULT_TIMEOUT_SECONDS)
      in [(''title'', JStr (py_str (dget_or args ''title'' (JStr ''please confirm'')))),
          (''message'', JStr (py_str (dget_or args ''message'' (JStr '''')))),
          (''steps'', JList (concat (map card_step (enumerate 0 (the_jlist (jor (dget_null args ''steps'') (JList []))))))),
          (''choices'', JList (if choices = [] then DEFAULT_CHOICES else choices)),
          (''allow_remember_choice'', JBool (truthy (dget_or args ''allow_remember_choice'' (JBool False)))),
          (''timeout_seconds'', JNum (max 5 (min 600 timeout)))])"

definition card_confirmed :: "dict \<Rightarrow> bool" where
  "card_confirmed gate =
     (let answers = the_jdict (jor (dget_null gate ''answers'') (JDict []));
          cid = str_or (dget_null answers ''choice_id'') '''';
          role = str_or (dget_null answers ''choice_role'') '''';
          non_confirm = (role \<in> {''cancel'', ''adjust''} \<or> role = '''' \<and> cid \<in> {''cancel'', ''adjust''})
      in dget_null gate ''status'' = JStr ''submitted'' \<and> cid \<noteq> '''' \<and> \<not> non_confirm)"

definition card_result :: "dict \<Rightarrow> dict" where
  "card_result gate =
     (let answers = the_jdict (jor (dget_null gate ''answers'') (JDict []));
          cid = str_or (dget_null answers ''choice_id'') '''';
          label = str_or (dget_null answers ''choice_label'') '''';
          rid = dget_or gate ''request_id'' (JStr '''')
      in if card_confirmed gate
         then [(''request_id'', rid), (''status'', JStr ''confirmed''), (''choice_id'', JStr cid), (''choice_label'', JStr label)]
           @ (if truthy (dget_null gate ''remembered'') then [(''remembered'', JBool True)] else [])
         else [(''request_id'', rid), (''status'', JStr ''cancelled''), (''choice_id'', JStr cid), (''choice_label'', JStr label),
           (''reason'', dget_or gate ''reason'' (JStr ''cancelled''))])"

subsection \<open>The context of a call\<close>

record host_call =
  hc_id :: pystr
  hc_name :: pystr
  hc_arguments :: json

type_synonym ('s, 'a) step = "'s \<Rightarrow> 'a result \<times> 's"

record 's host_context =
  hx_thread :: pystr
  hx_turn :: pystr
  hx_policy :: pystr
  hx_autonomy :: pystr
  hx_mode :: "pystr option"
  hx_search_strategy :: "json option"
  hx_parallel_limit :: "nat option"
  hx_roots :: "pystr list"
  hx_allowed :: "pystr list option"
  hx_await_approval :: "(dict \<Rightarrow> ('s, pystr) step) option"
  hx_await_user_input :: "(dict \<Rightarrow> ('s, dict) step) option"

text \<open>The surroundings: the registry, the table from thread to session, the clock, the others.\<close>

record 's host =
  hn_registry :: registry
  hn_session_key :: "pystr \<Rightarrow> pystr option"
  hn_now :: "'s \<Rightarrow> pystr"
  hn_during :: "pystr \<Rightarrow> dict \<Rightarrow> 's \<Rightarrow> 's"

definition list_tools :: "'s host \<Rightarrow> 's host_context \<Rightarrow> dict list" where
  "list_tools h ctx =
     map (\<lambda>fn. let name = py_str (dget_or fn ''name'' (JStr '''')) in
        [(''name'', JStr name), (''description'', dget_or fn ''description'' (JStr '''')),
         (''inputSchema'', dget_or fn ''parameters'' (JDict [])), (''toolKind'', JStr (classify_tool_kind name)),
         (''providerId'', JStr ''builtin''), (''providerKind'', JStr ''built-in'')])
       (filter (\<lambda>fn. case hx_allowed ctx of None \<Rightarrow> True | Some ns \<Rightarrow> py_str (dget_or fn ''name'' (JStr '''')) \<in> set ns)
         (map (\<lambda>d. the_jdict (dget_or (the_jdict d) ''function'' d)) (get_definitions (hn_registry h))))"

definition result_item :: "'s host_context \<Rightarrow> host_call \<Rightarrow> pystr \<Rightarrow> bool \<Rightarrow> pystr \<Rightarrow> pystr \<Rightarrow> bool \<Rightarrow> dict" where
  "result_item ctx call now finished status output is_error =
     [(''kind'', JStr ''tool_result''),
      (''id'', JStr (''item_'' @ hx_turn ctx @ ''_'' @ hc_id call)),
      (''turnId'', JStr (hx_turn ctx)), (''threadId'', JStr (hx_thread ctx)), (''role'', JStr ''tool''),
      (''status'', JStr status), (''createdAt'', JStr now)]
     @ (if finished then [(''finishedAt'', JStr now)] else [])
     @ [(''toolName'', JStr (hc_name call)), (''callId'', JStr (hc_id call)),
        (''toolKind'', JStr (classify_tool_kind (hc_name call))), (''output'', JStr output), (''isError'', JBool is_error)]"

definition quoted :: "pystr \<Rightarrow> pystr" where
  "quoted s = CHR 0x27 # s @ [CHR 0x27]"


subsection \<open>Executing a call\<close>

datatype host_event = AskApproval dict | AskUser dict | RunTool pystr dict dict

text \<open>The arguments as the tool will see them: text is parsed, the harness's own key is dropped.\<close>

definition host_arguments :: "json \<Rightarrow> json" where
  "host_arguments a =
     (case (case a of JStr s \<Rightarrow> (case json_loads s of Some v \<Rightarrow> v | None \<Rightarrow> JDict []) | v \<Rightarrow> v) of
        JDict d \<Rightarrow> JDict (filter (\<lambda>p. fst p \<noteq> ''_user_roots'') d)
      | v \<Rightarrow> v)"

definition session_key_for :: "'s host \<Rightarrow> 's host_context \<Rightarrow> pystr" where
  "session_key_for h ctx = (case hn_session_key h (hx_thread ctx) of Some (c # s) \<Rightarrow> c # s | _ \<Rightarrow> hx_thread ctx)"

definition host_extra :: "'s host \<Rightarrow> 's host_context \<Rightarrow> host_call \<Rightarrow> dict" where
  "host_extra h ctx call =
     (let name = hc_name call; key = session_key_for h ctx;
          e1 = (if name \<in> set SESSION_KEY_TOOLS \<and> key \<noteq> '''' then [(''_session_key'', JStr key)] else []);
          e2 = (if py_startswith name ''mcp_''
                then dset ''_tool_call_id'' (JStr (hc_id call)) (dset ''_turn_id'' (JStr (hx_turn ctx)) (dset ''_session_key'' (JStr key) e1))
                else e1);
          e3 = (if name \<in> set USER_ROOTS_TOOLS then dset ''_user_roots'' (JList (map JStr (hx_roots ctx))) e2 else e2)
      in case hx_search_strategy ctx of
           Some strategy \<Rightarrow>
             if name = ''web_search''
             then dset ''_mode'' (JStr (case hx_mode ctx of Some m \<Rightarrow> m | None \<Rightarrow> '''')) (dset ''_search_strategy'' strategy e3)
             else e3
         | None \<Rightarrow> e3)"

definition approval_payload :: "'s host_context \<Rightarrow> host_call \<Rightarrow> json \<Rightarrow> dict" where
  "approval_payload ctx call args =
     [(''threadId'', JStr (hx_thread ctx)), (''turnId'', JStr (hx_turn ctx)), (''toolName'', JStr (hc_name call)),
      (''toolKind'', JStr (classify_tool_kind (hc_name call))), (''summary'', JStr (''Run tool '' @ quoted (hc_name call))),
      (''arguments'', args)]"

definition ask_approval :: "'s host_context \<Rightarrow> host_call \<Rightarrow> json \<Rightarrow> 's \<Rightarrow> bool result \<times> host_event list \<times> 's" where
  "ask_approval ctx call args s =
     (case hx_await_approval ctx of
        Some ask \<Rightarrow>
          if requires_approval (hc_name call) (hx_policy ctx) then
            (case ask (approval_payload ctx call args) s of
               (Inl e, s1) \<Rightarrow> (Inl e, [AskApproval (approval_payload ctx call args)], s1)
             | (Inr decision, s1) \<Rightarrow> (Inr (decision = ''allow''), [AskApproval (approval_payload ctx call args)], s1))
          else (Inr True, [], s)
      | None \<Rightarrow> (Inr True, [], s))"

definition confirm_payload :: "'s host_context \<Rightarrow> host_call \<Rightarrow> dict" where
  "confirm_payload ctx call =
     [(''threadId'', JStr (hx_thread ctx)), (''turnId'', JStr (hx_turn ctx)), (''toolName'', JStr (hc_name call)),
      (''title'', JStr (''confirm: '' @ hc_name call)),
      (''message'', JStr (''needs your confirmation (mode: '' @ hx_autonomy ctx @ '').'')),
      (''choices'', JList [JDict [(''id'', JStr ''confirm''), (''label'', JStr ''confirm'')],
         JDict [(''id'', JStr ''cancel''), (''label'', JStr ''cancel'')]]),
      (''timeout_seconds'', JNum 120)]"

definition gate_confirms :: "dict \<Rightarrow> bool" where
  "gate_confirms gate \<longleftrightarrow> dget_null gate ''status'' = JStr ''submitted''
     \<and> dget_null (the_jdict (jor (dget_null gate ''answers'') (JDict []))) ''choice_id'' = JStr ''confirm''"

datatype collab_outcome = GoOn | Blocked | UserCancelled

definition ask_collab :: "'s host_context \<Rightarrow> host_call \<Rightarrow> 's \<Rightarrow> collab_outcome result \<times> host_event list \<times> 's" where
  "ask_collab ctx call s =
     (if hc_name call = ASK_USER_CONFIRM_TOOL then (Inr GoOn, [], s)
      else case host_verdict (hc_name call) (hx_autonomy ctx) of
        CV_DENY \<Rightarrow> (Inr Blocked, [], s)
      | CV_ALLOW \<Rightarrow> (Inr GoOn, [], s)
      | CV_CONFIRM \<Rightarrow>
          (case hx_await_user_input ctx of
             Some ask \<Rightarrow>
               if hx_mode ctx \<noteq> Some ''fast'' then
                 (case ask (confirm_payload ctx call) s of
                    (Inl e, s1) \<Rightarrow> (Inl e, [AskUser (confirm_payload ctx call)], s1)
                  | (Inr gate, s1) \<Rightarrow>
                      (Inr (if gate_confirms gate then GoOn else UserCancelled), [AskUser (confirm_payload ctx call)], s1))
               else (Inr GoOn, [], s)
           | None \<Rightarrow> (Inr GoOn, [], s)))"

definition output_item :: "'s host \<Rightarrow> 's host_context \<Rightarrow> host_call \<Rightarrow> 's \<Rightarrow> pystr \<Rightarrow> bool \<Rightarrow> dict" where
  "output_item h ctx call s output is_error =
     result_item ctx call (hn_now h s) True (if is_error then ''failed'' else ''completed'') output is_error"

definition user_confirm ::
  "'s host \<Rightarrow> 's host_context \<Rightarrow> host_call \<Rightarrow> json \<Rightarrow> (dict \<Rightarrow> ('s, dict) step) \<Rightarrow> 's \<Rightarrow> dict \<times> host_event list \<times> 's" where
  "user_confirm h ctx call args ask s =
     (let failed = (\<lambda>s. output_item h ctx call s ''Error: confirmation failed'' True) in
      case args of
        JDict d \<Rightarrow>
          (let payload = [(''threadId'', JStr (hx_thread ctx)), (''turnId'', JStr (hx_turn ctx)),
                 (''toolName'', JStr (hc_name call))] @ normalize_card d in
           case ask payload s of
             (Inl e, s1) \<Rightarrow> (failed s1, [AskUser payload], s1)
           | (Inr gate, s1) \<Rightarrow> (output_item h ctx call s1 (json_dumps (JDict (card_result gate))) False, [AskUser payload], s1))
      | _ \<Rightarrow> (failed s, [], s))"

definition run_body :: "'s host \<Rightarrow> 's host_context \<Rightarrow> host_call \<Rightarrow> json \<Rightarrow> 's \<Rightarrow> dict \<times> host_event list \<times> 's" where
  "run_body h ctx call args s =
     (case args of
        JDict d \<Rightarrow>
          (let extra = host_extra h ctx call;
               result = registry_execute (hn_registry h) (hc_name call) d extra;
               s1 = hn_during h (hc_name call) d s
           in (output_item h ctx call s1 result (py_startswith result ''Error''), [RunTool (hc_name call) d extra], s1))
      | _ \<Rightarrow> (output_item h ctx call s (''Error executing '' @ hc_name call @ '': no items'') True, [], s))"

definition host_execute ::
  "'s host \<Rightarrow> 's host_context \<Rightarrow> host_call \<Rightarrow> 's \<Rightarrow> dict result \<times> host_event list \<times> 's" where
  "host_execute h ctx call s =
     (let name = hc_name call; args = host_arguments (hc_arguments call);
          refuse = (\<lambda>s fin status msg. result_item ctx call (hn_now h s) fin status msg True)
      in if \<not> (case hx_allowed ctx of None \<Rightarrow> True | Some ns \<Rightarrow> name \<in> set ns)
         then (Inr (refuse s False ''failed'' (''Tool '' @ quoted name @ '' is not allowed in this context'')), [], s)
         else if \<not> has_tool (hn_registry h) name
         then (Inr (refuse s False ''failed'' (''Tool '' @ quoted name @ '' not found'')), [], s)
         else case ask_approval ctx call args s of
           (Inl e, ev, s1) \<Rightarrow> (Inl e, ev, s1)
         | (Inr False, ev, s1) \<Rightarrow>
             (Inr (refuse s1 True ''failed'' (''Tool '' @ quoted name @ '' was denied by approval policy'')), ev, s1)
         | (Inr True, ev, s1) \<Rightarrow>
             (case ask_collab ctx call s1 of
                (Inl e, ev2, s2) \<Rightarrow> (Inl e, ev @ ev2, s2)
              | (Inr Blocked, ev2, s2) \<Rightarrow>
                  (Inr (refuse s2 True ''failed'' (''Tool '' @ quoted name @ '' is blocked in '' @ hx_autonomy ctx @ '' mode'')), ev @ ev2, s2)
              | (Inr UserCancelled, ev2, s2) \<Rightarrow>
                  (Inr (refuse s2 True ''cancelled'' ''User cancelled the operation (policy confirmation).''), ev @ ev2, s2)
              | (Inr GoOn, ev2, s2) \<Rightarrow>
                  (case (if name = ASK_USER_CONFIRM_TOOL
                         then (case hx_await_user_input ctx of Some ask \<Rightarrow> user_confirm h ctx call args ask s2
                               | None \<Rightarrow> run_body h ctx call args s2)
                         else run_body h ctx call args s2) of
                     (item, ev3, s3) \<Rightarrow> (Inr item, ev @ ev2 @ ev3, s3))))"

definition host_should_parallelize :: "host_call list \<Rightarrow> pystr \<Rightarrow> bool" where
  "host_should_parallelize calls policy =
     (if length calls < 2 then False
      else if policy \<in> {''untrusted'', ''never''} then False
      else should_parallelize (map (\<lambda>c. \<lparr>bc_id = hc_id c, bc_name = hc_name c, bc_arguments = hc_arguments c\<rparr>) calls))"

definition host_is_parallel_safe :: "host_call \<Rightarrow> bool" where
  "host_is_parallel_safe call \<longleftrightarrow> hc_name call \<notin> set HOST_NEVER_PARALLEL \<and> hc_name call \<in> set HOST_PARALLEL_SAFE"

subsection \<open>What the host guarantees\<close>

definition runs :: "host_event \<Rightarrow> bool" where
  "runs e \<longleftrightarrow> (\<exists>n d x. e = RunTool n d x)"

lemma runs_simps [simp]: "runs (RunTool n d x)" "\<not> runs (AskApproval p)" "\<not> runs (AskUser p)"
  by (simp_all add: runs_def)

definition answers_call :: "host_call \<Rightarrow> dict \<Rightarrow> bool" where
  "answers_call call item \<longleftrightarrow> dget item ''callId'' = Some (JStr (hc_id call)) \<and> dget item ''kind'' = Some (JStr ''tool_result'')
     \<and> dget item ''toolName'' = Some (JStr (hc_name call))"

lemma result_item_answers [simp]: "answers_call call (result_item ctx call now fin st out err)"
  by (simp add: answers_call_def result_item_def)

lemma ask_approval_no_run: "ask_approval ctx call args s = (r, ev, s1) \<Longrightarrow> filter runs ev = []"
  by (auto simp: ask_approval_def split: option.splits if_splits prod.splits sum.splits)

lemma ask_collab_no_run: "ask_collab ctx call s = (r, ev, s1) \<Longrightarrow> filter runs ev = []"
  by (auto simp: ask_collab_def split: option.splits if_splits prod.splits sum.splits collab_verdict.splits)

lemma user_confirm_item:
  "user_confirm h ctx call args ask s = (item, ev, s1) \<Longrightarrow> filter runs ev = [] \<and> answers_call call item"
  by (auto simp: user_confirm_def output_item_def Let_def split: json.splits prod.splits sum.splits)

lemma run_body_item:
  "run_body h ctx call args s = (item, ev, s1) \<Longrightarrow> answers_call call item
     \<and> (filter runs ev = [] \<or> (\<exists>d. args = JDict d \<and> ev = [RunTool (hc_name call) d (host_extra h ctx call)]))"
  by (auto simp: run_body_def output_item_def Let_def split: json.splits)

definition approved :: "'s host_context \<Rightarrow> host_call \<Rightarrow> bool" where
  "approved ctx call \<longleftrightarrow> (case hx_await_approval ctx of None \<Rightarrow> True
     | Some ask \<Rightarrow> requires_approval (hc_name call) (hx_policy ctx) \<longrightarrow>
         (\<exists>s s1. ask (approval_payload ctx call (host_arguments (hc_arguments call))) s = (Inr ''allow'', s1)))"

definition confirmed :: "'s host_context \<Rightarrow> host_call \<Rightarrow> bool" where
  "confirmed ctx call \<longleftrightarrow> hc_name call = ASK_USER_CONFIRM_TOOL \<or>
     (case host_verdict (hc_name call) (hx_autonomy ctx) of CV_ALLOW \<Rightarrow> True | CV_DENY \<Rightarrow> False
      | CV_CONFIRM \<Rightarrow> hx_await_user_input ctx = None \<or> hx_mode ctx = Some ''fast'' \<or>
          (\<exists>ask gate s s1. hx_await_user_input ctx = Some ask \<and> ask (confirm_payload ctx call) s = (Inr gate, s1) \<and> gate_confirms gate))"

lemma ask_approval_yes: "ask_approval ctx call (host_arguments (hc_arguments call)) s = (Inr True, ev, s1) \<Longrightarrow> approved ctx call"
  by (auto simp: ask_approval_def approved_def split: option.splits if_splits prod.splits sum.splits)

lemma ask_collab_yes: "ask_collab ctx call s = (Inr GoOn, ev, s1) \<Longrightarrow> confirmed ctx call"
  by (auto simp: ask_collab_def confirmed_def split: option.splits if_splits prod.splits sum.splits collab_verdict.splits)

lemma host_execute_cleared:
  assumes "host_execute h ctx call s = (r, ev, s')"
  shows "(\<forall>item. r = Inr item \<longrightarrow> answers_call call item)
    \<and> (filter runs ev = [] \<or>
        (\<exists>d. filter runs ev = [RunTool (hc_name call) d (host_extra h ctx call)] \<and> host_arguments (hc_arguments call) = JDict d
           \<and> \<not> dhas d ''_user_roots'')
        \<and> (case hx_allowed ctx of None \<Rightarrow> True | Some ns \<Rightarrow> hc_name call \<in> set ns)
        \<and> has_tool (hn_registry h) (hc_name call) \<and> approved ctx call \<and> confirmed ctx call)"
proof -
  let ?args = "host_arguments (hc_arguments call)"
  have roots: "\<not> dhas d ''_user_roots''" if "?args = JDict d" for d
    using that by (auto simp: host_arguments_def dhas_iff dget_None_iff split: json.splits option.splits)
  consider (refused) "\<not> (case hx_allowed ctx of None \<Rightarrow> True | Some ns \<Rightarrow> hc_name call \<in> set ns) \<or> \<not> has_tool (hn_registry h) (hc_name call)"
    | (asked) "case hx_allowed ctx of None \<Rightarrow> True | Some ns \<Rightarrow> hc_name call \<in> set ns" "has_tool (hn_registry h) (hc_name call)"
    by blast
  then show ?thesis
  proof cases
    case refused
    with assms show ?thesis by (auto simp: host_execute_def Let_def split: if_splits)
  next
    case asked
    obtain ra ev1 s1 where a: "ask_approval ctx call ?args s = (ra, ev1, s1)" by (cases "ask_approval ctx call ?args s")
    obtain rc ev2 s2 where c: "ask_collab ctx call s1 = (rc, ev2, s2)" by (cases "ask_collab ctx call s1")
    obtain item ev3 s3 where b: "(if hc_name call = ASK_USER_CONFIRM_TOOL
        then (case hx_await_user_input ctx of Some ask \<Rightarrow> user_confirm h ctx call ?args ask s2 | None \<Rightarrow> run_body h ctx call ?args s2)
        else run_body h ctx call ?args s2) = (item, ev3, s3)" by (metis prod_cases3)
    have B: "answers_call call item \<and> (filter runs ev3 = [] \<or> (\<exists>d. ?args = JDict d \<and> ev3 = [RunTool (hc_name call) d (host_extra h ctx call)]))"
    proof (cases "hc_name call = ASK_USER_CONFIRM_TOOL \<and> hx_await_user_input ctx \<noteq> None")
      case True
      with b obtain ask where "user_confirm h ctx call ?args ask s2 = (item, ev3, s3)" by auto
      then show ?thesis using user_confirm_item by metis
    next
      case False
      with b have "run_body h ctx call ?args s2 = (item, ev3, s3)" by (auto split: if_splits)
      then show ?thesis using run_body_item by metis
    qed
    note n = ask_approval_no_run[OF a] ask_collab_no_run[OF c]
    show ?thesis
    proof (cases "ra = Inr True \<and> rc = Inr GoOn")
      case True
      with assms asked a b c have "r = Inr item \<and> ev = ev1 @ ev2 @ ev3"
        by (simp add: host_execute_def Let_def)
      moreover have "approved ctx call" "confirmed ctx call" 
        using ask_approval_yes[of ctx call s ev1 s1] ask_collab_yes[of ctx call s1 ev2 s2] a c True by auto
      ultimately show ?thesis using B n roots asked by auto
    next
      case False
      with assms asked a b c n have "filter runs ev = [] \<and> (\<forall>item. r = Inr item \<longrightarrow> answers_call call item)"
        by (auto simp: host_execute_def Let_def split: sum.splits bool.splits collab_outcome.splits)
      then show ?thesis by blast
    qed
  qed
qed

text \<open>C2. The body of a tool runs at most once for a call, and only when the call is cleared: the name is allowed in
  the context and registered, the approval channel, where the policy asks it, answered \<open>allow\<close>, and the collaboration
  gate either lets the tool pass in this mode or the user confirmed it (in the fast mode or without a channel a
  confirmation is not asked).  The body gets the arguments without the harness's own key, and whatever happens, a
  returned item is the result of this call.\<close>

theorem body_runs_only_when_cleared:
  assumes "host_execute h ctx call s = (r, ev, s')"
  shows "(\<forall>item. r = Inr item \<longrightarrow> answers_call call item)
    \<and> (filter runs ev = [] \<or>
        (\<exists>d. filter runs ev = [RunTool (hc_name call) d (host_extra h ctx call)] \<and> host_arguments (hc_arguments call) = JDict d
           \<and> \<not> dhas d ''_user_roots'')
        \<and> (case hx_allowed ctx of None \<Rightarrow> True | Some ns \<Rightarrow> hc_name call \<in> set ns)
        \<and> has_tool (hn_registry h) (hc_name call) \<and> approved ctx call \<and> confirmed ctx call)"
  using assms by (rule host_execute_cleared)

definition demo_tool :: "pystr \<Rightarrow> tool" where
  "demo_tool name = \<lparr>tl_name = name, tl_description = '''', tl_parameters = [(''type'', JStr ''object'')], tl_timeout = None,
     tl_execute = (\<lambda>_. ToolReturns ''done'')\<rparr>"

definition demo_host :: "pystr list \<Rightarrow> nat host" where
  "demo_host names = \<lparr>hn_registry = fold (\<lambda>n. register (demo_tool n)) names (new_registry 30), hn_session_key = (\<lambda>_. None),
     hn_now = (\<lambda>_. ''now''), hn_during = (\<lambda>_ _ n. Suc n)\<rparr>"

definition demo_context :: "pystr \<Rightarrow> pystr \<Rightarrow> nat host_context" where
  "demo_context policy m = \<lparr>hx_thread = ''th'', hx_turn = ''t'', hx_policy = policy, hx_autonomy = ''supervised'',
     hx_mode = Some m, hx_search_strategy = None, hx_parallel_limit = None, hx_roots = [''/out''], hx_allowed = None,
     hx_await_approval = Some (\<lambda>_ n. (Inr ''allow'', n)),
     hx_await_user_input = Some (\<lambda>_ n. (Inr [(''status'', JStr ''cancelled'')], n))\<rparr>"

definition demo_host_call :: "pystr \<Rightarrow> host_call" where
  "demo_host_call name = \<lparr>hc_id = ''c1'', hc_name = name, hc_arguments = JDict []\<rparr>"

theorem body_runs_only_when_cleared_witness:
  "\<exists>r ev s'. host_execute (demo_host [''write_file'']) (demo_context ''auto'' ''think'') (demo_host_call ''write_file'') 0 = (r, ev, s')
     \<and> filter runs ev \<noteq> [] \<and> approved (demo_context ''auto'' ''think'') (demo_host_call ''write_file'')"
proof -
  obtain r ev s' where e: "host_execute (demo_host [''write_file'']) (demo_context ''auto'' ''think'') (demo_host_call ''write_file'') 0 = (r, ev, s')"
    by (metis prod_cases3)
  have "length (fst (snd (host_execute (demo_host [''write_file'']) (demo_context ''auto'' ''think'') (demo_host_call ''write_file'') 0))) = 2
     \<and> (case last (fst (snd (host_execute (demo_host [''write_file'']) (demo_context ''auto'' ''think'') (demo_host_call ''write_file'') 0))) of
          RunTool n d x \<Rightarrow> True | _ \<Rightarrow> False)"
    by code_simp
  with e have "ev \<noteq> []" "runs (last ev)" by (auto simp: runs_def split: host_event.splits)
  then have "filter runs ev \<noteq> []" using last_in_set by (fastforce simp: filter_empty_conv)
  with body_runs_only_when_cleared[OF e] e show ?thesis by blast
qed

text \<open>The card never turns silence into consent: the tool result says \<open>confirmed\<close> only when the gate reports a
  submitted answer with a choice that is neither a refusal nor a wish to change the plan.\<close>

theorem card_confirms_only_answers:
  "dget (card_result gate) ''status'' = Some (JStr (if card_confirmed gate then ''confirmed'' else ''cancelled''))
   \<and> (card_confirmed gate \<longrightarrow> dget_null gate ''status'' = JStr ''submitted'')"
  by (simp add: card_result_def card_confirmed_def Let_def)

text \<open>The matrix asks for a confirmation of payments and transfers in every mode, and the comments promise it; in the
  fast mode, which is the default, the host does not ask: a payment runs although the user would have refused.\<close>

theorem fast_mode_pays_unasked:
  "host_verdict ''pay'' ''supervised'' = CV_CONFIRM
   \<and> fst (snd (host_execute (demo_host [''pay'']) (demo_context ''never'' ''fast'') (demo_host_call ''pay'') 0)) = [RunTool ''pay'' [] []]
   \<and> length (fst (snd (host_execute (demo_host [''pay'']) (demo_context ''never'' ''think'') (demo_host_call ''pay'') 0))) = 1
   \<and> filter runs (fst (snd (host_execute (demo_host [''pay'']) (demo_context ''never'' ''think'') (demo_host_call ''pay'') 0))) = []"
proof -
  have "host_verdict ''pay'' ''supervised'' = CV_CONFIRM
   \<and> fst (snd (host_execute (demo_host [''pay'']) (demo_context ''never'' ''fast'') (demo_host_call ''pay'') 0)) = [RunTool ''pay'' [] []]"
    by code_simp
  moreover have "(case fst (snd (host_execute (demo_host [''pay'']) (demo_context ''never'' ''think'') (demo_host_call ''pay'') 0)) of
      [AskUser p] \<Rightarrow> True | _ \<Rightarrow> False)"
    by code_simp
  ultimately show ?thesis by (auto split: list.splits host_event.splits)
qed

text \<open>The host keeps a list of tools that must run alone, but asks the registry whether a batch may run together: a
  shell under another name runs together with a reader.\<close>

theorem never_parallel_not_consulted:
  "host_should_parallelize [demo_host_call ''bash'', demo_host_call ''read_file''] ''auto'' \<and> ''bash'' \<in> set HOST_NEVER_PARALLEL"
  by code_simp

end
