(* ===== verification/KunLoop.thy ===== *)
theory KunLoop
  imports Turns KunHistory ToolHost
begin

text \<open>
  The agent loop of the KUN runtime (\<open>kun_runtime/loop.py\<close>) and its reasoning modes (\<open>agent/agent_mode.py\<close>): a
  turn is a sequence of model steps, each of which reads the thread, compacts its history, asks the model, persists
  what it says and runs the tools it asks for.  The loop works on the state of the services (\<open>kun\<close>), its own tables
  (repeat-loop guards, budgets of turns, usage) and a ghost trace of what it did.  Where the loop waits for the
  model or a tool, others run: \<open>le_meanwhile\<close> and \<open>hn_during\<close> change the services' state in any way.
\<close>

subsection \<open>Reasoning modes\<close>

record tool_policy =
  tp_max_rounds :: "nat option"
  tp_parallel :: nat
  tp_time_budget :: "int option"
  tp_grace :: int
  tp_max_search :: "nat option"

record agent_mode =
  am_mode :: pystr
  am_max_tokens :: nat
  am_tool :: tool_policy
  am_search :: json
  am_snippet :: pystr

definition search_strategy :: "pystr \<Rightarrow> int \<Rightarrow> int \<Rightarrow> json" where
  "search_strategy name queries fetches = JDict [(''name'', JStr name), (''fanout_queries'', JNum queries),
     (''fanout_fetches'', JNum fetches), (''verify'', JBool False)]"

text \<open>Times are in seconds; the prompt snippets have an English stand-in.\<close>

definition FAST :: agent_mode where
  "FAST = \<lparr>am_mode = ''fast'', am_max_tokens = 2048,
     am_tool = \<lparr>tp_max_rounds = Some 3, tp_parallel = 5, tp_time_budget = Some 30, tp_grace = 5, tp_max_search = Some 1\<rparr>,
     am_search = search_strategy ''breadth'' 2 3, am_snippet = ''FAST_PROMPT''\<rparr>"

definition THINK :: agent_mode where
  "THINK = \<lparr>am_mode = ''think'', am_max_tokens = 8192,
     am_tool = \<lparr>tp_max_rounds = None, tp_parallel = 3, tp_time_budget = None, tp_grace = 5, tp_max_search = None\<rparr>,
     am_search = search_strategy ''depth'' 1 0, am_snippet = ''THINK_PROMPT''\<rparr>"

definition get_mode_config :: "json \<Rightarrow> agent_mode" where
  "get_mode_config mode =
     (case map_of [(''fast'', FAST), (''think'', THINK)] (case mode of JStr s \<Rightarrow> s | _ \<Rightarrow> '''') of
        Some m \<Rightarrow> m | None \<Rightarrow> FAST)"

subsection \<open>State and surroundings\<close>

record turn_budget =
  tb_finalizing :: bool
  tb_search_phases :: nat
  tb_max_search_phase :: nat

datatype loop_effect =
    Requested model_request
  | Persisted dict
  | Executed host_call

record lstate =
  ls_kun :: kun
  ls_storm :: "pystr \<rightharpoonup> storm_breaker"
  ls_budget :: "pystr \<rightharpoonup> turn_budget"
  ls_usage :: "int snapshots"
  ls_trace :: "loop_effect list"

text \<open>\<open>le_gate announce\<close> is the user-input gate: a request that calls \<open>announce\<close> when it becomes pending.\<close>

record loop_env =
  le_env :: env
  le_mono :: "kun \<Rightarrow> int"
  le_provider :: provider
  le_default_model :: pystr
  le_meanwhile :: "kun \<Rightarrow> kun"
  le_host :: "kun host"
  le_compactor :: compactor
  le_storm :: "(int \<times> int) option"
  le_economy :: bool
  le_approval :: "(dict \<Rightarrow> pystr act) option"
  le_gate :: "(unit act \<Rightarrow> dict \<Rightarrow> dict act) option"
  le_remembered :: "pystr \<Rightarrow> pystr \<Rightarrow> kun \<Rightarrow> dict option"
  le_remember :: "pystr \<Rightarrow> pystr \<Rightarrow> dict \<Rightarrow> unit act"
  le_digest :: "pystr \<Rightarrow> pystr"
  le_roots :: "pystr list \<Rightarrow> pystr \<Rightarrow> pystr list"

type_synonym 'a lp = "lstate \<Rightarrow> 'a result \<times> lstate"

definition lret :: "'a \<Rightarrow> 'a lp" where
  "lret x s = (Inr x, s)"

definition lthen :: "'a lp \<Rightarrow> ('a \<Rightarrow> 'b lp) \<Rightarrow> 'b lp" where
  "lthen m f s = (case m s of (Inl e, s1) \<Rightarrow> (Inl e, s1) | (Inr x, s1) \<Rightarrow> f x s1)"

definition lift :: "'a act \<Rightarrow> 'a lp" where
  "lift a s = (case a (ls_kun s) of (r, k) \<Rightarrow> (r, s\<lparr>ls_kun := k\<rparr>))"

definition lmod :: "(lstate \<Rightarrow> lstate) \<Rightarrow> unit lp" where
  "lmod f s = (Inr (), f s)"

definition lget :: "(lstate \<Rightarrow> 'a) \<Rightarrow> 'a lp" where
  "lget f s = (Inr (f s), s)"

definition trace_effect :: "loop_effect \<Rightarrow> unit lp" where
  "trace_effect e = lmod (\<lambda>s. s\<lparr>ls_trace := ls_trace s @ [e]\<rparr>)"

text \<open>\<open>token.is_set()\<close>: the token object the loop holds.\<close>

definition token_set :: "pystr \<Rightarrow> bool lp" where
  "token_set turn_id = lget (\<lambda>s. turn_id \<in> k_cancelled (ls_kun s))"

definition persist_item :: "loop_env \<Rightarrow> pystr \<Rightarrow> dict \<Rightarrow> unit lp" where
  "persist_item E tid item = lthen (lift (apply_item (le_env E) tid item)) (\<lambda>_. trace_effect (Persisted item))"

definition clock_now :: "loop_env \<Rightarrow> pystr lp" where
  "clock_now E = lift (now_iso (le_env E))"

subsection \<open>Helpers\<close>

definition stage_label :: "pystr \<Rightarrow> pystr" where
  "stage_label stage = (case map_of
     [(''setup'', ''Setup''), (''pre_start'', ''Pre-Start''), (''post_start'', ''Post-Start''),
      (''input_received'', ''Input Received''), (''input_cached'', ''Input Cached''), (''input_routed'', ''Input Routed''),
      (''input_compressed'', ''Input Compressed''), (''input_remembered'', ''Input Remembered''),
      (''pre_send'', ''Pre-Send''), (''post_send'', ''Post-Send''), (''response_received'', ''Response Received'')] stage of
      Some l \<Rightarrow> l | None \<Rightarrow> stage)"

definition record_pipeline :: "loop_env \<Rightarrow> pystr \<Rightarrow> pystr \<Rightarrow> pystr \<Rightarrow> dict \<Rightarrow> unit lp" where
  "record_pipeline E tid turn_id stage details =
     lift (emit (le_env E) ([(''kind'', JStr ''pipeline_stage''), (''threadId'', JStr tid), (''turnId'', JStr turn_id),
        (''stage'', JStr stage), (''label'', JStr (stage_label stage))] @
        (if details \<noteq> [] then [(''details'', JDict details)] else [])))"

definition PARALLEL_READ_ONLY :: "pystr list" where
  "PARALLEL_READ_ONLY = [''read'', ''grep'', ''find'', ''ls'', ''read_file'', ''list_dir'', ''web_search'', ''web_fetch'',
     ''paper_search'', ''paper_get'']"

definition is_parallel_safe :: "host_call \<Rightarrow> pystr \<Rightarrow> bool" where
  "is_parallel_safe call policy \<longleftrightarrow> hc_name call \<in> set PARALLEL_READ_ONLY \<and> policy \<notin> {''untrusted'', ''never''}"

definition pair_repr :: "pystr \<Rightarrow> pystr \<Rightarrow> pystr" where
  "pair_repr a b = ''('' @ repr_str a @ '', '' @ repr_str b @ '')''"

definition pairs_repr :: "(pystr \<times> pystr) list \<Rightarrow> pystr" where
  "pairs_repr ps = ''['' @ py_join '', '' (map (\<lambda>(a, b). pair_repr a b) ps) @ '']''"

definition fields_of :: "pystr \<Rightarrow> pystr \<Rightarrow> json \<Rightarrow> (pystr \<times> pystr) list" where
  "fields_of a b v = map (\<lambda>x. (str_at (the_jdict x) a, str_at (the_jdict x) b)) (filter is_jdict (the_jlist v))"

text \<open>\<open>sorted\<close> on pairs of texts.\<close>

definition remember_raw :: "dict \<Rightarrow> pystr" where
  "remember_raw payload =
     (let steps = fields_of ''id'' ''title'' (jor (dget_null payload ''steps'') (JList []));
          choices = sort_key fst (sort_key snd (fields_of ''id'' ''label'' (jor (dget_null payload ''choices'') (JList []))))
      in str_at payload ''title'' @ ''|'' @ str_at payload ''message'' @ ''|'' @ pairs_repr steps @ ''|'' @ pairs_repr choices)"

definition remember_key :: "loop_env \<Rightarrow> dict \<Rightarrow> pystr" where
  "remember_key E payload = take 16 (le_digest E (remember_raw payload))"

definition prompt_texts :: "dict \<Rightarrow> pystr \<Rightarrow> pystr list" where
  "prompt_texts thread turn_id =
     (case List.find (is_turn turn_id) (the_jlist (jor (dget_null thread ''turns'') (JList []))) of
        None \<Rightarrow> []
      | Some t \<Rightarrow> (let p = str_or (dget_null (the_jdict t) ''prompt'') '''' in if p \<noteq> '''' then [p] else []))"

fun add_texts :: "pystr \<Rightarrow> pystr list \<Rightarrow> dict list \<Rightarrow> pystr list" where
  "add_texts turn_id texts [] = texts"
| "add_texts turn_id texts (item # items) =
     (let t = str_or (dget_null item ''text'') '''' in
      add_texts turn_id
        (if dget item ''turnId'' = Some (JStr turn_id) \<and> kind_is ''user_message'' item \<and> t \<noteq> '''' \<and> t \<notin> set texts
         then texts @ [t] else texts) items)"

definition turn_user_texts :: "dict \<Rightarrow> dict list \<Rightarrow> pystr \<Rightarrow> pystr list" where
  "turn_user_texts thread items turn_id = add_texts turn_id (prompt_texts thread turn_id) items"

fun persist_steering :: "loop_env \<Rightarrow> pystr \<Rightarrow> pystr \<Rightarrow> pystr list \<Rightarrow> unit lp" where
  "persist_steering E tid turn_id [] = lret ()"
| "persist_steering E tid turn_id (text # texts) =
     lthen (lift (new_id (le_env E) ''item_steered'')) (\<lambda>iid. lthen (clock_now E) (\<lambda>t1. lthen (clock_now E) (\<lambda>t2.
     lthen (persist_item E tid
       [(''id'', JStr iid), (''turnId'', JStr turn_id), (''threadId'', JStr tid), (''role'', JStr ''user''),
        (''status'', JStr ''completed''), (''kind'', JStr ''user_message''), (''createdAt'', JStr t1), (''finishedAt'', JStr t2),
        (''text'', JStr text)]) (\<lambda>_.
     persist_steering E tid turn_id texts))))"

definition loop_drain_steering :: "loop_env \<Rightarrow> pystr \<Rightarrow> pystr \<Rightarrow> unit lp" where
  "loop_drain_steering E tid turn_id = lthen (lift (drain_steering tid)) (persist_steering E tid turn_id)"


subsection \<open>The confirmation channel\<close>

text \<open>\<open>try: ... finally: ...\<close>: the cleanup sees the result, if there is one; its own exception wins.\<close>

definition finally_do :: "'a act \<Rightarrow> ('a option \<Rightarrow> unit act) \<Rightarrow> 'a act" where
  "finally_do m cleanup k =
     (case m k of
        (Inr x, k1) \<Rightarrow> (case cleanup (Some x) k1 of (Inr _, k2) \<Rightarrow> (Inr x, k2) | (Inl e, k2) \<Rightarrow> (Inl e, k2))
      | (Inl e, k1) \<Rightarrow> (case cleanup None k1 of (Inr _, k2) \<Rightarrow> (Inl e, k2) | (Inl e', k2) \<Rightarrow> (Inl e', k2)))"

definition card_fields :: "dict \<Rightarrow> dict" where
  "card_fields payload = [(''title'', dget_null payload ''title''), (''message'', dget_null payload ''message''),
     (''steps'', dget_or payload ''steps'' (JList [])), (''choices'', dget_or payload ''choices'' (JList []))]"

definition announce_pending :: "loop_env \<Rightarrow> pystr \<Rightarrow> pystr \<Rightarrow> pystr \<Rightarrow> pystr \<Rightarrow> pystr \<Rightarrow> dict \<Rightarrow> unit act" where
  "announce_pending E tid turn_id input_id item_id prompt payload =
     and_then (now_iso (le_env E)) (\<lambda>t1.
     and_then (apply_item (le_env E) tid
       ([(''kind'', JStr ''user_input''), (''id'', JStr item_id), (''turnId'', JStr turn_id), (''threadId'', JStr tid),
         (''role'', JStr ''system''), (''inputId'', JStr input_id), (''prompt'', JStr prompt), (''status'', JStr ''pending'')]
        @ card_fields payload
        @ [(''timeout_seconds'', dget_null payload ''timeout_seconds''),
           (''allow_remember_choice'', dget_or payload ''allow_remember_choice'' (JBool False)), (''createdAt'', JStr t1)])) (\<lambda>_.
     and_then (now_iso (le_env E)) (\<lambda>t2.
     and_then (emit (le_env E)
       ([(''kind'', JStr ''user_input_requested''), (''threadId'', JStr tid), (''turnId'', JStr turn_id),
         (''inputId'', JStr input_id), (''itemId'', JStr item_id), (''status'', JStr ''pending'')]
        @ card_fields payload
        @ [(''timeoutSeconds'', dget_null payload ''timeout_seconds''),
           (''allowRememberChoice'', dget_or payload ''allow_remember_choice'' (JBool False)), (''createdAt'', JStr t2)])) (\<lambda>_.
     and_then (update_turn_status (le_env E) tid turn_id ''waiting_for_user'') (\<lambda>_. ret ())))))"

definition gate_answers :: "dict option \<Rightarrow> dict" where
  "gate_answers r = (case r of None \<Rightarrow> [] | Some d \<Rightarrow> the_jdict (jor (dget_null d ''answers'') (JDict [])))"

definition gate_submitted :: "dict option \<Rightarrow> bool" where
  "gate_submitted r \<longleftrightarrow> (case r of None \<Rightarrow> False | Some d \<Rightarrow> dget_null d ''status'' = JStr ''submitted'')"

definition close_card :: "loop_env \<Rightarrow> pystr \<Rightarrow> pystr \<Rightarrow> pystr \<Rightarrow> pystr \<Rightarrow> pystr option \<Rightarrow> dict option \<Rightarrow> unit act" where
  "close_card E tid turn_id input_id item_id rkey r =
     (let status = JStr (if gate_submitted r then ''submitted'' else ''cancelled'');
          answers = gate_answers r;
          resolution = JDict (if answers \<noteq> [] then answers
                              else if gate_submitted r then [] else [(''status'', JStr ''cancelled'')])
      in and_then (now_iso (le_env E)) (\<lambda>t1.
         and_then (turn_update_item (le_env E) tid item_id
           [(''status'', status), (''resolution'', resolution), (''finishedAt'', JStr t1)]) (\<lambda>_.
         and_then (now_iso (le_env E)) (\<lambda>t2.
         and_then (emit (le_env E) [(''kind'', JStr ''user_input_resolved''), (''threadId'', JStr tid), (''turnId'', JStr turn_id),
           (''inputId'', JStr input_id), (''itemId'', JStr item_id), (''status'', status), (''resolution'', resolution),
           (''createdAt'', JStr t2)]) (\<lambda>_.
         and_then (update_turn_status (le_env E) tid turn_id ''running'') (\<lambda>_.
         case rkey of Some key \<Rightarrow> if gate_submitted r then le_remember E tid key answers else ret () | None \<Rightarrow> ret ()))))))"

text \<open>\<open>await_user_input\<close>; the audit file is not modelled.\<close>

definition await_user_input :: "loop_env \<Rightarrow> (unit act \<Rightarrow> dict \<Rightarrow> dict act) \<Rightarrow> pystr \<Rightarrow> pystr \<Rightarrow> dict \<Rightarrow> dict act" where
  "await_user_input E gate tid turn_id payload =
     (let rkey = (if truthy (dget_null payload ''allow_remember_choice'') then Some (remember_key E payload) else None) in
      and_then (reads (\<lambda>k. case rkey of None \<Rightarrow> None | Some key \<Rightarrow> le_remembered E tid key k)) (\<lambda>cached.
      case cached of
        Some answers \<Rightarrow> ret [(''status'', JStr ''submitted''), (''answers'', JDict answers), (''remembered'', JBool True)]
      | None \<Rightarrow>
          and_then (new_id (le_env E) ''user_input'') (\<lambda>input_id.
          let item_id = ''item_'' @ turn_id @ ''_'' @ py_from input_id (-6);
              prompt = str_or (jor (dget_null payload ''message'') (dget_null payload ''title'')) '''';
              request = [(''item_id'', JStr item_id), (''prompt'', JStr prompt), (''input_id'', JStr input_id),
                (''timeout'', jor (dget_null payload ''timeout_seconds'') JNull),
                (''remember_key'', case rkey of Some key \<Rightarrow> JStr key | None \<Rightarrow> JNull),
                (''choices'', dget_or payload ''choices'' (JList []))]
          in finally_do (gate (announce_pending E tid turn_id input_id item_id prompt payload) request)
               (close_card E tid turn_id input_id item_id rkey))))"

subsection \<open>Tools of a step\<close>

definition tool_context :: "loop_env \<Rightarrow> pystr \<Rightarrow> pystr \<Rightarrow> dict \<Rightarrow> agent_mode \<Rightarrow> pystr list \<Rightarrow> kun host_context" where
  "tool_context E tid turn_id thread mode roots =
     \<lparr>hx_thread = tid, hx_turn = turn_id, hx_policy = py_str (dget_or thread ''approvalPolicy'' (JStr ''auto'')),
      hx_autonomy = py_str (dget_or thread ''autonomyMode'' (JStr ''supervised'')), hx_mode = Some (am_mode mode),
      hx_search_strategy = Some (am_search mode), hx_parallel_limit = Some (tp_parallel (am_tool mode)), hx_roots = roots,
      hx_allowed = None, hx_await_approval = le_approval E,
      hx_await_user_input = map_option (\<lambda>gate. await_user_input E gate tid turn_id) (le_gate E)\<rparr>"

definition budget_skip_reason :: "pystr \<Rightarrow> host_call \<Rightarrow> pystr option lp" where
  "budget_skip_reason turn_id call s =
     (case ls_budget s turn_id of
        None \<Rightarrow> (Inr None, s)
      | Some b \<Rightarrow>
          if tb_finalizing b then (Inr (Some ''time budget reached (finalizing: no more tool calls)''), s)
          else if hc_name call = ''web_search'' then
            (if tb_max_search_phase b \<le> tb_search_phases b
             then (Inr (Some ''search budget used up (one search phase)''), s)
             else (Inr None, s\<lparr>ls_budget := (ls_budget s)(turn_id \<mapsto> b\<lparr>tb_search_phases := Suc (tb_search_phases b)\<rparr>)\<rparr>))
          else (Inr None, s))"

definition storm_check :: "pystr \<Rightarrow> host_call \<Rightarrow> pystr option lp" where
  "storm_check turn_id call s =
     (case ls_storm s turn_id of
        None \<Rightarrow> (Inr None, s)
      | Some sb \<Rightarrow> (case storm_inspect (hc_name call) (the_jdict (hc_arguments call)) sb of
          (r, sb') \<Rightarrow> (Inr r, s\<lparr>ls_storm := (ls_storm s)(turn_id \<mapsto> sb')\<rparr>)))"

definition suppressed_item :: "pystr \<Rightarrow> pystr \<Rightarrow> host_call \<Rightarrow> pystr \<Rightarrow> pystr \<Rightarrow> dict" where
  "suppressed_item tid turn_id call why now =
     [(''kind'', JStr ''tool_result''), (''id'', JStr (''item_'' @ hc_id call @ ''_storm'')), (''turnId'', JStr turn_id),
      (''threadId'', JStr tid), (''role'', JStr ''tool''), (''status'', JStr ''failed''), (''createdAt'', JStr now),
      (''toolName'', JStr (hc_name call)), (''callId'', JStr (hc_id call)), (''toolKind'', JStr ''tool_call''),
      (''output'', JStr (if why \<noteq> '''' then why else ''duplicate tool call suppressed by repeat-loop guard'')),
      (''isError'', JBool True)]"

definition persist_suppressed :: "loop_env \<Rightarrow> pystr \<Rightarrow> pystr \<Rightarrow> host_call \<Rightarrow> pystr \<Rightarrow> unit lp" where
  "persist_suppressed E tid turn_id call why =
     lthen (clock_now E) (\<lambda>now.
     lthen (persist_item E tid (suppressed_item tid turn_id call why now)) (\<lambda>_.
     lift (emit (le_env E) [(''kind'', JStr ''tool_storm_suppressed''), (''threadId'', JStr tid), (''turnId'', JStr turn_id),
       (''toolName'', JStr (hc_name call)), (''callId'', JStr (hc_id call)),
       (''message'', JStr (if why \<noteq> '''' then why else ''duplicate tool call suppressed''))])))"

text \<open>The reason why a call is not executed, the budget first.\<close>

definition skip_call :: "pystr \<Rightarrow> host_call \<Rightarrow> pystr option lp" where
  "skip_call turn_id call =
     lthen (budget_skip_reason turn_id call) (\<lambda>r.
     case r of Some why \<Rightarrow> lret (Some why) | None \<Rightarrow> storm_check turn_id call)"

definition execute_call :: "loop_env \<Rightarrow> kun host_context \<Rightarrow> host_call \<Rightarrow> dict lp" where
  "execute_call E ctx call s =
     (case host_execute (le_host E) ctx call (ls_kun s) of
        (r, _, k) \<Rightarrow> (r, s\<lparr>ls_kun := k, ls_trace := ls_trace s @ [Executed call]\<rparr>))"

text \<open>\<open>gather(..., return_exceptions=True)\<close>: every call of the batch is executed; one that raised has its exception.  The
  model runs them one after the other.\<close>

fun gather_calls :: "loop_env \<Rightarrow> kun host_context \<Rightarrow> host_call list \<Rightarrow> (host_call \<times> dict result) list lp" where
  "gather_calls E ctx [] s = (Inr [], s)"
| "gather_calls E ctx (call # calls) s =
     (case execute_call E ctx call s of (r, s1) \<Rightarrow>
        (case gather_calls E ctx calls s1 of
           (Inl e, s2) \<Rightarrow> (Inl e, s2)
         | (Inr rs, s2) \<Rightarrow> (Inr ((call, r) # rs), s2)))"

definition failed_item :: "pystr \<Rightarrow> pystr \<Rightarrow> host_call \<Rightarrow> pystr \<Rightarrow> py_error \<Rightarrow> dict" where
  "failed_item tid turn_id call now e =
     [(''kind'', JStr ''tool_result''), (''id'', JStr (''item_'' @ turn_id @ ''_'' @ hc_id call)), (''turnId'', JStr turn_id),
      (''threadId'', JStr tid), (''role'', JStr ''tool''), (''status'', JStr ''failed''), (''createdAt'', JStr now),
      (''toolName'', JStr (hc_name call)), (''callId'', JStr (hc_id call)), (''toolKind'', JStr ''tool_call''),
      (''output'', JStr (''Tool execution failed: '' @ exc_text e)), (''isError'', JBool True)]"

fun persist_results :: "loop_env \<Rightarrow> pystr \<Rightarrow> pystr \<Rightarrow> (host_call \<times> dict result) list \<Rightarrow> unit lp" where
  "persist_results E tid turn_id [] = lret ()"
| "persist_results E tid turn_id ((call, r) # rs) =
     lthen (case r of Inr item \<Rightarrow> persist_item E tid item
            | Inl e \<Rightarrow> lthen (clock_now E) (\<lambda>now. persist_item E tid (failed_item tid turn_id call now e))) (\<lambda>_.
     persist_results E tid turn_id rs)"

text \<open>The rest of a batch after its first call: the calls that join it and the calls after it.\<close>

fun collect_batch ::
  "loop_env \<Rightarrow> pystr \<Rightarrow> pystr \<Rightarrow> pystr \<Rightarrow> nat \<Rightarrow> host_call list \<Rightarrow> (host_call list \<times> host_call list) lp" where
  "collect_batch E tid turn_id policy room [] = lret ([], [])"
| "collect_batch E tid turn_id policy room (call # calls) =
     (if room = 0 \<or> \<not> is_parallel_safe call policy then lret ([], call # calls)
      else lthen (skip_call turn_id call) (\<lambda>r.
        case r of
          Some why \<Rightarrow> lthen (persist_suppressed E tid turn_id call why) (\<lambda>_. collect_batch E tid turn_id policy room calls)
        | None \<Rightarrow> lthen (collect_batch E tid turn_id policy (room - 1) calls) (\<lambda>(batch, rest). lret (call # batch, rest))))"

datatype step_outcome = StepContinue | StepStop | StepFailed | StepAborted

definition batch_limit :: "kun host_context \<Rightarrow> nat" where
  "batch_limit ctx = (case hx_parallel_limit ctx of Some n \<Rightarrow> if n = 0 then 3 else n | None \<Rightarrow> 3)"



lemma lthen_Inr: "lthen m f s = (Inr y, s2) \<longleftrightarrow> (\<exists>x s1. m s = (Inr x, s1) \<and> f x s1 = (Inr y, s2))"
  by (auto simp: lthen_def split: prod.splits sum.splits)

lemma lret_Inr: "lret x s = (Inr y, s1) \<longleftrightarrow> y = x \<and> s1 = s"
  by (auto simp: lret_def)

lemma collect_batch_shorter:
  "collect_batch E tid turn_id policy room calls s = (Inr (batch, rest), s') \<Longrightarrow> length batch + length rest \<le> length calls"
proof (induction E tid turn_id policy room calls arbitrary: batch s rule: collect_batch.induct)
  case (2 E tid turn_id policy room call calls)
  show ?case
  proof (cases "room = 0 \<or> \<not> is_parallel_safe call policy")
    case True
    with 2(3) show ?thesis by (auto simp: lret_Inr)
  next
    case False
    with 2(3) obtain r s1 where r: "skip_call turn_id call s = (Inr r, s1)"
      "(case r of Some why \<Rightarrow> lthen (persist_suppressed E tid turn_id call why) (\<lambda>_. collect_batch E tid turn_id policy room calls)
        | None \<Rightarrow> lthen (collect_batch E tid turn_id policy (room - 1) calls) (\<lambda>(batch, rest). lret (call # batch, rest))) s1
        = (Inr (batch, rest), s')"
      by (simp only: collect_batch.simps if_False lthen_Inr) blast
    show ?thesis
    proof (cases r)
      case None
      with r obtain b where "batch = call # b" "collect_batch E tid turn_id policy (room - 1) calls s1 = (Inr (b, rest), s')"
        by (auto simp: lthen_Inr lret_Inr)
      then show ?thesis using 2(1)[OF False] None by fastforce
    next
      case (Some why)
      with r obtain s2 where "collect_batch E tid turn_id policy room calls s2 = (Inr (batch, rest), s')"
        by (auto simp: lthen_Inr)
      then show ?thesis using 2(2)[OF False] Some by fastforce
    qed
  qed
qed (simp add: lret_Inr)

function dispatch_tool_calls ::
  "loop_env \<Rightarrow> pystr \<Rightarrow> pystr \<Rightarrow> kun host_context \<Rightarrow> host_call list \<Rightarrow> step_outcome lp" where
  "dispatch_tool_calls E tid turn_id ctx [] s = (Inr StepContinue, s)"
| "dispatch_tool_calls E tid turn_id ctx (call # calls) s =
     (if turn_id \<in> k_cancelled (ls_kun s) then (Inr StepAborted, s)
      else case skip_call turn_id call s of
        (Inl e, s1) \<Rightarrow> (Inl e, s1)
      | (Inr (Some why), s1) \<Rightarrow>
          (case persist_suppressed E tid turn_id call why s1 of
             (Inl e, s2) \<Rightarrow> (Inl e, s2)
           | (Inr _, s2) \<Rightarrow> dispatch_tool_calls E tid turn_id ctx calls s2)
      | (Inr None, s1) \<Rightarrow>
          (if \<not> is_parallel_safe call (hx_policy ctx) then
             (case lthen (execute_call E ctx call) (persist_item E tid) s1 of
                (Inl e, s2) \<Rightarrow> (Inl e, s2)
              | (Inr _, s2) \<Rightarrow> dispatch_tool_calls E tid turn_id ctx calls s2)
           else
             (case collect_batch E tid turn_id (hx_policy ctx) (batch_limit ctx - 1) calls s1 of
                (Inl e, s2) \<Rightarrow> (Inl e, s2)
              | (Inr (batch, rest), s2) \<Rightarrow>
                  (case lthen (gather_calls E ctx (call # batch)) (persist_results E tid turn_id) s2 of
                     (Inl e, s3) \<Rightarrow> (Inl e, s3)
                   | (Inr _, s3) \<Rightarrow> dispatch_tool_calls E tid turn_id ctx rest s3))))"
  by pat_completeness auto
termination
  by (relation "measure (\<lambda>(_, _, _, _, calls, _). length calls)") (auto dest!: collect_batch_shorter[OF sym])

declare dispatch_tool_calls.simps(2) [simp del]

subsection \<open>One model step\<close>

record stream_acc =
  sa_text :: pystr
  sa_reasoning :: pystr
  sa_calls :: "host_call list"
  sa_stop :: pystr

definition empty_acc :: stream_acc where
  "empty_acc = \<lparr>sa_text = '''', sa_reasoning = '''', sa_calls = [], sa_stop = ''stop''\<rparr>"

definition text_item :: "pystr \<Rightarrow> pystr \<Rightarrow> pystr \<Rightarrow> pystr \<Rightarrow> pystr \<Rightarrow> pystr \<Rightarrow> dict \<Rightarrow> pystr \<Rightarrow> dict" where
  "text_item tid turn_id pre status kind now finished text =
     [(''id'', JStr (pre @ turn_id)), (''turnId'', JStr turn_id), (''threadId'', JStr tid), (''role'', JStr ''assistant''),
      (''status'', JStr status), (''kind'', JStr kind), (''createdAt'', JStr now)] @ finished @ [(''text'', JStr text)]"

definition call_item :: "pystr \<Rightarrow> pystr \<Rightarrow> host_call \<Rightarrow> pystr \<Rightarrow> dict" where
  "call_item tid turn_id call now =
     [(''id'', JStr (''item_tool_'' @ turn_id @ ''_'' @ hc_id call)), (''turnId'', JStr turn_id), (''threadId'', JStr tid),
      (''role'', JStr ''assistant''), (''status'', JStr ''completed''), (''kind'', JStr ''tool_call''), (''createdAt'', JStr now),
      (''toolName'', JStr (hc_name call)), (''callId'', JStr (hc_id call)), (''toolKind'', JStr ''tool_call''),
      (''arguments'', hc_arguments call)]"

text \<open>The usage chunk holds numbers; the accumulated snapshot is written into the event.\<close>

definition usage_of :: "dict \<Rightarrow> int usage" where
  "usage_of d = map (\<lambda>(k, v). (k, case as_int v of Some n \<Rightarrow> UNum n | None \<Rightarrow> UOther v)) d"


definition usage_json :: "int usage \<Rightarrow> dict" where
  "usage_json u = map (\<lambda>(k, v). (k, case v of UNum n \<Rightarrow> JNum n | UOther j \<Rightarrow> j)) u"

definition record_usage :: "loop_env \<Rightarrow> pystr \<Rightarrow> pystr \<Rightarrow> json \<Rightarrow> dict \<Rightarrow> unit lp" where
  "record_usage E tid turn_id model u s =
     (case usage_record tid (usage_of u) (ls_usage s) of
        Inl e \<Rightarrow> (Inl e, s)
      | Inr (snap, us) \<Rightarrow>
          lift (emit (le_env E) [(''kind'', JStr ''usage''), (''threadId'', JStr tid), (''turnId'', JStr turn_id),
            (''model'', model), (''usage'', JDict (usage_json snap))]) (s\<lparr>ls_usage := us\<rparr>))"

text \<open>A tool call in the stream: the repeat-loop guard sees it first; the model's call item is persisted.\<close>

definition on_tool_call :: "loop_env \<Rightarrow> pystr \<Rightarrow> pystr \<Rightarrow> host_call \<Rightarrow> stream_acc \<Rightarrow> stream_acc lp" where
  "on_tool_call E tid turn_id call acc =
     lthen (storm_check turn_id call) (\<lambda>r.
     case r of
       Some why \<Rightarrow> lthen (persist_suppressed E tid turn_id call why) (\<lambda>_. lret acc)
     | None \<Rightarrow>
         lthen (clock_now E) (\<lambda>now.
         lthen (persist_item E tid (call_item tid turn_id call now)) (\<lambda>_.
         lthen (lift (emit (le_env E) [(''kind'', JStr ''tool_call_ready''), (''threadId'', JStr tid), (''turnId'', JStr turn_id),
           (''itemId'', JStr (''item_tool_'' @ turn_id @ ''_'' @ hc_id call)), (''callId'', JStr (hc_id call)),
           (''toolName'', JStr (hc_name call)), (''readyCount'', JNum (int (Suc (length (sa_calls acc)))))])) (\<lambda>_.
         lret (acc\<lparr>sa_calls := sa_calls acc @ [call]\<rparr>)))))"

definition on_chunk :: "loop_env \<Rightarrow> pystr \<Rightarrow> pystr \<Rightarrow> json \<Rightarrow> chunk \<Rightarrow> stream_acc \<Rightarrow> stream_acc lp" where
  "on_chunk E tid turn_id model c acc =
     (case c of
        TextDelta text \<Rightarrow>
          lthen (clock_now E) (\<lambda>now.
          lthen (lift (emit (le_env E) [(''kind'', JStr ''assistant_text_delta''), (''threadId'', JStr tid), (''turnId'', JStr turn_id),
            (''itemId'', JStr (''item_text_'' @ turn_id)),
            (''item'', JDict (text_item tid turn_id ''item_text_'' ''running'' ''assistant_text'' now [] text))])) (\<lambda>_.
          lret (acc\<lparr>sa_text := sa_text acc @ text\<rparr>)))
      | ReasoningDelta text \<Rightarrow> lret (acc\<lparr>sa_reasoning := sa_reasoning acc @ text\<rparr>)
      | ToolCallComplete cid name args \<Rightarrow>
          on_tool_call E tid turn_id \<lparr>hc_id = cid, hc_name = name, hc_arguments = JDict args\<rparr> acc
      | UsageChunk u \<Rightarrow> lthen (record_usage E tid turn_id model u) (\<lambda>_. lret acc)
      | Completed why \<Rightarrow> lret (acc\<lparr>sa_stop := (if why \<noteq> '''' then why else ''stop'')\<rparr>)
      | ErrorChunk message code \<Rightarrow>
          lthen (lift (emit (le_env E) [(''kind'', JStr ''error''), (''threadId'', JStr tid), (''turnId'', JStr turn_id),
            (''message'', JStr (if message \<noteq> '''' then message else ''Unknown error'')), (''code'', JStr code)])) (\<lambda>_.
          lret (acc\<lparr>sa_stop := ''error''\<rparr>)))"

text \<open>\<open>None\<close> when the token is found set.\<close>

fun stream_loop :: "loop_env \<Rightarrow> pystr \<Rightarrow> pystr \<Rightarrow> json \<Rightarrow> chunk list \<Rightarrow> stream_acc \<Rightarrow> stream_acc option lp" where
  "stream_loop E tid turn_id model [] acc = lret (Some acc)"
| "stream_loop E tid turn_id model (c # cs) acc =
     lthen (lmod (\<lambda>s. s\<lparr>ls_kun := le_meanwhile E (ls_kun s)\<rparr>)) (\<lambda>_.
     lthen (token_set turn_id) (\<lambda>stopped.
     if stopped then lret None
     else lthen (on_chunk E tid turn_id model c acc) (stream_loop E tid turn_id model cs)))"

definition compact_if_needed :: "loop_env \<Rightarrow> pystr \<Rightarrow> pystr \<Rightarrow> dict list \<Rightarrow> dict list lp" where
  "compact_if_needed E tid turn_id items =
     (case plan_compaction (le_compactor E) items None of
        None \<Rightarrow> lret items
      | Some plan \<Rightarrow>
          lthen (lget (\<lambda>s. k_tick (ls_kun s))) (\<lambda>tick. lthen (clock_now E) (\<lambda>now.
          case compact now (nat_str tick) tid turn_id items [''user: preserve recent turns''] (cp_keep plan) (cp_reason plan) (cp_mode plan) None of
            Inl e \<Rightarrow> (\<lambda>s. (Inl e, s))
          | Inr out \<Rightarrow>
              (if co_replaced out > 0 then
                 lthen (lift (add_item tid (co_summary_item out))) (\<lambda>_.
                 lthen (trace_effect (Persisted (co_summary_item out))) (\<lambda>_.
                 lthen (lift (emit (le_env E) [(''kind'', JStr ''compaction_completed''), (''threadId'', JStr tid), (''turnId'', JStr turn_id),
                   (''itemId'', dget_null (co_summary_item out) ''id''), (''summary'', dget_null (co_summary_item out) ''summary''),
                   (''replacedTokens'', JNum (int (co_replaced out)))])) (\<lambda>_.
                 lret (co_next out))))
               else lret (co_next out)))))"

definition spec_of :: "dict \<Rightarrow> tool_spec" where
  "spec_of t = \<lparr>ts_name = str_at t ''name'', ts_description = str_at t ''description'', ts_input_schema = dget_or t ''inputSchema'' (JDict []),
     ts_tool_kind = Some (str_at t ''toolKind'')\<rparr>"

text \<open>The instructions are long texts in the source; their names stand for them.\<close>

definition instructions_for :: "bool \<Rightarrow> tool_spec list \<Rightarrow> pystr list" where
  "instructions_for economy specs =
     (if economy then [''TOKEN_ECONOMY_INSTRUCTION''] else [])
     @ (if \<exists>t \<in> set specs. ts_name t = ASK_USER_CONFIRM_TOOL then [''ASK_USER_CONFIRM_INSTRUCTION''] else [])
     @ (if \<exists>t \<in> set specs. ts_name t = ''declare_result_files'' then [''DECLARE_RESULT_FILES_INSTRUCTION''] else [])
     @ [''VISUAL_ANSWER_INSTRUCTION'']"

definition system_prompt_for :: "agent_mode \<Rightarrow> bool \<Rightarrow> pystr" where
  "system_prompt_for mode finalizing =
     ''You are Kun, a careful and helpful AI assistant.'' @
     (if am_snippet mode \<noteq> '''' then [CHR 0x0A, CHR 0x0A] @ am_snippet mode else []) @
     (if finalizing then [CHR 0x0A, CHR 0x0A] @ ''[finalizing] call no more tools and answer with what you have'' else [])"

definition step_request :: "bool \<Rightarrow> pystr \<Rightarrow> pystr \<Rightarrow> pystr \<Rightarrow> agent_mode \<Rightarrow> bool \<Rightarrow> tool_spec list \<Rightarrow> dict list \<Rightarrow> model_request" where
  "step_request economy tid turn_id model mode finalizing specs hist =
     \<lparr>mr_thread = tid, mr_turn = turn_id, mr_model = model, mr_system_prompt = system_prompt_for mode finalizing,
      mr_mode_instruction = '''', mr_instructions = instructions_for economy specs, mr_history = hist, mr_tools = specs,
      mr_max_tokens = am_max_tokens mode\<rparr>"

definition thread_mode_config :: "dict \<Rightarrow> agent_mode" where
  "thread_mode_config thread =
     get_mode_config (dget_null (the_jdict (jor (dget_null thread ''metadata'') (JDict []))) ''mode'')"

definition thread_or_empty :: "pystr \<Rightarrow> dict lp" where
  "thread_or_empty tid = lthen (lift (read_thread tid)) (\<lambda>t. lret (case t of None \<Rightarrow> [] | Some d \<Rightarrow> d))"

definition persist_text :: "loop_env \<Rightarrow> pystr \<Rightarrow> pystr \<Rightarrow> pystr \<Rightarrow> unit lp" where
  "persist_text E tid turn_id text =
     (if text = '''' then lret ()
      else lthen (clock_now E) (\<lambda>t1. lthen (clock_now E) (\<lambda>t2.
        persist_item E tid (text_item tid turn_id ''item_text_'' ''completed'' ''assistant_text'' t1 [(''finishedAt'', JStr t2)] text))))"

definition persist_reasoning :: "loop_env \<Rightarrow> pystr \<Rightarrow> pystr \<Rightarrow> pystr \<Rightarrow> unit lp" where
  "persist_reasoning E tid turn_id text =
     (if text = '''' then lret ()
      else lthen (clock_now E) (\<lambda>t1.
        persist_item E tid (text_item tid turn_id ''item_reasoning_'' ''completed'' ''assistant_reasoning'' t1 [] text)))"

text \<open>After the stream: what the model said is persisted, then its calls are dispatched.\<close>

definition after_stream :: "loop_env \<Rightarrow> pystr \<Rightarrow> pystr \<Rightarrow> kun host_context \<Rightarrow> stream_acc \<Rightarrow> step_outcome lp" where
  "after_stream E tid turn_id ctx acc =
     lthen (record_pipeline E tid turn_id ''response_received''
       [(''stopReason'', JStr (sa_stop acc)), (''toolCallCount'', JNum (int (length (sa_calls acc))))]) (\<lambda>_.
     lthen (persist_text E tid turn_id (sa_text acc)) (\<lambda>_.
     lthen (persist_reasoning E tid turn_id (sa_reasoning acc)) (\<lambda>_.
     if sa_stop acc = ''error'' then lret StepFailed
     else if sa_calls acc = [] then lret StepStop
     else dispatch_tool_calls E tid turn_id ctx (sa_calls acc))))"

definition model_step :: "loop_env \<Rightarrow> pystr \<Rightarrow> pystr \<Rightarrow> nat \<Rightarrow> step_outcome lp" where
  "model_step E tid turn_id step_index =
     lthen (record_pipeline E tid turn_id ''input_received'' [(''stepIndex'', JNum (int step_index))]) (\<lambda>_.
     lthen (thread_or_empty tid) (\<lambda>thread.
     lthen (lift (get_turn tid turn_id)) (\<lambda>turn.
     lthen (lget (\<lambda>s. load_items tid (k_sessions (ls_kun s)))) (\<lambda>items.
     lthen (record_pipeline E tid turn_id ''input_cached'' []) (\<lambda>_.
     let model = jor (jor (dget_null (case turn of None \<Rightarrow> [] | Some d \<Rightarrow> d) ''model'') (dget_null thread ''model'')) (JStr (le_default_model E));
         mode = thread_mode_config thread;
         roots = le_roots E (turn_user_texts thread items turn_id) (str_or (dget_null thread ''workspace'') '''');
         ctx = tool_context E tid turn_id thread mode roots;
         specs = map spec_of (list_tools (le_host E) ctx)
     in lthen (record_pipeline E tid turn_id ''input_routed'' [(''model'', model)]) (\<lambda>_.
        lthen (compact_if_needed E tid turn_id items) (\<lambda>hist.
        lthen (token_set turn_id) (\<lambda>stopped.
        if stopped then lret StepAborted
        else
          lthen (record_pipeline E tid turn_id ''input_compressed'' [(''historyItems'', JNum (int (length hist)))]) (\<lambda>_.
          lthen (lget (\<lambda>s. case ls_budget s turn_id of None \<Rightarrow> False | Some b \<Rightarrow> tb_finalizing b)) (\<lambda>finalizing.
          let request = step_request (le_economy E) tid turn_id (py_str model) mode finalizing specs hist
          in lthen (record_pipeline E tid turn_id ''pre_send'' [(''model'', model), (''historyItems'', JNum (int (length hist))),
               (''toolCount'', JNum (int (length specs)))]) (\<lambda>_.
             lthen (record_pipeline E tid turn_id ''post_send'' [(''model'', model)]) (\<lambda>_.
             lthen (trace_effect (Requested request)) (\<lambda>_.
             lthen (stream_loop E tid turn_id model (model_stream (le_provider E) (le_default_model E) request) empty_acc) (\<lambda>acc.
             case acc of None \<Rightarrow> lret StepAborted | Some a \<Rightarrow> after_stream E tid turn_id ctx a))))))))))))))"


subsection \<open>Rounds and turns\<close>

definition enter_finalization :: "pystr \<Rightarrow> int \<Rightarrow> int \<Rightarrow> unit lp" where
  "enter_finalization turn_id finalize_at now s =
     (if finalize_at \<le> now then
        (case ls_budget s turn_id of
           None \<Rightarrow> (Inl (KeyError turn_id), s)
         | Some b \<Rightarrow>
             (Inr (), if tb_finalizing b then s
                      else s\<lparr>ls_budget := (ls_budget s)(turn_id \<mapsto> b\<lparr>tb_finalizing := True\<rparr>)\<rparr>))
      else (Inr (), s))"

text \<open>The rounds of a turn: \<open>limits\<close> holds the time of finalization and the hard stop, if the mode has a budget; the last
  argument is the number of rounds left.\<close>

fun loop_rounds :: "loop_env \<Rightarrow> pystr \<Rightarrow> pystr \<Rightarrow> (int \<times> int) option \<Rightarrow> nat \<Rightarrow> nat \<Rightarrow> pystr lp" where
  "loop_rounds E tid turn_id limits step 0 = lret ''completed''"
| "loop_rounds E tid turn_id limits step (Suc left) =
     lthen (token_set turn_id) (\<lambda>stopped.
     if stopped then lret ''aborted''
     else
       lthen (lget (\<lambda>s. le_mono E (ls_kun s))) (\<lambda>now.
       if (case limits of None \<Rightarrow> False | Some (_, hard_stop) \<Rightarrow> hard_stop \<le> now) then lret ''completed''
       else
         lthen (case limits of None \<Rightarrow> lret () | Some (finalize_at, _) \<Rightarrow> enter_finalization turn_id finalize_at now) (\<lambda>_.
         lthen (loop_drain_steering E tid turn_id) (\<lambda>_.
         lthen (model_step E tid turn_id step) (\<lambda>r.
         case r of
           StepStop \<Rightarrow> lret ''completed''
         | StepFailed \<Rightarrow> lret ''failed''
         | StepAborted \<Rightarrow> lret ''aborted''
         | StepContinue \<Rightarrow> loop_rounds E tid turn_id limits (Suc step) left)))))"

definition or_default :: "nat option \<Rightarrow> nat \<Rightarrow> nat" where
  "or_default n d = (case n of Some (Suc k) \<Rightarrow> Suc k | _ \<Rightarrow> d)"

definition max_rounds :: "agent_mode \<Rightarrow> nat" where
  "max_rounds mode = or_default (tp_max_rounds (am_tool mode)) 100"

definition time_limits :: "agent_mode \<Rightarrow> int \<Rightarrow> (int \<times> int) option" where
  "time_limits mode t0 =
     (case tp_time_budget (am_tool mode) of
        None \<Rightarrow> None
      | Some b \<Rightarrow> if b = 0 then None else Some (t0 + b - tp_grace (am_tool mode), t0 + b))"

definition lfinally :: "'a lp \<Rightarrow> (lstate \<Rightarrow> lstate) \<Rightarrow> 'a lp" where
  "lfinally m cleanup s = (case m s of (r, s1) \<Rightarrow> (r, cleanup s1))"

definition agent_loop :: "loop_env \<Rightarrow> pystr \<Rightarrow> pystr \<Rightarrow> pystr lp" where
  "agent_loop E tid turn_id =
     lthen (thread_or_empty tid) (\<lambda>thread.
     let mode = thread_mode_config thread
     in lthen (lget (\<lambda>s. le_mono E (ls_kun s))) (\<lambda>t0.
        lthen (lmod (\<lambda>s. s\<lparr>ls_budget := (ls_budget s)(turn_id \<mapsto> \<lparr>tb_finalizing = False, tb_search_phases = 0,
          tb_max_search_phase = or_default (tp_max_search (am_tool mode)) 99\<rparr>)\<rparr>)) (\<lambda>_.
        lfinally (loop_rounds E tid turn_id (time_limits mode t0) 0 (max_rounds mode))
          (\<lambda>s. s\<lparr>ls_budget := (ls_budget s)(turn_id := None)\<rparr>))))"

definition install_storm :: "loop_env \<Rightarrow> pystr \<Rightarrow> unit lp" where
  "install_storm E turn_id =
     (case le_storm E of
        None \<Rightarrow> lret ()
      | Some (w, t) \<Rightarrow> lmod (\<lambda>s. s\<lparr>ls_storm := (ls_storm s)(turn_id \<mapsto> new_breaker w t)\<rparr>))"

definition finish :: "loop_env \<Rightarrow> pystr \<Rightarrow> pystr \<Rightarrow> pystr \<Rightarrow> pystr option \<Rightarrow> pystr lp" where
  "finish E tid turn_id status error = lthen (lift (finish_turn (le_env E) tid turn_id status error)) (\<lambda>_. lret status)"

definition turn_body :: "loop_env \<Rightarrow> pystr \<Rightarrow> pystr \<Rightarrow> pystr lp" where
  "turn_body E tid turn_id =
     lthen (install_storm E turn_id) (\<lambda>_.
     lthen (record_pipeline E tid turn_id ''setup'' []) (\<lambda>_.
     lthen (record_pipeline E tid turn_id ''pre_start'' []) (\<lambda>_.
     lthen (loop_drain_steering E tid turn_id) (\<lambda>_.
     lthen (record_pipeline E tid turn_id ''post_start'' []) (\<lambda>_.
     lthen (agent_loop E tid turn_id) (\<lambda>status. finish E tid turn_id status None))))))"

definition lcatch :: "'a lp \<Rightarrow> (py_error \<Rightarrow> 'a lp) \<Rightarrow> 'a lp" where
  "lcatch m handler s = (case m s of (Inl e, s1) \<Rightarrow> handler e s1 | (Inr x, s1) \<Rightarrow> (Inr x, s1))"

definition run_turn :: "loop_env \<Rightarrow> pystr \<Rightarrow> pystr \<Rightarrow> pystr lp" where
  "run_turn E tid turn_id =
     lthen (lift (get_abort_token turn_id)) (\<lambda>has_token.
     if \<not> has_token then finish E tid turn_id ''failed'' (Some ''no abort token'')
     else
       lthen (token_set turn_id) (\<lambda>stopped.
       if stopped then finish E tid turn_id ''aborted'' None
       else lfinally (lcatch (turn_body E tid turn_id) (\<lambda>e. finish E tid turn_id ''failed'' (Some (exc_text e))))
              (\<lambda>s. s\<lparr>ls_storm := (ls_storm s)(turn_id := None)\<rparr>)))"

end
