(* ===== verification/KunLoopFacts.thy ===== *)
theory KunLoopFacts
  imports KunLoop "HOL-Library.Multiset"
begin

text \<open>
  What the agent loop does: the dispatch of tool calls answers every call of the model and executes none that the budget
  of the turn refuses, a turn asks the model a bounded number of times, and whatever happens a turn is closed and its
  tables are cleared.  The facts are stated on the ghost trace of the loop.
\<close>


subsection \<open>What the dispatch of tool calls does\<close>

fun answer_of :: "loop_effect \<Rightarrow> json list" where
  "answer_of (Persisted item) = (if kind_is ''tool_result'' item then [dget_null item ''callId''] else [])"
| "answer_of _ = []"

fun execution_of :: "loop_effect \<Rightarrow> host_call list" where
  "execution_of (Executed call) = [call]"
| "execution_of _ = []"

definition answered :: "lstate \<Rightarrow> json multiset" where
  "answered s = mset (concat (map answer_of (ls_trace s)))"

definition executed :: "lstate \<Rightarrow> host_call multiset" where
  "executed s = mset (concat (map execution_of (ls_trace s)))"

definition call_ids_of :: "host_call multiset \<Rightarrow> json multiset" where
  "call_ids_of cs = image_mset (\<lambda>c. JStr (hc_id c)) cs"

lemma call_ids_of_simps [simp]:
  "call_ids_of {#} = {#}" "call_ids_of (add_mset c cs) = add_mset (JStr (hc_id c)) (call_ids_of cs)"
  "call_ids_of (A + B) = call_ids_of A + call_ids_of B"
  by (simp_all add: call_ids_of_def)

lemma lift_frame:
  "lift a s = (r, s') \<Longrightarrow> answered s' = answered s \<and> executed s' = executed s \<and> ls_budget s' = ls_budget s \<and> ls_storm s' = ls_storm s"
  by (auto simp: lift_def answered_def executed_def split: prod.splits)

lemma trace_effect_frame:
  "trace_effect e s = (r, s') \<Longrightarrow> r = Inr () \<and> answered s' = answered s + mset (answer_of e)
     \<and> executed s' = executed s + mset (execution_of e) \<and> ls_budget s' = ls_budget s \<and> ls_storm s' = ls_storm s"
  by (auto simp: trace_effect_def lmod_def answered_def executed_def)

lemma persist_item_frame:
  assumes "persist_item E tid item s = (r, s')"
  shows "executed s' = executed s" "ls_budget s' = ls_budget s"
    "r = Inr u \<Longrightarrow> answered s' = answered s + mset (answer_of (Persisted item))"
  using assms
  by (auto simp: persist_item_def lthen_def split: prod.splits sum.splits dest!: lift_frame trace_effect_frame)

lemma answers_call_answer: "answers_call call item \<Longrightarrow> answer_of (Persisted item) = [JStr (hc_id call)]"
  by (simp add: answers_call_def kind_is_def dget_or_def dget_def)

lemma suppressed_answer: "answer_of (Persisted (suppressed_item tid turn_id call why now)) = [JStr (hc_id call)]"
  "answer_of (Persisted (failed_item tid turn_id call now e)) = [JStr (hc_id call)]"
  by (simp_all add: suppressed_item_def failed_item_def kind_is_def dget_or_def dget_def)


declare answer_of.simps(1) [simp del]

lemma persist_item_frame':
  "persist_item E tid item s = (r, s') \<Longrightarrow> executed s' = executed s \<and> ls_budget s' = ls_budget s
     \<and> (r = Inr () \<longrightarrow> answered s' = answered s + mset (answer_of (Persisted item)))"
  using persist_item_frame[of E tid item s r s'] by auto

text \<open>The calls a step of the dispatch admits: none when the turn is finalizing, and no more searches than the budget has
  left.  \<open>cs\<close> are the admitted calls.\<close>

definition searches :: "host_call multiset \<Rightarrow> nat" where
  "searches cs = size {#c \<in># cs. hc_name c = ''web_search''#}"

definition admits :: "pystr \<Rightarrow> lstate \<Rightarrow> lstate \<Rightarrow> host_call multiset \<Rightarrow> bool" where
  "admits turn_id s s' cs \<longleftrightarrow>
     (\<forall>b. ls_budget s turn_id = Some b \<longrightarrow>
        (\<exists>b'. ls_budget s' turn_id = Some b' \<and> tb_finalizing b' = tb_finalizing b \<and> tb_max_search_phase b' = tb_max_search_phase b
          \<and> tb_search_phases b + searches cs \<le> tb_search_phases b'
          \<and> tb_search_phases b' \<le> max (tb_search_phases b) (tb_max_search_phase b)
          \<and> (tb_finalizing b \<longrightarrow> cs = {#})))"

lemma searches_simps [simp]: "searches {#} = 0" "searches (A + B) = searches A + searches B"
  by (simp_all add: searches_def)

lemma admits_refl: "ls_budget s' = ls_budget s \<Longrightarrow> admits turn_id s s' {#}"
  by (auto simp: admits_def)

lemma admits_trans: "admits turn_id s s1 A \<Longrightarrow> admits turn_id s1 s2 B \<Longrightarrow> admits turn_id s s2 (A + B)"
  unfolding admits_def by (fastforce simp: max_def split: if_splits)

lemma admits_mono: "admits turn_id s s' A \<Longrightarrow> B \<subseteq># A \<Longrightarrow> admits turn_id s s' B"
proof -
  assume A: "admits turn_id s s' A" and B: "B \<subseteq># A"
  from B have "searches B \<le> searches A"
    by (metis le_add1 searches_simps(2) subset_mset.le_iff_add)
  with A B show ?thesis unfolding admits_def by fastforce
qed

lemma admits_frame: "admits turn_id s s' A \<Longrightarrow> ls_budget s'' = ls_budget s' \<Longrightarrow> admits turn_id s s'' A"
  by (simp add: admits_def)

lemma storm_check_frame:
  "storm_check turn_id call s = (r, s') \<Longrightarrow> ls_trace s' = ls_trace s \<and> ls_budget s' = ls_budget s \<and> ls_kun s' = ls_kun s"
  by (auto simp: storm_check_def split: option.splits prod.splits)

lemma budget_skip_frame:
  assumes "budget_skip_reason turn_id call s = (r, s')"
  shows "\<exists>r1. r = Inr r1 \<and> ls_trace s' = ls_trace s \<and> ls_kun s' = ls_kun s \<and> admits turn_id s s' (if r1 = None then {#call#} else {#})"
proof (cases "ls_budget s turn_id")
  case None
  with assms show ?thesis by (auto simp: budget_skip_reason_def admits_def)
next
  case (Some b)
  consider (fin) "tb_finalizing b" | (used) "\<not> tb_finalizing b" "hc_name call = ''web_search''" "tb_max_search_phase b \<le> tb_search_phases b"
    | (search) "\<not> tb_finalizing b" "hc_name call = ''web_search''" "\<not> tb_max_search_phase b \<le> tb_search_phases b"
    | (other) "\<not> tb_finalizing b" "hc_name call \<noteq> ''web_search''" by blast
  then show ?thesis
  proof cases
    case search
    have s': "s' = s\<lparr>ls_budget := (ls_budget s)(turn_id \<mapsto> b\<lparr>tb_search_phases := Suc (tb_search_phases b)\<rparr>)\<rparr>" "r = Inr None"
      using assms search Some by (simp_all add: budget_skip_reason_def)
    show ?thesis unfolding s' using search Some by (simp add: admits_def searches_def)
  qed (use assms Some in \<open>auto simp: budget_skip_reason_def admits_def searches_def\<close>)
qed

lemma skip_call_frame:
  assumes "skip_call turn_id call s = (r, s')"
  shows "answered s' = answered s" "executed s' = executed s" "admits turn_id s s' (if r = Inr None then {#call#} else {#})"
proof -
  obtain r1 s1 where b: "budget_skip_reason turn_id call s = (Inr r1, s1)" "ls_trace s1 = ls_trace s" "ls_kun s1 = ls_kun s"
    "admits turn_id s s1 (if r1 = None then {#call#} else {#})"
  proof -
    obtain r0 s0 where b: "budget_skip_reason turn_id call s = (r0, s0)" by force
    from budget_skip_frame[OF this] obtain r1 where "r0 = Inr r1" by blast
    with budget_skip_frame[OF b] b that show thesis by auto
  qed
  with assms have s: "(if r1 = None then storm_check turn_id call s1 else (Inr r1, s1)) = (r, s')"
    by (auto simp: skip_call_def lthen_def lret_def split: option.splits)
  then have t: "ls_trace s' = ls_trace s" "ls_budget s' = ls_budget s1" "r1 \<noteq> None \<Longrightarrow> r = Inr r1"
    using b(2) by (auto split: if_splits dest: storm_check_frame)
  then show "answered s' = answered s" "executed s' = executed s"
    by (simp_all add: answered_def executed_def)
  have "admits turn_id s s' (if r1 = None then {#call#} else {#})" using b(4) t(2) by (rule admits_frame)
  then show "admits turn_id s s' (if r = Inr None then {#call#} else {#})"
    using t(3) by (auto intro: admits_mono split: if_splits)
qed

lemma persist_suppressed_frame:
  assumes "persist_suppressed E tid turn_id call why s = (r, s')"
  shows "executed s' = executed s" "ls_budget s' = ls_budget s" "r = Inr u \<Longrightarrow> answered s' = add_mset (JStr (hc_id call)) (answered s)"
proof -
  from assms have "executed s' = executed s \<and> ls_budget s' = ls_budget s
    \<and> (r = Inr u \<longrightarrow> answered s' = add_mset (JStr (hc_id call)) (answered s))"
    unfolding persist_suppressed_def lthen_def clock_now_def
    by (auto simp: suppressed_answer split: prod.splits sum.splits dest!: lift_frame persist_item_frame')
  then show "executed s' = executed s" "ls_budget s' = ls_budget s" "r = Inr u \<Longrightarrow> answered s' = add_mset (JStr (hc_id call)) (answered s)"
    by blast+
qed

lemma execute_call_frame:
  assumes "execute_call E ctx call s = (r, s')"
  shows "answered s' = answered s" "executed s' = add_mset call (executed s)" "ls_budget s' = ls_budget s"
    "r = Inr item \<Longrightarrow> answers_call call item"
  using assms
  by (auto simp: execute_call_def answered_def executed_def split: prod.splits dest!: host_execute_cleared)

lemma gather_calls_frame:
  assumes "gather_calls E ctx calls s = (r, s')"
  shows "answered s' = answered s \<and> executed s' = executed s + mset calls \<and> ls_budget s' = ls_budget s
    \<and> (\<exists>rs. r = Inr rs \<and> map fst rs = calls \<and> (\<forall>(c, x) \<in> set rs. \<forall>item. x = Inr item \<longrightarrow> answers_call c item))"
  using assms
proof (induction calls arbitrary: s r s')
  case (Cons call calls)
  obtain r1 s1 where e: "execute_call E ctx call s = (r1, s1)" by force
  obtain r2 s2 where g: "gather_calls E ctx calls s1 = (r2, s2)" by force
  from Cons.IH[OF g] obtain rs where rs: "r2 = Inr rs" "map fst rs = calls"
    "\<forall>(c, x) \<in> set rs. \<forall>item. x = Inr item \<longrightarrow> answers_call c item" "answered s2 = answered s1"
    "executed s2 = executed s1 + mset calls" "ls_budget s2 = ls_budget s1" by auto
  with Cons.prems e g have "r = Inr ((call, r1) # rs)" "s' = s2" by auto
  with rs execute_call_frame[OF e] show ?case by auto
qed auto

lemma persist_results_frame:
  assumes "persist_results E tid turn_id rs s = (r, s')"
    and "\<forall>(c, x) \<in> set rs. \<forall>item. x = Inr item \<longrightarrow> answers_call c item"
  shows "executed s' = executed s \<and> ls_budget s' = ls_budget s
    \<and> (r = Inr u \<longrightarrow> answered s' = answered s + call_ids_of (mset (map fst rs)))"
  using assms
proof (induction rs arbitrary: s)
  case Nil
  then show ?case by (auto simp: lret_def)
next
  case (Cons cx rs)
  obtain c x where cx: "cx = (c, x)" by force
  let ?first = "case x of Inr item \<Rightarrow> persist_item E tid item
            | Inl e \<Rightarrow> lthen (clock_now E) (\<lambda>now. persist_item E tid (failed_item tid turn_id c now e))"
  obtain r1 s1 where f: "?first s = (r1, s1)" by force
  have first: "executed s1 = executed s \<and> ls_budget s1 = ls_budget s \<and> (r1 = Inr () \<longrightarrow> answered s1 = add_mset (JStr (hc_id c)) (answered s))"
  proof (cases x)
    case (Inr item)
    with Cons.prems(2) cx have "answer_of (Persisted item) = [JStr (hc_id c)]" by (auto intro: answers_call_answer)
    with persist_item_frame[of E tid item s r1 s1] f Inr show ?thesis by auto
  next
    case (Inl e)
    with f show ?thesis
      unfolding lthen_def clock_now_def
      by (auto simp: suppressed_answer split: prod.splits sum.splits dest!: lift_frame persist_item_frame')
  qed
  show ?case
  proof (cases r1)
    case (Inl e)
    with Cons.prems(1) cx f have "s' = s1 \<and> r = Inl e" by (auto simp: lthen_def)
    with first show ?thesis by simp
  next
    case (Inr y)
    with Cons.prems(1) cx f have "persist_results E tid turn_id rs s1 = (r, s')" by (auto simp: lthen_def)
    from Cons.IH[OF this] Cons.prems(2) first Inr cx show ?thesis by auto
  qed
qed


lemma lthen_cases:
  assumes "lthen m f s = (r, s')"
  obtains (raised) e where "m s = (Inl e, s')" "r = Inl e"
    | (went_on) x s1 where "m s = (Inr x, s1)" "f x s1 = (r, s')"
  using assms by (auto simp: lthen_def split: prod.splits sum.splits)

lemma collect_batch_frame:
  assumes "collect_batch E tid turn_id policy room calls s = (r, s')"
  shows "\<exists>A. admits turn_id s s' A \<and> A \<subseteq># mset calls \<and> executed s' = executed s
    \<and> (\<forall>batch rest. r = Inr (batch, rest) \<longrightarrow> A = mset batch \<and> mset batch + mset rest \<subseteq># mset calls
         \<and> answered s' + call_ids_of (mset batch + mset rest) = answered s + call_ids_of (mset calls))"
  using assms
proof (induction E tid turn_id policy room calls arbitrary: s r s' rule: collect_batch.induct)
  case (1 E tid turn_id policy room)
  then show ?case by (auto simp: lret_def intro!: exI[of _ "{#}"] admits_refl)
next
  case (2 E tid turn_id policy room call calls)
  show ?case
  proof (cases "room = 0 \<or> \<not> is_parallel_safe call policy")
    case True
    with 2(3) show ?thesis by (auto simp: lret_def intro!: exI[of _ "{#}"] admits_refl)
  next
    case False
    note step = 2(3)[unfolded collect_batch.simps if_not_P[OF False]]
    from step show ?thesis
    proof (cases rule: lthen_cases)
      case (raised e)
      with skip_call_frame[OF raised(1)] show ?thesis by (intro exI[of _ "{#}"]) auto
    next
      case (went_on why s1)
      note k = skip_call_frame[OF went_on(1)]
      show ?thesis
      proof (cases why)
        case None
        with went_on(2) have "lthen (collect_batch E tid turn_id policy (room - 1) calls) (\<lambda>(batch, rest). lret (call # batch, rest)) s1 = (r, s')"
          by simp
        then show ?thesis
        proof (cases rule: lthen_cases)
          case (raised e)
          from 2(1)[OF False this(1)] obtain A where "admits turn_id s1 s' A" "A \<subseteq># mset calls" "executed s' = executed s1" by blast
          with k None admits_trans[of turn_id s s1 "{#call#}" s' A] raised show ?thesis by (intro exI[of _ "{#call#} + A"]) auto
        next
          case (went_on br s2)
          obtain b rest where br: "br = (b, rest)" by force
          from 2(1)[OF False went_on(1)] br have c: "admits turn_id s1 s2 (mset b)" "executed s2 = executed s1"
            "mset b + mset rest \<subseteq># mset calls" "answered s2 + call_ids_of (mset b + mset rest) = answered s1 + call_ids_of (mset calls)"
            by auto
          have "r = Inr (call # b, rest)" "s' = s2" using went_on(2) br by (auto simp: lret_def)
          moreover from c(3) have "mset b \<subseteq># mset calls" by (metis mset_subset_eq_add_left subset_mset.order_trans)
          ultimately show ?thesis
            using c k None admits_trans[of turn_id s s1 "{#call#}" s2 "mset b"]
            by (intro exI[of _ "mset (call # b)"]) auto
        qed
      next
        case (Some w)
        with went_on(2) have "lthen (persist_suppressed E tid turn_id call w) (\<lambda>_. collect_batch E tid turn_id policy room calls) s1 = (r, s')"
          by simp
        then show ?thesis
        proof (cases rule: lthen_cases)
          case (raised e)
          with persist_suppressed_frame[OF raised(1)] k Some show ?thesis
            by (intro exI[of _ "{#}"]) (auto simp: admits_def)
        next
          case (went_on u s2)
          note p = persist_suppressed_frame[OF went_on(1)]
          from 2(2)[OF False went_on(2)] obtain A where A: "admits turn_id s2 s' A" "A \<subseteq># mset calls" "executed s' = executed s2"
            "\<forall>batch rest. r = Inr (batch, rest) \<longrightarrow> A = mset batch \<and> mset batch + mset rest \<subseteq># mset calls
              \<and> answered s' + call_ids_of (mset batch + mset rest) = answered s2 + call_ids_of (mset calls)" by blast
          have "admits turn_id s s' A"
            using admits_trans[of turn_id s s2 "{#}" s' A] A(1) k(3) Some p(2) by (simp add: admits_frame)
          moreover have "answered s2 = add_mset (JStr (hc_id call)) (answered s)" using p(3) k(1) by simp
          ultimately show ?thesis using A p(1) k(2)
            by (intro exI[of _ A]) (auto intro: subset_mset.order_trans)
        qed
      qed
    qed
  qed
qed

definition dispatched :: "pystr \<Rightarrow> host_call list \<Rightarrow> lstate \<Rightarrow> step_outcome result \<Rightarrow> lstate \<Rightarrow> bool" where
  "dispatched turn_id calls s r s' \<longleftrightarrow>
     (\<exists>X. executed s' = executed s + X \<and> X \<subseteq># mset calls \<and> admits turn_id s s' X)
     \<and> (r = Inr StepContinue \<longrightarrow> answered s' = answered s + call_ids_of (mset calls))
     \<and> (r = Inr StepAborted \<longrightarrow> (\<exists>B. B \<subseteq># mset calls \<and> answered s' = answered s + call_ids_of B))
     \<and> r \<noteq> Inr StepStop \<and> r \<noteq> Inr StepFailed"

lemma dispatched_then:
  assumes "executed s1 = executed s + X" "admits turn_id s s1 X" "answered s1 = answered s + call_ids_of D"
    and "dispatched turn_id rest s1 r s'" and "X \<subseteq># D" "D + mset rest = mset calls"
  shows "dispatched turn_id calls s r s'"
proof -
  from assms(4) obtain Y where Y: "executed s' = executed s1 + Y" "Y \<subseteq># mset rest" "admits turn_id s1 s' Y"
    by (auto simp: dispatched_def)
  have "executed s' = executed s + (X + Y) \<and> X + Y \<subseteq># mset calls \<and> admits turn_id s s' (X + Y)"
    using Y assms(1,2,5,6) admits_trans[of turn_id s s1 X s' Y] by (metis subset_mset.add_mono union_assoc)
  moreover have "\<exists>B. B \<subseteq># mset calls \<and> answered s' = answered s + call_ids_of B" if "r = Inr StepAborted"
  proof -
    from assms(4) that obtain B where B: "B \<subseteq># mset rest" "answered s' = answered s1 + call_ids_of B"
      by (auto simp: dispatched_def)
    have "D + B \<subseteq># mset calls" using B(1) assms(6) by (metis mset_subset_eq_mono_add_left_cancel)
    moreover have "answered s' = answered s + call_ids_of (D + B)" using B(2) assms(3) by simp
    ultimately show ?thesis by blast
  qed
  moreover have "answered s' = answered s + call_ids_of (mset calls)" if "r = Inr StepContinue"
    using assms(3,4) that by (simp add: dispatched_def flip: assms(6))
  ultimately show ?thesis using assms(4) unfolding dispatched_def by blast
qed

lemma dispatched_raise:
  "executed s' = executed s + X \<Longrightarrow> X \<subseteq># mset calls \<Longrightarrow> admits turn_id s s' X \<Longrightarrow> dispatched turn_id calls s (Inl e) s'"
  by (auto simp: dispatched_def)


lemma dispatch_dispatched:
  "dispatch_tool_calls E tid turn_id ctx calls s = (r, s') \<Longrightarrow> dispatched turn_id calls s r s'"
proof (induction E tid turn_id ctx calls s arbitrary: r s' rule: dispatch_tool_calls.induct)
  case (1 E tid turn_id ctx s)
  then show ?case by (auto simp: dispatched_def intro: admits_refl)
next
  case (2 E tid turn_id ctx call calls s)
  show ?case
  proof (cases "turn_id \<in> k_cancelled (ls_kun s)")
    case True
    with 2(4) show ?thesis
      by (auto simp: dispatched_def dispatch_tool_calls.simps(2) intro: admits_refl intro!: exI[of _ "{#}"])
  next
    case False
    note step = 2(4)[unfolded dispatch_tool_calls.simps(2) if_not_P[OF False]]
    obtain q s1 where skip: "skip_call turn_id call s = (q, s1)" by force
    note k = skip_call_frame[OF skip]
    consider (raised) e where "q = Inl e" | (suppressed) why where "q = Inr (Some why)" | (alone) "q = Inr None" "\<not> is_parallel_safe call (hx_policy ctx)"
      | (batch) "q = Inr None" "is_parallel_safe call (hx_policy ctx)"
      by (metis not_Some_eq obj_sumE)
    then show ?thesis
    proof cases
      case raised
      with step skip have "r = Inl e" "s' = s1" by auto
      with k raised show ?thesis by (auto intro!: dispatched_raise[of _ _ "{#}"])
    next
      case (suppressed why)
      obtain u s2 where p: "persist_suppressed E tid turn_id call why s1 = (u, s2)" by force
      note pf = persist_suppressed_frame[OF p]
      have adm: "admits turn_id s s2 {#}" using admits_frame[OF k(3) pf(2)] suppressed by simp
      show ?thesis
      proof (cases u)
        case (Inl e)
        with step skip p suppressed have "r = Inl e" "s' = s2" by auto
        with pf(1) k(2) adm show ?thesis by (auto intro!: dispatched_raise[of _ _ "{#}"])
      next
        case (Inr y)
        with step skip p suppressed have d: "dispatch_tool_calls E tid turn_id ctx calls s2 = (r, s')" by auto
        from 2(3)[OF False skip[symmetric] suppressed] p d Inr have "dispatched turn_id calls s2 r s'" by simp
        then show ?thesis
          using dispatched_then[of s2 s "{#}" turn_id "{#call#}" calls r s' "call # calls"] adm pf(1,3) k(1,2) Inr by simp
      qed
    next
      case alone
      let ?run = "lthen (execute_call E ctx call) (persist_item E tid)"
      obtain u s2 where p: "?run s1 = (u, s2)" by force
      have run: "executed s2 = add_mset call (executed s1) \<and> ls_budget s2 = ls_budget s1
          \<and> (u = Inr () \<longrightarrow> answered s2 = add_mset (JStr (hc_id call)) (answered s1))"
        using p
      proof (cases rule: lthen_cases)
        case (raised e)
        with execute_call_frame[OF raised(1)] show ?thesis by simp
      next
        case (went_on item s3)
        with execute_call_frame[OF went_on(1)] persist_item_frame'[OF went_on(2)] answers_call_answer[of call item]
        show ?thesis by simp
      qed
      have adm: "admits turn_id s s2 {#call#}" using admits_frame[OF k(3)] run alone by simp
      show ?thesis
      proof (cases u)
        case (Inl e)
        with step skip p alone have "r = Inl e" "s' = s2" by auto
        with run k(2) adm show ?thesis by (auto intro!: dispatched_raise[of _ _ "{#call#}"])
      next
        case (Inr y)
        with step skip p alone have d: "dispatch_tool_calls E tid turn_id ctx calls s2 = (r, s')" by auto
        from 2(1)[OF False skip[symmetric] alone(1) refl alone(2) p[symmetric] Inr d] have "dispatched turn_id calls s2 r s'" by simp
        then show ?thesis
          using dispatched_then[of s2 s "{#call#}" turn_id "{#call#}" calls r s' "call # calls"] adm run k(1,2) Inr by simp
      qed
    next
      case batch
      obtain c s2 where c: "collect_batch E tid turn_id (hx_policy ctx) (batch_limit ctx - 1) calls s1 = (c, s2)" by force
      from collect_batch_frame[OF c] obtain A where A: "admits turn_id s1 s2 A" "A \<subseteq># mset calls" "executed s2 = executed s1"
        "\<forall>batch rest. c = Inr (batch, rest) \<longrightarrow> A = mset batch \<and> mset batch + mset rest \<subseteq># mset calls
         \<and> answered s2 + call_ids_of (mset batch + mset rest) = answered s1 + call_ids_of (mset calls)" by blast
      have adm: "admits turn_id s s2 (add_mset call A)" using admits_trans[of turn_id s s1 "{#call#}" s2 A] k(3) A(1) batch by simp
      show ?thesis
      proof (cases c)
        case (Inl e)
        with step skip c batch have "r = Inl e" "s' = s2" by auto
        with A adm k(2) show ?thesis by (auto intro!: dispatched_raise[of _ _ "{#}"] elim: admits_mono)
      next
        case (Inr br)
        then obtain b rest where br: "c = Inr (b, rest)" by (cases br) auto
        with A(4) have A': "A = mset b" "mset b + mset rest \<subseteq># mset calls"
          "answered s2 + call_ids_of (mset b + mset rest) = answered s1 + call_ids_of (mset calls)" by auto
        obtain D where D: "mset calls = mset b + mset rest + D" using A'(2) by (metis subset_mset.le_iff_add)
        let ?run = "lthen (gather_calls E ctx (call # b)) (persist_results E tid turn_id)"
        obtain u s3 where p: "?run s2 = (u, s3)" by force
        have run: "executed s3 = executed s2 + mset (call # b) \<and> ls_budget s3 = ls_budget s2
            \<and> (u = Inr () \<longrightarrow> answered s3 = answered s2 + call_ids_of (mset (call # b)))"
          using p
        proof (cases rule: lthen_cases)
          case (raised e)
          with gather_calls_frame[OF raised(1)] show ?thesis by auto
        next
          case (went_on rs s4)
          with gather_calls_frame[OF went_on(1)] persist_results_frame[OF went_on(2)] show ?thesis by auto
        qed
        have adm3: "admits turn_id s s3 (mset (call # b))" using admits_frame[OF adm] run A'(1) by simp
        have sub: "mset (call # b) \<subseteq># mset (call # calls)" using D by simp
        show ?thesis
        proof (cases u)
          case (Inl e)
          with step skip c br p batch have "r = Inl e" "s' = s3" by auto
          with run A(3) k(2) adm3 sub show ?thesis by (auto intro!: dispatched_raise[of _ _ "mset (call # b)"])
        next
          case (Inr y)
          with step skip c br p batch have d: "dispatch_tool_calls E tid turn_id ctx rest s3 = (r, s')" by auto
          from 2(2)[OF False skip[symmetric] batch(1) refl _ c[symmetric] br refl p[symmetric] Inr d] batch(2)
          have IH: "dispatched turn_id rest s3 r s'" by simp
          have "answered s3 = answered s + call_ids_of (add_mset call (mset b + D))"
            using run Inr A'(3) k(1) D by (simp add: union_ac)
          then show ?thesis
            using dispatched_then[of s3 s "mset (call # b)" turn_id "add_mset call (mset b + D)" rest r s' "call # calls"]
              adm3 IH run A(3) k(2) D by (simp add: union_ac)
        qed
      qed
    qed
  qed
qed


lemma emit_total:
  "event_thread ev \<noteq> '''' \<Longrightarrow> \<exists>b. emit env ev k = (Inr (), k\<lparr>k_bus := b, k_tick := Suc (k_tick k)\<rparr>)"
  by (metis emitE)

lemma apply_item_total:
  assumes "tid \<noteq> ''''"
  shows "\<exists>k'. apply_item env tid item k = (Inr (), k') \<and> k_cancelled k' = k_cancelled k"
proof -
  let ?k = "snd (add_item tid item k)"
  let ?ev = "[(''kind'', JStr ''item_created''), (''threadId'', JStr tid),
       (''turnId'', dget_or item ''turnId'' (JStr '''')), (''itemId'', dget_or item ''id'' (JStr '''')), (''item'', JDict item)]"
  obtain b where "emit env ?ev ?k = (Inr (), ?k\<lparr>k_bus := b, k_tick := Suc (k_tick ?k)\<rparr>)"
    using emit_total[of ?ev] assms by (auto simp: event_thread_def dget_or_def)
  then show ?thesis by (auto simp: apply_item_def and_then_def add_item_def modify_def)
qed

lemma persist_suppressed_total:
  assumes "tid \<noteq> ''''"
  shows "\<exists>s'. persist_suppressed E tid turn_id call why s = (Inr (), s') \<and> k_cancelled (ls_kun s') = k_cancelled (ls_kun s)"
proof -
  let ?s = "snd (clock_now E s)" and ?now = "iso (le_env E) (k_tick (ls_kun s))"
  obtain k' where a: "apply_item (le_env E) tid (suppressed_item tid turn_id call why ?now) (ls_kun ?s) = (Inr (), k')" "k_cancelled k' = k_cancelled (ls_kun ?s)"
    using apply_item_total[OF assms] by blast
  let ?ev = "[(''kind'', JStr ''tool_storm_suppressed''), (''threadId'', JStr tid), (''turnId'', JStr turn_id),
       (''toolName'', JStr (hc_name call)), (''callId'', JStr (hc_id call)),
       (''message'', JStr (if why \<noteq> '''' then why else ''duplicate tool call suppressed''))]"
  obtain b where "emit (le_env E) ?ev k' = (Inr (), k'\<lparr>k_bus := b, k_tick := Suc (k_tick k')\<rparr>)"
    using emit_total[of ?ev] assms by (auto simp: event_thread_def dget_or_def)
  with a show ?thesis
    by (auto simp: persist_suppressed_def lthen_def clock_now_def lift_def now_iso_def persist_item_def trace_effect_def lmod_def)
qed

lemma dispatch_finalizing:
  assumes "tid \<noteq> ''''" "ls_budget s turn_id = Some b" "tb_finalizing b" "turn_id \<notin> k_cancelled (ls_kun s)"
  shows "\<exists>s'. dispatch_tool_calls E tid turn_id ctx calls s = (Inr StepContinue, s')"
  using assms(2,4)
proof (induction calls arbitrary: s)
  case (Cons call calls)
  let ?why = "''time budget reached (finalizing: no more tool calls)''"
  obtain s' where p: "persist_suppressed E tid turn_id call ?why s = (Inr (), s')" "k_cancelled (ls_kun s') = k_cancelled (ls_kun s)"
    using persist_suppressed_total[OF assms(1)] by blast
  have "skip_call turn_id call s = (Inr (Some ?why), s)"
    using Cons.prems assms(3) by (simp add: skip_call_def budget_skip_reason_def lthen_def lret_def)
  with Cons.IH[of s'] Cons.prems p persist_suppressed_frame(2)[OF p(1)] show ?case
    by (simp add: dispatch_tool_calls.simps(2))
qed simp

text \<open>C4. The dispatch of a step's tool calls: when it goes on, every call has exactly one result persisted, in the
  model's order of identifiers or not; when it stops because the turn was cancelled, each has at most one.  Whatever
  happens, errors included, a call is executed at most once; a turn that is finalizing executes none, and the web
  searches executed fit in what the search budget of the turn has left.\<close>

theorem dispatch_answers_calls:
  assumes "dispatch_tool_calls E tid turn_id ctx calls s = (r, s')"
  shows "(r = Inr StepContinue \<longrightarrow> answered s' = answered s + call_ids_of (mset calls))
    \<and> (r = Inr StepAborted \<longrightarrow> (\<exists>B. B \<subseteq># mset calls \<and> answered s' = answered s + call_ids_of B))
    \<and> r \<notin> {Inr StepStop, Inr StepFailed}
    \<and> (\<exists>X. executed s' = executed s + X \<and> X \<subseteq># mset calls
        \<and> (\<forall>b. ls_budget s turn_id = Some b \<longrightarrow>
             (tb_finalizing b \<longrightarrow> X = {#}) \<and> searches X \<le> tb_max_search_phase b - tb_search_phases b))"
proof -
  from dispatch_dispatched[OF assms] have d: "dispatched turn_id calls s r s'" .
  then obtain X where X: "executed s' = executed s + X" "X \<subseteq># mset calls" "admits turn_id s s' X"
    by (auto simp: dispatched_def)
  have "(tb_finalizing b \<longrightarrow> X = {#}) \<and> searches X \<le> tb_max_search_phase b - tb_search_phases b"
    if "ls_budget s turn_id = Some b" for b
    using X(3) that by (auto simp: admits_def max_def split: if_splits)
  with d X show ?thesis by (auto simp: dispatched_def)
qed

definition demo_loop :: "(int \<times> int) option \<Rightarrow> loop_env" where
  "demo_loop storm = \<lparr>le_env = demo_env, le_mono = (\<lambda>k. int (k_tick k)), le_provider = (\<lambda>_. Inl (RuntimeError ''down'')),
     le_default_model = ''deepseek-chat'', le_meanwhile = (\<lambda>k. k),
     le_host = \<lparr>hn_registry = fold (\<lambda>n. register (demo_tool n)) [''read_file'', ''web_search''] (new_registry 30),
       hn_session_key = (\<lambda>_. None), hn_now = (\<lambda>_. ''now''), hn_during = (\<lambda>_ _ k. k)\<rparr>,
     le_compactor = new_compactor, le_storm = storm, le_economy = False, le_approval = None, le_gate = None,
     le_remembered = (\<lambda>_ _ _. None), le_remember = (\<lambda>_ _ _. ret ()), le_digest = (\<lambda>s. s), le_roots = (\<lambda>_ _. [])\<rparr>"

definition demo_lstate :: "bool \<Rightarrow> lstate" where
  "demo_lstate finalizing = \<lparr>ls_kun = demo_kun, ls_storm = Map.empty,
     ls_budget = [''t'' \<mapsto> \<lparr>tb_finalizing = finalizing, tb_search_phases = 0, tb_max_search_phase = 1\<rparr>],
     ls_usage = Map.empty, ls_trace = []\<rparr>"

definition demo_calls :: "host_call list" where
  "demo_calls = map (\<lambda>(i, n). \<lparr>hc_id = i, hc_name = n, hc_arguments = JDict []\<rparr>)
     [(''c1'', ''read_file''), (''c2'', ''web_search''), (''c3'', ''web_search'')]"


theorem dispatch_answers_calls_witness:
  "\<exists>s'. dispatch_tool_calls (demo_loop None) ''th'' ''t'' (tool_context (demo_loop None) ''th'' ''t'' [] FAST []) demo_calls (demo_lstate True)
       = (Inr StepContinue, s') \<and> answered s' = {#JStr ''c1'', JStr ''c2'', JStr ''c3''#} \<and> executed s' = {#}"
proof -
  have b: "ls_budget (demo_lstate True) ''t'' = Some \<lparr>tb_finalizing = True, tb_search_phases = 0, tb_max_search_phase = 1\<rparr>"
    "''t'' \<notin> k_cancelled (ls_kun (demo_lstate True))"
    by (simp_all add: demo_lstate_def demo_kun_def empty_kun_def)
  obtain s' where d: "dispatch_tool_calls (demo_loop None) ''th'' ''t'' (tool_context (demo_loop None) ''th'' ''t'' [] FAST []) demo_calls (demo_lstate True)
       = (Inr StepContinue, s')"
    using dispatch_finalizing[OF _ b(1) _ b(2), of "''th''"] by (simp del: dispatch_tool_calls.simps) blast
  have "answered (demo_lstate True) = {#}" "executed (demo_lstate True) = {#}"
    by (simp_all add: demo_lstate_def answered_def executed_def)
  with dispatch_answers_calls[OF d] b(1) have "answered s' = call_ids_of (mset demo_calls) \<and> executed s' = {#}" by auto
  with d show ?thesis by (auto simp: demo_calls_def simp del: dispatch_tool_calls.simps)
qed


lemma lthen_Inl_eq: "m s = (Inl e, s1) \<Longrightarrow> lthen m f s = (Inl e, s1)"
  by (simp add: lthen_def)

lemma lthen_Inr_eq: "m s = (Inr x, s1) \<Longrightarrow> lthen m f s = f x s1"
  by (simp add: lthen_def)

lemma lthen_split: "lthen m f s = (case fst (m s) of Inl e \<Rightarrow> (Inl e, snd (m s)) | Inr x \<Rightarrow> f x (snd (m s)))"
  by (simp add: lthen_def split: prod.splits sum.splits)

lemma dispatch_lthen:
  "dispatch_tool_calls E tid turn_id ctx (call # calls) =
     lthen (token_set turn_id) (\<lambda>stopped.
     if stopped then lret StepAborted
     else lthen (skip_call turn_id call) (\<lambda>r.
       case r of
         Some why \<Rightarrow> lthen (persist_suppressed E tid turn_id call why) (\<lambda>_. dispatch_tool_calls E tid turn_id ctx calls)
       | None \<Rightarrow>
           if \<not> is_parallel_safe call (hx_policy ctx)
           then lthen (lthen (execute_call E ctx call) (persist_item E tid)) (\<lambda>_. dispatch_tool_calls E tid turn_id ctx calls)
           else lthen (collect_batch E tid turn_id (hx_policy ctx) (batch_limit ctx - 1) calls) (\<lambda>(batch, rest).
             lthen (lthen (gather_calls E ctx (call # batch)) (persist_results E tid turn_id)) (\<lambda>_.
             dispatch_tool_calls E tid turn_id ctx rest))))"
  (is "?lhs = ?rhs")
proof
  fix s
  have tok: "token_set turn_id s = (Inr (turn_id \<in> k_cancelled (ls_kun s)), s)" by (simp add: token_set_def lget_def)
  obtain q s1 where k: "skip_call turn_id call s = (q, s1)" by force
  show "?lhs s = ?rhs s"
    unfolding dispatch_tool_calls.simps(2) lthen_Inr_eq[where m = "token_set turn_id" and s = s, OF tok]
    by (auto simp: lret_def k lthen_Inl_eq lthen_Inr_eq lthen_split split: sum.splits option.splits prod.splits)
qed

subsection \<open>Frames\<close>

text \<open>What a step of the loop leaves alone.  A relation between the states before and after is an interface: if it is a
  preorder that ignores the services' state and the persisted items, every step made of these keeps it; if it ignores
  executions, budgets, guards and usage as well, so does a whole dispatch or stream.\<close>

definition keeps :: "(lstate \<Rightarrow> lstate \<Rightarrow> bool) \<Rightarrow> 'a lp \<Rightarrow> bool" where
  "keeps R m \<longleftrightarrow> (\<forall>s. R s (snd (m s)))"

named_theorems keeps_steps

locale lp_frame =
  fixes R :: "lstate \<Rightarrow> lstate \<Rightarrow> bool"
  assumes R_refl: "R s s"
    and R_trans: "R s s1 \<Longrightarrow> R s1 s2 \<Longrightarrow> R s s2"
    and R_kun: "R s (s\<lparr>ls_kun := k\<rparr>)"
    and R_persisted: "R s (s\<lparr>ls_trace := ls_trace s @ [Persisted item]\<rparr>)"
begin

lemma keeps_lret [keeps_steps]: "keeps R (lret x)"
  by (simp add: keeps_def lret_def R_refl)

lemma keeps_lget [keeps_steps]: "keeps R (lget f)" "keeps R (token_set turn_id)"
  by (simp_all add: keeps_def lget_def R_refl token_set_def)

lemma keeps_lift [keeps_steps]: "keeps R (lift a)"
  by (simp add: keeps_def lift_def R_kun split: prod.splits)

lemma keeps_lthen [keeps_steps]: "keeps R m \<Longrightarrow> (\<And>x. keeps R (f x)) \<Longrightarrow> keeps R (lthen m f)"
  unfolding keeps_def lthen_def by (auto split: prod.splits sum.splits) (metis R_trans snd_conv)+

lemma keeps_trace [keeps_steps]: "keeps R (trace_effect (Persisted item))"
  by (simp add: keeps_def trace_effect_def lmod_def R_persisted)

lemma keeps_meanwhile [keeps_steps]: "keeps R (lmod (\<lambda>s. s\<lparr>ls_kun := f (ls_kun s)\<rparr>))"
  by (simp add: keeps_def lmod_def R_kun)

lemma keeps_persist_item [keeps_steps]: "keeps R (persist_item E tid item)"
  unfolding persist_item_def by (intro keeps_steps)

lemma keeps_clock [keeps_steps]: "keeps R (clock_now E)"
  unfolding clock_now_def by (rule keeps_lift)

lemma keeps_pipeline [keeps_steps]: "keeps R (record_pipeline E tid turn_id stage details)"
  unfolding record_pipeline_def by (rule keeps_lift)

lemma keeps_steering [keeps_steps]: "keeps R (persist_steering E tid turn_id texts)"
  by (induction texts) (simp_all add: keeps_steps)

lemma keeps_drain [keeps_steps]: "keeps R (loop_drain_steering E tid turn_id)"
  unfolding loop_drain_steering_def by (intro keeps_steps)

lemma keeps_thread [keeps_steps]: "keeps R (thread_or_empty tid)"
  unfolding thread_or_empty_def by (intro keeps_steps)

lemma keeps_texts [keeps_steps]: "keeps R (persist_text E tid turn_id text)" "keeps R (persist_reasoning E tid turn_id text)"
  unfolding persist_text_def persist_reasoning_def by (simp_all add: keeps_steps)

lemma keeps_suppressed [keeps_steps]: "keeps R (persist_suppressed E tid turn_id call why)"
  unfolding persist_suppressed_def by (intro keeps_steps)

lemma keeps_compaction [keeps_steps]: "keeps R (compact_if_needed E tid turn_id items)"
proof -
  have raise: "keeps R (\<lambda>s. (Inl e, s))" for e by (simp add: keeps_def R_refl)
  show ?thesis
    unfolding compact_if_needed_def
    by (auto intro!: keeps_steps raise split: option.splits sum.splits)
qed

lemma keeps_persist_results [keeps_steps]: "keeps R (persist_results E tid turn_id rs)"
  by (induction E tid turn_id rs rule: persist_results.induct) (auto intro!: keeps_steps split: sum.splits)

lemma keeps_finish [keeps_steps]: "keeps R (finish E tid turn_id status error)"
  unfolding finish_def by (intro keeps_steps)

end

locale lp_tools_frame = lp_frame +
  assumes R_executed: "R s (s\<lparr>ls_kun := k, ls_trace := ls_trace s @ [Executed call]\<rparr>)"
    and R_budget: "R s (s\<lparr>ls_budget := bs\<rparr>)"
    and R_storm: "R s (s\<lparr>ls_storm := ts\<rparr>)"
    and R_usage: "R s (s\<lparr>ls_usage := us\<rparr>)"
begin

lemma keeps_storm_check [keeps_steps]: "keeps R (storm_check turn_id call)"
  by (auto simp: keeps_def storm_check_def R_refl R_storm split: option.splits prod.splits)

lemma keeps_skip_call [keeps_steps]: "keeps R (skip_call turn_id call)"
proof -
  have "keeps R (budget_skip_reason turn_id call)"
    by (auto simp: keeps_def budget_skip_reason_def R_refl R_budget split: option.splits)
  then show ?thesis unfolding skip_call_def by (auto intro!: keeps_steps split: option.splits)
qed

lemma keeps_execute [keeps_steps]: "keeps R (execute_call E ctx call)"
  by (auto simp: keeps_def execute_call_def R_executed split: prod.splits)

lemma keeps_gather [keeps_steps]: "keeps R (gather_calls E ctx calls)"
proof (induction calls)
  case (Cons call calls)
  have "R s (snd (gather_calls E ctx (call # calls) s))" for s
    using keeps_execute[of E ctx call] Cons.IH unfolding keeps_def
    by (auto split: prod.splits sum.splits) (metis R_trans snd_conv)+
  then show ?case by (simp add: keeps_def)
qed (simp add: keeps_def R_refl)

lemma keeps_collect [keeps_steps]: "keeps R (collect_batch E tid turn_id policy room calls)"
  by (induction E tid turn_id policy room calls rule: collect_batch.induct)
    (auto intro!: keeps_steps split: option.splits prod.splits)

lemma keeps_lthen_if:
  "keeps R m \<Longrightarrow> (\<And>s x s1. m s = (Inr x, s1) \<Longrightarrow> keeps R (f x)) \<Longrightarrow> keeps R (lthen m f)"
  unfolding keeps_def lthen_def by (auto split: prod.splits sum.splits) (metis R_trans snd_conv)+

lemma keeps_dispatch [keeps_steps]: "keeps R (dispatch_tool_calls E tid turn_id ctx calls)"
proof (induction calls rule: length_induct)
  case (1 calls)
  show ?case
  proof (cases calls)
    case Nil
    then show ?thesis by (simp add: keeps_def R_refl)
  next
    case (Cons call rest)
    have less: "keeps R (dispatch_tool_calls E tid turn_id ctx cs)" if "length cs \<le> length rest" for cs
      using 1 Cons that by simp
    obtain B where B: "B = lthen (collect_batch E tid turn_id (hx_policy ctx) (batch_limit ctx - 1) rest) (\<lambda>(batch, others).
        lthen (lthen (gather_calls E ctx (call # batch)) (persist_results E tid turn_id)) (\<lambda>_.
        dispatch_tool_calls E tid turn_id ctx others))" by blast
    have batch: "keeps R B"
      unfolding B
    proof (rule keeps_lthen_if)
      fix s x s1 assume "collect_batch E tid turn_id (hx_policy ctx) (batch_limit ctx - 1) rest s = (Inr x, s1)"
      then have "length (snd x) \<le> length rest" using collect_batch_shorter by (cases x) fastforce
      then show "keeps R (case x of (batch, others) \<Rightarrow>
        lthen (lthen (gather_calls E ctx (call # batch)) (persist_results E tid turn_id)) (\<lambda>_.
        dispatch_tool_calls E tid turn_id ctx others))"
        by (auto intro!: keeps_steps less split: prod.splits)
    qed (rule keeps_steps)
    show ?thesis
      unfolding Cons dispatch_lthen B[symmetric] by (auto intro!: keeps_steps less batch split: option.splits)
  qed
qed

end


context lp_tools_frame
begin

lemma keeps_usage [keeps_steps]: "keeps R (record_usage E tid turn_id model u)"
proof -
  have "R s (snd (record_usage E tid turn_id model u s))" for s
  proof (cases "usage_record tid (usage_of u) (ls_usage s)")
    case (Inr p)
    have "R (s\<lparr>ls_usage := snd p\<rparr>) (snd (lift a (s\<lparr>ls_usage := snd p\<rparr>)))" for a :: "unit act"
      using keeps_lift[of a] unfolding keeps_def by blast
    then have "R s (snd (lift a (s\<lparr>ls_usage := snd p\<rparr>)))" for a :: "unit act"
      using R_trans[OF R_usage] by blast
    with Inr show ?thesis by (cases p) (simp add: record_usage_def)
  qed (simp add: record_usage_def R_refl)
  then show ?thesis by (simp add: keeps_def)
qed

lemma keeps_chunk [keeps_steps]: "keeps R (on_chunk E tid turn_id model c acc)"
  unfolding on_chunk_def on_tool_call_def by (cases c) (auto intro!: keeps_steps split: option.splits)

lemma keeps_stream [keeps_steps]: "keeps R (stream_loop E tid turn_id model cs acc)"
  by (induction cs arbitrary: acc) (auto intro!: keeps_steps)

lemma keeps_after_stream [keeps_steps]: "keeps R (after_stream E tid turn_id ctx acc)"
  unfolding after_stream_def by (auto intro!: keeps_steps)

end

subsection \<open>How often the model is asked\<close>

definition requests :: "lstate \<Rightarrow> model_request list" where
  "requests s = concat (map (\<lambda>e. case e of Requested q \<Rightarrow> [q] | _ \<Rightarrow> []) (ls_trace s))"

definition asks :: "nat \<Rightarrow> 'a lp \<Rightarrow> bool" where
  "asks n m \<longleftrightarrow> (\<forall>s. length (requests (snd (m s))) \<le> length (requests s) + n)"

interpretation unasked: lp_tools_frame "\<lambda>s s'. requests s' = requests s"
  by unfold_locales (simp_all add: requests_def)


lemma asks_keeps: "keeps (\<lambda>s s'. requests s' = requests s) m \<Longrightarrow> asks 0 m"
  by (simp add: asks_def keeps_def)

lemma asks_lthen: "asks a m \<Longrightarrow> (\<And>x. asks b (f x)) \<Longrightarrow> asks (a + b) (lthen m f)"
  unfolding asks_def
proof
  fix s assume m: "\<forall>s. length (requests (snd (m s))) \<le> length (requests s) + a"
    and f: "\<And>x. \<forall>s. length (requests (snd (f x s))) \<le> length (requests s) + b"
  show "length (requests (snd (lthen m f s))) \<le> length (requests s) + (a + b)"
  proof (cases "fst (m s)")
    case (Inl e)
    then show ?thesis using spec[OF m, of s] by (simp add: lthen_split)
  next
    case (Inr x)
    then show ?thesis using spec[OF m, of s] spec[OF f[of x], of "snd (m s)"] by (simp add: lthen_split)
  qed
qed

lemma asks_then: "keeps (\<lambda>s s'. requests s' = requests s) m \<Longrightarrow> (\<And>x. asks b (f x)) \<Longrightarrow> asks b (lthen m f)"
  using asks_lthen[OF asks_keeps, of m b f] by simp

lemma asks_mono: "asks a m \<Longrightarrow> a \<le> b \<Longrightarrow> asks b m"
  unfolding asks_def by (meson add_le_mono le_trans order_refl)

lemma asks_lret: "asks n (lret x)"
  by (simp add: asks_def lret_def)

lemma asks_request: "asks 1 (trace_effect (Requested q))"
  by (simp add: asks_def trace_effect_def lmod_def requests_def)

lemma model_step_asks: "asks 1 (model_step E tid turn_id step)"
proof -
  have ask: "asks 1 (lthen (trace_effect (Requested q)) f)" if "\<And>x. keeps (\<lambda>s s'. requests s' = requests s) (f x)" for q and f :: "unit \<Rightarrow> step_outcome lp"
    using asks_lthen[OF asks_request asks_keeps[OF that]] by simp
  show ?thesis
    unfolding model_step_def Let_def
    by (intro asks_then ask keeps_steps | split if_split option.split, intro conjI impI allI
        | rule asks_mono[OF asks_keeps le0])+
qed

lemma loop_rounds_asks: "asks left (loop_rounds E tid turn_id limits step left)"
proof (induction left arbitrary: step)
  case (Suc left)
  have "asks (1 + left) (lthen (model_step E tid turn_id step) (\<lambda>r. case r of
           StepStop \<Rightarrow> lret ''completed'' | StepFailed \<Rightarrow> lret ''failed'' | StepAborted \<Rightarrow> lret ''aborted''
         | StepContinue \<Rightarrow> loop_rounds E tid turn_id limits (Suc step) left))"
    by (rule asks_lthen[OF model_step_asks])
      (auto intro: Suc.IH asks_lret split: step_outcome.splits)
  moreover have "keeps (\<lambda>s s'. requests s' = requests s) (enter_finalization turn_id f now)" for f now
    by (auto simp: keeps_def enter_finalization_def requests_def split: option.splits)
  ultimately show ?case
    by (auto intro!: asks_lret asks_then keeps_steps split: option.splits)
qed (simp add: asks_keeps unasked.keeps_lret)

lemma requests_budget [simp]: "requests (s\<lparr>ls_budget := b\<rparr>) = requests s" "requests (s\<lparr>ls_storm := t\<rparr>) = requests s"
  by (simp_all add: requests_def)

lemma lfinally_split: "lfinally m c s = (fst (m s), c (snd (m s)))"
  by (simp add: lfinally_def split: prod.splits)

lemma run_rounds_asks:
  "asks (max_rounds mode) (lthen (lget f) (\<lambda>t0. lthen (lmod (\<lambda>s. s\<lparr>ls_budget := g s\<rparr>)) (\<lambda>_.
     lfinally (loop_rounds E tid turn_id (time_limits mode t0) 0 (max_rounds mode)) (\<lambda>s. s\<lparr>ls_budget := h s\<rparr>))))"
proof -
  have "asks (max_rounds mode) (lfinally (loop_rounds E tid turn_id limits 0 (max_rounds mode)) (\<lambda>s. s\<lparr>ls_budget := h s\<rparr>))" for limits
    using loop_rounds_asks[of "max_rounds mode" E tid turn_id limits 0]
    by (simp add: asks_def lfinally_split)
  then show ?thesis
    by (intro asks_then) (auto simp: keeps_def lget_def lmod_def)
qed


lemma max_rounds_modes: "max_rounds (get_mode_config m) = (if m = JStr ''think'' then 100 else 3)"
  by (cases m) (auto simp: get_mode_config_def max_rounds_def or_default_def FAST_def THINK_def eval_nat_numeral)

lemma agent_loop_asks: "asks 100 (agent_loop E tid turn_id)"
  unfolding agent_loop_def Let_def
  by (intro asks_then keeps_steps asks_mono[OF run_rounds_asks])
    (simp add: thread_mode_config_def max_rounds_modes)

lemma turn_body_asks: "asks 100 (turn_body E tid turn_id)"
proof -
  have storm: "keeps (\<lambda>s s'. requests s' = requests s) (install_storm E turn_id)"
    by (auto simp: install_storm_def keeps_def lret_def lmod_def split: option.splits)
  have last: "asks 100 (lthen (agent_loop E tid turn_id) (\<lambda>status. finish E tid turn_id status None))"
    using asks_lthen[OF agent_loop_asks asks_keeps[OF unasked.keeps_finish]] by simp
  show ?thesis
    unfolding turn_body_def by (intro asks_then storm last keeps_steps)
qed

lemma run_turn_asks: "asks 100 (run_turn E tid turn_id)"
proof -
  have finish: "asks 100 (finish E tid turn_id status error)" for status error
    by (rule asks_mono[OF asks_keeps[OF unasked.keeps_finish]]) simp
  have "asks 100 (lcatch (turn_body E tid turn_id) (\<lambda>e. finish E tid turn_id ''failed'' (Some (exc_text e))))"
    unfolding asks_def
  proof
    fix s
    have f: "requests (snd (finish E tid turn_id ''failed'' (Some (exc_text e)) s1)) = requests s1" for e s1
      using unasked.keeps_finish unfolding keeps_def by blast
    from turn_body_asks have "length (requests (snd (turn_body E tid turn_id s))) \<le> length (requests s) + 100"
      unfolding asks_def by blast
    with f show "length (requests (snd (lcatch (turn_body E tid turn_id) (\<lambda>e. finish E tid turn_id ''failed'' (Some (exc_text e))) s)))
        \<le> length (requests s) + 100"
      by (auto simp: lcatch_def split: prod.splits sum.splits)
  qed
  then have "asks 100 (lfinally (lcatch (turn_body E tid turn_id) (\<lambda>e. finish E tid turn_id ''failed'' (Some (exc_text e))))
              (\<lambda>s. s\<lparr>ls_storm := (ls_storm s)(turn_id := None)\<rparr>))"
    by (simp add: asks_def lfinally_split)
  with finish show ?thesis
    unfolding run_turn_def by (auto intro!: asks_then keeps_steps)
qed


subsection \<open>How a turn ends\<close>













lemma think_mode: "am_mode (get_mode_config (JStr ''think'')) = ''think''"
  by code_simp

lemma fast_not_think: "''think'' \<noteq> ''fast''"
  by simp

text \<open>C13. A turn asks the model a bounded number of times, whatever the model answers: the loop of a thread in the fast
  mode, the default, makes three requests at most, in the think mode a hundred; so every turn ends.\<close>

theorem turn_rounds_bounded:
  "length (requests (snd (run_turn E tid turn_id s))) \<le> length (requests s) + 100
   \<and> (\<forall>d. thread_get tid (k_threads (ls_kun s)) = Some (JDict d) \<and> am_mode (thread_mode_config d) = ''fast'' \<longrightarrow>
        length (requests (snd (agent_loop E tid turn_id s))) \<le> length (requests s) + 3)"
proof -
  have "length (requests (snd (agent_loop E tid turn_id s))) \<le> length (requests s) + 3"
    if d: "thread_get tid (k_threads (ls_kun s)) = Some (JDict d)" "am_mode (thread_mode_config d) = ''fast''" for d
  proof -
    have t: "thread_or_empty tid s = (Inr d, s)"
      by (simp add: thread_or_empty_def lthen_def lift_def read_thread_def d lret_def)
    have m3: "max_rounds (thread_mode_config d) = 3"
      using d(2) think_mode unfolding thread_mode_config_def max_rounds_modes by (metis fast_not_think)
    have bound: "length (requests (snd (lthen (lget f) (\<lambda>t0. lthen (lmod (\<lambda>s. s\<lparr>ls_budget := g s\<rparr>)) (\<lambda>_.
         lfinally (loop_rounds E tid turn_id (time_limits (thread_mode_config d) t0) 0 (max_rounds (thread_mode_config d)))
           (\<lambda>s. s\<lparr>ls_budget := h s\<rparr>))) s))) \<le> length (requests s) + max_rounds (thread_mode_config d)" for f g h
      by (rule run_rounds_asks[unfolded asks_def, THEN spec])
    show ?thesis
      apply (rule order_trans[OF _ eq_imp_le[OF arg_cong[OF m3, of "\<lambda>n. length (requests s) + n"]]])
      unfolding agent_loop_def lthen_Inr_eq[where m = "thread_or_empty tid" and s = s, OF t] Let_def by (rule bound)
  qed
  with run_turn_asks show ?thesis unfolding asks_def by blast
qed

theorem turn_rounds_bounded_witness:
  "thread_get ''th'' (k_threads (ls_kun (demo_lstate False))) = Some (JDict demo_thread) \<and> am_mode (thread_mode_config demo_thread) = ''fast''
   \<and> length (requests (snd (agent_loop (demo_loop None) ''th'' ''u'' (demo_lstate False)))) \<le> 3"
proof -
  have a: "thread_get ''th'' (k_threads (ls_kun (demo_lstate False))) = Some (JDict demo_thread)"
    by (simp add: demo_lstate_def)
  have b: "am_mode (thread_mode_config demo_thread) = ''fast''" by code_simp
  have "requests (demo_lstate False) = []" by (simp add: demo_lstate_def requests_def)
  with turn_rounds_bounded[of "demo_loop None" "''th''" "''u''" "demo_lstate False"] a b show ?thesis by auto
qed


subsection \<open>Where the loop does not do what it means to\<close>

text \<open>The guard counts a call when the stream delivers it and again when it is dispatched: with a threshold of three, the
  first repetition of a call is already suppressed.\<close>

theorem repeated_call_counted_twice:
  "(let args = [(''path'', JStr ''a'')];
        (streamed, g1) = storm_inspect ''read_file'' args (new_breaker 8 3);
        (dispatched, g2) = storm_inspect ''read_file'' args g1
    in streamed = None \<and> dispatched = None \<and> fst (storm_inspect ''read_file'' args g2) \<noteq> None)"
  by code_simp

lemma lift_trace: "lift a s = (r, s') \<Longrightarrow> ls_trace s' = ls_trace s"
  by (auto simp: lift_def split: prod.splits)

lemma persist_item_trace: "persist_item E tid item s = (Inr u, s') \<Longrightarrow> ls_trace s' = ls_trace s @ [Persisted item]"
  unfolding persist_item_def lthen_Inr by (auto simp: trace_effect_def lmod_def dest: lift_trace)

lemma persist_suppressed_trace:
  "persist_suppressed E tid turn_id call why s = (Inr u, s') \<Longrightarrow>
     \<exists>now. ls_trace s' = ls_trace s @ [Persisted (suppressed_item tid turn_id call why now)]"
  unfolding persist_suppressed_def lthen_Inr clock_now_def by (auto dest!: lift_trace persist_item_trace)

text \<open>A call suppressed in the stream gets a result, but its call item is never persisted: the history has a result
  without a call.\<close>

theorem suppressed_call_leaves_orphan:
  assumes "storm_check turn_id call s = (Inr (Some why), s1)" "on_tool_call E tid turn_id call acc s = (Inr acc', s')"
  shows "acc' = acc \<and> (\<exists>now. ls_trace s' = ls_trace s @ [Persisted (suppressed_item tid turn_id call why now)])"
proof -
  from assms have "lthen (persist_suppressed E tid turn_id call why) (\<lambda>_. lret acc) s1 = (Inr acc', s')"
    by (simp add: on_tool_call_def lthen_def)
  then obtain u where "persist_suppressed E tid turn_id call why s1 = (Inr u, s')" "acc' = acc"
    by (auto simp: lthen_Inr lret_Inr)
  with storm_check_frame[OF assms(1)] persist_suppressed_trace show ?thesis by fastforce
qed

text \<open>A compaction appends its summary to the session and leaves the compacted items there: a session over the threshold
  stays over it, so every later step of every turn compacts again and adds another summary.\<close>

theorem compaction_fires_again:
  assumes "plan_compaction c items None \<noteq> None"
  shows "plan_compaction c (items @ added) None \<noteq> None"
  using assms by (auto simp: plan_compaction_def Let_def items_tokens_append split: if_splits)

end
