(* ===== verification/GuardPaths.thy ===== *)
theory GuardPaths
  imports PyRegex
begin

text \<open>
  The path side of the command guard (\<open>agent/command_guard.py\<close>): normalising paths, recognising system paths and the
  directories the user authorised, and classifying an operand of a command against the scope of the session.  What the
  file system and the platform answer (\<open>Path.resolve\<close>, \<open>expanduser\<close>, \<open>os.name\<close>) is the argument \<open>H\<close>.
\<close>

record guard_host =
  gh_nt :: bool
  gh_resolve :: "bool \<Rightarrow> pystr \<Rightarrow> pystr \<Rightarrow> pystr option"
  gh_expanduser :: "pystr \<Rightarrow> pystr"

record runtime_paths =
  rp_cwd :: pystr
  rp_workspace :: "pystr option"
  rp_session_files :: "pystr option"
  rp_sandbox :: bool
  rp_sandbox_cwd :: pystr
  rp_miqi_home :: "pystr option"
  rp_host_home :: "pystr option"
  rp_extra_roots :: "pystr list"

definition ASCII_SLASH :: char where "ASCII_SLASH = CHR ''/''"
definition BACKSLASH :: char where "BACKSLASH = CHR 0x5C"

definition strip_of :: "pystr \<Rightarrow> pystr \<Rightarrow> pystr" where
  "strip_of cs s = py_rstrip_of (\<lambda>c. c \<in> set cs) (dropWhile (\<lambda>c. c \<in> set cs) s)"

definition strip_quotes :: "pystr \<Rightarrow> pystr" where
  "strip_quotes = strip_of [CHR 0x27, CHR 0x22]"

definition rstrip_slash :: "pystr \<Rightarrow> pystr" where
  "rstrip_slash = py_rstrip_of (\<lambda>c. c = CHR ''/'')"

definition ascii_alpha :: "char \<Rightarrow> bool" where
  "ascii_alpha c = (let n = (of_char c :: nat) in 65 \<le> n \<and> n \<le> 90 \<or> 97 \<le> n \<and> n \<le> 122)"

definition py_upper_ascii :: "char \<Rightarrow> char" where
  "py_upper_ascii c = (let n = (of_char c :: nat) in if 97 \<le> n \<and> n \<le> 122 then char_of (n - 32) else c)"

subsection \<open>Normalising\<close>

text \<open>The segments of \<open>_lex_norm\<close>, the last first.\<close>

fun norm_segs :: "pystr list \<Rightarrow> pystr list \<Rightarrow> pystr list" where
  "norm_segs acc [] = acc"
| "norm_segs acc (seg # segs) =
     (if seg \<in> {'''', ''.''} then norm_segs acc segs
      else if seg = ''..'' then
        (case acc of
           [] \<Rightarrow> norm_segs [] segs
         | a # as \<Rightarrow> if a \<noteq> ''..'' then norm_segs as segs else norm_segs (seg # acc) segs)
      else norm_segs (seg # acc) segs)"

definition path_segs :: "pystr \<Rightarrow> pystr list" where
  "path_segs path = py_split_ch (CHR ''/'') (py_replace_ch BACKSLASH (CHR ''/'') path)"

definition lex_norm :: "pystr \<Rightarrow> pystr" where
  "lex_norm path = ''/'' @ py_join ''/'' (rev (norm_segs [] (path_segs path)))"

definition norm_str :: "guard_host \<Rightarrow> pystr \<Rightarrow> pystr" where
  "norm_str H path = (let s = py_replace_ch BACKSLASH (CHR ''/'') path in if gh_nt H then py_lower s else s)"

definition under :: "guard_host \<Rightarrow> pystr \<Rightarrow> pystr \<Rightarrow> bool" where
  "under H path parent =
     (parent \<noteq> '''' \<and> (let p = norm_str H path; q = rstrip_slash (norm_str H parent) in py_startswith p (q @ ''/'') \<or> p = q))"

definition authorized_write :: "guard_host \<Rightarrow> pystr \<Rightarrow> runtime_paths \<Rightarrow> bool" where
  "authorized_write H pstr rt = list_ex (under H pstr) (rp_extra_roots rt)"

definition is_authorized_root_itself :: "guard_host \<Rightarrow> pystr \<Rightarrow> runtime_paths \<Rightarrow> bool" where
  "is_authorized_root_itself H pstr rt =
     (let p = rstrip_slash (norm_str H pstr) in
      list_ex (\<lambda>root. p \<noteq> '''' \<and> p = rstrip_slash (norm_str H root)) (rp_extra_roots rt))"

definition SYSTEM_POSIX_ROOTS :: "pystr list" where
  "SYSTEM_POSIX_ROOTS = [''/etc'', ''/usr'', ''/bin'', ''/sbin'', ''/lib'', ''/lib64'', ''/opt'', ''/var'', ''/root'', ''/boot'',
     ''/dev'', ''/proc'', ''/sys'', ''/run'', ''/mnt'', ''/tmp'', ''/var/tmp'']"

definition SYSTEM_DRIVE_TREES :: "pystr list" where
  "SYSTEM_DRIVE_TREES = [''windows'', ''program files'', ''program files (x86)'', ''programdata'', ''system32'']"

definition within :: "pystr \<Rightarrow> pystr \<Rightarrow> bool" where
  "within p root = (p = root \<or> py_startswith p (root @ ''/''))"

text \<open>\<open>$\<close> also matches before a line break at the end.\<close>

definition at_end :: "pystr \<Rightarrow> bool" where
  "at_end s = (s = '''' \<or> s = [CHR 0x0A])"

definition drive_system :: "pystr \<Rightarrow> bool" where
  "drive_system n =
     (case n of
        c # d # rest \<Rightarrow> d = CHR '':'' \<and> ascii_alpha c \<and> py_lower_char c = c \<and>
          (at_end rest \<or> (case rest of
             e # tree \<Rightarrow> e = CHR ''/'' \<and>
               (at_end tree \<or> list_ex (\<lambda>w. py_startswith tree w \<and>
                  (let t = drop (length w) tree in at_end t \<or> (case t of f # _ \<Rightarrow> f = CHR ''/'' | [] \<Rightarrow> False))) SYSTEM_DRIVE_TREES)
           | [] \<Rightarrow> False))
      | _ \<Rightarrow> False)"

definition is_system_path :: "guard_host \<Rightarrow> pystr \<Rightarrow> runtime_paths \<Rightarrow> bool" where
  "is_system_path H pstr rt =
     (let n = rstrip_slash (norm_str H pstr) in
      (if gh_nt H then drive_system n else list_ex (within n) SYSTEM_POSIX_ROOTS)
      \<or> (case rp_host_home rt of
           Some (c # h) \<Rightarrow> (let home = rstrip_slash (norm_str H (c # h)) in n = home \<or> py_startswith n (home @ ''/.ssh''))
         | _ \<Rightarrow> False)
      \<or> (case rp_miqi_home rt of
           Some (c # h) \<Rightarrow> within n (rstrip_slash (norm_str H (c # h)))
         | _ \<Rightarrow> False))"

text \<open>\<open>^/([a-zA-Z])/(.+)$\<close> and its form below \<open>/mnt\<close>: the host path of a drive.\<close>

definition drive_path :: "pystr \<Rightarrow> pystr option" where
  "drive_path path =
     (case path of
        a # c # b # rest \<Rightarrow>
          (let r = (if rest \<noteq> [] \<and> last rest = CHR 0x0A then butlast rest else rest) in
           if a = CHR ''/'' \<and> ascii_alpha c \<and> b = CHR ''/'' \<and> r \<noteq> [] \<and> CHR 0x0A \<notin> set r
           then Some (py_upper_ascii c # '':/'' @ r) else None)
      | _ \<Rightarrow> None)"

definition msys_to_windows :: "pystr \<Rightarrow> pystr" where
  "msys_to_windows path = (case drive_path path of None \<Rightarrow> path | Some p \<Rightarrow> p)"

text \<open>\<open>Path(session_files_dir).parent.name\<close>: the last but one component.\<close>

definition path_parts :: "guard_host \<Rightarrow> pystr \<Rightarrow> pystr list" where
  "path_parts H p = filter (\<lambda>s. s \<notin> {'''', ''.''})
     (py_split_ch (CHR ''/'') (if gh_nt H then py_replace_ch BACKSLASH (CHR ''/'') p else p))"

definition current_session_key :: "guard_host \<Rightarrow> runtime_paths \<Rightarrow> pystr option" where
  "current_session_key H rt =
     (case rp_session_files rt of
        Some (c # d) \<Rightarrow> Some (let ps = path_parts H (c # d) in if length ps < 2 then '''' else last (butlast ps))
      | _ \<Rightarrow> None)"

subsection \<open>Classification\<close>

text \<open>Whether the operand is in scope, the reason code when it is not, and the path that was classified.\<close>

type_synonym classified = "bool \<times> pystr \<times> pystr"

definition session_key_of :: "guard_host \<Rightarrow> runtime_paths \<Rightarrow> pystr" where
  "session_key_of H rt = norm_str H (case current_session_key H rt of Some k \<Rightarrow> k | None \<Rightarrow> '''')"

definition normal_dir :: "guard_host \<Rightarrow> pystr option \<Rightarrow> pystr" where
  "normal_dir H d = (case d of Some p \<Rightarrow> rstrip_slash (norm_str H p) | None \<Rightarrow> '''')"

definition first_segment :: "pystr \<Rightarrow> pystr" where
  "first_segment s = hd (py_split_ch (CHR ''/'') s)"

definition classify_resolved :: "guard_host \<Rightarrow> pystr \<Rightarrow> runtime_paths \<Rightarrow> bool \<Rightarrow> classified" where
  "classify_resolved H p rt for_write =
     (let pstr = (let q = rstrip_slash (norm_str H p) in if q = '''' then ''/'' else q);
          ws = normal_dir H (rp_workspace rt);
          sess = normal_dir H (rp_session_files rt);
          cwd = rstrip_slash (norm_str H (rp_cwd rt));
          trees = ws @ ''/sessions''
      in if ws \<noteq> '''' \<and> pstr = ws then (if for_write then (False, ''workspace_root'', pstr) else (True, '''', pstr))
         else if sess \<noteq> '''' \<and> pstr = sess then (if for_write then (False, ''workspace_root'', pstr) else (True, '''', pstr))
         else if ws \<noteq> '''' \<and> within pstr trees then
           (let key = first_segment (drop (length trees + 1) pstr) in
            if key \<noteq> session_key_of H rt then (False, ''other_session'', pstr)
            else if for_write \<and> pstr = trees @ ''/'' @ key then (False, ''workspace_root'', pstr)
            else (True, '''', pstr))
         else if under H pstr cwd then (True, '''', pstr)
         else if \<not> for_write then (True, '''', pstr)
         else if is_system_path H pstr rt then (False, ''system_path'', pstr)
         else if authorized_write H pstr rt then (True, '''', pstr)
         else if ws \<noteq> '''' \<and> under H pstr ws then (False, ''workspace_level1'', pstr)
         else (False, ''outside_workspace'', pstr))"

definition classify_host :: "guard_host \<Rightarrow> pystr \<Rightarrow> runtime_paths \<Rightarrow> bool \<Rightarrow> bool \<Rightarrow> classified" where
  "classify_host H path rt for_write relative =
     (case gh_resolve H relative (rp_cwd rt) path of
        None \<Rightarrow> (False, ''uncertain_path'', path)
      | Some p \<Rightarrow> classify_resolved H p rt for_write)"

definition classify_sandbox_abs :: "guard_host \<Rightarrow> pystr \<Rightarrow> runtime_paths \<Rightarrow> bool \<Rightarrow> classified" where
  "classify_sandbox_abs H path rt for_write =
     (let norm = lex_norm path in
      if norm \<in> {''/home/miqi'', ''/home/miqi/workspace''}
      then (if for_write then (False, ''workspace_root'', norm) else (True, '''', norm))
      else if py_startswith norm ''/home/miqi/'' then (True, '''', norm)
      else if within norm ''/tmp'' \<or> within norm ''/var/tmp'' then (True, '''', norm)
      else if py_startswith norm ''/mnt/'' then
        (case drive_path (drop 4 norm) of
           Some p \<Rightarrow> classify_host H p rt for_write False
         | None \<Rightarrow> (False, ''outside_workspace'', norm))
      else if norm_str H norm = ''/'' \<or> list_ex (within (norm_str H norm)) SYSTEM_POSIX_ROOTS \<or> is_system_path H norm rt
      then (if for_write then (False, ''system_path'', norm) else (True, '''', norm))
      else if for_write \<and> authorized_write H norm rt then (True, '''', norm)
      else if for_write then (False, ''outside_workspace'', norm)
      else (True, '''', norm))"

definition windows_absolute :: "pystr \<Rightarrow> bool" where
  "windows_absolute s =
     ((case s of c # d # e # _ \<Rightarrow> ascii_alpha c \<and> d = CHR '':'' \<and> e \<in> {BACKSLASH, CHR ''/''} | _ \<Rightarrow> False)
      \<or> py_startswith s [BACKSLASH, BACKSLASH])"

text \<open>The operand after quotes, shell syntax and the tilde: \<open>None\<close> when it cannot be resolved statically.\<close>

definition expand_tilde :: "guard_host \<Rightarrow> runtime_paths \<Rightarrow> pystr \<Rightarrow> pystr option" where
  "expand_tilde H rt s =
     (if \<not> py_startswith s ''~'' then Some s
      else if rp_sandbox rt then
        (if s = ''~'' then Some ''/home/miqi''
         else if py_startswith s ''~/'' then Some (''/home/miqi'' @ tl s) else None)
      else if gh_expanduser H s = s then None else Some (gh_expanduser H s))"

definition classify_operand :: "guard_host \<Rightarrow> pystr \<Rightarrow> runtime_paths \<Rightarrow> bool \<Rightarrow> classified" where
  "classify_operand H raw rt for_write =
     (let shown = strip_quotes (py_strip raw) in
      if shown = '''' then (False, ''uncertain_path'', shown)
      else if list_ex (\<lambda>c. c \<in> {CHR 0x24, CHR 0x60, CHR 0x2A, CHR 0x3F, CHR 0x5B}) shown then (False, ''uncertain_path'', shown)
      else if \<not> windows_absolute shown \<and> BACKSLASH \<in> set shown then (False, ''uncertain_path'', shown)
      else if windows_absolute shown then classify_host H shown rt for_write False
      else case expand_tilde H rt shown of
        None \<Rightarrow> (False, ''uncertain_path'', shown)
      | Some s \<Rightarrow>
          (case if rp_sandbox rt then None else drive_path s of
             Some p \<Rightarrow> classify_host H p rt for_write False
           | None \<Rightarrow>
               if py_startswith s ''/'' then
                 (if rp_sandbox rt then classify_sandbox_abs H s rt for_write else classify_host H s rt for_write False)
               else if rp_sandbox rt then classify_sandbox_abs H (lex_norm (rp_sandbox_cwd rt @ ''/'' @ s)) rt for_write
               else classify_host H s rt for_write True))"

end
