(* ===== verification/CommandGuard.thy ===== *)
theory CommandGuard
  imports GuardPaths
begin

text \<open>
  The command guard of the shell tool (\<open>agent/command_guard.py\<close>): a command is split into subcommands, each is cut into
  shell words with their quoting, destructive file operations are recognised among the words and in the scripts they
  carry, and every path they touch is classified (\<open>GuardPaths\<close>).  A refusal is the four parts its message is formatted
  from: what was detected, the reason code, the target and the policy; the texts themselves are not copied.
\<close>

subsection \<open>Shell words\<close>

record token =
  tk_text :: pystr
  tk_quoted :: bool
  tk_fully_quoted :: bool
  tk_first_quoted :: bool
  tk_first_escaped :: bool

definition SQ :: char where "SQ = CHR 0x27"
definition DQ :: char where "DQ = CHR 0x22"

definition DQ_ESCAPED_CHARS :: "char list" where
  "DQ_ESCAPED_CHARS = [CHR 0x24, CHR 0x60, DQ, BACKSLASH, CHR 0x0A]"

text \<open>A word in the making: its characters, each with whether it was quoted and escaped, and whether a quote was seen.\<close>

type_synonym word_buf = "(char \<times> bool \<times> bool) list"

definition flush_token :: "word_buf \<Rightarrow> bool \<Rightarrow> token list" where
  "flush_token buf saw =
     (let quoted = filter (\<lambda>(_, q, _). q) buf in
      if buf \<noteq> [] \<or> saw then
        [\<lparr>tk_text = map fst buf, tk_quoted = (quoted \<noteq> [] \<or> saw), tk_fully_quoted = (quoted \<noteq> [] \<and> length quoted = length buf),
          tk_first_quoted = (case buf of (_, q, _) # _ \<Rightarrow> q | [] \<Rightarrow> False),
          tk_first_escaped = (case buf of (_, _, e) # _ \<Rightarrow> e | [] \<Rightarrow> False)\<rparr>]
      else [])"

fun tokenize_from :: "char option \<Rightarrow> word_buf \<Rightarrow> bool \<Rightarrow> pystr \<Rightarrow> token list" where
  "tokenize_from quote buf saw [] = flush_token buf saw"
| "tokenize_from (Some q) buf saw (c # cs) =
     (if c = q then tokenize_from None buf saw cs
      else if q = SQ then tokenize_from (Some q) (buf @ [(c, True, False)]) saw cs
      else if c = BACKSLASH \<and> cs \<noteq> [] \<and> hd cs \<in> set DQ_ESCAPED_CHARS
      then tokenize_from (Some q) (buf @ [(hd cs, True, True)]) saw (tl cs)
      else tokenize_from (Some q) (buf @ [(c, True, False)]) saw cs)"
| "tokenize_from None buf saw (c # cs) =
     (if c \<in> {SQ, DQ} then tokenize_from (Some c) buf True cs
      else if c = BACKSLASH then
        (case cs of
           d # ds \<Rightarrow> tokenize_from None (buf @ [(d, False, True)]) saw ds
         | [] \<Rightarrow> flush_token buf saw)
      else if py_isspace c then flush_token buf saw @ tokenize_from None [] False cs
      else tokenize_from None (buf @ [(c, False, False)]) saw cs)"

definition tokenize :: "pystr \<Rightarrow> token list" where
  "tokenize s = tokenize_from None [] False s"

text \<open>String literals of a script: the characters between a quote and the next unescaped one, if there is one.\<close>

fun literals_from :: "(char \<times> pystr) option \<Rightarrow> pystr \<Rightarrow> pystr list" where
  "literals_from st [] = []"
| "literals_from None (c # cs) = (if c \<in> {SQ, DQ} then literals_from (Some (c, '''')) cs else literals_from None cs)"
| "literals_from (Some (q, buf)) (c # cs) =
     (if c = BACKSLASH \<and> cs \<noteq> [] then literals_from (Some (q, buf @ [c, hd cs])) (tl cs)
      else if c = q then buf # literals_from None cs
      else literals_from (Some (q, buf @ [c])) cs)"

definition extract_string_literals :: "pystr \<Rightarrow> pystr list" where
  "extract_string_literals payload = literals_from None payload"

definition is_assignment :: "pystr \<Rightarrow> bool" where
  "is_assignment s =
     (case s of
        c # cs \<Rightarrow> (ascii_alpha c \<or> c = CHR ''_'') \<and>
          (case dropWhile (\<lambda>c. ascii_alpha c \<or> py_isdigit c \<or> c = CHR ''_'') cs of d # _ \<Rightarrow> d = CHR ''='' | [] \<Rightarrow> False)
      | [] \<Rightarrow> False)"

fun positions_from :: "bool \<Rightarrow> nat \<Rightarrow> token list \<Rightarrow> nat list" where
  "positions_from expect i [] = []"
| "positions_from expect i (t # ts) =
     (if expect then
        (if is_assignment (tk_text t) then positions_from True (Suc i) ts else i # positions_from False (Suc i) ts)
      else positions_from (\<not> tk_quoted t \<and> tk_text t = ''|'') (Suc i) ts)"

definition command_positions :: "token list \<Rightarrow> nat list" where
  "command_positions ts = positions_from True 0 ts"

subsection \<open>Subcommands\<close>

fun py_find :: "pystr \<Rightarrow> pystr \<Rightarrow> nat option" where
  "py_find w [] = (if w = [] then Some 0 else None)"
| "py_find w (c # s) = (if py_startswith (c # s) w then Some 0 else map_option Suc (py_find w s))"

text \<open>After \<open><<\<close>: how many characters the heredoc takes, up to the end of the delimiter; \<open>None\<close> without a delimiter.\<close>

definition heredoc_skip :: "pystr \<Rightarrow> nat option" where
  "heredoc_skip r =
     (let r1 = (case r of c # t \<Rightarrow> if c = CHR ''-'' then t else r | [] \<Rightarrow> []);
          r2 = dropWhile (\<lambda>c. c \<in> {CHR 0x20, CHR 0x09}) r1;
          word = takeWhile (\<lambda>c. re_word c \<or> c = SQ) r2;
          j = length r - length r2 + length word;
          delim = strip_quotes word
      in if delim = '''' then None
         else Some (case (case py_find (CHR 0x0A # delim) (drop j r) of Some i \<Rightarrow> Some i | None \<Rightarrow> py_find delim (drop j r)) of
            Some i \<Rightarrow> j + i + length delim
          | None \<Rightarrow> length r))"

text \<open>\<open>cur\<close> is the subcommand in the making.\<close>

function split_from :: "char option \<Rightarrow> nat \<Rightarrow> bool \<Rightarrow> pystr \<Rightarrow> pystr \<Rightarrow> pystr list" where
  "split_from quote paren backtick cur [] = [cur]"
| "split_from quote paren backtick cur (c # cs) =
     (if quote \<noteq> None then split_from (if Some c = quote then None else quote) paren backtick (cur @ [c]) cs
      else if c \<in> {SQ, DQ} then split_from (Some c) paren backtick (cur @ [c]) cs
      else if c = CHR 0x60 then split_from None paren (\<not> backtick) (cur @ [c]) cs
      else if backtick then split_from None paren True (cur @ [c]) cs
      else if c = CHR ''<'' \<and> py_startswith cs ''<'' then
        (case heredoc_skip (tl cs) of
           None \<Rightarrow> split_from None paren False (cur @ [c]) cs
         | Some n \<Rightarrow> split_from None paren False (cur @ c # take (Suc n) cs) (drop (Suc n) cs))
      else if c = CHR ''('' then split_from None (Suc paren) False (cur @ [c]) cs
      else if c = CHR '')'' \<and> paren > 0 then split_from None (paren - 1) False (cur @ [c]) cs
      else if paren = 0 then
        (if c \<in> {CHR ''&'', CHR ''|''} \<and> py_startswith cs [c] then cur # split_from None 0 False '''' (tl cs)
         else if c = CHR '';'' then cur # split_from None 0 False '''' cs
         else if c = CHR ''&'' then
           (if py_startswith cs ''>'' \<or> (cur \<noteq> '''' \<and> last cur = CHR ''>'') then split_from None 0 False (cur @ [c]) cs
            else cur # split_from None 0 False '''' cs)
         else split_from None 0 False (cur @ [c]) cs)
      else split_from None paren False (cur @ [c]) cs)"
  by pat_completeness auto
termination by (relation "measure (\<lambda>(_, _, _, _, s). length s)") auto

definition split_subcommands :: "pystr \<Rightarrow> pystr list" where
  "split_subcommands command = filter (\<lambda>p. p \<noteq> '''') (map py_strip (split_from None 0 False '''' command))"


subsection \<open>Calls in inline scripts\<close>

definition rx_word_call :: "pystr \<Rightarrow> pystr list \<Rightarrow> rx" where
  "rx_word_call owner names = rx_seq [RBound, RLit owner, rx_words names, RBound]"

definition rx_rm_recursive :: rx where
  "rx_rm_recursive = rx_seq [RBound, RLit ''rm'', RChar py_isspace, rx_space, RLit ''-'', RMany ascii_alpha, RLit ''r'']"

definition DELETE_CALL :: "rx list" where
  "DELETE_CALL = [rx_word_call ''shutil.'' [''rmtree''], rx_word_call ''os.'' [''remove'', ''unlink'', ''rmdir'', ''removedirs''],
     rx_word_call '''' [''unlink''], rx_word_call '''' [''rmtree''], rx_rm_recursive]"

definition REMOVAL_CALL :: "rx list" where
  "REMOVAL_CALL = [rx_word_call ''shutil.'' [''rmtree'', ''move''],
     rx_word_call ''os.'' [''remove'', ''unlink'', ''rmdir'', ''removedirs'', ''rename'', ''replace''],
     rx_word_call '''' [''unlink''], rx_word_call '''' [''rmtree''], rx_rm_recursive]"

definition COPY_CALL :: rx where
  "COPY_CALL = rx_seq [RBound, RLit ''shutil.copy'', RMany re_word, rx_space, RLit ''('']"

definition DESTRUCTIVE_CALL :: "rx list" where
  "DESTRUCTIVE_CALL =
     [rx_word_call ''shutil.'' [''rmtree''], rx_word_call ''shutil.'' [''move''],
      rx_seq [RBound, RLit ''shutil.copy'', RMany re_word, RBound],
      rx_word_call ''os.'' [''remove'', ''unlink'', ''rmdir'', ''removedirs''], rx_word_call ''os.'' [''system''],
      rx_word_call ''os.'' [''rename'', ''replace''],
      rx_seq [RBound, RLit ''pathlib.'', RMany (\<lambda>c. c \<notin> {CHR '';'', CHR '')''}), RLit ''.unlink(''],
      rx_seq [RLit ''.unlink('', rx_space, RLit '')''],
      rx_seq [RBound, RLit ''fs.'', rx_words [''rmSync'', ''rmdirSync'', ''unlinkSync'', ''rm'', ''rmdir'', ''unlink''], rx_space, RLit ''(''],
      rx_word_call ''File.'' [''delete'', ''unlink''],
      rx_word_call ''FileUtils.'' [''rm'', ''rm_r'', ''rm_rf'', ''rmdir'', ''remove_dir''],
      rx_word_call '''' [''unlink''], rx_word_call '''' [''rmtree''], rx_word_call '''' [''write_text''], rx_word_call '''' [''write_bytes''],
      rx_seq [RBound, RLit ''mkdir'', rx_space, RLit ''(''], rx_seq [RBound, RLit ''makedirs'', rx_space, RLit ''(''],
      rx_rm_recursive]"

definition rx_any :: "rx list \<Rightarrow> pystr \<Rightarrow> bool" where
  "rx_any rs s = list_ex (\<lambda>r. rx_search r s) rs"

definition OPEN_CALL :: rx where
  "OPEN_CALL = rx_seq [RBound, RLit ''open'', rx_space, RLit ''('']"

definition OPEN_ARGS_LIMIT :: nat where "OPEN_ARGS_LIMIT = 400"

text \<open>The position after a quoted text whose first character is at \<open>i\<close>.\<close>

function skip_quoted :: "pystr \<Rightarrow> nat \<Rightarrow> char \<Rightarrow> nat \<Rightarrow> nat" where
  "skip_quoted s stop q i =
     (if stop \<le> i then i
      else if s ! i = BACKSLASH \<and> Suc i < stop then skip_quoted s stop q (i + 2)
      else if s ! i = q then Suc i
      else skip_quoted s stop q (Suc i))"
  by pat_completeness auto
termination by (relation "measure (\<lambda>(_, stop, _, i). stop - i)") auto

declare skip_quoted.simps [simp del]

lemma skip_quoted_ge: "i \<le> skip_quoted s stop q i"
  by (induction s stop q i rule: skip_quoted.induct) (subst skip_quoted.simps, auto)

function arg_spans_from :: "pystr \<Rightarrow> nat \<Rightarrow> nat \<Rightarrow> nat \<Rightarrow> nat \<Rightarrow> (nat \<times> nat) list" where
  "arg_spans_from s stop arg_start depth i =
     (if stop \<le> i then [(arg_start, stop)]
      else let c = s ! i in
        if c \<in> {SQ, DQ} then arg_spans_from s stop arg_start depth (skip_quoted s stop c (Suc i))
        else if c \<in> {CHR ''('', CHR ''['', CHR ''{''} then arg_spans_from s stop arg_start (Suc depth) (Suc i)
        else if c \<in> {CHR '')'', CHR '']'', CHR ''}''} then
          (if depth = 1 then [(arg_start, i)] else arg_spans_from s stop arg_start (depth - 1) (Suc i))
        else if c = CHR '','' \<and> depth = 1 then (arg_start, i) # arg_spans_from s stop (Suc i) depth (Suc i)
        else arg_spans_from s stop arg_start depth (Suc i))"
  by pat_completeness auto
termination
proof (relation "measure (\<lambda>(_, stop, _, _, i). stop - i)")
  fix s :: pystr and stop arg_start depth i :: nat and c :: char
  assume "\<not> stop \<le> i"
  then show "((s, stop, arg_start, depth, skip_quoted s stop c (Suc i)), s, stop, arg_start, depth, i)
      \<in> measure (\<lambda>(_, stop, _, _, i). stop - i)"
    using skip_quoted_ge[of "Suc i" s stop c] by simp
qed auto

declare arg_spans_from.simps [simp del]

definition top_level_call_arg_spans :: "pystr \<Rightarrow> nat \<Rightarrow> (nat \<times> nat) list" where
  "top_level_call_arg_spans s start = arg_spans_from s (min (length s) (start + OPEN_ARGS_LIMIT)) start 1 start"

definition slice :: "pystr \<Rightarrow> nat \<times> nat \<Rightarrow> pystr" where
  "slice s ab = take (snd ab - fst ab) (drop (fst ab) s)"

definition top_level_call_args :: "pystr \<Rightarrow> nat \<Rightarrow> pystr list" where
  "top_level_call_args s start = map (slice s) (top_level_call_arg_spans s start)"

text \<open>\<open>['"]([rwxabt+]{1,8})['"]\<close> as a whole, with a mode that writes\<close>

definition write_mode_literal :: "pystr \<Rightarrow> bool" where
  "write_mode_literal s =
     (length s \<ge> 3 \<and> length s \<le> 10 \<and> hd s \<in> {SQ, DQ} \<and> last s \<in> {SQ, DQ} \<and>
      (let m = butlast (tl s) in list_all (\<lambda>c. c \<in> set ''rwxabt+'') m \<and> list_ex (\<lambda>c. c \<in> set ''wax+'') m))"

definition open_call_writes :: "pystr \<Rightarrow> bool" where
  "open_call_writes payload =
     list_ex (\<lambda>(a, b).
       let is_method = (0 < a \<and> payload ! (a - 1) = CHR ''.'') in
       list_ex (\<lambda>(i, raw).
         let arg = py_strip raw in
         if py_startswith arg ''mode='' then write_mode_literal (py_strip (drop 5 arg))
         else i = (if is_method then 0 else 1) \<and> write_mode_literal arg)
         (enumerate 0 (top_level_call_args payload b)))
       (rx_spans OPEN_CALL payload)"

definition payload_is_destructive :: "pystr \<Rightarrow> bool" where
  "payload_is_destructive payload = (rx_any DESTRUCTIVE_CALL payload \<or> open_call_writes payload)"

text \<open>\<open>\s*src\s*=\s*\<close> at the start: the length of the match.\<close>

definition src_keyword :: "pystr \<Rightarrow> nat option" where
  "src_keyword s =
     (case rx_run (rx_seq [rx_space, RLit ''src'', rx_space, RLit ''='', rx_space]) (None, s) of
        (_, t) # _ \<Rightarrow> Some (length s - length t) | [] \<Rightarrow> None)"

definition copy_source_spans :: "pystr \<Rightarrow> (nat \<times> nat) list" where
  "copy_source_spans payload =
     concat (map (\<lambda>(_, b).
       let args = top_level_call_arg_spans payload b;
           named = concat (map (\<lambda>(x, y). case src_keyword (slice payload (x, y)) of Some n \<Rightarrow> [(x + n, y)] | None \<Rightarrow> []) args)
       in if args = [] then [] else if named \<noteq> [] then [hd named] else [hd args])
       (rx_spans COPY_CALL payload))"

definition occurrences :: "pystr \<Rightarrow> pystr \<Rightarrow> nat list" where
  "occurrences w s = filter (\<lambda>i. py_startswith (drop i s) w) [0..<length s]"

definition only_as_copy_source :: "pystr \<Rightarrow> pystr \<Rightarrow> (nat \<times> nat) list \<Rightarrow> bool" where
  "only_as_copy_source payload literal spans =
     (literal \<noteq> '''' \<and> spans \<noteq> [] \<and> occurrences literal payload \<noteq> [] \<and>
      list_all (\<lambda>i. list_ex (\<lambda>(a, b). a \<le> i \<and> i + length literal \<le> b) spans) (occurrences literal payload))"

subsection \<open>File operations\<close>

datatype op_kind = DeleteOp | CopyOp | MoveOp | WriteOp | FindDeleteOp | InlineScriptOp

record file_op =
  fo_kind :: op_kind
  fo_display :: pystr
  fo_operands :: "token list"
  fo_extra :: pystr

definition DELETE_WORDS :: "pystr list" where
  "DELETE_WORDS = [''rm'', ''rmdir'', ''del'', ''unlink'', ''shred'']"

definition COPY_MOVE_WORDS :: "pystr list" where
  "COPY_MOVE_WORDS = [''cp'', ''mv'']"

definition WRITE_WORDS :: "pystr list" where
  "WRITE_WORDS = [''tee'', ''mkdir'', ''touch'', ''ln'']"

definition SCRIPT_LAUNCHERS :: "pystr list" where
  "SCRIPT_LAUNCHERS = [''python'', ''python2'', ''python3'', ''py'', ''perl'', ''ruby'', ''node'', ''nodejs'', ''php'']"

definition SHELL_LAUNCHERS :: "pystr list" where
  "SHELL_LAUNCHERS = [''bash'', ''sh'', ''zsh'', ''dash'', ''ksh'', ''ash'']"

definition SCRIPT_FLAGS :: "pystr list" where "SCRIPT_FLAGS = [''-c'', ''-e'', ''-r'']"
definition STDIN_LAUNCHER_FLAGS :: "pystr list" where "STDIN_LAUNCHER_FLAGS = [''-'', ''-s'']"

definition INSTALL_EXCLUDE_PREV :: "pystr list" where
  "INSTALL_EXCLUDE_PREV = [''pip'', ''pip2'', ''pip3'', ''npm'', ''yarn'', ''pnpm'', ''make'', ''run'',
     ''apt'', ''apt-get'', ''dnf'', ''yum'', ''zypper'', ''apk'', ''pacman'',
     ''brew'', ''cargo'', ''go'', ''gem'', ''bundle'', ''poetry'', ''uv'',
     ''composer'', ''conda'', ''mamba'', ''pdm'', ''hatch'', ''rye'', ''meson'',
     ''ninja'', ''cmake'', ''xcodebuild'', ''dotnet'', ''nuget'', ''choco'',
     ''scoop'', ''flatpak'', ''snap'', ''emerge'']"

definition is_flag :: "bool \<Rightarrow> token \<Rightarrow> bool" where
  "is_flag windows_flags t =
     (py_startswith (tk_text t) ''-'' \<or>
      windows_flags \<and> (case tk_text t of
          c # cs \<Rightarrow> c = CHR ''/'' \<and> (let w = (if cs \<noteq> [] \<and> last cs = CHR 0x0A then butlast cs else cs) in w \<noteq> [] \<and> list_all ascii_alpha w)
        | [] \<Rightarrow> False))"

definition plain_operands :: "bool \<Rightarrow> token list \<Rightarrow> token list" where
  "plain_operands windows_flags ts =
     filter (\<lambda>t. \<not> is_flag windows_flags t \<and> CHR ''<'' \<notin> set (tk_text t) \<and> CHR ''>'' \<notin> set (tk_text t)) ts"

definition heredoc_opener :: "pystr \<Rightarrow> rx" where
  "heredoc_opener delim =
     (let quote = rx_opt (RChar (\<lambda>c. c \<in> {SQ, DQ})) in rx_seq [RLit ''<<'', rx_opt (RLit ''-''), rx_space, quote, RLit delim, quote])"

definition raw_heredoc_body :: "pystr \<Rightarrow> pystr \<Rightarrow> pystr option" where
  "raw_heredoc_body command delim =
     (case rx_spans (heredoc_opener delim) command of
        [] \<Rightarrow> None
      | (_, b) # _ \<Rightarrow>
          (case py_find [CHR 0x0A] (drop b command) of
             None \<Rightarrow> None
           | Some k \<Rightarrow>
               (let rest = drop (b + k) command in
                Some (case (case py_find (CHR 0x0A # delim) rest of Some e \<Rightarrow> Some e | None \<Rightarrow> py_find delim rest) of
                  Some e \<Rightarrow> take (e - 1) (drop 1 rest)
                | None \<Rightarrow> drop 1 rest))))"

fun extract_heredoc_payload :: "pystr option \<Rightarrow> token list \<Rightarrow> pystr" where
  "extract_heredoc_payload raw [] = ''''"
| "extract_heredoc_payload raw (t # ts) =
     (if \<not> py_startswith (tk_text t) ''<<'' then extract_heredoc_payload raw ts
      else
        (let p0 = drop 2 (tk_text t);
             p1 = (if py_startswith p0 ''-'' then drop 1 p0 else p0);
             p2 = (if ts \<noteq> [] \<and> p1 = '''' then strip_quotes (tk_text (hd ts)) else p1);
             delim = strip_quotes p2
         in if delim = '''' then ''''
            else case (case raw of None \<Rightarrow> None | Some r \<Rightarrow> raw_heredoc_body r delim) of
              Some body \<Rightarrow> body
            | None \<Rightarrow> py_join '' '' (map tk_text (takeWhile (\<lambda>u. tk_text u \<noteq> delim) ts))))"

definition script_op :: "pystr \<Rightarrow> pystr \<Rightarrow> file_op list" where
  "script_op display payload =
     (if payload = '''' then []
      else [\<lparr>fo_kind = InlineScriptOp, fo_display = display, fo_operands = [], fo_extra = payload\<rparr>])"

fun launcher_ops :: "pystr \<Rightarrow> pystr option \<Rightarrow> token list \<Rightarrow> file_op list" where
  "launcher_ops display raw [] = []"
| "launcher_ops display raw (t # ts) =
     (if tk_text t \<in> set SCRIPT_FLAGS then script_op display (case ts of u # _ \<Rightarrow> tk_text u | [] \<Rightarrow> '''')
      else (if tk_text t \<in> set STDIN_LAUNCHER_FLAGS then script_op display (extract_heredoc_payload raw ts) else [])
        @ launcher_ops display raw ts)"

definition find_ops :: "token list \<Rightarrow> file_op list" where
  "find_ops rest =
     (let has_exec = list_ex (\<lambda>t. tk_text t \<in> {''-exec'', ''-execdir''}) rest;
          has_delete = list_ex (\<lambda>t. tk_text t = ''-delete'') rest
      in if has_delete \<or> has_exec then
           [\<lparr>fo_kind = FindDeleteOp, fo_display = ''find'',
              fo_operands = takeWhile (\<lambda>t. tk_quoted t \<or> \<not> (py_startswith (tk_text t) ''-'' \<or> tk_text t \<in> {''!'', ''('', '')''})) rest,
              fo_extra = (if has_exec then ''exec'' else ''delete'')\<rparr>]
         else [])"

definition plain_op :: "op_kind \<Rightarrow> pystr \<Rightarrow> token list \<Rightarrow> file_op" where
  "plain_op kind display operands = \<lparr>fo_kind = kind, fo_display = display, fo_operands = operands, fo_extra = ''''\<rparr>"

text \<open>The operations that the word at position \<open>i\<close> starts; \<open>prev\<close> is the word before it and \<open>rest\<close> the words after it.\<close>

definition ops_at :: "pystr option \<Rightarrow> nat list \<Rightarrow> nat \<Rightarrow> pystr \<Rightarrow> token \<Rightarrow> token list \<Rightarrow> file_op list" where
  "ops_at raw positions i prev t rest =
     (let w = tk_text t in
      if tk_quoted t \<and> i \<notin> set positions then []
      else if w \<in> set DELETE_WORDS then [plain_op DeleteOp w (plain_operands (w \<in> {''del'', ''rmdir''}) rest)]
      else if w \<in> set COPY_MOVE_WORDS then [plain_op (if w = ''mv'' then MoveOp else CopyOp) w (plain_operands False rest)]
      else if w = ''install'' then
        (if prev \<in> set INSTALL_EXCLUDE_PREV then [] else [plain_op CopyOp w (plain_operands False rest)])
      else if w = ''find'' then find_ops rest
      else if w \<in> set SCRIPT_LAUNCHERS \<union> set SHELL_LAUNCHERS then launcher_ops w raw rest
      else if w \<in> set WRITE_WORDS then
        (let ops = plain_operands False rest in
         [plain_op WriteOp w (if w = ''ln'' then drop (length ops - 1) ops else ops)])
      else [])"

fun detect_from :: "pystr option \<Rightarrow> nat list \<Rightarrow> nat \<Rightarrow> pystr \<Rightarrow> token list \<Rightarrow> file_op list" where
  "detect_from raw positions i prev [] = []"
| "detect_from raw positions i prev (t # ts) =
     ops_at raw positions i prev t ts @ detect_from raw positions (Suc i) (tk_text t) ts"

definition detect_ops :: "pystr option \<Rightarrow> token list \<Rightarrow> file_op list" where
  "detect_ops raw ts = detect_from raw (command_positions ts) 0 '''' ts"


subsection \<open>Checks\<close>

record refusal =
  rf_what :: pystr
  rf_code :: pystr
  rf_target :: pystr
  rf_policy :: pystr

definition refuse :: "pystr \<Rightarrow> pystr \<Rightarrow> pystr \<Rightarrow> pystr \<Rightarrow> refusal" where
  "refuse what code target policy = \<lparr>rf_what = what, rf_code = code, rf_target = target, rf_policy = policy\<rparr>"

definition REASON_CODES :: "pystr list" where
  "REASON_CODES = [''privilege'', ''system_path'', ''other_session'', ''outside_workspace'', ''workspace_level1'', ''workspace_root'',
     ''authorized_root'', ''uncertain_path'', ''script_uncertain'', ''find_exec'']"

text \<open>\<open>^(?:[12]?&?)?>{1,2}(.*)$\<close>: the target attached to a redirect.\<close>

definition redirect_rest :: "pystr \<Rightarrow> pystr option" where
  "redirect_rest s =
     (let s1 = (case s of c # t \<Rightarrow> if c \<in> {CHR ''1'', CHR ''2''} then t else s | [] \<Rightarrow> []);
          s2 = (case s1 of c # t \<Rightarrow> if c = CHR ''&'' then t else s1 | [] \<Rightarrow> [])
      in case s2 of
           c # t \<Rightarrow>
             (if c = CHR ''>'' then
                (let u = (case t of d # v \<Rightarrow> if d = CHR ''>'' then v else t | [] \<Rightarrow> []);
                     r = (if u \<noteq> [] \<and> last u = CHR 0x0A then butlast u else u)
                 in if CHR 0x0A \<in> set r then None else Some r)
              else None)
         | [] \<Rightarrow> None)"

definition DEV_NULL_TARGETS :: "pystr list" where
  "DEV_NULL_TARGETS = [''/dev/null'', ''/dev/stdout'', ''/dev/stderr'', ''/dev/tty'', ''/dev/zero'', ''/dev/random'', ''/dev/urandom'']"

text \<open>The target of the redirect a word is, if it is one that names a file.\<close>

definition redirect_target :: "token \<Rightarrow> token list \<Rightarrow> pystr option" where
  "redirect_target t rest =
     (if tk_quoted t \<and> tk_first_quoted t \<or> tk_first_escaped t then None
      else case redirect_rest (tk_text t) of
        None \<Rightarrow> None
      | Some r \<Rightarrow>
          if py_startswith r ''&'' then None
          else (case (if r \<noteq> '''' then Some r else case rest of u # _ \<Rightarrow> Some (tk_text u) | [] \<Rightarrow> None) of
             None \<Rightarrow> None
           | Some x \<Rightarrow>
               (let y = strip_quotes x in
                if y = '''' \<or> py_startswith y ''&'' \<or> y \<in> set DEV_NULL_TARGETS then None else Some y)))"

fun check_redirects :: "guard_host \<Rightarrow> runtime_paths \<Rightarrow> bool \<Rightarrow> token list \<Rightarrow> classified" where
  "check_redirects H rt strict [] = (True, '''', '''')"
| "check_redirects H rt strict (t # ts) =
     (case redirect_target t ts of
        None \<Rightarrow> check_redirects H rt strict ts
      | Some y \<Rightarrow>
          if py_startswith y ''('' then (if strict then (False, ''uncertain_path'', y) else check_redirects H rt strict ts)
          else (let c = classify_operand H y rt True in if fst c then check_redirects H rt strict ts else c))"

definition shown_dir :: "guard_host \<Rightarrow> pystr \<Rightarrow> pystr" where
  "shown_dir H p = (let d = rstrip_slash (norm_str H p) in if d = '''' then ''/'' else d)"

text \<open>A start of \<open>find\<close> may be a root whose contents belong to the session.\<close>

definition find_root_ok :: "guard_host \<Rightarrow> runtime_paths \<Rightarrow> pystr \<Rightarrow> bool" where
  "find_root_ok H rt display =
     (let d = shown_dir H display; ws = normal_dir H (rp_workspace rt); sess = normal_dir H (rp_session_files rt); key = session_key_of H rt in
      if d \<in> {''/home/miqi'', ''/home/miqi/workspace''} then True
      else if ws \<noteq> '''' \<and> (d = ws \<or> d = ws @ ''/sessions'') then False
      else if sess \<noteq> '''' \<and> d = sess then True
      else ws \<noteq> '''' \<and> key \<noteq> '''' \<and> d = ws @ ''/sessions/'' @ key)"

fun first_refusal :: "('a \<Rightarrow> refusal option) \<Rightarrow> 'a list \<Rightarrow> refusal option" where
  "first_refusal f [] = None"
| "first_refusal f (x # xs) = (case f x of Some r \<Rightarrow> Some r | None \<Rightarrow> first_refusal f xs)"

definition refuse_operand :: "guard_host \<Rightarrow> runtime_paths \<Rightarrow> pystr \<Rightarrow> pystr \<Rightarrow> bool \<Rightarrow> token \<Rightarrow> refusal option" where
  "refuse_operand H rt what policy for_write t =
     (case classify_operand H (tk_text t) rt for_write of
        (ok, code, display) \<Rightarrow> if ok then None else Some (refuse what code display policy))"

definition plain_token :: "pystr \<Rightarrow> token" where
  "plain_token s = \<lparr>tk_text = s, tk_quoted = False, tk_fully_quoted = False, tk_first_quoted = False, tk_first_escaped = False\<rparr>"

definition check_find_op :: "guard_host \<Rightarrow> runtime_paths \<Rightarrow> pystr \<Rightarrow> file_op \<Rightarrow> refusal option" where
  "check_find_op H rt sub op =
     (if fo_extra op = ''exec'' then Some (refuse ''find'' ''find_exec'' (take 200 sub) ''find_exec'')
      else first_refusal (\<lambda>t.
        case classify_operand H (tk_text t) rt True of
          (ok, code, display) \<Rightarrow>
            if ok \<or> code = ''workspace_root'' \<and> find_root_ok H rt display then None
            else Some (refuse ''find'' code display ''delete''))
        (if fo_operands op = [] then [plain_token ''.''] else fo_operands op))"

text \<open>An operand that is removed must be in scope and not an authorised directory itself.\<close>

definition refuse_removed :: "guard_host \<Rightarrow> runtime_paths \<Rightarrow> pystr \<Rightarrow> pystr \<Rightarrow> pystr \<Rightarrow> token \<Rightarrow> refusal option" where
  "refuse_removed H rt what policy root_policy t =
     (case classify_operand H (tk_text t) rt True of
        (ok, code, display) \<Rightarrow>
          if ok \<and> is_authorized_root_itself H display rt then Some (refuse what ''authorized_root'' display root_policy)
          else if ok then None else Some (refuse what code display policy))"

definition check_ops_operands :: "guard_host \<Rightarrow> runtime_paths \<Rightarrow> file_op \<Rightarrow> refusal option" where
  "check_ops_operands H rt op =
     (let ops = fo_operands op; what = fo_display op in
      case fo_kind op of
        DeleteOp \<Rightarrow> first_refusal (refuse_removed H rt what ''delete'' ''authorized_root'') ops
      | WriteOp \<Rightarrow> first_refusal (refuse_operand H rt what ''write'' True) ops
      | CopyOp \<Rightarrow>
          if length ops < 2 then None
          else (case first_refusal (refuse_operand H rt what ''write'' False) (butlast ops) of
              Some r \<Rightarrow> Some r
            | None \<Rightarrow> refuse_operand H rt what ''write'' True (last ops))
      | MoveOp \<Rightarrow>
          if length ops < 2 then None
          else (case first_refusal (refuse_operand H rt what ''move'' False) (butlast ops) of
              Some r \<Rightarrow> Some r
            | None \<Rightarrow> (case first_refusal (refuse_removed H rt what ''move'' ''move'') (butlast ops) of
                Some r \<Rightarrow> Some r
              | None \<Rightarrow> refuse_operand H rt what ''move'' True (last ops)))
      | _ \<Rightarrow> None)"

definition path_literals :: "pystr \<Rightarrow> pystr list" where
  "path_literals payload =
     filter (\<lambda>l. CHR ''/'' \<in> set l \<or> BACKSLASH \<in> set l \<or> py_startswith l ''.'' \<or> py_startswith l ''~'') (extract_string_literals payload)"

definition check_script_payload :: "guard_host \<Rightarrow> runtime_paths \<Rightarrow> pystr \<Rightarrow> pystr \<Rightarrow> refusal option" where
  "check_script_payload H rt what payload =
     (if \<not> payload_is_destructive payload then None
      else if path_literals payload = [] then Some (refuse what ''script_uncertain'' (take 200 payload) ''uncertain'')
      else
        (let spans = copy_source_spans payload;
             policy = (if rx_any DELETE_CALL payload then ''delete'' else ''write'');
             removal = rx_any REMOVAL_CALL payload
         in first_refusal (\<lambda>l.
              let for_write = \<not> only_as_copy_source payload l spans in
              case classify_operand H l rt for_write of
                (ok, code, display) \<Rightarrow>
                  if ok \<and> for_write \<and> removal \<and> is_authorized_root_itself H display rt
                  then Some (refuse what ''authorized_root'' display ''authorized_root'')
                  else if ok then None
                  else Some (refuse what code display
                    (if code = ''authorized_root'' then ''authorized_root'' else if for_write then policy else ''uncertain'')))
            (path_literals payload)))"

definition redirect_refusal :: "pystr \<Rightarrow> classified \<Rightarrow> refusal option" where
  "redirect_refusal what c = (case c of (ok, code, display) \<Rightarrow> if ok then None else Some (refuse what code display ''write''))"

definition check_inner_op :: "guard_host \<Rightarrow> runtime_paths \<Rightarrow> pystr \<Rightarrow> file_op \<Rightarrow> refusal option" where
  "check_inner_op H rt payload op =
     (case fo_kind op of
        InlineScriptOp \<Rightarrow> check_script_payload H rt (fo_display op) (fo_extra op)
      | FindDeleteOp \<Rightarrow> check_find_op H rt (take 200 payload) op
      | _ \<Rightarrow> check_ops_operands H rt op)"

definition check_shell_payload :: "guard_host \<Rightarrow> runtime_paths \<Rightarrow> pystr \<Rightarrow> pystr \<Rightarrow> refusal option" where
  "check_shell_payload H rt display payload =
     (let tokens = tokenize payload; ops = detect_ops None tokens; what = display @ '' -c'' in
      case redirect_refusal what (check_redirects H rt (ops \<noteq> []) tokens) of
        Some r \<Rightarrow> Some r
      | None \<Rightarrow> first_refusal (\<lambda>op. check_inner_op H rt payload (op\<lparr>fo_display := what\<rparr>)) ops)"

definition check_op :: "guard_host \<Rightarrow> runtime_paths \<Rightarrow> pystr \<Rightarrow> file_op \<Rightarrow> refusal option" where
  "check_op H rt sub op =
     (case fo_kind op of
        FindDeleteOp \<Rightarrow> check_find_op H rt sub op
      | InlineScriptOp \<Rightarrow>
          if fo_display op \<in> set SHELL_LAUNCHERS then check_shell_payload H rt (fo_display op) (fo_extra op)
          else check_script_payload H rt (fo_display op) (fo_extra op)
      | _ \<Rightarrow> check_ops_operands H rt op)"

definition runs_sudo :: "token list \<Rightarrow> bool" where
  "runs_sudo ts = list_ex (\<lambda>i. tk_text (ts ! i) = ''sudo'') (command_positions ts)"

definition check_subcommand :: "guard_host \<Rightarrow> runtime_paths \<Rightarrow> pystr \<Rightarrow> refusal option" where
  "check_subcommand H rt sub =
     (let tokens = tokenize sub; ops = detect_ops (Some sub) tokens in
      if runs_sudo tokens then Some (refuse ''sudo'' ''privilege'' '''' ''privilege'')
      else case redirect_refusal ''redirect'' (check_redirects H rt (ops \<noteq> []) tokens) of
        Some r \<Rightarrow> Some r
      | None \<Rightarrow> first_refusal (check_op H rt sub) ops)"

record guard_verdict =
  gv_allowed :: bool
  gv_refusal :: "refusal option"
  gv_subcommands :: "pystr list"
  gv_handled :: "nat list"

text \<open>The loop over the subcommands; a subcommand with file operations counts as handled once its redirects passed.\<close>

fun evaluate_from :: "guard_host \<Rightarrow> runtime_paths \<Rightarrow> nat \<Rightarrow> pystr list \<Rightarrow> refusal option \<times> nat list" where
  "evaluate_from H rt i [] = (None, [])"
| "evaluate_from H rt i (sub # subs) =
     (let tokens = tokenize sub; ops = detect_ops (Some sub) tokens in
      if runs_sudo tokens then (Some (refuse ''sudo'' ''privilege'' '''' ''privilege''), [])
      else case redirect_refusal ''redirect'' (check_redirects H rt (ops \<noteq> []) tokens) of
        Some r \<Rightarrow> (Some r, [])
      | None \<Rightarrow>
          (let here = (if ops = [] then [] else [i]) in
           case first_refusal (check_op H rt sub) ops of
             Some r \<Rightarrow> (Some r, here)
           | None \<Rightarrow> (case evaluate_from H rt (Suc i) subs of (r, is) \<Rightarrow> (r, here @ is))))"

definition evaluate_command :: "guard_host \<Rightarrow> runtime_paths \<Rightarrow> pystr \<Rightarrow> guard_verdict" where
  "evaluate_command H rt command =
     (let subs = split_subcommands command in
      case evaluate_from H rt 0 subs of
        (r, is) \<Rightarrow> \<lparr>gv_allowed = (r = None), gv_refusal = r, gv_subcommands = subs, gv_handled = is\<rparr>)"

end
