(* ===== verification/CommandApproval.thy ===== *)
theory CommandApproval
  imports PyRegex Stores
begin

text \<open>
  \<open>agent/command_approval.py\<close>: which shell commands are dangerous, what the user has approved for a session or for
  good, the question asked before a dangerous command, and the record of the answers.  The normal form NFKC of a text, the
  clock and the random identifiers are arguments; times are integers.
\<close>

subsection \<open>The patterns\<close>

text \<open>The text is lower-cased before it is searched, so the letters of the patterns are written in lower case.\<close>

definition any_char :: "char \<Rightarrow> bool" where
  "any_char c = True"

definition nonspace :: "char \<Rightarrow> bool" where
  "nonspace c = (\<not> py_isspace c)"

definition one_of :: "pystr \<Rightarrow> char \<Rightarrow> bool" where
  "one_of cs c = (c \<in> set cs)"

definition in_codes :: "nat \<Rightarrow> nat \<Rightarrow> char \<Rightarrow> bool" where
  "in_codes a b c \<longleftrightarrow> a \<le> (of_char c :: nat) \<and> (of_char c :: nat) \<le> b"

definition ansi_final :: "char \<Rightarrow> bool" where
  "ansi_final c \<longleftrightarrow> in_codes 64 90 c \<or> in_codes 92 95 c"

definition rx_anything :: rx where
  "rx_anything = RMany any_char"

definition rx_blank :: rx where
  "rx_blank = rx_some py_isspace"

definition rx_nonblank :: rx where
  "rx_nonblank = RMany nonspace"

definition rx_word :: "pystr \<Rightarrow> rx" where
  "rx_word w = RSeq RBound (RLit w)"

definition rx_one_of :: "pystr list \<Rightarrow> rx" where
  "rx_one_of ws = RSeq RBound (rx_words ws)"

definition rx_class :: "pystr \<Rightarrow> rx" where
  "rx_class cs = RChar (one_of cs)"

definition rx_flags :: rx where
  "rx_flags = RStar (rx_seq [RLit ''-'', rx_nonblank, rx_blank])"

definition rx_open_mode :: rx where
  "rx_open_mode = rx_alts [RLit ''777'', RLit ''666'',
     rx_seq [RLit ''o+'', RMany (one_of ''rwx''), RLit ''w''],
     rx_seq [RLit ''a+'', RMany (one_of ''rwx''), RLit ''w'']]"

definition SSH_SENSITIVE_PATH :: rx where
  "SSH_SENSITIVE_PATH =
     rx_seq [rx_words [''~'', ''$home'', ''${home}''], RLit ''/.ssh'', RAlt (RLit ''/'') REnd]"

definition SENSITIVE_WRITE_TARGET :: rx where
  "SENSITIVE_WRITE_TARGET = rx_alts [RLit ''/etc/'', RLit ''/dev/sd'', SSH_SENSITIVE_PATH]"

definition rx_quote :: rx where
  "rx_quote = rx_opt (rx_class [CHR 0x22, CHR 0x27])"

definition SHELLS :: rx where
  "SHELLS = rx_one_of [''bash'', ''sh'', ''zsh'', ''ksh'']"

definition INTERPRETERS :: rx where
  "INTERPRETERS = RSeq RBound (rx_alts [RSeq (RLit ''python'') (rx_opt (rx_class ''23'')),
     RLit ''perl'', RLit ''ruby'', RLit ''node''])"

definition DANGEROUS_FILES :: "(rx \<times> pystr) list" where
  "DANGEROUS_FILES =
    [(rx_seq [rx_word ''rm'', rx_blank, rx_flags, RLit ''/''], ''delete in root path''),
     (rx_seq [rx_word ''rm'', rx_blank, RLit ''-'', rx_nonblank, RLit ''r''], ''recursive delete''),
     (rx_seq [rx_word ''rm'', rx_blank, RLit ''--recursive'', RBound], ''recursive delete (long flag)''),
     (rx_seq [rx_word ''chmod'', rx_blank, rx_flags, rx_open_mode, RBound], ''world/other-writable permissions''),
     (rx_seq [rx_word ''chmod'', rx_blank, RLit ''--recursive'', RBound, rx_anything, rx_open_mode],
      ''recursive world/other-writable (long flag)''),
     (rx_seq [rx_word ''chown'', rx_blank, rx_opt (RSeq (RLit ''-'') rx_nonblank), RLit ''r'', rx_blank, RLit ''root''],
      ''recursive chown to root''),
     (rx_seq [rx_word ''chown'', rx_blank, RLit ''--recursive'', RBound, rx_anything, RLit ''root''],
      ''recursive chown to root (long flag)''),
     (RSeq (rx_word ''mkfs'') RBound, ''format filesystem''),
     (rx_seq [rx_word ''dd'', rx_blank, rx_anything, RLit ''if=''], ''disk copy''),
     (rx_seq [RLit ''>'', rx_space, RLit ''/dev/sd''], ''write to block device'')]"

definition DANGEROUS_SERVICES :: "(rx \<times> pystr) list" where
  "DANGEROUS_SERVICES =
    [(rx_seq [rx_word ''drop'', rx_blank, rx_words [''table'', ''database''], RBound], ''SQL DROP''),
     (rx_seq [rx_word ''delete'', rx_blank, RLit ''from'', RBound, RNot (rx_seq [rx_anything, rx_word ''where'', RBound])],
      ''SQL DELETE without WHERE''),
     (rx_seq [rx_word ''truncate'', rx_blank, rx_opt (RLit ''table''), rx_space, RChar re_word], ''SQL TRUNCATE''),
     (rx_seq [RLit ''>'', rx_space, RLit ''/etc/''], ''overwrite system config''),
     (rx_seq [rx_word ''systemctl'', rx_blank, rx_words [''stop'', ''disable'', ''mask''], RBound],
      ''stop/disable system service''),
     (rx_seq [rx_word ''kill'', rx_blank, RLit ''-9'', rx_blank, RLit ''-1'', RBound], ''kill all processes''),
     (rx_seq [rx_word ''pkill'', rx_blank, RLit ''-9'', RBound], ''force kill processes''),
     (rx_seq [RLit '':()'', rx_space, RLit ''{'', rx_space, RLit '':'', rx_space, RLit ''|'', rx_space, RLit '':'',
        rx_space, RLit ''&'', rx_space, RLit ''}'', rx_space, RLit '';'', rx_space, RLit '':''], ''fork bomb''),
     (rx_seq [SHELLS, rx_blank, RLit ''-'', rx_nonblank, RLit ''c'', RAlt rx_blank REnd], ''shell command via -c/-lc flag''),
     (rx_seq [INTERPRETERS, rx_blank, RLit ''-'', rx_class ''ec'', rx_blank], ''script execution via -e/-c flag'')]"

definition DANGEROUS_PIPES :: "(rx \<times> pystr) list" where
  "DANGEROUS_PIPES =
    [(rx_seq [rx_one_of [''curl'', ''wget''], RBound, rx_anything, RLit ''|'', rx_space, rx_opt (RLit ''ba''), RLit ''sh'', RBound],
      ''pipe remote content to shell''),
     (rx_seq [SHELLS, rx_blank, RLit ''<'', rx_space, rx_opt (RLit ''<''), rx_space, RLit ''('', rx_space,
        rx_words [''curl'', ''wget''], RBound], ''execute remote script via process substitution''),
     (rx_seq [rx_word ''tee'', RBound, rx_anything, rx_quote, SENSITIVE_WRITE_TARGET], ''overwrite system file via tee''),
     (rx_seq [RLit ''>'', rx_opt (RLit ''>''), rx_space, rx_quote, SENSITIVE_WRITE_TARGET],
      ''overwrite system file via redirection''),
     (rx_seq [rx_word ''xargs'', rx_blank, rx_anything, rx_word ''rm'', RBound], ''xargs with rm''),
     (rx_seq [rx_word ''find'', RBound, rx_anything, RLit ''-exec'', rx_blank, rx_opt (rx_seq [RLit ''/'', rx_nonblank, RLit ''/'']),
        RLit ''rm'', RBound], ''find -exec rm''),
     (rx_seq [rx_word ''find'', RBound, rx_anything, RLit ''-delete'', RBound], ''find -delete''),
     (rx_seq [rx_one_of [''cp'', ''mv'', ''install''], RBound, rx_anything, RChar py_isspace, RLit ''/etc/''],
      ''copy/move file into /etc/''),
     (rx_seq [rx_word ''sed'', rx_blank, RLit ''-'', rx_nonblank, RLit ''i'', rx_anything, RChar py_isspace, RLit ''/etc/''],
      ''in-place edit of system config''),
     (rx_seq [rx_word ''sed'', rx_blank, RLit ''--in-place'', RBound, rx_anything, RChar py_isspace, RLit ''/etc/''],
      ''in-place edit of system config (long flag)'')]"

definition DANGEROUS_TOOLS :: "(rx \<times> pystr) list" where
  "DANGEROUS_TOOLS =
    [(rx_seq [INTERPRETERS, rx_blank, RLit ''<<''], ''script execution via heredoc''),
     (rx_seq [rx_word ''git'', rx_blank, RLit ''reset'', rx_blank, RLit ''--hard'', RBound],
      ''git reset --hard (destroys uncommitted changes)''),
     (rx_seq [rx_word ''git'', rx_blank, RLit ''push'', RBound, rx_anything, RLit ''--force'', RBound],
      ''git force push (rewrites remote history)''),
     (rx_seq [rx_word ''git'', rx_blank, RLit ''push'', RBound, rx_anything, RLit ''-f'', RBound],
      ''git force push short flag (rewrites remote history)''),
     (rx_seq [rx_word ''git'', rx_blank, RLit ''clean'', rx_blank, RLit ''-'', rx_nonblank, RLit ''f''],
      ''git clean with force (deletes untracked files)''),
     (rx_seq [rx_word ''git'', rx_blank, RLit ''branch'', rx_blank, RLit ''-d'', RBound], ''git branch force delete''),
     (rx_seq [rx_word ''chmod'', rx_blank, RLit ''+x'', RBound, rx_anything, rx_some (one_of '';&|''), rx_space, RLit ''./''],
      ''chmod +x followed by immediate execution''),
     (rx_seq [rx_word ''kill'', RBound, rx_anything, RLit ''$('', rx_space, RLit ''pgrep'', RBound],
      ''kill process via pgrep expansion''),
     (rx_seq [rx_word ''kill'', RBound, rx_anything, RLit ''`'', rx_space, RLit ''pgrep'', RBound],
      ''kill process via backtick pgrep expansion'')]"

definition DANGEROUS_PATTERNS :: "(rx \<times> pystr) list" where
  "DANGEROUS_PATTERNS = DANGEROUS_FILES @ DANGEROUS_SERVICES @ DANGEROUS_PIPES @ DANGEROUS_TOOLS"

text \<open>An escape sequence of a terminal: ESC and a character from the at sign to the underscore, or ESC, a bracket,
  parameters and a final character.\<close>

definition rx_ansi :: rx where
  "rx_ansi = RSeq (RLit [CHR 0x1B])
     (RAlt (RChar ansi_final)
       (rx_seq [RLit ''['', RMany (in_codes 48 63), RMany (in_codes 32 47), RChar (in_codes 64 126)]))"

definition normalize_command :: "(pystr \<Rightarrow> pystr) \<Rightarrow> pystr \<Rightarrow> pystr" where
  "normalize_command nfkc cmd = nfkc (filter (\<lambda>c. c \<noteq> CHR 0x00) (rx_remove rx_ansi cmd))"

definition detect_dangerous_command :: "(pystr \<Rightarrow> pystr) \<Rightarrow> pystr \<Rightarrow> pystr option" where
  "detect_dangerous_command nfkc cmd =
     (let text = py_lower (normalize_command nfkc cmd)
      in map_option snd (List.find (\<lambda>(r, _). rx_search r text) DANGEROUS_PATTERNS))"


subsection \<open>The state\<close>

record approvals =
  ap_session :: "pystr \<rightharpoonup> pystr set"
  ap_permanent :: "pystr set"
  ap_added_at :: "pystr \<rightharpoonup> int"
  ap_history :: "json list"
  ap_file :: "pystr option"
  ap_disk :: "pystr \<rightharpoonup> pystr"
  ap_config :: "pystr set option"

text \<open>What an operation sees of the machine: the clock, a fresh identifier, whether the history file and the
  configuration can be written, whether \<open>MIQI_INTERACTIVE\<close> is set.\<close>

record approval_env =
  ae_nfkc :: "pystr \<Rightarrow> pystr"
  ae_now :: int
  ae_uuid :: pystr
  ae_can_append :: bool
  ae_can_save :: bool
  ae_interactive :: bool

definition fresh_approvals :: "(pystr \<rightharpoonup> pystr) \<Rightarrow> approvals" where
  "fresh_approvals disk = \<lparr>ap_session = Map.empty, ap_permanent = {}, ap_added_at = Map.empty, ap_history = [],
     ap_file = None, ap_disk = disk, ap_config = None\<rparr>"

definition is_approved :: "pystr \<Rightarrow> pystr \<Rightarrow> approvals \<Rightarrow> bool" where
  "is_approved sk p s \<longleftrightarrow> p \<in> ap_permanent s \<or> (case ap_session s sk of None \<Rightarrow> False | Some A \<Rightarrow> p \<in> A)"

definition approve_session :: "pystr \<Rightarrow> pystr \<Rightarrow> approvals \<Rightarrow> approvals" where
  "approve_session sk p s = s\<lparr>ap_session := (ap_session s)(sk \<mapsto>
     insert p (case ap_session s sk of None \<Rightarrow> {} | Some A \<Rightarrow> A))\<rparr>"

definition approve_permanent :: "int \<Rightarrow> pystr \<Rightarrow> approvals \<Rightarrow> approvals" where
  "approve_permanent now p s =
     s\<lparr>ap_permanent := insert p (ap_permanent s), ap_added_at := (ap_added_at s)(p \<mapsto> now)\<rparr>"

definition remove_permanent :: "pystr \<Rightarrow> approvals \<Rightarrow> bool \<times> approvals" where
  "remove_permanent p s =
     (if p \<in> ap_permanent s
      then (True, s\<lparr>ap_permanent := ap_permanent s - {p}, ap_added_at := (ap_added_at s)(p := None)\<rparr>)
      else (False, s))"

definition clear_session :: "pystr \<Rightarrow> approvals \<Rightarrow> approvals" where
  "clear_session sk s = s\<lparr>ap_session := (ap_session s)(sk := None)\<rparr>"

definition load_permanent_allowlist :: "pystr set \<Rightarrow> approvals \<Rightarrow> approvals" where
  "load_permanent_allowlist P s = s\<lparr>ap_permanent := ap_permanent s \<union> P\<rparr>"

definition replace_permanent_allowlist :: "pystr set \<Rightarrow> approvals \<Rightarrow> approvals" where
  "replace_permanent_allowlist P s =
     s\<lparr>ap_permanent := P, ap_added_at := (\<lambda>p. if p \<in> P then ap_added_at s p else None)\<rparr>"

text \<open>\<open>_save_permanent_allowlist\<close>: writing the configuration may fail, and then the file keeps what it has.\<close>

definition save_permanent_allowlist :: "approval_env \<Rightarrow> approvals \<Rightarrow> approvals" where
  "save_permanent_allowlist E s = (if ae_can_save E then s\<lparr>ap_config := Some (ap_permanent s)\<rparr> else s)"

subsection \<open>The record of the answers\<close>

definition history_entry :: "approval_env \<Rightarrow> pystr \<Rightarrow> pystr \<Rightarrow> pystr \<Rightarrow> pystr \<Rightarrow> pystr \<Rightarrow> dict" where
  "history_entry E key desc cmd decision sk =
     [(''id'', JStr (ae_uuid E)), (''pattern_key'', JStr key), (''description'', JStr desc), (''command'', JStr cmd),
      (''decision'', JStr decision), (''timestamp'', JNum (ae_now E)), (''session_key'', JStr sk)]"

definition add_approval_history :: "approval_env \<Rightarrow> dict \<Rightarrow> approvals \<Rightarrow> approvals" where
  "add_approval_history E entry s =
     (let s1 = s\<lparr>ap_history := ap_history s @ [JDict entry]\<rparr>
      in case ap_file s of
           Some (c # path) \<Rightarrow> if ae_can_append E then s1\<lparr>ap_disk := append_file (c # path) (dump_line entry) (ap_disk s)\<rparr> else s1
         | _ \<Rightarrow> s1)"

text \<open>The lines of a file opened as text: a carriage return ends a line too.\<close>

definition file_lines :: "pystr \<Rightarrow> pystr list" where
  "file_lines text = py_split_ch (CHR 0x0A) (py_replace_ch (CHR 0x0D) (CHR 0x0A) text)"

definition history_line :: "pystr \<Rightarrow> json list" where
  "history_line line =
     (let l = py_strip line in if l = '''' then [] else (case json_loads l of Some v \<Rightarrow> [v] | None \<Rightarrow> []))"

definition init_history_file :: "pystr \<Rightarrow> approvals \<Rightarrow> approvals" where
  "init_history_file path s =
     (let s1 = s\<lparr>ap_file := Some path\<rparr>
      in case ap_disk s path of
           None \<Rightarrow> s1
         | Some text \<Rightarrow> s1\<lparr>ap_history := ap_history s @ concat (map history_line (file_lines text))\<rparr>)"

definition get_approval_history :: "int \<Rightarrow> approvals \<Rightarrow> json list" where
  "get_approval_history limit s = rev (py_from (ap_history s) (- limit))"

definition pending_with_age :: "int \<Rightarrow> (pystr \<rightharpoonup> dict) \<Rightarrow> pystr \<Rightarrow> json result" where
  "pending_with_age now pending aid =
     (let data = (case pending aid of None \<Rightarrow> [] | Some d \<Rightarrow> d);
          created = dget_or data ''created_at'' (JNum now)
      in case as_int created of
           None \<Rightarrow> Inl (TypeError ''unsupported operand type(s) for -'')
         | Some t \<Rightarrow> Inr (JDict [(''approval_id'', JStr aid), (''command'', dget_or data ''command'' (JStr '''')),
             (''description'', dget_or data ''description'' (JStr '''')), (''created_at'', created),
             (''age_seconds'', JNum (now - t)), (''allow_permanent'', dget_or data ''allow_permanent'' (JBool True))]))"

fun pending_approvals_with_age :: "int \<Rightarrow> (pystr \<rightharpoonup> dict) \<Rightarrow> pystr list \<Rightarrow> json list result" where
  "pending_approvals_with_age now pending [] = Inr []"
| "pending_approvals_with_age now pending (aid # aids) =
     bind_result (pending_with_age now pending aid) (\<lambda>x.
     bind_result (pending_approvals_with_age now pending aids) (\<lambda>xs. Inr (x # xs)))"

subsection \<open>The question and the check\<close>

text \<open>What happens at the terminal: a line is typed, nothing is typed for a minute, the input is closed, the wait is
  interrupted.\<close>

datatype cli_input = Typed pystr | CliTimeout | CliClosed | CliInterrupted

type_synonym approval_callback = "pystr \<Rightarrow> pystr \<Rightarrow> bool \<Rightarrow> pystr result"

definition cli_choice :: "bool \<Rightarrow> pystr \<Rightarrow> pystr" where
  "cli_choice allow_permanent choice =
     (if choice = ''o'' \<or> choice = ''once'' then ''once''
      else if choice = ''s'' \<or> choice = ''session'' then ''session''
      else if choice = ''a'' \<or> choice = ''always'' then (if allow_permanent then ''always'' else ''session'')
      else ''deny'')"

definition prompt_dangerous_approval ::
  "bool \<Rightarrow> approval_callback option \<Rightarrow> cli_input \<Rightarrow> pystr \<Rightarrow> pystr \<Rightarrow> pystr" where
  "prompt_dangerous_approval allow_permanent cb inp cmd desc =
     (case cb of
        Some f \<Rightarrow> (case f cmd desc allow_permanent of Inl _ \<Rightarrow> ''deny'' | Inr choice \<Rightarrow> choice)
      | None \<Rightarrow>
          (case inp of
             Typed line \<Rightarrow> cli_choice allow_permanent (py_lower (py_strip line))
           | CliClosed \<Rightarrow> cli_choice allow_permanent ''''
           | _ \<Rightarrow> ''deny''))"

definition passes :: dict where
  "passes = [(''approved'', JBool True), (''message'', JNull)]"

definition blocked :: "pystr \<Rightarrow> dict" where
  "blocked desc = [(''approved'', JBool False),
     (''message'', JStr (''BLOCKED: User denied this potentially dangerous command (matched '' @ [CHR 0x27] @ desc @
        [CHR 0x27] @ '' pattern). Do NOT retry this command.'')),
     (''pattern_key'', JStr desc), (''description'', JStr desc)]"

definition check_dangerous_command ::
  "approval_env \<Rightarrow> approval_callback option \<Rightarrow> cli_input \<Rightarrow> pystr \<Rightarrow> pystr \<Rightarrow> approvals \<Rightarrow> dict \<times> approvals" where
  "check_dangerous_command E cb inp cmd sk s =
     (case detect_dangerous_command (ae_nfkc E) cmd of
        None \<Rightarrow> (passes, s)
      | Some key \<Rightarrow>
          if is_approved sk key s then (passes, s)
          else if cb = None \<and> \<not> ae_interactive E then (passes, s)
          else
            (let choice = prompt_dangerous_approval True cb inp cmd key;
                 entry = (\<lambda>decision. history_entry E key key cmd decision sk)
             in if choice = ''deny'' then (blocked key, add_approval_history E (entry ''deny'') s)
                else if choice = ''session''
                then (passes, add_approval_history E (entry ''session'') (approve_session sk key s))
                else if choice = ''always''
                then (passes, add_approval_history E (entry ''always'')
                   (save_permanent_allowlist E (approve_permanent (ae_now E) key (approve_session sk key s))))
                else (passes, add_approval_history E (entry ''once'') s)))"

subsection \<open>What is approved was approved by somebody\<close>

datatype approval_op =
    CheckCommand approval_env "approval_callback option" cli_input pystr pystr
  | ApproveSession pystr pystr
  | ApprovePermanent int pystr
  | RemovePermanent pystr
  | ClearSession pystr
  | LoadAllowlist "pystr set"
  | ReplaceAllowlist "pystr set"
  | InitHistory pystr

fun approval_act :: "approval_op \<Rightarrow> approvals \<Rightarrow> approvals" where
  "approval_act (CheckCommand E cb inp cmd sk) s = snd (check_dangerous_command E cb inp cmd sk s)"
| "approval_act (ApproveSession sk p) s = approve_session sk p s"
| "approval_act (ApprovePermanent now p) s = approve_permanent now p s"
| "approval_act (RemovePermanent p) s = snd (remove_permanent p s)"
| "approval_act (ClearSession sk) s = clear_session sk s"
| "approval_act (LoadAllowlist P) s = load_permanent_allowlist P s"
| "approval_act (ReplaceAllowlist P) s = replace_permanent_allowlist P s"
| "approval_act (InitHistory path) s = init_history_file path s"

definition approvals_run :: "approval_op list \<Rightarrow> approvals \<Rightarrow> approvals" where
  "approvals_run ops s = fold approval_act ops s"

text \<open>The user was asked about the pattern of a command of the session, and answered with the decision.\<close>

fun answered_with :: "pystr \<Rightarrow> pystr \<Rightarrow> pystr \<Rightarrow> approval_op \<Rightarrow> approvals \<Rightarrow> bool" where
  "answered_with sk p choice (CheckCommand E cb inp cmd sk') s \<longleftrightarrow>
     sk' = sk \<and> detect_dangerous_command (ae_nfkc E) cmd = Some p \<and> \<not> is_approved sk p s \<and> (cb \<noteq> None \<or> ae_interactive E)
     \<and> prompt_dangerous_approval True cb inp cmd p = choice"
| "answered_with sk p choice _ s \<longleftrightarrow> False"

fun grants_session :: "pystr \<Rightarrow> pystr \<Rightarrow> approval_op \<Rightarrow> approvals \<Rightarrow> bool" where
  "grants_session sk p (ApproveSession sk' p') s \<longleftrightarrow> sk' = sk \<and> p' = p"
| "grants_session sk p op s \<longleftrightarrow> answered_with sk p ''session'' op s \<or> answered_with sk p ''always'' op s"

fun grants_permanent :: "pystr \<Rightarrow> approval_op \<Rightarrow> approvals \<Rightarrow> bool" where
  "grants_permanent p (ApprovePermanent now p') s \<longleftrightarrow> p' = p"
| "grants_permanent p (LoadAllowlist P) s \<longleftrightarrow> p \<in> P"
| "grants_permanent p (ReplaceAllowlist P) s \<longleftrightarrow> p \<in> P"
| "grants_permanent p (CheckCommand E cb inp cmd sk) s \<longleftrightarrow> answered_with sk p ''always'' (CheckCommand E cb inp cmd sk) s"
| "grants_permanent p _ s \<longleftrightarrow> False"

fun revokes_permanent :: "pystr \<Rightarrow> approval_op \<Rightarrow> bool" where
  "revokes_permanent p (RemovePermanent p') \<longleftrightarrow> p' = p"
| "revokes_permanent p (ReplaceAllowlist P) \<longleftrightarrow> p \<notin> P"
| "revokes_permanent p _ \<longleftrightarrow> False"

definition in_session :: "pystr \<Rightarrow> pystr \<Rightarrow> approvals \<Rightarrow> bool" where
  "in_session sk p s \<longleftrightarrow> (case ap_session s sk of None \<Rightarrow> False | Some A \<Rightarrow> p \<in> A)"

lemma add_history_keeps [simp]:
  "ap_session (add_approval_history E e s) = ap_session s"
  "ap_permanent (add_approval_history E e s) = ap_permanent s"
  "ap_added_at (add_approval_history E e s) = ap_added_at s"
  "ap_history (add_approval_history E e s) = ap_history s @ [JDict e]"
  by (auto simp: add_approval_history_def Let_def split: option.splits list.splits)

lemma save_allowlist_keeps [simp]:
  "ap_session (save_permanent_allowlist E s) = ap_session s"
  "ap_permanent (save_permanent_allowlist E s) = ap_permanent s"
  "ap_added_at (save_permanent_allowlist E s) = ap_added_at s"
  "ap_history (save_permanent_allowlist E s) = ap_history s"
  by (auto simp: save_permanent_allowlist_def)

lemma init_history_keeps [simp]:
  "ap_session (init_history_file path s) = ap_session s"
  "ap_permanent (init_history_file path s) = ap_permanent s"
  "ap_added_at (init_history_file path s) = ap_added_at s"
  by (auto simp: init_history_file_def Let_def split: option.splits)

lemma in_session_approve [simp]:
  "in_session sk p (approve_session sk' p' s) \<longleftrightarrow> sk' = sk \<and> p' = p \<or> in_session sk p s"
  by (auto simp: in_session_def approve_session_def split: option.splits)

lemma in_session_cong: "ap_session s = ap_session t \<Longrightarrow> in_session sk p s = in_session sk p t"
  by (simp add: in_session_def)

lemma in_session_keeps [simp]:
  "in_session sk p (add_approval_history E e s) = in_session sk p s"
  "in_session sk p (save_permanent_allowlist E s) = in_session sk p s"
  "in_session sk p (init_history_file path s) = in_session sk p s"
  "in_session sk p (approve_permanent now p' s) = in_session sk p s"
  "in_session sk p (snd (remove_permanent p' s)) = in_session sk p s"
  "in_session sk p (load_permanent_allowlist P s) = in_session sk p s"
  "in_session sk p (replace_permanent_allowlist P s) = in_session sk p s"
  by (auto intro!: in_session_cong simp: approve_permanent_def remove_permanent_def load_permanent_allowlist_def
      replace_permanent_allowlist_def)

lemma permanent_keeps [simp]:
  "ap_permanent (approve_session sk p s) = ap_permanent s"
  "ap_permanent (clear_session sk s) = ap_permanent s"
  "ap_permanent (approve_permanent now p s) = insert p (ap_permanent s)"
  "ap_permanent (snd (remove_permanent p s)) = ap_permanent s - {p}"
  "ap_permanent (load_permanent_allowlist P s) = ap_permanent s \<union> P"
  "ap_permanent (replace_permanent_allowlist P s) = P"
  by (auto simp: approve_session_def clear_session_def approve_permanent_def remove_permanent_def
      load_permanent_allowlist_def replace_permanent_allowlist_def)

lemma is_approved_iff: "is_approved sk p s \<longleftrightarrow> p \<in> ap_permanent s \<or> in_session sk p s"
  by (simp add: is_approved_def in_session_def)

lemma choices_differ: "''deny'' \<noteq> (''session''::pystr)" "''deny'' \<noteq> (''always''::pystr)" "''session'' \<noteq> (''always''::pystr)"
  by simp_all

lemma session_step:
  "in_session sk p (approval_act op s) \<longleftrightarrow>
     grants_session sk p op s \<or> (in_session sk p s \<and> op \<noteq> ClearSession sk)"
proof (cases op)
  case (CheckCommand E cb inp cmd sk')
  then show ?thesis
    by (auto simp: check_dangerous_command_def Let_def is_approved_iff split: option.splits)
next
  case (ClearSession sk')
  then show ?thesis by (auto simp: clear_session_def in_session_def split: option.splits)
qed auto

lemma permanent_step:
  "p \<in> ap_permanent (approval_act op s) \<longleftrightarrow>
     grants_permanent p op s \<or> (p \<in> ap_permanent s \<and> \<not> revokes_permanent p op)"
proof (cases op)
  case (CheckCommand E cb inp cmd sk')
  then show ?thesis
    by (auto simp: check_dangerous_command_def Let_def is_approved_iff split: option.splits)
qed auto


lemma fold_grant:
  assumes step: "\<And>op s. P (act op s) \<longleftrightarrow> G op s \<or> P s \<and> \<not> R op"
  shows "P (fold act ops s) \<longleftrightarrow>
     (\<exists>before op after. ops = before @ op # after \<and> G op (fold act before s) \<and> \<not> list_ex R after) \<or> P s \<and> \<not> list_ex R ops"
proof (induction ops rule: rev_induct)
  case (snoc op ops)
  have split: "(\<exists>before x after. ops @ [op] = before @ x # after \<and> G x (fold act before s) \<and> \<not> list_ex R after) \<longleftrightarrow>
      G op (fold act ops s) \<or>
      (\<exists>before x after. ops = before @ x # after \<and> G x (fold act before s) \<and> \<not> list_ex R after \<and> \<not> R op)" (is "?l \<longleftrightarrow> ?r")
  proof
    assume ?l
    then obtain b x a where e: "ops @ [op] = b @ x # a" and g: "G x (fold act b s)" "\<not> list_ex R a" by blast
    show ?r
    proof (cases a rule: rev_cases)
      case Nil
      with e g show ?thesis by simp
    next
      case (snoc a' y)
      with e have "ops = b @ x # a'" "y = op" by auto
      with g snoc show ?thesis by auto
    qed
  next
    assume ?r
    then show ?l
    proof
      assume "G op (fold act ops s)"
      then show ?l by (intro exI[of _ ops] exI[of _ op] exI[of _ "[]"]) simp
    next
      assume "\<exists>before x after. ops = before @ x # after \<and> G x (fold act before s) \<and> \<not> list_ex R after \<and> \<not> R op"
      then obtain b x a where "ops = b @ x # a" "G x (fold act b s)" "\<not> list_ex R a" "\<not> R op" by blast
      then show ?l by (intro exI[of _ b] exI[of _ x] exI[of _ "a @ [op]"]) simp
    qed
  qed
  have "P (fold act (ops @ [op]) s) \<longleftrightarrow> G op (fold act ops s) \<or> P (fold act ops s) \<and> \<not> R op"
    by (simp add: step)
  with snoc.IH split show ?case by auto
qed simp

lemma fresh_nothing: "\<not> in_session sk p (fresh_approvals disk)" "p \<notin> ap_permanent (fresh_approvals disk)"
  by (simp_all add: fresh_approvals_def in_session_def)

text \<open>C9. Nothing is approved by itself: after any sequence of operations from a fresh start, a pattern is approved for a
  session exactly if it was granted to that very session and the session was not cleared since, or it was granted
  for good and not taken back since, neither by a removal nor by a reload of the configuration without it.
  A check grants only when the user was asked about this pattern and answered so.\<close>

theorem approvals_were_granted:
  "is_approved sk p (approvals_run ops (fresh_approvals disk)) \<longleftrightarrow>
     (\<exists>before op after. ops = before @ op # after \<and> grants_session sk p op (approvals_run before (fresh_approvals disk))
        \<and> \<not> list_ex (\<lambda>x. x = ClearSession sk) after)
   \<or> (\<exists>before op after. ops = before @ op # after \<and> grants_permanent p op (approvals_run before (fresh_approvals disk))
        \<and> \<not> list_ex (revokes_permanent p) after)"
  unfolding is_approved_iff approvals_run_def
    fold_grant[of "in_session sk p" approval_act "grants_session sk p" "\<lambda>x. x = ClearSession sk", OF session_step]
    fold_grant[of "\<lambda>s. p \<in> ap_permanent s" approval_act "grants_permanent p" "revokes_permanent p", OF permanent_step]
  using fresh_nothing by blast

subsection \<open>The check\<close>

definition asked :: "approval_env \<Rightarrow> approval_callback option \<Rightarrow> pystr \<Rightarrow> pystr \<Rightarrow> approvals \<Rightarrow> pystr option" where
  "asked E cb cmd sk s =
     (case detect_dangerous_command (ae_nfkc E) cmd of
        None \<Rightarrow> None
      | Some p \<Rightarrow> if is_approved sk p s \<or> (cb = None \<and> \<not> ae_interactive E) then None else Some p)"

text \<open>The check of a command: when nobody is asked, nothing changes and the command passes; when the user is asked, it
  passes exactly if the answer is not a denial, the answer is recorded once, at the end of the history, under the
  session, the pattern and the command, and a denial leaves every approval as it was.\<close>

theorem command_check_decides:
  assumes "check_dangerous_command E cb inp cmd sk s = (r, s')"
  shows "case asked E cb cmd sk s of
     None \<Rightarrow> r = passes \<and> s' = s
   | Some p \<Rightarrow>
       (let choice = prompt_dangerous_approval True cb inp cmd p;
            decision = (if choice \<in> {''deny'', ''session'', ''always''} then choice else ''once'')
        in (dget r ''approved'' = Some (JBool (choice \<noteq> ''deny'')))
         \<and> ap_history s' = ap_history s @ [JDict (history_entry E p p cmd decision sk)]
         \<and> (choice = ''deny'' \<longrightarrow> ap_session s' = ap_session s \<and> ap_permanent s' = ap_permanent s \<and> ap_added_at s' = ap_added_at s))"
  using assms unfolding check_dangerous_command_def asked_def
  by (auto simp: Let_def passes_def blocked_def approve_session_def approve_permanent_def split: option.splits if_splits)

definition demo_approval_env :: approval_env where
  "demo_approval_env = \<lparr>ae_nfkc = (\<lambda>s. s), ae_now = 7, ae_uuid = ''u1'', ae_can_append = True, ae_can_save = True,
     ae_interactive = False\<rparr>"

lemma detects_mkfs: "detect_dangerous_command (ae_nfkc demo_approval_env) ''mkfs x'' = Some ''format filesystem''"
  by code_simp

theorem command_check_decides_witness:
  "dget (fst (check_dangerous_command demo_approval_env (Some (\<lambda>_ _ _. Inr ''deny'')) CliTimeout ''mkfs x'' ''s1''
     (fresh_approvals Map.empty))) ''approved'' = Some (JBool False)"
proof -
  let ?c = "Some (\<lambda>_ _ _. Inr ''deny'') :: approval_callback option"
  have "asked demo_approval_env ?c ''mkfs x'' ''s1'' (fresh_approvals Map.empty) = Some ''format filesystem''"
    by (simp add: asked_def detects_mkfs is_approved_def fresh_approvals_def)
  with command_check_decides[of demo_approval_env ?c CliTimeout "''mkfs x''" "''s1''" "fresh_approvals Map.empty", OF surjective_pairing]
  show ?thesis by (simp add: prompt_dangerous_approval_def Let_def)
qed

subsection \<open>The times of the permanent approvals\<close>

definition times_sound :: "approvals \<Rightarrow> bool" where
  "times_sound s \<longleftrightarrow> dom (ap_added_at s) \<subseteq> ap_permanent s"

lemma times_sound_act: "times_sound s \<Longrightarrow> times_sound (approval_act op s)"
proof (cases op)
  case (CheckCommand E cb inp cmd sk)
  assume "times_sound s"
  then show ?thesis
    unfolding CheckCommand
    by (auto simp: times_sound_def check_dangerous_command_def Let_def approve_session_def approve_permanent_def split: option.splits)
qed (auto simp: times_sound_def approve_session_def approve_permanent_def remove_permanent_def clear_session_def
    load_permanent_allowlist_def replace_permanent_allowlist_def split: if_splits)

text \<open>Only patterns on the permanent list carry a time, whatever happened since the start.\<close>

theorem times_belong_to_patterns:
  "dom (ap_added_at (approvals_run ops (fresh_approvals disk))) \<subseteq> ap_permanent (approvals_run ops (fresh_approvals disk))"
proof -
  have "times_sound (fold approval_act ops s)" if "times_sound s" for s
    using that by (induction ops arbitrary: s) (auto simp: times_sound_act)
  moreover have "times_sound (fresh_approvals disk)" by (simp add: times_sound_def fresh_approvals_def)
  ultimately show ?thesis by (simp add: times_sound_def approvals_run_def)
qed

subsection \<open>The history survives a restart\<close>

lemma file_lines_dump:
  assumes "\<forall>c \<in> set l. c \<noteq> CHR 0x0A \<and> c \<noteq> CHR 0x0D"
  shows "file_lines (l @ [CHR 0x0A] @ rest) = l # file_lines rest"
proof -
  have "py_replace_ch (CHR 0x0D) (CHR 0x0A) l = l"
    using assms by (induction l) (auto simp: py_replace_ch_def)
  moreover have "py_replace_ch c d (u @ v) = py_replace_ch c d u @ py_replace_ch c d v" for c d u v
    by (simp add: py_replace_ch_def)
  moreover have "py_replace_ch (CHR 0x0D) (CHR 0x0A) [CHR 0x0A] = [CHR 0x0A]" by (simp add: py_replace_ch_def)
  ultimately show ?thesis
    using assms by (simp add: file_lines_def) (metis append_Cons append_Nil py_split_ch_append)
qed

lemma history_line_dump:
  assumes "wf_json (JDict d)"
  shows "history_line (json_dumps (JDict d)) = [JDict d]"
  using json_loads_dumps[OF assms] unfolding history_line_def strip_dumps Let_def by (cases "json_dumps (JDict d) = ''''") auto

lemma dump_no_break:
  "\<forall>c \<in> set (json_dumps v). c \<noteq> CHR 0x0A \<and> c \<noteq> CHR 0x0D"
  using json_dumps_ge[of _ v] by fastforce

lemma history_lines_dump:
  assumes "\<forall>d \<in> set ds. wf_json (JDict d)"
  shows "concat (map history_line (file_lines (concat (map dump_line ds)))) = map JDict ds"
  using assms
proof (induction ds)
  case Nil
  then show ?case by (simp add: file_lines_def py_replace_ch_def history_line_def py_strip_def py_rstrip_of_def)
next
  case (Cons d ds)
  have "file_lines (concat (map dump_line (d # ds))) = json_dumps (JDict d) # file_lines (concat (map dump_line ds))"
    using file_lines_dump[OF dump_no_break, of "JDict d"] by (simp add: dump_line_def del: json_dumps.simps)
  with Cons show ?case by (simp add: history_line_dump del: json_dumps.simps wf_json.simps)
qed

text \<open>The file holds what the process remembers.\<close>

definition recorded :: "pystr \<Rightarrow> approvals \<Rightarrow> bool" where
  "recorded path s \<longleftrightarrow> ap_file s = Some path \<and> (\<exists>ds. (\<forall>d \<in> set ds. wf_json (JDict d)) \<and> ap_history s = map JDict ds \<and>
     (ap_disk s path = Some (concat (map dump_line ds)) \<or> ds = [] \<and> ap_disk s path = None))"

fun keeps_record :: "approval_op \<Rightarrow> bool" where
  "keeps_record (CheckCommand E cb inp cmd sk) = ae_can_append E"
| "keeps_record (InitHistory path) = False"
| "keeps_record _ = True"

lemma wf_history_entry: "wf_json (JDict (history_entry E key desc cmd decision sk))"
  by (simp add: history_entry_def)

lemma recorded_cong:
  "recorded path s \<Longrightarrow> ap_file t = ap_file s \<Longrightarrow> ap_history t = ap_history s \<Longrightarrow> ap_disk t = ap_disk s \<Longrightarrow> recorded path t"
  by (simp add: recorded_def)

lemma recorded_add:
  assumes "recorded path s" "wf_json (JDict e)" "ae_can_append E" "path \<noteq> ''''"
  shows "recorded path (add_approval_history E e s)"
proof -
  obtain ds where ds: "\<forall>d \<in> set ds. wf_json (JDict d)" "ap_history s = map JDict ds"
    "ap_disk s path = Some (concat (map dump_line ds)) \<or> ds = [] \<and> ap_disk s path = None" "ap_file s = Some path"
    using assms(1) by (auto simp: recorded_def)
  obtain c p where path: "path = c # p" using assms(4) by (cases path) auto
  have "ap_disk (add_approval_history E e s) path = Some (concat (map dump_line (ds @ [e])))"
    using ds(3,4) assms(3) by (auto simp: add_approval_history_def path append_file_def Let_def)
  moreover have "ap_file (add_approval_history E e s) = Some path"
    using ds(4) by (auto simp: add_approval_history_def path Let_def)
  ultimately show ?thesis
    using ds(1,2) assms(2) unfolding recorded_def by (intro conjI exI[of _ "ds @ [e]"]) (auto simp del: wf_json.simps)
qed

lemma recorded_act:
  assumes "recorded path s" "keeps_record op" "path \<noteq> ''''"
  shows "recorded path (approval_act op s)"
proof (cases op)
  case (CheckCommand E cb inp cmd sk)
  have more: "recorded path (approve_session sk p s)" "recorded path (save_permanent_allowlist E (approve_permanent t p (approve_session sk p s)))" for p t
    by (rule recorded_cong[OF assms(1)]; simp add: approve_session_def approve_permanent_def save_permanent_allowlist_def)+
  have E: "ae_can_append E" using assms(2) CheckCommand by simp
  note add = recorded_add[OF _ wf_history_entry E assms(3)]
  show ?thesis
    unfolding CheckCommand approval_act.simps check_dangerous_command_def Let_def
    using assms(1) add[OF assms(1)] add[OF more(1)] add[OF more(2)]
    by (auto split: option.split)
qed (use assms in \<open>auto intro: recorded_cong simp: approve_session_def approve_permanent_def remove_permanent_def clear_session_def
    load_permanent_allowlist_def replace_permanent_allowlist_def\<close>)

text \<open>The answers survive a restart: when the history file is new and could always be written, a process that starts
  later on the same files reads back exactly the answers that were recorded, in their order.\<close>

theorem history_survives_restart:
  assumes "path \<noteq> ''''" "disk path = None" "list_all keeps_record ops"
    and "s = approvals_run ops (init_history_file path (fresh_approvals disk))"
  shows "ap_history (init_history_file path (fresh_approvals (ap_disk s))) = ap_history s"
proof -
  have "recorded path (init_history_file path (fresh_approvals disk))"
    using assms(2) by (simp add: recorded_def init_history_file_def fresh_approvals_def)
  then have "recorded path s"
    using assms(3) unfolding assms(4) approvals_run_def
  proof (induction ops arbitrary: disk rule: rev_induct)
    case (snoc op ops)
    then show ?case using recorded_act[OF _ _ assms(1)] by simp
  qed simp
  then obtain ds where "\<forall>d \<in> set ds. wf_json (JDict d)" "ap_history s = map JDict ds"
    "ap_disk s path = Some (concat (map dump_line ds)) \<or> ds = [] \<and> ap_disk s path = None"
    by (auto simp: recorded_def)
  then show ?thesis
    using history_lines_dump[of ds]
    by (elim disjE) (auto simp: init_history_file_def fresh_approvals_def Let_def simp del: wf_json.simps)
qed

definition demo_check :: approval_op where
  "demo_check = CheckCommand demo_approval_env (Some (\<lambda>_ _ _. Inr ''once'')) CliTimeout ''mkfs x'' ''s1''"

theorem history_survives_restart_witness:
  "ap_history (init_history_file ''h.jsonl'' (fresh_approvals (ap_disk
     (approvals_run [demo_check] (init_history_file ''h.jsonl'' (fresh_approvals Map.empty))))))
   = [JDict (history_entry demo_approval_env ''format filesystem'' ''format filesystem'' ''mkfs x'' ''once'' ''s1'')]"
proof -
  let ?s = "approvals_run [demo_check] (init_history_file ''h.jsonl'' (fresh_approvals Map.empty))"
  have "list_all keeps_record [demo_check]" by (simp add: demo_check_def demo_approval_env_def)
  then have "ap_history (init_history_file ''h.jsonl'' (fresh_approvals (ap_disk ?s))) = ap_history ?s"
    using history_survives_restart[of "''h.jsonl''" Map.empty "[demo_check]" ?s] by simp
  also have "ap_history ?s = [JDict (history_entry demo_approval_env ''format filesystem'' ''format filesystem'' ''mkfs x'' ''once'' ''s1'')]"
    by (simp add: approvals_run_def demo_check_def check_dangerous_command_def detects_mkfs is_approved_def
        init_history_file_def fresh_approvals_def prompt_dangerous_approval_def Let_def)
  finally show ?thesis .
qed

subsection \<open>Where the check does not do what it means to\<close>

lemma detect_none:
  "detect_dangerous_command nfkc cmd = None \<longleftrightarrow>
     list_all (\<lambda>p. \<not> rx_search (fst p) (py_lower (normalize_command nfkc cmd)))
       (DANGEROUS_FILES @ DANGEROUS_SERVICES @ DANGEROUS_PIPES @ DANGEROUS_TOOLS)"
  unfolding detect_dangerous_command_def DANGEROUS_PATTERNS_def Let_def
  by (simp only: option.map_disc_iff find_None_iff list_all_iff case_prod_unfold) blast

lemma normal_plain: "py_lower (normalize_command (\<lambda>s. s) ''rm -v -r x'') = ''rm -v -r x''"
  by code_simp

lemma harmless_files: "list_all (\<lambda>p. \<not> rx_search (fst p) ''rm -v -r x'') DANGEROUS_FILES"
  by code_simp

lemma harmless_services: "list_all (\<lambda>p. \<not> rx_search (fst p) ''rm -v -r x'') DANGEROUS_SERVICES"
  by code_simp

lemma harmless_pipes: "list_all (\<lambda>p. \<not> rx_search (fst p) ''rm -v -r x'') DANGEROUS_PIPES"
  by code_simp

lemma harmless_tools: "list_all (\<lambda>p. \<not> rx_search (fst p) ''rm -v -r x'') DANGEROUS_TOOLS"
  by code_simp

text \<open>Flags written apart are not put together: a recursive delete passes as harmless.\<close>

theorem separate_flags_are_not_seen:
  "detect_dangerous_command (\<lambda>s. s) ''rm -v -r x'' = None"
  unfolding detect_none list_all_append normal_plain
  using harmless_files harmless_services harmless_pipes harmless_tools by blast

text \<open>The lower-cased text cannot tell the two deletions of a branch apart: the safe one is taken for the forced one.\<close>

theorem safe_branch_delete_is_flagged:
  "detect_dangerous_command (\<lambda>s. s) ''git branch -d x'' \<noteq> None"
proof -
  have "list_ex (\<lambda>p. rx_search (fst p) (py_lower (normalize_command (\<lambda>s. s) ''git branch -d x''))) DANGEROUS_TOOLS"
    by code_simp
  then show ?thesis unfolding detect_none by (auto simp: list_all_iff list_ex_iff)
qed

text \<open>Any answer of the callback that is not known counts as consent for this once.\<close>

theorem unknown_answer_is_consent:
  "dget (fst (check_dangerous_command demo_approval_env (Some (\<lambda>_ _ _. Inr ''no'')) CliTimeout ''mkfs x'' ''s1''
     (fresh_approvals Map.empty))) ''approved'' = Some (JBool True)"
  by (simp add: check_dangerous_command_def detects_mkfs is_approved_def fresh_approvals_def prompt_dangerous_approval_def
      passes_def Let_def)

text \<open>A limit of zero returns the whole history instead of nothing.\<close>

theorem limit_zero_returns_everything:
  "get_approval_history 0 s = rev (ap_history s)"
  by (simp add: get_approval_history_def py_from_def)

end
