(* ===== verification/ToolRepair.thy ===== *)
theory ToolRepair
  imports JsonText PyRegex Stores
begin

text \<open>
  \<open>kun_runtime/tool_call_repair.py\<close> and \<open>history_hygiene.py\<close>: arguments of a tool call that a model wrapped, quoted or fenced
  are unpacked and long strings cut; tool results that are too long for a request are reduced to their first, last and telling
  lines.  The replacement character of a cut multi-byte character is written as a question mark.
\<close>

subsection \<open>Reading an object out of a text\<close>

definition BACKTICKS :: pystr where
  "BACKTICKS = ''```''"

definition strip_language :: "pystr \<Rightarrow> pystr" where
  "strip_language s =
     (if py_startswith s ''json'' then drop 4 s
      else if py_startswith s ''javascript'' then drop 10 s
      else if py_startswith s ''js'' then drop 2 s else s)"

definition strip_markdown_fence :: "pystr \<Rightarrow> pystr" where
  "strip_markdown_fence text =
     (let t = py_strip text
      in if py_startswith t BACKTICKS
         then (let body = dropWhile py_isspace (strip_language (drop 3 t))
               in if py_endswith body BACKTICKS then py_strip (take (length body - 3) body) else '''')
         else '''')"

text \<open>The scan for the brace that closes the first one: \<open>depth\<close>, inside a string, after a backslash; the result is the
  number of characters up to and with that brace.\<close>

fun object_end :: "nat \<Rightarrow> bool \<Rightarrow> bool \<Rightarrow> nat \<Rightarrow> pystr \<Rightarrow> nat option" where
  "object_end depth in_string escaped n [] = None"
| "object_end depth in_string escaped n (c # s) =
     (if escaped then object_end depth in_string False (Suc n) s
      else if c = CHR 0x5C then object_end depth in_string True (Suc n) s
      else if c = CHR 0x22 then object_end depth (\<not> in_string) False (Suc n) s
      else if in_string then object_end depth in_string False (Suc n) s
      else if c = CHR ''{'' then object_end (Suc depth) False False (Suc n) s
      else if c = CHR ''}'' then (if depth = 1 then Some (Suc n) else object_end (depth - 1) False False (Suc n) s)
      else object_end depth False False (Suc n) s)"

definition extract_first_json_object :: "pystr \<Rightarrow> pystr option" where
  "extract_first_json_object text =
     (let rest = dropWhile (\<lambda>c. c \<noteq> CHR ''{'') text
      in map_option (\<lambda>n. take n rest) (object_end 0 False False 0 rest))"

fun first_json :: "pystr list \<Rightarrow> json option" where
  "first_json [] = None"
| "first_json (c # cs) =
     (if c = '''' then first_json cs
      else case json_loads c of Some v \<Rightarrow> Some v | None \<Rightarrow> first_json cs)"

definition parse_jsonish :: "pystr \<Rightarrow> json option" where
  "parse_jsonish text =
     first_json [py_strip text, strip_markdown_fence text,
       (case extract_first_json_object text of None \<Rightarrow> '''' | Some s \<Rightarrow> s)]"

subsection \<open>Unpacking the arguments\<close>

definition WRAPPER_KEYS :: "pystr list" where
  "WRAPPER_KEYS = [''arguments'', ''args'', ''input'', ''parameters'', ''params'', ''payload'']"

definition wrapped_object :: "json \<Rightarrow> (dict \<times> bool) option" where
  "wrapped_object v =
     (case v of
        JDict d \<Rightarrow> Some (d, False)
      | JStr s \<Rightarrow> (case parse_jsonish s of Some (JDict d) \<Rightarrow> Some (d, True) | _ \<Rightarrow> None)
      | _ \<Rightarrow> None)"

fun flatten_keys :: "pystr list \<Rightarrow> dict \<Rightarrow> (dict \<times> pystr) option" where
  "flatten_keys [] raw = None"
| "flatten_keys (k # ks) raw =
     (case dget raw k of
        None \<Rightarrow> flatten_keys ks raw
      | Some v \<Rightarrow>
          (case wrapped_object v of
             Some (d, parsed) \<Rightarrow>
               Some (d, ''flattened '' @ k @ '' wrapper'' @ (if parsed then '' (parsed JSON string)'' else ''''))
           | None \<Rightarrow> flatten_keys ks raw))"

definition flatten_wrapper :: "dict \<Rightarrow> (dict \<times> pystr) option" where
  "flatten_wrapper raw = flatten_keys WRAPPER_KEYS raw"

definition scavenge_json_string :: "dict \<Rightarrow> (dict \<times> pystr) option" where
  "scavenge_json_string raw =
     (case raw of
        [(k, v)] \<Rightarrow>
          (case wrapped_object v of
             Some (d, parsed) \<Rightarrow> Some (d, (if parsed then ''scavenged JSON from '' else ''scavenged object from '') @ k)
           | None \<Rightarrow> None)
      | _ \<Rightarrow> None)"

subsection \<open>Cutting long strings\<close>

fun utf8_cut :: "nat \<Rightarrow> pystr \<Rightarrow> pystr" where
  "utf8_cut n [] = []"
| "utf8_cut n (c # s) =
     (if utf8_char_len c \<le> n then c # utf8_cut (n - utf8_char_len c) s
      else if n = 0 then [] else ''?'')"

definition CUT_MARK :: pystr where
  "CUT_MARK = CHR 0x0A # ''...[truncated by Kun tool argument repair]''"

fun truncate_value :: "nat \<Rightarrow> json \<Rightarrow> json" where
  "truncate_value n (JStr s) = JStr (if utf8_len s \<le> n then s else utf8_cut n s @ CUT_MARK)"
| "truncate_value n (JList xs) = JList (map (truncate_value n) xs)"
| "truncate_value n (JDict d) = JDict (map (\<lambda>(k, v). (k, truncate_value n v)) d)"
| "truncate_value n v = v"

fun oversized_count :: "nat \<Rightarrow> json \<Rightarrow> nat" where
  "oversized_count n (JStr s) = (if utf8_len s \<le> n then 0 else 1)"
| "oversized_count n (JList xs) = sum_list (map (oversized_count n) xs)"
| "oversized_count n (JDict d) = sum_list (map (\<lambda>(k, v). oversized_count n v) d)"
| "oversized_count n v = 0"

definition DEFAULT_MAX_STRING_BYTES :: nat where
  "DEFAULT_MAX_STRING_BYTES = 512 * 1024"

definition unpack_arguments :: "dict \<Rightarrow> dict \<times> pystr list" where
  "unpack_arguments raw =
     (case flatten_wrapper raw of
        Some (d, note) \<Rightarrow> (d, [note])
      | None \<Rightarrow> (case scavenge_json_string raw of Some (d, note) \<Rightarrow> (d, [note]) | None \<Rightarrow> (raw, [])))"

definition repair_dispatch_tool_arguments :: "dict \<Rightarrow> pystr option \<Rightarrow> nat \<Rightarrow> dict \<times> pystr list" where
  "repair_dispatch_tool_arguments raw tool_kind max_bytes =
     (case unpack_arguments raw of
        (current, notes) \<Rightarrow>
          if tool_kind \<noteq> Some ''file_change'' \<and> oversized_count max_bytes (JDict current) \<noteq> 0
          then (the_jdict (truncate_value max_bytes (JDict current)),
                notes @ [''truncated '' @ nat_str (oversized_count max_bytes (JDict current)) @ '' oversized argument string(s)''])
          else (current, notes))"

subsection \<open>What the repair guarantees\<close>

fun strings_within :: "nat \<Rightarrow> json \<Rightarrow> bool" where
  "strings_within n (JStr s) \<longleftrightarrow> length s \<le> n"
| "strings_within n (JList xs) \<longleftrightarrow> (\<forall>x \<in> set xs. strings_within n x)"
| "strings_within n (JDict d) \<longleftrightarrow> (\<forall>p \<in> set d. strings_within n (snd p))"
| "strings_within n v \<longleftrightarrow> True"

lemma utf8_char_len_pos: "1 \<le> utf8_char_len c"
  by (simp add: utf8_char_len_def)

lemma length_utf8_cut: "length (utf8_cut n s) \<le> n"
proof (induction n s rule: utf8_cut.induct)
  case (2 n c s)
  then show ?case using utf8_char_len_pos[of c] by auto
qed simp

lemma truncate_within: "strings_within (n + length CUT_MARK) (truncate_value n v)"
proof (induction n v rule: truncate_value.induct)
  case (1 n s)
  then show ?case
    using length_utf8_cut[of n s] length_le_utf8_len[of s] by auto
qed auto

lemma not_oversized: "oversized_count n v = 0 \<Longrightarrow> strings_within n v"
proof (induction n v rule: oversized_count.induct)
  case (1 n s)
  then show ?case using length_le_utf8_len[of s] by (auto split: if_splits)
next
  case (3 n d)
  have "oversized_count n (snd p) = 0" if "p \<in> set d" for p
    using 3(2) that by (cases p) auto
  with 3(1) show ?case by auto
qed auto

lemma strings_within_mono: "strings_within m v \<Longrightarrow> m \<le> n \<Longrightarrow> strings_within n v"
  by (induction m v rule: strings_within.induct) auto

lemma truncate_id: "oversized_count n v = 0 \<Longrightarrow> truncate_value n v = v"
proof (induction n v rule: truncate_value.induct)
  case (2 n xs)
  then show ?case by (auto intro: map_idI)
next
  case (3 n d)
  have "truncate_value n (snd p) = snd p" if "p \<in> set d" for p
    using 3 that by (cases p) auto
  then show ?case by (auto intro!: map_idI)
qed (auto split: if_splits)

text \<open>A call that is not of a tool that changes files never carries a text of more characters than the limit and the
  mark of the cut allow, however deep it is nested; when nothing had to be cut, the arguments are those that were
  unpacked.\<close>

theorem repaired_arguments_bounded:
  assumes "repair_dispatch_tool_arguments raw kind n = (args, notes)" "kind \<noteq> Some ''file_change''"
  shows "strings_within (n + length CUT_MARK) (JDict args)
    \<and> (strings_within (n div 2) (JDict (fst (unpack_arguments raw))) \<longrightarrow> args = fst (unpack_arguments raw))"
proof -
  obtain cur ns where u: "unpack_arguments raw = (cur, ns)" by (cases "unpack_arguments raw") auto
  have small: "oversized_count n v = 0" if "strings_within (n div 2) v" for v
    using that
  proof (induction n v rule: oversized_count.induct)
    case (1 n s)
    then show ?case using utf8_len_le_double[of s] by auto
  qed auto
  show ?thesis
  proof (cases "oversized_count n (JDict cur) = 0")
    case True
    then have "args = cur" using assms u by (simp add: repair_dispatch_tool_arguments_def)
    then show ?thesis using strings_within_mono[OF not_oversized[OF True], of "n + length CUT_MARK"] u by simp
  next
    case False
    then have "args = the_jdict (truncate_value n (JDict cur))"
      using assms u by (simp add: repair_dispatch_tool_arguments_def)
    then have "JDict args = truncate_value n (JDict cur)" by simp
    then have "strings_within (n + length CUT_MARK) (JDict args)" using truncate_within by metis
    moreover have "\<not> strings_within (n div 2) (JDict cur)" using small[of "JDict cur"] False by blast
    ultimately show ?thesis using u by (simp del: strings_within.simps)
  qed
qed










theorem repaired_arguments_bounded_witness:
  "strings_within (3 + length CUT_MARK) (JDict (fst (repair_dispatch_tool_arguments
     [(''path'', JStr ''long name''), (''mode'', JStr ''w'')] None 3)))"
  using repaired_arguments_bounded[of "[(''path'', JStr ''long name''), (''mode'', JStr ''w'')]" None 3, OF surjective_pairing]
  by simp

text \<open>A tool with one argument that is a JSON text does not get it: its content is taken for the arguments.\<close>

theorem json_argument_is_unpacked:
  "repair_dispatch_tool_arguments [(''content'', JStr (json_dumps (JDict [(''a'', JNum 1)])))] None 100
   = ([(''a'', JNum 1)], [''scavenged JSON from content''])"
  by code_simp

text \<open>A tool with a parameter of a wrapping name loses its other arguments.\<close>

theorem input_parameter_drops_the_rest:
  "repair_dispatch_tool_arguments [(''name'', JStr ''job''), (''input'', JDict [(''a'', JNum 1)])] None 100
   = ([(''a'', JNum 1)], [''flattened input wrapper''])"
  by code_simp

subsection \<open>Tool results that are too long for a request\<close>

definition DEFAULT_MAX_TOOL_RESULT_LINES :: nat where
  "DEFAULT_MAX_TOOL_RESULT_LINES = 320"

definition DEFAULT_MAX_TOOL_RESULT_BYTES :: nat where
  "DEFAULT_MAX_TOOL_RESULT_BYTES = 32 * 1024"

definition DEFAULT_MAX_TOOL_RESULT_TOKENS :: nat where
  "DEFAULT_MAX_TOOL_RESULT_TOKENS = 8000"

definition text_lines :: "pystr \<Rightarrow> pystr list" where
  "text_lines text = py_split_ch (CHR 0x0A) text"

definition is_oversized :: "pystr \<Rightarrow> nat \<Rightarrow> nat \<Rightarrow> nat \<Rightarrow> bool" where
  "is_oversized text max_lines max_bytes max_tokens \<longleftrightarrow>
     max_lines < length (text_lines text) \<or> max_bytes < utf8_len text \<or> max_tokens < length text div 4"

definition signal_rx :: rx where
  "signal_rx = rx_seq [RBound,
     rx_alts [RLit ''error'', RSeq (RLit ''faile'') (rx_opt (RLit ''d'')), RLit ''fatal'', RLit ''panic'', RLit ''exception'',
       RLit ''traceback'', RLit ''warning'', RLit ''warn'', RLit ''denied'', RLit ''timeout'', RLit ''timed out'',
       RLit ''not found'', RLit ''cannot'', RLit ''invalid''], RBound]"

definition is_signal_line :: "pystr \<Rightarrow> bool" where
  "is_signal_line line = rx_search signal_rx (py_lower line)"

definition selected_lines :: "nat \<Rightarrow> pystr list \<Rightarrow> pystr list" where
  "selected_lines max_lines lines =
     (let n = length lines;
          head = min 80 (max 1 (max_lines div 4)); tail = min 120 (max 1 (max_lines div 3));
          signals = take 48 (filter (\<lambda>i. is_signal_line (lines ! i)) [0..<n])
      in map (\<lambda>i. lines ! i)
           (take max_lines (filter (\<lambda>i. i < head \<or> n - tail \<le> i \<or> i \<in> set signals) [0..<n])))"

definition lines_marker :: "nat \<Rightarrow> nat \<Rightarrow> pystr" where
  "lines_marker shown whole =
     CHR 0x0A # ''[cache hygiene: showing '' @ nat_str shown @ '' of '' @ nat_str whole @ '' lines]''"

definition bytes_marker :: "nat \<Rightarrow> nat \<Rightarrow> pystr" where
  "bytes_marker shown whole =
     CHR 0x0A # ''[cache hygiene: showing '' @ nat_str shown @ ''B of '' @ nat_str whole @ ''B]''"

text \<open>The lines that still fit: \<open>used\<close> bytes are taken, every line but the first costs its separator too.\<close>

fun fit_lines :: "nat \<Rightarrow> nat \<Rightarrow> nat \<Rightarrow> bool \<Rightarrow> pystr list \<Rightarrow> pystr list" where
  "fit_lines max_bytes marker used first [] = []"
| "fit_lines max_bytes marker used first (l # ls) =
     (let lb = utf8_len l + (if first then 0 else 1)
      in if max_bytes < used + lb + marker then [] else l # fit_lines max_bytes marker (used + lb) False ls)"

definition trim_text :: "pystr \<Rightarrow> nat \<Rightarrow> nat \<Rightarrow> pystr" where
  "trim_text text max_lines max_bytes =
     (let lines = text_lines text
      in if length lines \<le> max_lines \<and> utf8_len text \<le> max_bytes then text
         else if length lines = 1
         then (let marker = bytes_marker max_bytes (utf8_len text)
               in py_upto text (int max_bytes - int (utf8_len marker)) @ marker)
         else (let chosen = selected_lines max_lines lines; marker = lines_marker (length chosen) (length lines)
               in py_join [CHR 0x0A] (fit_lines max_bytes (utf8_len marker) 0 True chosen) @ marker))"

definition hygienic_item :: "nat \<Rightarrow> nat \<Rightarrow> nat \<Rightarrow> dict \<Rightarrow> dict" where
  "hygienic_item max_lines max_bytes max_tokens item =
     (if dget item ''kind'' = Some (JStr ''tool_result'')
      then (case dget item ''output'' of
              Some (JStr out) \<Rightarrow>
                if is_oversized out max_lines max_bytes max_tokens
                then dmerge item [(''output'', JStr (trim_text out max_lines max_bytes))] else item
            | _ \<Rightarrow> item)
      else item)"

definition apply_request_history_hygiene :: "nat \<Rightarrow> nat \<Rightarrow> nat \<Rightarrow> dict list \<Rightarrow> dict list" where
  "apply_request_history_hygiene max_lines max_bytes max_tokens items = map (hygienic_item max_lines max_bytes max_tokens) items"

lemma utf8_join: "utf8_len (py_join [CHR 0x0A] ls) = sum_list (map utf8_len ls) + (length ls - 1)"
proof (induction ls)
  case (Cons l ls)
  then show ?case by (cases ls) (auto simp: utf8_char_len_def)
qed simp

lemma fit_lines_prefix: "\<exists>n. fit_lines mb mk used first ls = take n ls"
proof (induction mb mk used first ls rule: fit_lines.induct)
  case (2 mb mk used first l ls)
  show ?case
  proof (cases "mb < used + (utf8_len l + (if first then 0 else 1)) + mk")
    case True
    then show ?thesis by (intro exI[of _ 0]) (simp add: Let_def)
  next
    case False
    with 2[OF refl] obtain n where "fit_lines mb mk (used + (utf8_len l + (if first then 0 else 1))) False ls = take n ls" by blast
    with False show ?thesis by (intro exI[of _ "Suc n"]) (simp add: Let_def)
  qed
qed simp

lemma fit_lines_bound:
  "fit_lines mb mk used first ls = ks \<Longrightarrow> ks \<noteq> [] \<Longrightarrow>
     used + sum_list (map utf8_len ks) + (length ks - (if first then 1 else 0)) + mk \<le> mb"
proof (induction mb mk used first ls arbitrary: ks rule: fit_lines.induct)
  case (2 mb mk used first l ls)
  let ?lb = "utf8_len l + (if first then 0 else 1)"
  have fits: "\<not> mb < used + ?lb + mk" using 2(2,3) by (auto simp: Let_def)
  then have ks: "ks = l # fit_lines mb mk (used + ?lb) False ls" using 2(2) by (simp add: Let_def)
  show ?case
  proof (cases "fit_lines mb mk (used + ?lb) False ls = []")
    case True
    then show ?thesis using ks fits by (auto split: if_splits)
  next
    case False
    from 2(1)[OF refl fits refl False] ks show ?thesis by (auto split: if_splits)
  qed
qed simp

lemma selected_subseq: "subseq (selected_lines ml ls) ls"
proof -
  have "subseq (take ml (filter P [0..<length ls])) [0..<length ls]" for P
    by (meson subseq_filter_left subseq_order.trans take_is_prefix prefix_imp_subseq)
  then have "subseq (map (\<lambda>i. ls ! i) (take ml (filter P [0..<length ls]))) (map (\<lambda>i. ls ! i) [0..<length ls])" for P
    by (rule subseq_map)
  then show ?thesis unfolding selected_lines_def Let_def map_nth .
qed

lemma length_selected: "length (selected_lines ml ls) \<le> ml"
  by (simp add: selected_lines_def Let_def)

lemma trim_bounded:
  assumes "length (text_lines text) \<noteq> 1"
  shows "utf8_len (trim_text text ml mb) \<le> max mb (utf8_len (lines_marker (length (selected_lines ml (text_lines text))) (length (text_lines text))))"
proof -
  let ?c = "selected_lines ml (text_lines text)"
  let ?m = "lines_marker (length ?c) (length (text_lines text))"
  let ?k = "fit_lines mb (utf8_len ?m) 0 True ?c"
  have "utf8_len (py_join [CHR 0x0A] ?k @ ?m) \<le> max mb (utf8_len ?m)"
  proof (cases "?k = []")
    case False
    then show ?thesis using fit_lines_bound[OF refl False] by (simp add: utf8_join)
  qed simp
  with assms show ?thesis by (auto simp: trim_text_def Let_def)
qed

text \<open>Hygiene: every item keeps its place; only the output of tool results is touched, and only when it is too long. A
  trimmed output of several lines has at most the bytes allowed (or is the mark alone, where not even that fits), and
  what it shows, before the mark, is some of the lines there were, in their order.\<close>

theorem hygiene_trims_outputs:
  "length (apply_request_history_hygiene ml mb mt items) = length items
   \<and> (\<forall>i < length items. let a = items ! i; b = apply_request_history_hygiene ml mb mt items ! i in
        b = a \<or>
        (\<exists>out. dget a ''kind'' = Some (JStr ''tool_result'') \<and> dget a ''output'' = Some (JStr out)
           \<and> is_oversized out ml mb mt \<and> b = dset ''output'' (JStr (trim_text out ml mb)) a
           \<and> (length (text_lines out) \<noteq> 1 \<longrightarrow> trim_text out ml mb = out \<or>
                (\<exists>ls mark. subseq ls (text_lines out) \<and> length ls \<le> ml
                   \<and> trim_text out ml mb = py_join [CHR 0x0A] ls @ mark
                   \<and> utf8_len (trim_text out ml mb) \<le> max mb (utf8_len mark)))))"
proof -
  have trim: "trim_text out ml mb = out \<or>
                (\<exists>ls mark. subseq ls (text_lines out) \<and> length ls \<le> ml
                   \<and> trim_text out ml mb = py_join [CHR 0x0A] ls @ mark
                   \<and> utf8_len (trim_text out ml mb) \<le> max mb (utf8_len mark))"
    if one: "length (text_lines out) \<noteq> 1" for out
  proof (cases "length (text_lines out) \<le> ml \<and> utf8_len out \<le> mb")
    case False
    let ?c = "selected_lines ml (text_lines out)"
    let ?m = "lines_marker (length ?c) (length (text_lines out))"
    let ?k = "fit_lines mb (utf8_len ?m) 0 True ?c"
    obtain n where n: "?k = take n ?c" using fit_lines_prefix by blast
    have "subseq ?k (text_lines out)"
      unfolding n by (meson selected_subseq subseq_order.trans take_is_prefix prefix_imp_subseq)
    moreover have "length ?k \<le> ml" unfolding n using length_selected[of ml "text_lines out"] by simp
    moreover have "trim_text out ml mb = py_join [CHR 0x0A] ?k @ ?m"
      using one unfolding trim_text_def Let_def if_not_P[OF False] by simp
    ultimately show ?thesis using trim_bounded[OF one, of ml mb] by blast
  qed (simp add: trim_text_def)
  have item: "hygienic_item ml mb mt a = a \<or>
        (\<exists>out. dget a ''kind'' = Some (JStr ''tool_result'') \<and> dget a ''output'' = Some (JStr out)
           \<and> is_oversized out ml mb mt \<and> hygienic_item ml mb mt a = dset ''output'' (JStr (trim_text out ml mb)) a)" for a
    by (auto simp: hygienic_item_def split: option.splits json.splits)
  show ?thesis
    unfolding Let_def apply_request_history_hygiene_def
  proof (intro conjI allI impI, goal_cases)
    case (2 i)
    from item[of "items ! i"] trim show ?case unfolding nth_map[OF 2] by blast
  qed simp
qed

text \<open>A text of one line is cut by characters while the limit counts bytes: with characters outside ASCII it stays too long.\<close>

theorem one_line_is_not_bounded:
  "100 < utf8_len (trim_text (replicate 200 (CHR 0xE9)) 320 100)"
  by code_simp

text \<open>The limit on tokens alone never trims anything.\<close>

theorem token_limit_has_no_effect:
  "is_oversized (replicate 40 (CHR ''a'')) 320 100 5 \<and> trim_text (replicate 40 (CHR ''a'')) 320 100 = replicate 40 (CHR ''a'')"
  by code_simp

text \<open>The optional letter of the pattern is the wrong one: the word \<open>fail\<close> does not make a line a telling one.\<close>

theorem fail_is_not_a_signal:
  "\<not> is_signal_line ''tests fail'' \<and> is_signal_line ''tests FAILED''"
  by code_simp

definition demo_output :: dict where
  "demo_output = [(''kind'', JStr ''tool_result''), (''output'', JStr (''one'' @ [CHR 0x0A] @ ''two'' @ [CHR 0x0A] @ ''three''))]"

theorem hygiene_trims_outputs_witness:
  "\<exists>out ls mark. dget demo_output ''output'' = Some (JStr out) \<and> subseq ls (text_lines out)
     \<and> apply_request_history_hygiene 2 100 10 [demo_output] ! 0 = dset ''output'' (JStr (py_join [CHR 0x0A] ls @ mark)) demo_output"
proof -
  have ne: "apply_request_history_hygiene 2 100 10 [demo_output] ! 0 \<noteq> demo_output" by code_simp
  have lines: "length (text_lines (''one'' @ [CHR 0x0A] @ ''two'' @ [CHR 0x0A] @ ''three'')) = 3" by code_simp
  have out: "dget demo_output ''output'' = Some (JStr (''one'' @ [CHR 0x0A] @ ''two'' @ [CHR 0x0A] @ ''three''))"
    by (simp add: demo_output_def)
  have changed: "trim_text (''one'' @ [CHR 0x0A] @ ''two'' @ [CHR 0x0A] @ ''three'') 2 100 \<noteq> ''one'' @ [CHR 0x0A] @ ''two'' @ [CHR 0x0A] @ ''three''"
    by code_simp
  from hygiene_trims_outputs[of 2 100 10 "[demo_output]", THEN conjunct2, THEN spec, of 0] ne
  obtain o1 where o1: "dget demo_output ''output'' = Some (JStr o1)"
    "apply_request_history_hygiene 2 100 10 [demo_output] ! 0 = dset ''output'' (JStr (trim_text o1 2 100)) demo_output"
    "length (text_lines o1) \<noteq> 1 \<longrightarrow> trim_text o1 2 100 = o1 \<or>
       (\<exists>ls mark. subseq ls (text_lines o1) \<and> length ls \<le> 2 \<and> trim_text o1 2 100 = py_join [CHR 0x0A] ls @ mark
          \<and> utf8_len (trim_text o1 2 100) \<le> max 100 (utf8_len mark))"
    by (auto simp: Let_def)
  have eq: "o1 = ''one'' @ [CHR 0x0A] @ ''two'' @ [CHR 0x0A] @ ''three''" using o1(1) out by simp
  from o1(3) lines changed obtain ls mark where "subseq ls (text_lines o1)" "trim_text o1 2 100 = py_join [CHR 0x0A] ls @ mark"
    unfolding eq by auto
  with o1(1,2) show ?thesis by metis
qed

subsection \<open>Small decisions\<close>

text \<open>\<open>token_economy.py\<close> and \<open>auto_model_router.py\<close>.\<close>

definition normalize_token_economy_config :: "dict option \<Rightarrow> dict" where
  "normalize_token_economy_config config =
     (let defaults = [(''enabled'', JBool False), (''compress_tool_descriptions'', JBool True),
        (''compress_tool_results'', JBool True), (''concise_responses'', JBool True)]
      in case config of None \<Rightarrow> defaults | Some c \<Rightarrow> dmerge defaults c)"

fun auto_candidate :: "pystr option list \<Rightarrow> pystr \<Rightarrow> pystr" where
  "auto_candidate [] fallback = fallback"
| "auto_candidate (c # cs) fallback =
     (let t = py_lower (py_strip (case c of None \<Rightarrow> '''' | Some s \<Rightarrow> s))
      in if t = '''' \<or> t = ''auto'' then auto_candidate cs fallback
         else (case c of Some s \<Rightarrow> s | None \<Rightarrow> fallback))"

definition resolve_auto_model_route :: "pystr option list \<Rightarrow> pystr \<Rightarrow> dict" where
  "resolve_auto_model_route candidates fallback =
     [(''model'', JStr (auto_candidate candidates fallback)), (''reasoningEffort'', JNull)]"

lemma auto_candidate_found:
  "auto_candidate cs d = m \<Longrightarrow> m = d \<or> Some m \<in> set cs \<and> py_lower (py_strip m) \<notin> {'''', ''auto''}"
  by (induction cs d rule: auto_candidate.induct) (auto simp: Let_def split: if_splits option.splits)

text \<open>The model chosen is the fallback, or the first candidate that is a name: never blank, never \<open>auto\<close>.\<close>

theorem auto_route_is_a_name:
  "(auto_candidate cs d = d \<or> Some (auto_candidate cs d) \<in> set cs \<and> py_lower (py_strip (auto_candidate cs d)) \<notin> {'''', ''auto''})
   \<and> resolve_auto_model_route cs d = [(''model'', JStr (auto_candidate cs d)), (''reasoningEffort'', JNull)]"
  using auto_candidate_found[OF refl] by (simp add: resolve_auto_model_route_def)

end
