(* ===== verification/Resilience.thy ===== *)
theory Resilience
  imports Complex_Main PyJson PyRegex
begin

text \<open>
  \<open>providers/resilience.py\<close> and \<open>fallback.py\<close>: what kind of failure a call to a model provider ended with, which kinds are tried
  again and after how long, and the chain of providers that stand in for each other.  The packages of the providers are not
  under \<open>src/\<close>: an exception carries which of their classes it is an instance of; a package that is not installed has none.
  Delays are real numbers, the random number an argument.
\<close>

subsection \<open>Exceptions as the code sees them\<close>

datatype sdk = OpenAI | Anthropic

datatype sdk_class = APIConnectionError | APITimeoutError | RateLimitError | AuthenticationError | PermissionDeniedError
  | NotFoundError | BadRequestError | ConflictError | InternalServerError | APIStatusError | OverloadedError

record response_view =
  rv_status_code :: json
  rv_status :: json

record exn =
  ex_text :: pystr
  ex_is :: "sdk \<Rightarrow> sdk_class \<Rightarrow> bool"
  ex_transport :: bool
  ex_assertion :: bool
  ex_status_code :: json
  ex_response :: "response_view option"

datatype error_kind = TRANSIENT | RATE_LIMIT | AUTH | PAYMENT_REQUIRED | CONTENT_BLOCKED | CONTEXT_LENGTH | INVALID_REQUEST | FATAL

definition is_retryable :: "error_kind \<Rightarrow> bool" where
  "is_retryable kind \<longleftrightarrow> kind = TRANSIENT \<or> kind = RATE_LIMIT"

text \<open>\<open>isinstance(code, int)\<close>: a bool is an int.\<close>

definition int_attr :: "json \<Rightarrow> int option" where
  "int_attr v = as_int v"

definition digit_rx :: rx where
  "digit_rx = rx_seq [RBound, RChar py_isdigit, RChar py_isdigit, RChar py_isdigit, RBound]"

definition message_code :: "pystr \<Rightarrow> int option" where
  "message_code message =
     List.find (\<lambda>n. 400 \<le> n \<and> n < 600) (map (\<lambda>(i, j). int (parse_nat (drop i (take j message)))) (rx_spans digit_rx message))"

definition lowered :: "exn \<Rightarrow> pystr" where
  "lowered e = py_lower (ex_text e)"

definition status_code :: "exn \<Rightarrow> int option" where
  "status_code e =
     (case int_attr (ex_status_code e) of
        Some n \<Rightarrow> Some n
      | None \<Rightarrow>
          (case (case ex_response e of
                   None \<Rightarrow> None
                 | Some r \<Rightarrow> (case int_attr (rv_status_code r) of Some n \<Rightarrow> Some n | None \<Rightarrow> int_attr (rv_status r))) of
             Some n \<Rightarrow> Some n
           | None \<Rightarrow> message_code (lowered e)))"

subsection \<open>Signals in the message\<close>

definition mentions :: "pystr list \<Rightarrow> exn \<Rightarrow> bool" where
  "mentions signals e = list_ex (\<lambda>s. py_in s (lowered e)) signals"

definition CONTEXT_SIGNALS :: "pystr list" where
  "CONTEXT_SIGNALS = [''context length'', ''context_length'', ''token limit'', ''too many tokens'', ''context window'',
     ''max_tokens'', ''maximum context'']"

definition is_context_length_error :: "exn \<Rightarrow> bool" where
  "is_context_length_error e = mentions CONTEXT_SIGNALS e"

definition PAYMENT_REQUIRED_SIGNALS :: "pystr list" where
  "PAYMENT_REQUIRED_SIGNALS = [''insufficient balance'', ''insufficient quota'', ''payment required'', ''payment_required'',
     ''balance exceeded'', ''quota exceeded'', ''quota exhausted'', ''credit exhausted'', ''out of credits'',
     ''credit balance is too low'', ''exceeded your current quota'']"

definition quote_rx :: rx where
  "quote_rx = RChar (\<lambda>c. c = CHR 0x27 \<or> c = CHR 0x22)"

definition QUOTA_FIELD_PATTERN :: rx where
  "QUOTA_FIELD_PATTERN =
     rx_seq [rx_words [''code'', ''type''], rx_opt quote_rx, rx_space, RChar (\<lambda>c. c = CHR '':'' \<or> c = CHR ''=''), rx_space,
       quote_rx, rx_opt (RLit ''consumer_token_''), RLit ''quota_exceeded'', quote_rx]"

definition is_payment_required_error :: "exn \<Rightarrow> bool" where
  "is_payment_required_error e \<longleftrightarrow> rx_search QUOTA_FIELD_PATTERN (lowered e) \<or> mentions PAYMENT_REQUIRED_SIGNALS e"

definition CONTENT_POLICY_SIGNALS :: "pystr list" where
  "CONTENT_POLICY_SIGNALS = [''sensitive_word_detected'', ''security_violation'', ''content_filter'', ''content_policy'',
     ''content policy violation'']"

definition is_content_policy_error :: "exn \<Rightarrow> bool" where
  "is_content_policy_error e = mentions CONTENT_POLICY_SIGNALS e"

definition TRANSIENT_SIGNALS :: "pystr list" where
  "TRANSIENT_SIGNALS = [''apiconnectionerror'', ''connection reset'', ''connection aborted'', ''temporary failure'', ''timed out'',
     ''timeout'', ''502'', ''503'', ''504'', ''bad gateway'', ''service unavailable'', ''overloaded'', ''host not found'',
     ''server not found'', ''name resolution'']"

text \<open>\<open>connection.{0,40}not found\<close>: the dot is no line break.\<close>

fun found_within :: "nat \<Rightarrow> pystr \<Rightarrow> bool" where
  "found_within n s \<longleftrightarrow> py_startswith s ''not found'' \<or>
     (case s of [] \<Rightarrow> False | c # t \<Rightarrow> n \<noteq> 0 \<and> c \<noteq> CHR 0x0A \<and> found_within (n - 1) t)"

fun connection_not_found :: "pystr \<Rightarrow> bool" where
  "connection_not_found [] = False"
| "connection_not_found (c # s) \<longleftrightarrow>
     py_startswith (c # s) ''connection'' \<and> found_within 40 (drop 10 (c # s)) \<or> connection_not_found s"

definition classify_transient_by_message :: "exn \<Rightarrow> bool" where
  "classify_transient_by_message e \<longleftrightarrow> mentions TRANSIENT_SIGNALS e \<or> connection_not_found (lowered e)"

subsection \<open>Classification\<close>

definition context_or_invalid :: "exn \<Rightarrow> error_kind" where
  "context_or_invalid e = (if is_context_length_error e then CONTEXT_LENGTH else INVALID_REQUEST)"

definition rate_or_payment :: "exn \<Rightarrow> error_kind" where
  "rate_or_payment e = (if is_payment_required_error e then PAYMENT_REQUIRED else RATE_LIMIT)"

definition blocked_or_auth :: "exn \<Rightarrow> error_kind" where
  "blocked_or_auth e = (if is_content_policy_error e then CONTENT_BLOCKED else AUTH)"

definition classify_by_status_code :: "exn \<Rightarrow> error_kind option" where
  "classify_by_status_code e =
     (case status_code e of
        None \<Rightarrow> None
      | Some code \<Rightarrow>
          if code = 429 then Some (rate_or_payment e)
          else if code = 401 \<or> code = 403 then Some (blocked_or_auth e)
          else if code = 402 then Some PAYMENT_REQUIRED
          else if code = 408 \<or> 500 \<le> code \<and> code < 600 then Some TRANSIENT
          else if code = 409 then Some INVALID_REQUEST
          else if code = 400 \<or> code = 404 then Some (context_or_invalid e)
          else if code = 413 then Some (context_or_invalid e)
          else None)"

definition classify_by_message :: "exn \<Rightarrow> error_kind option" where
  "classify_by_message e =
     (if is_payment_required_error e then Some PAYMENT_REQUIRED
      else if mentions [''rate limit'', ''too many requests''] e then Some RATE_LIMIT
      else if is_content_policy_error e then Some CONTENT_BLOCKED
      else if mentions [''invalid api key'', ''unauthorized'', ''forbidden''] e then Some AUTH
      else if is_context_length_error e then Some CONTEXT_LENGTH
      else if mentions [''not found'', ''bad request'', ''invalid request''] e then Some INVALID_REQUEST
      else None)"

definition bad_request_kind :: "exn \<Rightarrow> error_kind" where
  "bad_request_kind e =
     (if is_context_length_error e then CONTEXT_LENGTH
      else case classify_by_status_code e of Some k \<Rightarrow> k | None \<Rightarrow> INVALID_REQUEST)"

definition openai_kind :: "exn \<Rightarrow> error_kind option" where
  "openai_kind e =
     (let is = ex_is e OpenAI in
      if is APIConnectionError then Some (if int_attr (ex_status_code e) = Some 429 then RATE_LIMIT else TRANSIENT)
      else if is APITimeoutError then Some TRANSIENT
      else if is RateLimitError then Some (rate_or_payment e)
      else if is AuthenticationError \<or> is PermissionDeniedError then Some (blocked_or_auth e)
      else if is NotFoundError then Some (context_or_invalid e)
      else if is BadRequestError then Some (bad_request_kind e)
      else if is ConflictError then Some INVALID_REQUEST
      else if is InternalServerError then Some TRANSIENT
      else if is APIStatusError then classify_by_status_code e
      else None)"

definition anthropic_kind :: "exn \<Rightarrow> error_kind option" where
  "anthropic_kind e =
     (let is = ex_is e Anthropic in
      if is APIConnectionError then Some TRANSIENT
      else if is APITimeoutError then Some TRANSIENT
      else if is RateLimitError then Some (rate_or_payment e)
      else if is AuthenticationError \<or> is PermissionDeniedError then Some (blocked_or_auth e)
      else if is NotFoundError then Some (context_or_invalid e)
      else if is BadRequestError then Some (bad_request_kind e)
      else if is OverloadedError then Some TRANSIENT
      else if is InternalServerError then Some TRANSIENT
      else None)"

text \<open>The first test that knows the exception decides.\<close>

fun first_some :: "'a option list \<Rightarrow> 'a option" where
  "first_some [] = None"
| "first_some (Some x # xs) = Some x"
| "first_some (None # xs) = first_some xs"

definition classify_error :: "exn \<Rightarrow> error_kind" where
  "classify_error e =
     (case first_some [openai_kind e, (if ex_transport e then Some TRANSIENT else None), anthropic_kind e,
        classify_by_status_code e, (if classify_transient_by_message e then Some TRANSIENT else None),
        classify_by_message e, (if ex_assertion e then Some TRANSIENT else None)] of
        Some k \<Rightarrow> k | None \<Rightarrow> FATAL)"

subsection \<open>Retries\<close>

definition compute_backoff :: "int \<Rightarrow> real option \<Rightarrow> real \<Rightarrow> real \<Rightarrow> real \<Rightarrow> real" where
  "compute_backoff attempt retry_after base cap rnd =
     (let n = max 1 attempt in
      case retry_after of
        Some r \<Rightarrow> if 0 \<le> r then min (cap * 2) (r + rnd * base) else min cap (2 ^ nat (n - 1) * (base + rnd * base))
      | None \<Rightarrow> min cap (2 ^ nat (n - 1) * (base + rnd * base)))"

text \<open>The outcome of the call number \<open>n\<close> is \<open>call n\<close>; the result is the outcome of the last call, and the numbers and kinds
  that \<open>on_retry\<close> was told.  \<open>left\<close> counts the attempts after this one.\<close>

fun retry_from :: "nat \<Rightarrow> nat \<Rightarrow> (nat \<Rightarrow> exn + 'a) \<Rightarrow> (exn + 'a) \<times> (nat \<times> error_kind) list" where
  "retry_from attempt 0 call = (call attempt, [])"
| "retry_from attempt (Suc left) call =
     (case call attempt of
        Inr x \<Rightarrow> (Inr x, [])
      | Inl e \<Rightarrow>
          if is_retryable (classify_error e)
          then (case retry_from (Suc attempt) left call of (r, told) \<Rightarrow> (r, (attempt, classify_error e) # told))
          else (Inl e, []))"

text \<open>With no attempt allowed the loop is not entered and the function raises its own error.\<close>

definition with_retry :: "nat \<Rightarrow> (nat \<Rightarrow> exn + 'a) \<Rightarrow> ((exn + 'a) \<times> (nat \<times> error_kind) list) option" where
  "with_retry max_attempts call =
     (case max_attempts of 0 \<Rightarrow> None | Suc left \<Rightarrow> Some (retry_from 1 left call))"

lemma retry_from_shape:
  assumes "retry_from a left call = (r, told)"
  shows "length told \<le> left \<and> r = call (a + length told)
    \<and> map fst told = [a..<a + length told]
    \<and> list_all (\<lambda>(i, k). is_retryable k \<and> (\<exists>e. call i = Inl e \<and> classify_error e = k)) told
    \<and> (case r of Inl e \<Rightarrow> length told = left \<or> \<not> is_retryable (classify_error e) | Inr x \<Rightarrow> True)"
  using assms
proof (induction a left call arbitrary: r told rule: retry_from.induct)
  case (2 a left call)
  show ?case
  proof (cases "call a")
    case (Inl e)
    show ?thesis
    proof (cases "is_retryable (classify_error e)")
      case True
      obtain r1 l1 where sub: "retry_from (Suc a) left call = (r1, l1)" by (cases "retry_from (Suc a) left call") auto
      from 2(1)[OF Inl True sub] 2(2) Inl True sub show ?thesis
        by (auto simp: upt_rec[of a] split: sum.splits)
    next
      case False
      then have "r = Inl e" "told = []" using 2(2) Inl by auto
      with Inl False show ?thesis by simp
    qed
  next
    case (Inr x)
    then have "r = Inr x" "told = []" using 2(2) by auto
    with Inr show ?thesis by simp
  qed
qed (auto split: sum.split)

text \<open>C21. Retries: with \<open>n\<close> attempts allowed the request is made at most \<open>n\<close> times; what is returned or raised is the outcome of
  the last request; every request before it failed in a way worth repeating, and was announced once, in order; an error is
  raised only when it is not worth repeating or no attempt is left.\<close>

theorem retries_are_bounded:
  assumes "with_retry n call = Some (r, told)"
  shows "length told < n \<and> r = call (Suc (length told)) \<and> map fst told = [1..<Suc (length told)]
    \<and> list_all (\<lambda>(i, k). is_retryable k \<and> (\<exists>e. call i = Inl e \<and> classify_error e = k)) told
    \<and> (case r of Inl e \<Rightarrow> Suc (length told) = n \<or> \<not> is_retryable (classify_error e) | Inr x \<Rightarrow> True)"
proof -
  obtain left where n: "n = Suc left" and r: "retry_from 1 left call = (r, told)"
    using assms by (auto simp: with_retry_def split: nat.splits)
  from retry_from_shape[OF r] show ?thesis unfolding n by (auto split: sum.splits)
qed

text \<open>The wait before the next attempt is never negative and never above the ceiling, which a delay that the server names
  may at most double; without such a delay a later attempt never waits less than an earlier one would.\<close>

theorem backoff_bounds:
  assumes "0 \<le> rnd" "0 < base" "0 \<le> cap"
  shows "0 \<le> compute_backoff a ra base cap rnd \<and> compute_backoff a ra base cap rnd \<le> cap * 2
    \<and> (ra = None \<longrightarrow> compute_backoff a ra base cap rnd \<le> cap)
    \<and> (a \<le> b \<longrightarrow> compute_backoff a None base cap rnd \<le> compute_backoff b None base cap rnd)"
proof -
  have nonneg: "0 \<le> 2 ^ m * (base + rnd * base)" for m :: nat using assms by simp
  have mono: "2 ^ nat (max 1 a - 1) * (base + rnd * base) \<le> 2 ^ nat (max 1 b - 1) * (base + rnd * base)" if "a \<le> b"
    using assms that by (intro mult_right_mono power_increasing) auto
  show ?thesis
    using nonneg mono assms by (auto simp: compute_backoff_def Let_def min_def split: option.splits)
qed

subsection \<open>The kinds are told apart\<close>








definition plain_exn :: "pystr \<Rightarrow> exn" where
  "plain_exn s = \<lparr>ex_text = s, ex_is = (\<lambda>_ _. False), ex_transport = False, ex_assertion = False,
     ex_status_code = JNull, ex_response = None\<rparr>"


theorem retries_are_bounded_witness:
  "fst (the (with_retry 3 (\<lambda>n. if n < 2 then Inl (plain_exn ''timeout'') else Inr n))) = Inr (2::nat)
   \<and> length (snd (the (with_retry 3 (\<lambda>n. if n < 2 then Inl (plain_exn ''timeout'') else Inr (n::nat))))) < 3"
proof -
  let ?c = "\<lambda>n::nat. if n < 2 then Inl (plain_exn ''timeout'') else Inr n"
  have k: "classify_error (plain_exn ''timeout'') = TRANSIENT" by code_simp
  have w: "with_retry 3 ?c = Some (Inr 2, [(1, TRANSIENT)])"
    by (simp add: with_retry_def numeral_3_eq_3 k is_retryable_def)
  show ?thesis using retries_are_bounded[OF w] w by simp
qed

theorem backoff_bounds_witness:
  "0 \<le> compute_backoff 4 None (1/2) 30 (1/4) \<and> compute_backoff 4 None (1/2) 30 (1/4) \<le> 30"
  using backoff_bounds[of "1/4" "1/2" 30 4 None] by simp

text \<open>Any number between 400 and 599 in a message is taken for a status code: a defect in the program is tried again.\<close>

theorem number_in_message_is_a_status_code:
  "classify_error (plain_exn ''cannot reshape array of size 512'') = TRANSIENT"
  by code_simp

subsection \<open>The chain of providers\<close>

definition RETRIABLE_KEYWORDS :: "pystr list" where
  "RETRIABLE_KEYWORDS = [''401'', ''403'', ''429'', ''500'', ''502'', ''503'', ''529'', ''unauthorized'', ''rate limit'', ''overloaded'',
     ''service unavailable'', ''bad gateway'', ''connection'', ''timeout'', ''timed out'']"

definition is_retriable_error :: "exn \<Rightarrow> bool" where
  "is_retriable_error e = mentions RETRIABLE_KEYWORDS e"

text \<open>A provider answers a request for a model.  The primary one is number 0, the stand-ins follow; \<open>fc_active\<close> is the number of
  the active one.\<close>

type_synonym 'r provider = "pystr \<Rightarrow> exn + 'r"

record 'r chain =
  fc_primary :: "pystr \<times> 'r provider"
  fc_fallbacks :: "(pystr \<times> 'r provider) list"
  fc_active :: nat

text \<open>An entry without a model, or whose provider cannot be built, is left out.\<close>

fun build_fallback_providers :: "(pystr \<Rightarrow> exn + 'r provider option) \<Rightarrow> pystr list \<Rightarrow> (pystr \<times> 'r provider) list" where
  "build_fallback_providers build [] = []"
| "build_fallback_providers build (m # ms) =
     (if m = '''' then build_fallback_providers build ms
      else case build m of
        Inr (Some p) \<Rightarrow> (m, p) # build_fallback_providers build ms
      | _ \<Rightarrow> build_fallback_providers build ms)"

definition new_chain :: "pystr \<times> 'r provider \<Rightarrow> (pystr \<Rightarrow> exn + 'r provider option) \<Rightarrow> pystr list \<Rightarrow> 'r chain" where
  "new_chain primary build models =
     \<lparr>fc_primary = primary, fc_fallbacks = build_fallback_providers build models, fc_active = 0\<rparr>"

definition chain_provider :: "'r chain \<Rightarrow> nat \<Rightarrow> pystr \<times> 'r provider" where
  "chain_provider c i = (if i = 0 \<or> fc_fallbacks c = [] then fc_primary c else fc_fallbacks c ! (i - 1))"

definition active_provider :: "'r chain \<Rightarrow> 'r provider" where
  "active_provider c = snd (chain_provider c (fc_active c))"

definition active_model :: "'r chain \<Rightarrow> pystr" where
  "active_model c = fst (chain_provider c (fc_active c))"

definition try_next_fallback :: "'r chain \<Rightarrow> bool \<times> 'r chain" where
  "try_next_fallback c =
     (if length (fc_fallbacks c) \<le> fc_active c then (False, c) else (True, c\<lparr>fc_active := Suc (fc_active c)\<rparr>))"

definition restore_primary :: "'r chain \<Rightarrow> 'r chain" where
  "restore_primary c = c\<lparr>fc_active := 0\<rparr>"

function chat_loop :: "pystr \<Rightarrow> 'r chain \<Rightarrow> (exn + 'r) \<times> 'r chain" where
  "chat_loop model c =
     (case active_provider c model of
        Inr x \<Rightarrow> (Inr x, c)
      | Inl e \<Rightarrow>
          if \<not> is_retriable_error e then (Inl e, c)
          else if fst (try_next_fallback c)
          then chat_loop (active_model (snd (try_next_fallback c))) (snd (try_next_fallback c))
          else (Inl e, c))"
  by pat_completeness auto
termination
  by (relation "measure (\<lambda>(_, c). length (fc_fallbacks c) - fc_active c)") (auto simp: try_next_fallback_def split: if_splits)

declare chat_loop.simps [simp del]

definition chat_with_fallback :: "pystr option \<Rightarrow> 'r chain \<Rightarrow> (exn + 'r) \<times> 'r chain" where
  "chat_with_fallback model c =
     chat_loop (case model of Some (ch # m) \<Rightarrow> ch # m | _ \<Rightarrow> active_model c) c"

definition model_for :: "pystr \<Rightarrow> 'r chain \<Rightarrow> nat \<Rightarrow> pystr" where
  "model_for model c i = (if i = fc_active c then model else fst (chain_provider c i))"

definition answered_by :: "'r chain \<Rightarrow> pystr \<Rightarrow> exn + 'r \<Rightarrow> nat \<Rightarrow> bool" where
  "answered_by c m r i \<longleftrightarrow>
     fc_active c \<le> i \<and> i \<le> max (fc_active c) (length (fc_fallbacks c)) \<and> r = snd (chain_provider c i) (model_for m c i)
     \<and> list_all (\<lambda>j. \<exists>e. snd (chain_provider c j) (model_for m c j) = Inl e \<and> is_retriable_error e) [fc_active c..<i]
     \<and> (case r of Inl e \<Rightarrow> is_retriable_error e \<longrightarrow> length (fc_fallbacks c) \<le> i | Inr x \<Rightarrow> True)"

lemma answered_by_next:
  fixes c :: "'r chain"
  defines "c1 \<equiv> c\<lparr>fc_active := Suc (fc_active c)\<rparr>"
  assumes "answered_by c1 (active_model c1) r i" "fc_active c < length (fc_fallbacks c)"
    and "active_provider c m = Inl e" "is_retriable_error e"
  shows "answered_by c m r i"
proof -
  have cp: "chain_provider c1 j = chain_provider c j" for j by (simp add: chain_provider_def c1_def)
  have mf: "model_for (active_model c1) c1 j = model_for m c j" if "Suc (fc_active c) \<le> j" for j
    using that by (auto simp: model_for_def active_model_def cp c1_def chain_provider_def)
  have c1: "fc_active c1 = Suc (fc_active c)" "fc_fallbacks c1 = fc_fallbacks c" by (simp_all add: c1_def)
  note a = assms(2)[unfolded answered_by_def cp c1]
  have i: "Suc (fc_active c) \<le> i" "i \<le> length (fc_fallbacks c)"
    using a assms(3) by auto
  have i3: "r = snd (chain_provider c i) (model_for m c i)" using a mf[OF i(1)] by simp
  have i4: "list_all (\<lambda>j. \<exists>e. snd (chain_provider c j) (model_for (active_model c1) c1 j) = Inl e \<and> is_retriable_error e) [Suc (fc_active c)..<i]"
    and i5: "case r of Inl e \<Rightarrow> is_retriable_error e \<longrightarrow> length (fc_fallbacks c) \<le> i | Inr x \<Rightarrow> True"
    using a by blast+
  have "[fc_active c..<i] = fc_active c # [Suc (fc_active c)..<i]" using i(1) by (simp add: upt_rec)
  moreover have "snd (chain_provider c (fc_active c)) (model_for m c (fc_active c)) = Inl e"
    using assms(4) by (simp add: active_provider_def model_for_def)
  ultimately have "list_all (\<lambda>j. \<exists>e. snd (chain_provider c j) (model_for m c j) = Inl e \<and> is_retriable_error e) [fc_active c..<i]"
    using i4 assms(5) mf by (auto simp: list_all_iff)
  with i i3 i5 show ?thesis unfolding answered_by_def by (intro conjI) simp_all
qed

lemma chat_loop_shape:
  assumes "chat_loop model c = (r, c')"
  shows "\<exists>i. c' = c\<lparr>fc_active := i\<rparr> \<and> answered_by c model r i"
  using assms
proof (induction model c arbitrary: r c' rule: chat_loop.induct)
  case (1 model c)
  note step = 1(2)[unfolded chat_loop.simps[of model c]]
  show ?case
  proof (cases "active_provider c model")
    case (Inr x)
    then have "r = Inr x" "c' = c" using step by auto
    with Inr show ?thesis
      by (intro exI[of _ "fc_active c"]) (auto simp: answered_by_def model_for_def active_provider_def)
  next
    case (Inl e)
    show ?thesis
    proof (cases "is_retriable_error e \<and> fc_active c < length (fc_fallbacks c)")
      case False
      then have "r = Inl e" "c' = c" using step Inl by (auto simp: try_next_fallback_def split: if_splits)
      with False Inl show ?thesis
        by (intro exI[of _ "fc_active c"]) (auto simp: answered_by_def model_for_def active_provider_def)
    next
      case True
      let ?c = "c\<lparr>fc_active := Suc (fc_active c)\<rparr>"
      have t: "try_next_fallback c = (True, ?c)" using True by (simp add: try_next_fallback_def)
      have sub: "chat_loop (active_model ?c) ?c = (r, c')" using step Inl True t by simp
      have "\<exists>i. c' = ?c\<lparr>fc_active := i\<rparr> \<and> answered_by ?c (active_model ?c) r i"
        using 1(1)[OF Inl] True sub unfolding t snd_conv fst_conv by blast
      then obtain i where "c' = c\<lparr>fc_active := i\<rparr>" "answered_by ?c (active_model ?c) r i" by auto
      with answered_by_next[of c r i model e] True Inl show ?thesis by blast
    qed
  qed
qed

text \<open>The chain asks each provider once at most, starting with the active one and in order; the answer is that of the first
  that does not fail in a way that another could make good, and this one stays active; every provider before it failed in
  such a way; when the last one does too, its error is raised.\<close>

theorem chain_asks_in_order:
  assumes "chat_with_fallback model c = (r, c')" and "model = Some m" "m \<noteq> ''''"
  shows "\<exists>i. c' = c\<lparr>fc_active := i\<rparr> \<and> fc_active c \<le> i \<and> i \<le> max (fc_active c) (length (fc_fallbacks c))
    \<and> r = snd (chain_provider c i) (model_for m c i)
    \<and> list_all (\<lambda>j. \<exists>e. snd (chain_provider c j) (model_for m c j) = Inl e \<and> is_retriable_error e) [fc_active c..<i]
    \<and> (case r of Inl e \<Rightarrow> is_retriable_error e \<longrightarrow> length (fc_fallbacks c) \<le> i | Inr x \<Rightarrow> True)"
proof -
  have "chat_loop m c = (r, c')" using assms by (cases m) (auto simp: chat_with_fallback_def)
  from chat_loop_shape[OF this] show ?thesis unfolding answered_by_def .
qed

definition demo_chain :: "nat chain" where
  "demo_chain = new_chain (''a/one'', \<lambda>_. Inl (plain_exn ''503 overloaded'')) (\<lambda>m. Inr (Some (\<lambda>_. Inr (length m)))) [''b/two'', '''']"

theorem chain_asks_in_order_witness:
  "\<exists>i. fc_active (snd (chat_with_fallback (Some ''x'') demo_chain)) = i \<and> i \<le> 1
     \<and> fst (chat_with_fallback (Some ''x'') demo_chain) = Inr 5"
proof -
  obtain r c' where rc: "chat_with_fallback (Some ''x'') demo_chain = (r, c')" by (cases "chat_with_fallback (Some ''x'') demo_chain") auto
  have fields: "fc_active demo_chain = 0" "length (fc_fallbacks demo_chain) = 1"
    "chain_provider demo_chain 0 = (''a/one'', \<lambda>_. Inl (plain_exn ''503 overloaded''))"
    "chain_provider demo_chain 1 = (''b/two'', \<lambda>_. Inr (length ''b/two''))"
    by (simp_all add: demo_chain_def new_chain_def chain_provider_def)
  have retry: "is_retriable_error (plain_exn ''503 overloaded'')" by code_simp
  obtain i where i: "c' = demo_chain\<lparr>fc_active := i\<rparr>" "i \<le> 1" "r = snd (chain_provider demo_chain i) (model_for ''x'' demo_chain i)"
    "case r of Inl e \<Rightarrow> is_retriable_error e \<longrightarrow> 1 \<le> i | Inr x \<Rightarrow> True"
    using chain_asks_in_order[OF rc refl] unfolding fields(1,2) by fastforce
  have "i = 1"
  proof (rule ccontr)
    assume "i \<noteq> 1"
    then have "i = 0" using i(2) by simp
    with i(3,4) fields retry show False by simp
  qed
  then have "r = Inr (length (fst (chain_provider demo_chain 1)))" using i(3) unfolding \<open>i = 1\<close> fields by (simp add: model_for_def fields)
  then show ?thesis using rc i(1) \<open>i = 1\<close> fields(4) by simp
qed

text \<open>The chain is never taken back: nothing but \<open>restore_primary\<close> makes the primary provider active again, and once the last
  stand-in has failed only that one is asked.\<close>

theorem exhausted_chain_sticks:
  "is_retriable_error e \<Longrightarrow> active_provider c m = Inl e \<Longrightarrow> length (fc_fallbacks c) \<le> fc_active c
   \<Longrightarrow> chat_loop m c = (Inl e, c)"
  by (simp add: chat_loop.simps[of m c] try_next_fallback_def)

end
