(* ===== verification/AgentGraph.thy ===== *)
theory AgentGraph
  imports PyJson
begin

text \<open>
  \<open>runtime/agent_status.py\<close> and \<open>agent_graph_store.py\<close>: the states of a sub-agent and the moves between them, and the two
  tables that keep jobs and the edges from a parent to the agents it spawned.  A table is the list of its rows; the statements
  are modelled by what they do to it (\<open>INSERT OR REPLACE\<close> on a primary key, \<open>INSERT OR IGNORE\<close>, \<open>UPDATE\<close> with a key, a stable
  \<open>ORDER BY\<close>).  A time is an integer.  The arrow in the message of a refused move is written in ASCII.
\<close>

subsection \<open>The state of an agent\<close>

datatype agent_status = IDLE | THINKING | EXECUTING | WAITING_APPROVAL | COMPLETED | ERROR | ABORTED

fun VALID_TRANSITIONS :: "agent_status \<Rightarrow> agent_status list" where
  "VALID_TRANSITIONS IDLE = [THINKING, ABORTED]"
| "VALID_TRANSITIONS THINKING = [EXECUTING, WAITING_APPROVAL, COMPLETED, ERROR, ABORTED]"
| "VALID_TRANSITIONS EXECUTING = [THINKING, WAITING_APPROVAL, COMPLETED, ERROR, ABORTED]"
| "VALID_TRANSITIONS WAITING_APPROVAL = [THINKING, EXECUTING, ABORTED]"
| "VALID_TRANSITIONS COMPLETED = []"
| "VALID_TRANSITIONS ERROR = []"
| "VALID_TRANSITIONS ABORTED = []"

fun status_value :: "agent_status \<Rightarrow> pystr" where
  "status_value IDLE = ''idle''"
| "status_value THINKING = ''thinking''"
| "status_value EXECUTING = ''executing''"
| "status_value WAITING_APPROVAL = ''waiting_approval''"
| "status_value COMPLETED = ''completed''"
| "status_value ERROR = ''error''"
| "status_value ABORTED = ''aborted''"

definition status_transition :: "agent_status \<Rightarrow> agent_status \<Rightarrow> agent_status result" where
  "status_transition cur to =
     (if to \<in> set (VALID_TRANSITIONS cur) then Inr to
      else Inl (ValueError (''Invalid agent state transition: '' @ status_value cur @ '' -> '' @ status_value to)))"

definition terminal_status :: "agent_status \<Rightarrow> bool" where
  "terminal_status s \<longleftrightarrow> s = COMPLETED \<or> s = ERROR \<or> s = ABORTED"

text \<open>The histories of a machine: the states it can be in after any moves that are not refused.\<close>

inductive status_reach :: "agent_status \<Rightarrow> agent_status \<Rightarrow> bool" where
  stay: "status_reach s s"
| move: "status_reach s t \<Longrightarrow> status_transition t to = Inr u \<Longrightarrow> status_reach s u"

inductive_cases status_reach_from: "status_reach s t"

lemma status_transition_Inr: "status_transition cur to = Inr u \<longleftrightarrow> u = to \<and> to \<in> set (VALID_TRANSITIONS cur)"
  by (auto simp: status_transition_def)

lemma terminal_iff: "terminal_status s \<longleftrightarrow> VALID_TRANSITIONS s = []"
  by (cases s) (simp_all add: terminal_status_def)

lemma terminal_stays: "status_reach s t \<Longrightarrow> terminal_status s \<Longrightarrow> t = s"
  by (induction rule: status_reach.induct) (auto simp: status_transition_Inr terminal_iff)

lemma never_idle_again: "status_reach s t \<Longrightarrow> s \<noteq> IDLE \<Longrightarrow> t \<noteq> IDLE"
proof (induction rule: status_reach.induct)
  case (move s t to u)
  then show ?case by (cases t) (auto simp: status_transition_Inr)
qed simp

lemma idle_reaches: "status_reach IDLE t \<Longrightarrow> t = IDLE \<or> t = ABORTED \<or> status_reach THINKING t"
proof (induction "IDLE" t rule: status_reach.induct)
  case (move t to u)
  then show ?case
    by (auto simp: status_transition_Inr dest: terminal_stays[of ABORTED] intro: status_reach.intros)
qed simp

text \<open>The life of an agent: a finished state is final; nothing becomes idle again; and an idle agent is aborted or thinks
  before anything else happens to it: it is never completed or failed without having thought.\<close>

theorem agent_life:
  "(terminal_status s \<and> status_reach s t \<longrightarrow> t = s) \<and> (s \<noteq> IDLE \<and> status_reach s t \<longrightarrow> t \<noteq> IDLE)
   \<and> (status_reach IDLE t \<longrightarrow> t = IDLE \<or> t = ABORTED \<or> status_reach THINKING t)
   \<and> (\<forall>u. status_transition IDLE u = Inr u \<longleftrightarrow> u = THINKING \<or> u = ABORTED)"
  using terminal_stays never_idle_again idle_reaches by (auto simp: status_transition_Inr)

theorem agent_life_witness:
  "status_reach IDLE COMPLETED \<and> \<not> status_reach COMPLETED THINKING"
proof
  have "status_transition IDLE THINKING = Inr THINKING" "status_transition THINKING COMPLETED = Inr COMPLETED"
    by (simp_all add: status_transition_def)
  then show "status_reach IDLE COMPLETED" by (meson status_reach.intros)
  show "\<not> status_reach COMPLETED THINKING"
    using agent_life[of COMPLETED THINKING] by (simp add: terminal_status_def)
qed

subsection \<open>The tables\<close>

record job_row =
  jr_id :: pystr
  jr_agent_type :: pystr
  jr_task :: pystr
  jr_thread :: pystr
  jr_parent :: pystr
  jr_status :: pystr
  jr_result :: "pystr option"
  jr_error :: "pystr option"
  jr_created :: int
  jr_completed :: "int option"

record edge_row =
  er_parent :: pystr
  er_child :: pystr
  er_thread :: "pystr option"
  er_created :: int

record graph_store =
  gs_jobs :: "job_row list"
  gs_edges :: "edge_row list"

definition empty_store :: graph_store where
  "empty_store = \<lparr>gs_jobs = [], gs_edges = []\<rparr>"

definition save_job :: "job_row \<Rightarrow> graph_store \<Rightarrow> graph_store" where
  "save_job r s = s\<lparr>gs_jobs := filter (\<lambda>x. jr_id x \<noteq> jr_id r) (gs_jobs s) @ [r]\<rparr>"

definition update_job_status :: "pystr \<Rightarrow> pystr \<Rightarrow> pystr option \<Rightarrow> pystr option \<Rightarrow> int option \<Rightarrow> graph_store \<Rightarrow> graph_store" where
  "update_job_status jid status res err completed s =
     s\<lparr>gs_jobs := map (\<lambda>x. if jr_id x = jid
        then x\<lparr>jr_status := status, jr_result := res, jr_error := err, jr_completed := completed\<rparr> else x) (gs_jobs s)\<rparr>"

definition load_jobs :: "graph_store \<Rightarrow> job_row list" where
  "load_jobs s = sort_key (\<lambda>r. - jr_created r) (gs_jobs s)"

definition get_job :: "pystr \<Rightarrow> graph_store \<Rightarrow> job_row option" where
  "get_job jid s = List.find (\<lambda>r. jr_id r = jid) (gs_jobs s)"

definition add_edge :: "pystr \<Rightarrow> pystr \<Rightarrow> pystr option \<Rightarrow> int \<Rightarrow> graph_store \<Rightarrow> graph_store" where
  "add_edge parent child thread now s =
     (if list_ex (\<lambda>e. er_parent e = parent \<and> er_child e = child) (gs_edges s) then s
      else s\<lparr>gs_edges := gs_edges s @ [\<lparr>er_parent = parent, er_child = child, er_thread = thread, er_created = now\<rparr>]\<rparr>)"

definition get_children :: "pystr \<Rightarrow> graph_store \<Rightarrow> edge_row list" where
  "get_children parent s = sort_key er_created (filter (\<lambda>e. er_parent e = parent) (gs_edges s))"

text \<open>The walk of \<open>get_tree\<close>: \<open>res\<close> grows at the end, the stack is taken and pushed at its head.\<close>

function tree_loop :: "graph_store \<Rightarrow> pystr list \<Rightarrow> pystr list \<Rightarrow> pystr list" where
  "tree_loop s res [] = res"
| "tree_loop s res (x # stack) =
     (let res' = (if x \<in> set res then res else res @ [x])
      in tree_loop s res' (rev (filter (\<lambda>y. y \<notin> set res') (map er_child (get_children x s))) @ stack))"
  by pat_completeness auto

definition get_tree :: "pystr \<Rightarrow> graph_store \<Rightarrow> pystr list" where
  "get_tree root s = tree_loop s [] [root]"

definition graph_nodes :: "graph_store \<Rightarrow> pystr set" where
  "graph_nodes s = set (map er_child (gs_edges s))"

lemma set_get_children: "set (map er_child (get_children x s)) = {er_child e | e. e \<in> set (gs_edges s) \<and> er_parent e = x}"
  by (auto simp: get_children_def)

lemma children_in_nodes: "set (map er_child (get_children x s)) \<subseteq> graph_nodes s"
  unfolding set_get_children by (auto simp: graph_nodes_def)

definition tree_left :: "graph_store \<Rightarrow> pystr list \<Rightarrow> pystr list \<Rightarrow> pystr set" where
  "tree_left s res stack = (set stack \<union> graph_nodes s) - set res"

lemma finite_tree_left [simp]: "finite (tree_left s res stack)"
  by (simp add: tree_left_def graph_nodes_def)

lemma tree_left_step:
  fixes s res x stack
  defines "res' \<equiv> (if x \<in> set res then res else res @ [x])"
  defines "stack' \<equiv> rev (filter (\<lambda>y. y \<notin> set res') (map er_child (get_children x s))) @ stack"
  shows "tree_left s res' stack' \<subseteq> tree_left s res (x # stack) - (set res' - set res)"
  using children_in_nodes[of x s] by (auto simp: tree_left_def res'_def stack'_def)

termination tree_loop
proof (relation "measures [\<lambda>(s, res, stack). card (tree_left s res stack), \<lambda>(s, res, stack). length (filter (\<lambda>y. y \<in> set res) stack)]",
    goal_cases)
  case (2 s res x stack res')
  let ?stack = "rev (filter (\<lambda>y. y \<notin> set res') (map er_child (get_children x s))) @ stack"
  show ?case
  proof (cases "x \<in> set res")
    case True
    then have r: "res' = res" using 2 by simp
    have "tree_left s res ?stack \<subseteq> tree_left s res (x # stack)"
      using tree_left_step[where s = s and res = res and x = x and stack = stack] True r by auto
    then have "card (tree_left s res ?stack) \<le> card (tree_left s res (x # stack))" by (rule card_mono[rotated]) simp
    moreover have "filter (\<lambda>y. y \<in> set res) (rev (filter (\<lambda>y. y \<notin> set res) ys)) = []" for ys by (auto simp: filter_empty_conv)
    ultimately show ?thesis unfolding r using True by auto
  next
    case False
    then have r: "res' = res @ [x]" using 2 by simp
    have "tree_left s res' ?stack \<subseteq> tree_left s res (x # stack) - {x}"
      using tree_left_step[where s = s and res = res and x = x and stack = stack] False r by auto
    moreover have "x \<in> tree_left s res (x # stack)" using False by (simp add: tree_left_def)
    ultimately have "tree_left s res' ?stack \<subset> tree_left s res (x # stack)" by blast
    then have "card (tree_left s res' ?stack) < card (tree_left s res (x # stack))" by (rule psubset_card_mono[rotated]) simp
    then show ?thesis by simp
  qed
qed simp

declare tree_loop.simps(2) [simp del]

definition spawned :: "graph_store \<Rightarrow> (pystr \<times> pystr) set" where
  "spawned s = {(er_parent e, er_child e) | e. e \<in> set (gs_edges s)}"

lemma tree_loop_spec:
  assumes "distinct res" "set res \<union> set stack \<subseteq> R"
    and "\<forall>x y. x \<in> R \<longrightarrow> (x, y) \<in> spawned s \<longrightarrow> y \<in> R"
    and "\<forall>x y. x \<in> set res \<longrightarrow> (x, y) \<in> spawned s \<longrightarrow> y \<in> set res \<union> set stack"
  shows "distinct (tree_loop s res stack) \<and> prefix res (tree_loop s res stack) \<and> set (tree_loop s res stack) \<subseteq> R
    \<and> set stack \<subseteq> set (tree_loop s res stack)
    \<and> (\<forall>x y. x \<in> set (tree_loop s res stack) \<longrightarrow> (x, y) \<in> spawned s \<longrightarrow> y \<in> set (tree_loop s res stack))"
  using assms
proof (induction s res stack rule: tree_loop.induct)
  case (1 s res)
  then show ?case by auto
next
  case (2 s res x stack)
  define res' where "res' = (if x \<in> set res then res else res @ [x])"
  define stack' where "stack' = rev (filter (\<lambda>y. y \<notin> set res') (map er_child (get_children x s))) @ stack"
  have step: "tree_loop s res (x # stack) = tree_loop s res' stack'"
    unfolding tree_loop.simps(2)[of s res x stack] Let_def res'_def stack'_def ..
  have kids: "set (map er_child (get_children x s)) = {y. (x, y) \<in> spawned s}"
    unfolding set_get_children spawned_def by auto
  have set': "set res' = insert x (set res)" by (auto simp: res'_def)
  have stk: "set stack' = {y. (x, y) \<in> spawned s \<and> y \<notin> set res'} \<union> set stack"
    using kids by (auto simp: stack'_def)
  have xR: "x \<in> R" using 2(3) by simp
  have a: "distinct res'" using 2(2) by (simp add: res'_def)
  have b: "set res' \<union> set stack' \<subseteq> R" using 2(3,4) xR set' stk by auto
  have c: "\<forall>z y. z \<in> set res' \<longrightarrow> (z, y) \<in> spawned s \<longrightarrow> y \<in> set res' \<union> set stack'"
    using 2(5) set' stk by auto
  note IH = 2(1)[OF res'_def a b[unfolded stack'_def] 2(4) c[unfolded stack'_def], folded stack'_def]
  have "prefix res res'" by (simp add: res'_def)
  moreover have "x \<in> set (tree_loop s res' stack')" using IH set' set_mono_prefix[of res' "tree_loop s res' stack'"] by auto
  ultimately show ?case unfolding step using IH stk by (auto intro: prefix_order.trans)
qed

text \<open>C26. The tree of an agent: the walk ends, also on edges that form a circle; it lists the agent first and exactly the agents
  that were spawned by it, by those, and so on, each once.\<close>

theorem tree_is_descendants:
  "hd (get_tree root s) = root \<and> distinct (get_tree root s) \<and> set (get_tree root s) = {x. (root, x) \<in> (spawned s)\<^sup>*}"
proof -
  let ?R = "{x. (root, x) \<in> (spawned s)\<^sup>*}"
  have spec: "distinct (get_tree root s) \<and> set (get_tree root s) \<subseteq> ?R \<and> root \<in> set (get_tree root s)
      \<and> (\<forall>x y. x \<in> set (get_tree root s) \<longrightarrow> (x, y) \<in> spawned s \<longrightarrow> y \<in> set (get_tree root s))"
    using tree_loop_spec[of "[]" "[root]" ?R s] unfolding get_tree_def by (auto intro: rtrancl_into_rtrancl)
  have "x \<in> set (get_tree root s)" if "(root, x) \<in> (spawned s)\<^sup>*" for x
    using that by (induction rule: rtrancl_induct) (use spec in auto)
  moreover have "\<exists>ys. get_tree root s = root # ys"
  proof -
    let ?kids = "rev (filter (\<lambda>y. y \<notin> set [root]) (map er_child (get_children root s))) @ []"
    have "get_tree root s = tree_loop s [root] ?kids"
      by (simp add: get_tree_def tree_loop.simps(2)[of s "[]"] Let_def)
    moreover have "prefix [root] (tree_loop s [root] ?kids)"
      using tree_loop_spec[of "[root]" ?kids UNIV s] set_get_children[of root s]
      by (auto simp: spawned_def)
    ultimately show ?thesis by (auto simp: prefix_def)
  qed
  ultimately show ?thesis using spec by auto
qed

end
