(* ===== verification/AgentJobs.thy ===== *)
theory AgentJobs
  imports AgentGraph "HOL-Library.AList"
begin

text \<open>
  \<open>runtime/agent_jobs.py\<close>: the jobs that sub-agents run as.  A job is registered and saved, its task is started later by the
  event loop; the task ends with a result, an exception or a cancellation; a watchdog cancels a task that does not move; a job
  can be killed at any time; after a restart the saved jobs are loaded.  Fresh identifiers and the clock are arguments.
\<close>

record agent_job = job_row + aj_roots :: "pystr list"

text \<open>A task that was created and has not run yet, that was cancelled before it ran, that runs, that runs and was
  cancelled by a kill or by the watchdog.  A finished task is in no state.\<close>

datatype task_state = TaskNew | TaskDropped | TaskRunning | TaskCancelled | TaskStalled

record job_runtime =
  jt_session :: pystr
  jt_jobs :: "(pystr \<times> agent_job) list"
  jt_tasks :: "pystr \<rightharpoonup> task_state"
  jt_store :: graph_store

definition STALL_SAMPLES :: nat where
  "STALL_SAMPLES = 15"

definition job_of :: "pystr \<Rightarrow> job_runtime \<Rightarrow> agent_job option" where
  "job_of jid s = map_of (jt_jobs s) jid"

definition row_of :: "agent_job \<Rightarrow> job_row" where
  "row_of j = job_row.truncate j"

definition put_job :: "agent_job \<Rightarrow> job_runtime \<Rightarrow> job_runtime" where
  "put_job j s = s\<lparr>jt_jobs := AList.update (jr_id j) j (jt_jobs s)\<rparr>"

text \<open>\<open>update_job_status\<close> with the fields of the job.\<close>

definition store_status :: "agent_job \<Rightarrow> job_runtime \<Rightarrow> job_runtime" where
  "store_status j s =
     s\<lparr>jt_store := update_job_status (jr_id j) (jr_status j) (jr_result j) (jr_error j) (jr_completed j) (jt_store s)\<rparr>"

definition start_job :: "pystr \<Rightarrow> int \<Rightarrow> pystr \<Rightarrow> pystr \<Rightarrow> pystr \<Rightarrow> pystr list \<Rightarrow> job_runtime \<Rightarrow> agent_job \<times> job_runtime" where
  "start_job jid now agent_type task parent roots s =
     (let job = \<lparr>jr_id = jid, jr_agent_type = agent_type, jr_task = task, jr_thread = jt_session s @ '':'' @ jid,
            jr_parent = parent, jr_status = ''queued'', jr_result = None, jr_error = None, jr_created = now,
            jr_completed = None, aj_roots = roots\<rparr>;
          s1 = put_job job s
      in (job, s1\<lparr>jt_store := save_job (row_of job) (jt_store s1), jt_tasks := (jt_tasks s1)(jid \<mapsto> TaskNew)\<rparr>))"

text \<open>The event loop runs the task for the first time: up to the wait for the turn.\<close>

definition begin_job :: "pystr \<Rightarrow> job_runtime \<Rightarrow> job_runtime" where
  "begin_job jid s =
     (case (jt_tasks s jid, job_of jid s) of
        (Some TaskNew, Some job) \<Rightarrow>
          (let s1 = put_job (job\<lparr>jr_status := ''running''\<rparr>) s
           in s1\<lparr>jt_tasks := (jt_tasks s1)(jid \<mapsto> TaskRunning),
                 jt_store := update_job_status jid ''running'' None None None (jt_store s1)\<rparr>)
      | (Some TaskDropped, _) \<Rightarrow> s\<lparr>jt_tasks := (jt_tasks s)(jid := None)\<rparr>
      | _ \<Rightarrow> s)"

datatype job_outcome = Returned "pystr option" | Raised pystr | CancelledError

definition settle :: "job_outcome \<Rightarrow> agent_job \<Rightarrow> agent_job" where
  "settle out job =
     (case out of
        Returned r \<Rightarrow> job\<lparr>jr_result := r, jr_status := ''completed''\<rparr>
      | CancelledError \<Rightarrow>
          (case jr_error job of
             Some (c # e) \<Rightarrow> job
           | _ \<Rightarrow> job\<lparr>jr_error := Some ''Cancelled'', jr_status := ''aborted''\<rparr>)
      | Raised e \<Rightarrow> job\<lparr>jr_error := Some e, jr_status := ''error''\<rparr>)"

text \<open>The task ends; the job as it is then is what the agent's control is told.\<close>

definition end_job :: "pystr \<Rightarrow> job_outcome \<Rightarrow> int \<Rightarrow> job_runtime \<Rightarrow> agent_job option \<times> job_runtime" where
  "end_job jid out now s =
     (case (jt_tasks s jid, job_of jid s) of
        (Some t, Some job) \<Rightarrow>
          if t \<in> {TaskRunning, TaskCancelled, TaskStalled}
          then (let job' = (settle out job)\<lparr>jr_completed := Some now\<rparr>; s1 = store_status job' (put_job job' s)
                in (Some job', s1\<lparr>jt_tasks := (jt_tasks s1)(jid := None)\<rparr>))
          else (None, s)
      | _ \<Rightarrow> (None, s))"

definition kill_job :: "pystr \<Rightarrow> int \<Rightarrow> job_runtime \<Rightarrow> job_runtime" where
  "kill_job jid now s =
     (let tasks = (case jt_tasks s jid of
            None \<Rightarrow> jt_tasks s
          | Some t \<Rightarrow> (jt_tasks s)(jid \<mapsto> (if t = TaskNew \<or> t = TaskDropped then TaskDropped else TaskCancelled)));
          s1 = s\<lparr>jt_tasks := tasks\<rparr>
      in case job_of jid s of
           None \<Rightarrow> s1
         | Some job \<Rightarrow> (let job' = job\<lparr>jr_status := ''aborted'', jr_completed := Some now\<rparr> in store_status job' (put_job job' s1)))"

text \<open>The watchdog has seen the task at the same place for too long: \<open>STALL_SAMPLES\<close> samples, 60 seconds apart.\<close>

definition stall_job :: "pystr \<Rightarrow> pystr \<Rightarrow> job_runtime \<Rightarrow> job_runtime" where
  "stall_job jid place s =
     (case (jt_tasks s jid, job_of jid s) of
        (Some t, Some job) \<Rightarrow>
          if t = TaskRunning \<or> t = TaskCancelled
          then (put_job (job\<lparr>jr_error := Some (''stalled at '' @ place @ '' (no progress for 900s)''), jr_status := ''error''\<rparr>) s)
                 \<lparr>jt_tasks := (jt_tasks s)(jid \<mapsto> TaskStalled)\<rparr>
          else s
      | _ \<Rightarrow> s)"

text \<open>The samples of the watchdog: the number of samples after which it gives the task up.\<close>

fun stall_after :: "nat \<Rightarrow> 'p option \<Rightarrow> nat \<Rightarrow> 'p option list \<Rightarrow> nat option" where
  "stall_after samples seen same [] = None"
| "stall_after samples seen same (point # points) =
     (let same' = (if point \<noteq> None \<and> point = seen then Suc same else 0)
      in if samples - 1 \<le> same' then Some 1 else map_option Suc (stall_after samples point same' points))"

text \<open>A new process: the rows of the table, a running job is marked as interrupted.\<close>

definition loaded_job :: "job_row \<Rightarrow> agent_job" where
  "loaded_job r = job_row.extend (r\<lparr>jr_status := (if jr_status r = ''running'' then ''interrupted'' else jr_status r)\<rparr>)
     (agent_job.fields [])"

definition load_runtime :: "pystr \<Rightarrow> graph_store \<Rightarrow> job_runtime" where
  "load_runtime session st =
     \<lparr>jt_session = session, jt_jobs = fold (\<lambda>r. AList.update (jr_id r) (loaded_job r)) (load_jobs st) [],
      jt_tasks = Map.empty, jt_store = st\<rparr>"

definition job_entry :: "agent_job \<Rightarrow> dict" where
  "job_entry job =
     [(''job_id'', JStr (jr_id job)), (''agent_type'', JStr (jr_agent_type job)), (''thread_id'', JStr (jr_thread job)),
      (''parent_thread_id'', JStr (jr_parent job)), (''status'', JStr (jr_status job)),
      (''result_preview'', JStr (take 200 (case jr_result job of None \<Rightarrow> '''' | Some r \<Rightarrow> r))),
      (''error'', case jr_error job of None \<Rightarrow> JNull | Some e \<Rightarrow> JStr e), (''created_at'', JNum (jr_created job)),
      (''completed_at'', case jr_completed job of None \<Rightarrow> JNull | Some t \<Rightarrow> JNum t)]"

definition list_jobs :: "job_runtime \<Rightarrow> dict list" where
  "list_jobs s = map (job_entry \<circ> snd) (jt_jobs s)"

subsection \<open>The watchdog\<close>

lemma stall_window:
  assumes "stall_after n seen same pts = Some k" "2 \<le> n"
    and "\<forall>p. seen = Some p \<longrightarrow> suffix (replicate (Suc same) (Some p)) old" "seen = None \<longrightarrow> same = 0"
  shows "\<exists>p. suffix (replicate n (Some p)) (old @ take k pts)"
  using assms
proof (induction n seen same pts arbitrary: old k rule: stall_after.induct)
  case (2 n seen same point points)
  define same' where "same' = (if point \<noteq> None \<and> point = seen then Suc same else 0)"
  have eq: "stall_after n seen same (point # points) =
      (if n - 1 \<le> same' then Some 1 else map_option Suc (stall_after n point same' points))"
    by (simp add: same'_def Let_def)
  have new: "suffix (replicate (Suc same') (Some p)) (old @ [point])" if "point = Some p" for p
  proof (cases "seen = Some p")
    case True
    then have "suffix (replicate (Suc same) (Some p)) old" using 2(4) by simp
    then have "suffix (replicate (Suc same) (Some p) @ [Some p]) (old @ [Some p])" by simp
    then show ?thesis using that True by (simp add: same'_def replicate_append_same[symmetric])
  qed (use that in \<open>auto simp: same'_def suffix_def\<close>)
  show ?case
  proof (cases "n - 1 \<le> same'")
    case True
    then have k: "k = 1" using 2(2) unfolding eq by simp
    have "same' \<noteq> 0" using True 2(3) by linarith
    then obtain p where p: "point = Some p" by (auto simp: same'_def split: if_splits)
    have "replicate (Suc same') (Some p) = replicate (Suc same' - n) (Some p) @ replicate n (Some p)"
      using True 2(3) by (simp add: replicate_add[symmetric])
    then have "suffix (replicate n (Some p)) (replicate (Suc same') (Some p))" by (simp add: suffix_def)
    with new[OF p] have "suffix (replicate n (Some p)) (old @ [point])" by (rule suffix_order.trans[rotated])
    then show ?thesis using k by auto
  next
    case False
    then obtain k' where k: "stall_after n point same' points = Some k'" "k = Suc k'"
      using 2(2) unfolding eq by auto
    have "\<exists>p. suffix (replicate n (Some p)) ((old @ [point]) @ take k' points)"
      by (rule 2(1)[OF same'_def False k(1) 2(3)]) (use new in \<open>auto simp: same'_def\<close>)
    then show ?thesis using k(2) by simp
  qed
qed simp

lemma stall_counts:
  assumes "n - 1 \<le> m + same" "0 < m"
  shows "stall_after n (Some p) same (replicate m (Some p) @ rest) \<noteq> None"
  using assms
proof (induction m arbitrary: same)
  case (Suc m)
  show ?case
  proof (cases "n - 1 \<le> Suc same")
    case False
    then have "0 < m" using Suc.prems by (cases m) auto
    with Suc.IH[of "Suc same"] Suc.prems(1) False show ?thesis by (simp add: Let_def)
  qed (simp add: Let_def)
qed simp

lemma stall_found:
  assumes "2 \<le> n"
  shows "stall_after n seen same (before @ replicate n (Some p) @ rest) \<noteq> None"
proof (induction before arbitrary: seen same)
  case Nil
  obtain m where n: "n = Suc m" "0 < m" using assms by (cases n) auto
  have c: "stall_after n (Some p) same' (replicate m (Some p) @ rest) \<noteq> None" for same'
    by (rule stall_counts) (use n in auto)
  have "replicate n (Some p) @ rest = Some p # replicate m (Some p) @ rest" using n(1) by simp
  then show ?case using c by (simp add: Let_def)
next
  case (Cons a before)
  then show ?case by (simp add: Let_def)
qed

text \<open>The watchdog gives a task up exactly when it was seen at one and the same place in as many samples in a row as the
  threshold says: a task that moves at least once in every such stretch, or has no place, is left alone however long it
  runs, and one that does not move is not.\<close>

theorem watchdog_needs_a_stretch:
  assumes "2 \<le> n"
  shows "(stall_after n None 0 pts = None) = (\<not> (\<exists>p. sublist (replicate n (Some p)) pts))"
proof
  assume none: "stall_after n None 0 pts = None"
  show "\<not> (\<exists>p. sublist (replicate n (Some p)) pts)"
  proof
    assume "\<exists>p. sublist (replicate n (Some p)) pts"
    then obtain p a b where "pts = a @ replicate n (Some p) @ b" by (auto simp: sublist_def)
    with stall_found[OF assms, of None 0 a p b] none show False by simp
  qed
next
  assume free: "\<not> (\<exists>p. sublist (replicate n (Some p)) pts)"
  show "stall_after n None 0 pts = None"
  proof (cases "stall_after n None 0 pts")
    case (Some k)
    from stall_window[OF Some assms, of "[]"] obtain p where "suffix (replicate n (Some p)) (take k pts)" by auto
    then obtain u where "take k pts = u @ replicate n (Some p)" by (auto simp: suffix_def)
    then have "pts = u @ replicate n (Some p) @ drop k pts" by (metis append_assoc append_take_drop_id)
    then have "sublist (replicate n (Some p)) pts" unfolding sublist_def by blast
    with free show ?thesis by blast
  qed
qed

theorem watchdog_needs_a_stretch_witness:
  "stall_after STALL_SAMPLES None 0 (replicate 14 (Some ''a'') @ [Some ''b''] @ replicate 14 (Some ''a'')) = None"
proof -
  have "\<not> (\<exists>p. sublist (replicate STALL_SAMPLES (Some p)) (replicate 14 (Some ''a'') @ [Some ''b''] @ replicate 14 (Some ''a'')))"
  proof
    assume "\<exists>p. sublist (replicate STALL_SAMPLES (Some p)) (replicate 14 (Some ''a'') @ [Some ''b''] @ replicate 14 (Some ''a''))"
    then obtain p u v where e: "replicate 14 (Some ''a'') @ [Some ''b''] @ replicate 14 (Some ''a'') = u @ replicate 15 (Some p) @ v"
      by (auto simp: sublist_def STALL_SAMPLES_def)
    have len: "length u + length v = 14" using arg_cong[OF e, of length] by simp
    have "(u @ replicate 15 (Some p) @ v) ! 14 = Some p" using len by (auto simp: nth_append)
    then have pb: "p = ''b''" unfolding e[symmetric] by (simp add: nth_append)
    have "(u @ replicate 15 (Some p) @ v) ! (if length u = 0 then 13 else 15) = Some p"
      using len by (auto simp: nth_append)
    then have "p = ''a''" unfolding e[symmetric] by (auto simp: nth_append split: if_splits)
    with pb show False by simp
  qed
  then show ?thesis using watchdog_needs_a_stretch[of STALL_SAMPLES "replicate 14 (Some ''a'') @ [Some ''b''] @ replicate 14 (Some ''a'')"]
    by (simp add: STALL_SAMPLES_def)
qed

subsection \<open>Memory and table agree\<close>

datatype job_op =
    StartJob pystr int pystr pystr pystr "pystr list"
  | BeginJob pystr
  | EndJob pystr job_outcome int
  | KillJob pystr int
  | StallJob pystr pystr

fun job_act :: "job_op \<Rightarrow> job_runtime \<Rightarrow> job_runtime" where
  "job_act (StartJob jid now ty task parent roots) s = snd (start_job jid now ty task parent roots s)"
| "job_act (BeginJob jid) s = begin_job jid s"
| "job_act (EndJob jid out now) s = snd (end_job jid out now s)"
| "job_act (KillJob jid now) s = kill_job jid now s"
| "job_act (StallJob jid place) s = stall_job jid place s"

fun job_fresh :: "job_op \<Rightarrow> job_runtime \<Rightarrow> bool" where
  "job_fresh (StartJob jid now ty task parent roots) s \<longleftrightarrow> job_of jid s = None"
| "job_fresh _ s \<longleftrightarrow> True"

definition empty_runtime :: "pystr \<Rightarrow> job_runtime" where
  "empty_runtime session = \<lparr>jt_session = session, jt_jobs = [], jt_tasks = Map.empty, jt_store = empty_store\<rparr>"

inductive jobs_reach :: "pystr \<Rightarrow> job_runtime \<Rightarrow> bool" for session where
  jobs_start: "jobs_reach session (empty_runtime session)"
| jobs_step: "jobs_reach session s \<Longrightarrow> job_fresh op s \<Longrightarrow> jobs_reach session (job_act op s)"

lemma find_map: "List.find P (map f xs) = map_option f (List.find (P \<circ> f) xs)"
  by (induction xs) auto

lemma get_job_save: "get_job j (save_job r s) = (if j = jr_id r then Some r else get_job j s)"
proof -
  have "List.find (\<lambda>x. jr_id x = j) (filter (\<lambda>x. jr_id x \<noteq> i) xs @ [r]) =
      (if jr_id r = j \<and> j = i then Some r else if j \<noteq> i \<and> List.find (\<lambda>x. jr_id x = j) xs \<noteq> None then List.find (\<lambda>x. jr_id x = j) xs
       else if jr_id r = j then Some r else None)" for xs i
    by (induction xs) auto
  then show ?thesis by (auto simp: get_job_def save_job_def)
qed

lemma get_job_update:
  "get_job j (update_job_status i st res err com s) =
     map_option (\<lambda>r. if jr_id r = i then r\<lparr>jr_status := st, jr_result := res, jr_error := err, jr_completed := com\<rparr> else r) (get_job j s)"
  by (auto simp: get_job_def update_job_status_def find_map comp_def intro!: arg_cong[where f = "map_option _"]
      arg_cong2[where f = List.find])

lemma get_job_id: "get_job j s = Some r \<Longrightarrow> jr_id r = j"
  by (auto simp: get_job_def find_Some_iff)

lemma table_ids:
  "distinct (map jr_id (gs_jobs s)) \<Longrightarrow> distinct (map jr_id (gs_jobs (save_job r s)))"
  "map jr_id (gs_jobs (update_job_status i st res err com s)) = map jr_id (gs_jobs s)"
proof -
  show "map jr_id (gs_jobs (update_job_status i st res err com s)) = map jr_id (gs_jobs s)"
    by (auto simp: update_job_status_def)
  assume "distinct (map jr_id (gs_jobs s))"
  then show "distinct (map jr_id (gs_jobs (save_job r s)))"
    by (auto simp: save_job_def distinct_map intro: inj_on_subset)
qed

lemma job_of_put: "job_of i (put_job j s) = (if i = jr_id j then Some j else job_of i s)"
  by (simp add: job_of_def put_job_def update_conv')

text \<open>The table has one row per job; every job has its row, which is the job itself unless the watchdog has just given it up;
  a job whose task has not started is as it was created.\<close>

definition new_job :: "agent_job \<Rightarrow> bool" where
  "new_job j \<longleftrightarrow> jr_result j = None \<and> jr_error j = None \<and> jr_completed j = None"

text \<open>A row that the status of the job would make its own row.\<close>

definition synced :: "job_row \<Rightarrow> agent_job \<Rightarrow> bool" where
  "synced r j \<longleftrightarrow> r\<lparr>jr_status := jr_status j, jr_result := jr_result j, jr_error := jr_error j, jr_completed := jr_completed j\<rparr> = row_of j"

definition job_saved :: "job_runtime \<Rightarrow> pystr \<Rightarrow> agent_job \<Rightarrow> bool" where
  "job_saved s jid j \<longleftrightarrow> jr_id j = jid \<and>
     (\<exists>r. get_job jid (jt_store s) = Some r \<and> synced r j \<and> (jt_tasks s jid \<noteq> Some TaskStalled \<longrightarrow> r = row_of j)) \<and>
     (jt_tasks s jid = Some TaskNew \<longrightarrow> new_job j)"

definition runtime_ok :: "job_runtime \<Rightarrow> bool" where
  "runtime_ok s \<longleftrightarrow> distinct (map jr_id (gs_jobs (jt_store s))) \<and> (\<forall>jid j. job_of jid s = Some j \<longrightarrow> job_saved s jid j)"

lemma runtime_okD: "runtime_ok s \<Longrightarrow> job_of jid s = Some j \<Longrightarrow> job_saved s jid j"
  by (simp add: runtime_ok_def)

lemmas row_simps = row_of_def job_row.truncate_def

lemma synced_self [simp]: "synced (row_of j) j"
  by (simp add: synced_def row_simps)

lemma synced_status:
  "synced r j \<Longrightarrow> synced r (j\<lparr>jr_status := a\<rparr>)" "synced r j \<Longrightarrow> synced r (j\<lparr>jr_result := b\<rparr>)"
  "synced r j \<Longrightarrow> synced r (j\<lparr>jr_error := b\<rparr>)" "synced r j \<Longrightarrow> synced r (j\<lparr>jr_completed := d\<rparr>)"
  by (cases r; cases j; simp add: synced_def row_simps)+

lemma tasks_put [simp]:
  "jt_tasks (put_job j s) = jt_tasks s" "jt_store (put_job j s) = jt_store s" "jt_tasks (store_status j s) = jt_tasks s"
  "job_of i (store_status j s) = job_of i s" "jt_session (put_job j s) = jt_session s" "jt_session (store_status j s) = jt_session s"
  by (simp_all add: put_job_def store_status_def job_of_def)

lemma job_of_tasks [simp]: "job_of i (s\<lparr>jt_tasks := T\<rparr>) = job_of i s" "job_of i (s\<lparr>jt_store := st\<rparr>) = job_of i s"
  by (simp_all add: job_of_def)

lemma runtime_ok_store:
  assumes ok: "runtime_ok s" and r: "get_job jid (jt_store s) = Some r" "synced r j'" and id: "jr_id j' = jid"
    and T: "\<And>i. i \<noteq> jid \<Longrightarrow> T i = jt_tasks s i" "T jid \<noteq> Some TaskNew"
  shows "runtime_ok ((store_status j' (put_job j' s))\<lparr>jt_tasks := T\<rparr>)"
proof -
  have st: "get_job i (jt_store (store_status j' s')) =
      map_option (\<lambda>x. if i = jid then x\<lparr>jr_status := jr_status j', jr_result := jr_result j', jr_error := jr_error j', jr_completed := jr_completed j'\<rparr> else x)
        (get_job i (jt_store s'))" for i s'
    by (auto simp: store_status_def get_job_update id dest!: get_job_id intro!: option.map_cong0 option.map_cong)
  have "job_saved ((store_status j' (put_job j' s))\<lparr>jt_tasks := T\<rparr>) i j" if "job_of i (put_job j' s) = Some j" for i j
  proof (cases "i = jid")
    case True
    then have "j = j'" using that id by (simp add: job_of_put)
    then show ?thesis using True r id T(2) by (auto simp: job_saved_def st synced_def synced_self[unfolded synced_def])
  next
    case False
    then have "job_of i s = Some j" using that id by (simp add: job_of_put)
    from runtime_okD[OF ok this] False show ?thesis by (auto simp: job_saved_def st T(1))
  qed
  moreover have "distinct (map jr_id (gs_jobs (jt_store (store_status j' (put_job j' s)))))"
    using ok by (simp add: store_status_def table_ids runtime_ok_def)
  ultimately show ?thesis by (simp add: runtime_ok_def)
qed

lemma runtime_ok_memory:
  assumes ok: "runtime_ok s" and r: "get_job jid (jt_store s) = Some r" "synced r j'" and id: "jr_id j' = jid"
  shows "runtime_ok ((put_job j' s)\<lparr>jt_tasks := (jt_tasks s)(jid \<mapsto> TaskStalled)\<rparr>)"
  using assms by (auto simp: runtime_ok_def job_of_put job_saved_def)

lemma runtime_ok_tasks:
  assumes ok: "runtime_ok s"
    and T: "\<And>i. job_of i s \<noteq> None \<Longrightarrow> T i = jt_tasks s i \<or> T i \<noteq> Some TaskNew \<and> jt_tasks s i \<noteq> Some TaskStalled"
  shows "runtime_ok (s\<lparr>jt_tasks := T\<rparr>)"
proof -
  have "job_saved (s\<lparr>jt_tasks := T\<rparr>) i j" if j: "job_of i s = Some j" for i j
    using runtime_okD[OF ok j] T[of i] j unfolding job_saved_def by (elim conjE exE disjE) auto
  with ok show ?thesis by (simp add: runtime_ok_def)
qed

lemma settle_id [simp]: "jr_id (settle out j) = jr_id j"
  by (auto simp: settle_def split: job_outcome.split option.split list.split)

lemma synced_settle: "synced r j \<Longrightarrow> synced r (settle out j)"
  by (auto simp: settle_def synced_status split: job_outcome.split option.split list.split)

lemma runtime_ok_act:
  assumes "runtime_ok s" "job_fresh op s"
  shows "runtime_ok (job_act op s)"
proof (cases op)
  case (StartJob jid now ty task parent roots)
  then show ?thesis
    using assms
    by (auto simp: start_job_def Let_def runtime_ok_def job_saved_def job_of_put get_job_save table_ids row_simps new_job_def synced_def)
next
  case (BeginJob jid)
  show ?thesis
  proof (cases "jt_tasks s jid = Some TaskNew \<and> job_of jid s \<noteq> None")
    case True
    then obtain j where j: "jt_tasks s jid = Some TaskNew" "job_of jid s = Some j" by auto
    obtain r where r: "get_job jid (jt_store s) = Some r" "synced r j" "jr_id j = jid" "new_job j"
      using runtime_okD[OF assms(1) j(2)] j(1) by (auto simp: job_saved_def)
    let ?j = "j\<lparr>jr_status := ''running''\<rparr>"
    have "begin_job jid s = (store_status ?j (put_job ?j s))\<lparr>jt_tasks := (jt_tasks s)(jid \<mapsto> TaskRunning)\<rparr>"
      using j r(3,4) by (simp add: begin_job_def Let_def store_status_def new_job_def put_job_def)
    moreover have "runtime_ok ((store_status ?j (put_job ?j s))\<lparr>jt_tasks := (jt_tasks s)(jid \<mapsto> TaskRunning)\<rparr>)"
      by (rule runtime_ok_store[OF assms(1) r(1) synced_status(1)[OF r(2)]]) (use r in auto)
    ultimately show ?thesis using BeginJob by simp
  next
    case False
    then have "begin_job jid s = s \<or> begin_job jid s = s\<lparr>jt_tasks := (jt_tasks s)(jid := None)\<rparr> \<and> jt_tasks s jid = Some TaskDropped"
      by (auto simp: begin_job_def split: option.split task_state.split)
    then show ?thesis using assms(1) BeginJob runtime_ok_tasks[OF assms(1), of "(jt_tasks s)(jid := None)"] by auto
  qed
next
  case (EndJob jid out now)
  show ?thesis
  proof (cases "\<exists>t j. jt_tasks s jid = Some t \<and> job_of jid s = Some j \<and> t \<in> {TaskRunning, TaskCancelled, TaskStalled}")
    case True
    then obtain t j where j: "jt_tasks s jid = Some t" "job_of jid s = Some j" "t \<in> {TaskRunning, TaskCancelled, TaskStalled}" by blast
    obtain r where r: "get_job jid (jt_store s) = Some r" "synced r j" "jr_id j = jid"
      using runtime_okD[OF assms(1) j(2)] by (auto simp: job_saved_def)
    let ?j = "(settle out j)\<lparr>jr_completed := Some now\<rparr>"
    have "snd (end_job jid out now s) = (store_status ?j (put_job ?j s))\<lparr>jt_tasks := (jt_tasks s)(jid := None)\<rparr>"
      using j by (auto simp: end_job_def Let_def)
    moreover have "runtime_ok ((store_status ?j (put_job ?j s))\<lparr>jt_tasks := (jt_tasks s)(jid := None)\<rparr>)"
      by (rule runtime_ok_store[OF assms(1) r(1) synced_status(4)[OF synced_settle[OF r(2)]]]) (use r in auto)
    ultimately show ?thesis using EndJob by simp
  next
    case False
    then have "snd (end_job jid out now s) = s" by (auto simp: end_job_def split: option.split)
    with assms(1) EndJob show ?thesis by simp
  qed
next
  case (KillJob jid now)
  define T where "T = (case jt_tasks s jid of None \<Rightarrow> jt_tasks s
      | Some t \<Rightarrow> (jt_tasks s)(jid \<mapsto> (if t = TaskNew \<or> t = TaskDropped then TaskDropped else TaskCancelled)))"
  have T: "i \<noteq> jid \<Longrightarrow> T i = jt_tasks s i" "T jid \<noteq> Some TaskNew" "T jid \<noteq> Some TaskStalled" for i
    by (auto simp: T_def split: option.split)
  show ?thesis
  proof (cases "job_of jid s")
    case None
    then have "kill_job jid now s = s\<lparr>jt_tasks := T\<rparr>" by (simp add: kill_job_def T_def)
    moreover have "runtime_ok (s\<lparr>jt_tasks := T\<rparr>)"
      by (rule runtime_ok_tasks[OF assms(1)]) (use None T in metis)
    ultimately show ?thesis using KillJob by simp
  next
    case (Some j)
    obtain r where r: "get_job jid (jt_store s) = Some r" "synced r j" "jr_id j = jid"
      using runtime_okD[OF assms(1) Some] by (auto simp: job_saved_def)
    let ?j = "j\<lparr>jr_status := ''aborted'', jr_completed := Some now\<rparr>"
    have "kill_job jid now s = (store_status ?j (put_job ?j s))\<lparr>jt_tasks := T\<rparr>"
      using Some by (simp add: kill_job_def T_def Let_def put_job_def store_status_def)
    moreover have "runtime_ok ((store_status ?j (put_job ?j s))\<lparr>jt_tasks := T\<rparr>)"
      by (rule runtime_ok_store[OF assms(1) r(1) synced_status(4)[OF synced_status(1)[OF r(2)]]]) (use r T in auto)
    ultimately show ?thesis using KillJob by simp
  qed
next
  case (StallJob jid place)
  show ?thesis
  proof (cases "\<exists>t j. jt_tasks s jid = Some t \<and> job_of jid s = Some j \<and> (t = TaskRunning \<or> t = TaskCancelled)")
    case True
    then obtain t j where j: "jt_tasks s jid = Some t" "job_of jid s = Some j" "t = TaskRunning \<or> t = TaskCancelled" by blast
    obtain r where r: "get_job jid (jt_store s) = Some r" "synced r j" "jr_id j = jid"
      using runtime_okD[OF assms(1) j(2)] by (auto simp: job_saved_def)
    have "runtime_ok (stall_job jid place s)"
      using runtime_ok_memory[OF assms(1) r(1) synced_status(1)[OF synced_status(3)[OF r(2)]]] j r(3)
      by (auto simp: stall_job_def)
    then show ?thesis using StallJob by simp
  next
    case False
    then have "stall_job jid place s = s" by (auto simp: stall_job_def split: option.split)
    with assms(1) StallJob show ?thesis by simp
  qed
qed

lemma runtime_ok_reach: "jobs_reach session s \<Longrightarrow> runtime_ok s"
proof (induction rule: jobs_reach.induct)
  case jobs_start
  then show ?case by (simp add: runtime_ok_def empty_runtime_def empty_store_def job_of_def)
qed (rule runtime_ok_act)

subsection \<open>Restart\<close>

lemma find_key:
  assumes "distinct (map jr_id rs)"
  shows "List.find (\<lambda>r. jr_id r = k) rs = Some r \<longleftrightarrow> r \<in> set rs \<and> jr_id r = k"
  using assms
proof (induction rs)
  case (Cons a rs)
  then show ?case by (auto simp: image_iff)
qed simp

lemma loaded_jobs:
  assumes "distinct (map jr_id (gs_jobs st))"
  shows "job_of jid (load_runtime session st) = map_option loaded_job (get_job jid st)"
proof -
  have upd: "map_of (fold (\<lambda>r. AList.update (jr_id r) (loaded_job r)) rs al) k =
      (case List.find (\<lambda>r. jr_id r = k) rs of Some r \<Rightarrow> Some (loaded_job r) | None \<Rightarrow> map_of al k)"
    if "distinct (map jr_id rs)" for rs al k
    using that
  proof (induction rs arbitrary: al)
    case (Cons a rs)
    have none: "List.find (\<lambda>r. jr_id r = jr_id a) rs = None"
      using Cons.prems by (auto simp: find_None_iff image_iff)
    from Cons show ?case by (auto simp: update_conv' none split: option.split)
  qed simp
  have d: "distinct (map jr_id (load_jobs st))"
    using assms unfolding load_jobs_def by (metis distinct_map distinct_sort set_sort)
  have "List.find (\<lambda>r. jr_id r = jid) (load_jobs st) = get_job jid st"
  proof (cases "get_job jid st")
    case None
    then have "List.find (\<lambda>r. jr_id r = jid) (load_jobs st) = None"
      by (auto simp: get_job_def find_None_iff load_jobs_def)
    with None show ?thesis by simp
  next
    case (Some r)
    then have "r \<in> set (load_jobs st)" "jr_id r = jid"
      using find_key[OF assms] by (auto simp: get_job_def load_jobs_def)
    with Some show ?thesis using find_key[OF d] by simp
  qed
  then show ?thesis using upd[OF d, of "[]" jid] by (simp add: job_of_def load_runtime_def split: option.splits)
qed

text \<open>C14. A restart loses no job: from any history of starts, runs, ends, kills and stalls, the process that loads the table finds
  every job as it was, a running one as interrupted and without the output directories, which are not saved; only a job
  that the watchdog has just given up, and whose task has not ended yet, may be found in an older state.\<close>

theorem restart_keeps_jobs:
  assumes "jobs_reach session s" "job_of jid s = Some j" "jt_tasks s jid \<noteq> Some TaskStalled"
  shows "job_of jid (load_runtime session (jt_store s)) =
     Some (j\<lparr>jr_status := (if jr_status j = ''running'' then ''interrupted'' else jr_status j), aj_roots := []\<rparr>)"
proof -
  note ok = runtime_ok_reach[OF assms(1)]
  have "get_job jid (jt_store s) = Some (row_of j)"
    using runtime_okD[OF ok assms(2)] assms(3) by (auto simp: job_saved_def)
  moreover have "loaded_job (row_of j) = j\<lparr>jr_status := (if jr_status j = ''running'' then ''interrupted'' else jr_status j), aj_roots := []\<rparr>"
    by (cases j) (simp add: loaded_job_def row_simps agent_job.fields_def job_row.extend_def)
  ultimately show ?thesis using loaded_jobs[of "jt_store s" jid session] ok by (simp add: runtime_ok_def)
qed

definition demo_jobs :: "job_op list" where
  "demo_jobs = [StartJob ''j1'' 5 ''code-agent'' ''fix it'' ''s1'' [''/out''], BeginJob ''j1'']"

lemma demo_jobs_reach: "jobs_reach ''s1'' (fold job_act demo_jobs (empty_runtime ''s1''))"
proof -
  have "jobs_reach ''s1'' (job_act (StartJob ''j1'' 5 ''code-agent'' ''fix it'' ''s1'' [''/out'']) (empty_runtime ''s1''))"
    by (rule jobs_reach.intros(2)[OF jobs_reach.intros(1)]) (simp add: job_of_def empty_runtime_def)
  then show ?thesis unfolding demo_jobs_def
    using jobs_reach.intros(2)[of "''s1''" _ "BeginJob ''j1''"] by simp
qed

theorem restart_keeps_jobs_witness:
  "\<exists>j. job_of ''j1'' (load_runtime ''s1'' (jt_store (fold job_act demo_jobs (empty_runtime ''s1'')))) = Some j
     \<and> jr_status j = ''interrupted'' \<and> aj_roots j = []"
proof -
  let ?s = "fold job_act demo_jobs (empty_runtime ''s1'')"
  have j: "\<exists>j. job_of ''j1'' ?s = Some j \<and> jr_status j = ''running''" "jt_tasks ?s ''j1'' = Some TaskRunning"
    by (simp_all add: demo_jobs_def start_job_def begin_job_def empty_runtime_def job_of_put Let_def put_job_def job_of_def)
  then obtain j where "job_of ''j1'' ?s = Some j" "jr_status j = ''running''" by blast
  with restart_keeps_jobs[OF demo_jobs_reach, of "''j1''" j] j(2) show ?thesis by simp
qed

subsection \<open>Where the jobs do not do what they mean to\<close>

text \<open>Killing a job that has ended turns it into an aborted one, with its result still there.\<close>

theorem kill_rewrites_a_finished_job:
  "job_of jid s = Some j \<Longrightarrow> jr_id j = jid \<Longrightarrow> jr_status j = ''completed'' \<Longrightarrow> jt_tasks s jid = None
   \<Longrightarrow> job_of jid (kill_job jid now s) = Some (j\<lparr>jr_status := ''aborted'', jr_completed := Some now\<rparr>)"
  by (simp add: kill_job_def Let_def job_of_put)

text \<open>A job that was saved before its task ran is loaded as queued, and nothing will ever run it.\<close>

theorem queued_job_is_never_run:
  "job_of ''j1'' (load_runtime ''s1'' (jt_store (job_act (StartJob ''j1'' 5 ''code-agent'' ''fix it'' ''s1'' []) (empty_runtime ''s1''))))
     = Some \<lparr>jr_id = ''j1'', jr_agent_type = ''code-agent'', jr_task = ''fix it'', jr_thread = ''s1:j1'', jr_parent = ''s1'',
         jr_status = ''queued'', jr_result = None, jr_error = None, jr_created = 5, jr_completed = None, aj_roots = []\<rparr>
   \<and> jt_tasks (load_runtime ''s1'' st) jid = None"
  by (simp add: load_runtime_def start_job_def empty_runtime_def empty_store_def put_job_def Let_def save_job_def load_jobs_def
      job_of_def loaded_job_def row_simps agent_job.fields_def job_row.extend_def)

end
