(* ===== verification/AgentControl.thy ===== *)
theory AgentControl
  imports AgentJobs
begin

text \<open>
  \<open>runtime/agent_control.py\<close>, for agents that run as jobs: spawning, forking and killing sub-agents, and the report to the
  frontend when one has ended.  A spawn is two steps, since it waits for the event and the hook between the registration of
  the agent and its first move; a job that ends reports to the control.
\<close>

record live_agent =
  la_id :: pystr
  la_thread :: pystr
  la_type :: pystr
  la_state :: agent_status
  la_parent :: "pystr option"
  la_label :: "pystr option"
  la_task :: "pystr option"
  la_result :: "pystr option"
  la_error :: "pystr option"
  la_emitted :: bool

text \<open>\<open>ct_types\<close> is the registry of agent types: a name has a display name and a description.\<close>

record control =
  ct_session :: pystr
  ct_types :: "pystr \<rightharpoonup> pystr \<times> pystr"
  ct_max :: nat
  ct_agents :: "(pystr \<times> live_agent) list"
  ct_threads :: "pystr \<rightharpoonup> pystr"
  ct_jobs :: job_runtime
  ct_callback :: bool
  ct_sent :: "dict list"

definition or_text :: "pystr option \<Rightarrow> pystr \<Rightarrow> pystr" where
  "or_text x y = (case x of Some (c # s) \<Rightarrow> c # s | _ \<Rightarrow> y)"

definition agent_of :: "pystr \<Rightarrow> control \<Rightarrow> live_agent option" where
  "agent_of i c = map_of (ct_agents c) i"

definition put_agent :: "live_agent \<Rightarrow> control \<Rightarrow> control" where
  "put_agent a c = c\<lparr>ct_agents := AList.update (la_id a) a (ct_agents c)\<rparr>"

definition running_count :: "control \<Rightarrow> nat" where
  "running_count c = length (filter (\<lambda>(i, a). \<not> terminal_status (la_state a)) (ct_agents c))"

definition new_agent :: "pystr \<Rightarrow> pystr \<Rightarrow> pystr \<Rightarrow> pystr option \<Rightarrow> pystr option \<Rightarrow> pystr option \<Rightarrow> live_agent" where
  "new_agent i thread ty parent label task =
     \<lparr>la_id = i, la_thread = thread, la_type = ty, la_state = IDLE, la_parent = parent, la_label = label, la_task = task,
      la_result = None, la_error = None, la_emitted = False\<rparr>"

definition register_agent :: "live_agent \<Rightarrow> control \<Rightarrow> control" where
  "register_agent a c = put_agent a (c\<lparr>ct_threads := (ct_threads c)(la_thread a \<mapsto> la_id a)\<rparr>)"

definition link_agents :: "pystr \<Rightarrow> live_agent \<Rightarrow> int \<Rightarrow> control \<Rightarrow> control" where
  "link_agents parent a now c =
     c\<lparr>ct_jobs := (ct_jobs c)\<lparr>jt_store := add_edge parent (la_id a) (Some (la_thread a)) now (jt_store (ct_jobs c))\<rparr>\<rparr>"

text \<open>\<open>spawn\<close> up to the event: the type is looked up, the limit checked, the job started, the agent registered.\<close>

definition spawn_begin ::
  "pystr \<Rightarrow> int \<Rightarrow> pystr \<Rightarrow> pystr \<Rightarrow> pystr option \<Rightarrow> pystr option \<Rightarrow> pystr list \<Rightarrow> control \<Rightarrow> pystr result \<times> control" where
  "spawn_begin i now ty task parent label roots c =
     (if ct_types c ty = None then (Inl (KeyError (''Unknown agent type: '' @ ty)), c)
      else if ct_max c \<le> running_count c
      then (Inl (RuntimeError (''Cannot spawn subagent: '' @ nat_str (ct_max c) @
        '' subagents already running. Wait for one to finish before spawning another.'')), c)
      else case start_job i now ty task (or_text parent (ct_session c)) roots (ct_jobs c) of
        (job, jobs) \<Rightarrow>
          (let a = new_agent (jr_id job) (jr_thread job) ty parent label (Some task);
               c1 = register_agent a (c\<lparr>ct_jobs := jobs\<rparr>)
           in (Inr i, case parent of None \<Rightarrow> c1 | Some p \<Rightarrow> link_agents p a now c1)))"

text \<open>\<open>spawn\<close> after the event and the hook.  An agent that was killed meanwhile is aborted and cannot move.\<close>

definition spawn_end :: "pystr \<Rightarrow> control \<Rightarrow> unit result \<times> control" where
  "spawn_end i c =
     (case agent_of i c of
        None \<Rightarrow> (Inl (ValueError ''Invalid agent state transition: aborted -> thinking''), c)
      | Some a \<Rightarrow>
          (case status_transition (la_state a) THINKING of
             Inl e \<Rightarrow> (Inl e, c)
           | Inr st \<Rightarrow> (Inr (), put_agent (a\<lparr>la_state := st\<rparr>) c)))"

definition fork_agent :: "pystr \<Rightarrow> int \<Rightarrow> pystr \<Rightarrow> pystr option \<Rightarrow> control \<Rightarrow> pystr result \<times> control" where
  "fork_agent i now source ty c =
     (case ct_threads c source of
        None \<Rightarrow> (Inl (ValueError (''Unknown thread: '' @ source)), c)
      | Some src \<Rightarrow>
          (case agent_of src c of
             None \<Rightarrow> (Inl (KeyError src), c)
           | Some s \<Rightarrow>
               (let t = or_text ty (la_type s) in
                if ct_types c t = None then (Inl (KeyError (''Unknown agent type: '' @ t)), c)
                else (let a = new_agent i (ct_session c @ '':'' @ i) t (la_parent s) None None
                      in (Inr i, link_agents src a now (register_agent a c))))))"

subsection \<open>Reporting the end\<close>

definition renderer_session_key :: "pystr \<Rightarrow> pystr" where
  "renderer_session_key sid =
     (if CHR '':'' \<in> set sid then drop 1 (dropWhile (\<lambda>x. x \<noteq> CHR '':'') sid) else sid)"

definition completion_status :: "pystr option \<Rightarrow> agent_status \<Rightarrow> pystr" where
  "completion_status status st =
     (case status of
        None \<Rightarrow> if st = COMPLETED then ''ok'' else status_value st
      | Some s \<Rightarrow> if s = ''completed'' then ''ok'' else s)"

definition completion_payload :: "pystr \<Rightarrow> live_agent \<Rightarrow> pystr \<Rightarrow> dict" where
  "completion_payload session a status =
     [(''task_id'', JStr (la_id a)), (''label'', JStr (or_text (la_label a) (or_text (la_task a) (la_id a)))),
      (''task'', JStr (or_text (la_task a) '''')), (''result'', JStr (or_text (la_result a) (or_text (la_error a) ''''))),
      (''status'', JStr status), (''session_key'', JStr (renderer_session_key session))]"

text \<open>The agent with its mark, and what is sent.\<close>

definition emit_completed :: "pystr option \<Rightarrow> live_agent \<Rightarrow> control \<Rightarrow> live_agent \<times> control" where
  "emit_completed status a c =
     (if la_emitted a then (a, c)
      else (a\<lparr>la_emitted := True\<rparr>,
            if ct_callback c
            then c\<lparr>ct_sent := ct_sent c @ [completion_payload (ct_session c) a (completion_status status (la_state a))]\<rparr>
            else c))"

definition job_target :: "pystr \<Rightarrow> agent_status option" where
  "job_target status =
     (if status = ''completed'' then Some COMPLETED else if status = ''error'' then Some ERROR
      else if status = ''aborted'' then Some ABORTED else None)"

text \<open>A refused move is an exception that the job only logs: nothing is sent then.\<close>

definition notify_completed :: "pystr \<Rightarrow> pystr \<Rightarrow> control \<Rightarrow> unit result \<times> control" where
  "notify_completed i status c =
     (case agent_of i c of
        None \<Rightarrow> (Inr (), c)
      | Some a0 \<Rightarrow>
          (let a = (case job_of i (ct_jobs c) of
                 None \<Rightarrow> a0
               | Some job \<Rightarrow>
                   a0\<lparr>la_result := (case jr_result job of Some (x # s) \<Rightarrow> Some (x # s) | _ \<Rightarrow> la_result a0),
                      la_error := (case jr_error job of Some (x # s) \<Rightarrow> Some (x # s) | _ \<Rightarrow> la_error a0)\<rparr>)
           in case (if terminal_status (la_state a) then Inr (la_state a)
                    else case job_target status of None \<Rightarrow> Inr (la_state a) | Some t \<Rightarrow> status_transition (la_state a) t) of
                Inl e \<Rightarrow> (Inl e, put_agent a c)
              | Inr st \<Rightarrow> (case emit_completed (Some status) (a\<lparr>la_state := st\<rparr>) c of (a', c') \<Rightarrow> (Inr (), put_agent a' c'))))"

definition end_agent_job :: "pystr \<Rightarrow> job_outcome \<Rightarrow> int \<Rightarrow> control \<Rightarrow> control" where
  "end_agent_job i out now c =
     (case end_job i out now (ct_jobs c) of
        (None, jobs) \<Rightarrow> c\<lparr>ct_jobs := jobs\<rparr>
      | (Some job, jobs) \<Rightarrow> snd (notify_completed i (jr_status job) (c\<lparr>ct_jobs := jobs\<rparr>)))"

definition kill_agent :: "pystr \<Rightarrow> int \<Rightarrow> control \<Rightarrow> unit result \<times> control" where
  "kill_agent i now c =
     (let c1 = (if job_of i (ct_jobs c) = None then c else c\<lparr>ct_jobs := kill_job i now (ct_jobs c)\<rparr>)
      in case agent_of i c1 of
           None \<Rightarrow> (Inr (), c1)
         | Some a \<Rightarrow>
             (let c2 = c1\<lparr>ct_agents := AList.delete i (ct_agents c1), ct_threads := (ct_threads c1)(la_thread a := None)\<rparr>
              in case status_transition (la_state a) ABORTED of
                   Inl e \<Rightarrow> (Inl e, c2)
                 | Inr st \<Rightarrow> (Inr (), snd (emit_completed (Some ''aborted'') (a\<lparr>la_state := st\<rparr>) c2))))"

definition get_status :: "pystr \<Rightarrow> control \<Rightarrow> agent_status result" where
  "get_status i c =
     (case agent_of i c of None \<Rightarrow> Inl (KeyError (''Unknown agent: '' @ i)) | Some a \<Rightarrow> Inr (la_state a))"

definition opt_str :: "pystr option \<Rightarrow> json" where
  "opt_str x = (case x of None \<Rightarrow> JNull | Some s \<Rightarrow> JStr s)"

text \<open>An entry of \<open>list_agents\<close>: the job's fields replace those of the agent.  The registry gives the display name and the
  description of a type.\<close>

definition agent_entry :: "control \<Rightarrow> live_agent \<Rightarrow> dict" where
  "agent_entry c a =
     (let job = job_of (la_id a) (ct_jobs c);
          meta = (case ct_types c (la_type a) of None \<Rightarrow> ('''', '''') | Some m \<Rightarrow> m)
      in [(''agent_id'', JStr (la_id a)), (''thread_id'', JStr (la_thread a)), (''type'', JStr (fst meta)),
          (''status'', JStr (case job of None \<Rightarrow> status_value (la_state a) | Some j \<Rightarrow> jr_status j)),
          (''parent'', opt_str (la_parent a)), (''label'', JStr (snd meta)),
          (''result_preview'', JStr (take 200 (or_text (case job of None \<Rightarrow> la_result a | Some j \<Rightarrow> jr_result j) ''''))),
          (''error'', opt_str (case job of None \<Rightarrow> la_error a | Some j \<Rightarrow> jr_error j)),
          (''completed_at'', case job of None \<Rightarrow> JNull
             | Some j \<Rightarrow> (case jr_completed j of None \<Rightarrow> JNull | Some t \<Rightarrow> JNum t))])"

definition list_agents :: "control \<Rightarrow> dict list" where
  "list_agents c = map (agent_entry c \<circ> snd) (ct_agents c)"

subsection \<open>Histories\<close>

datatype control_op =
    SpawnBegin pystr int pystr pystr "pystr option" "pystr option" "pystr list"
  | SpawnEnd pystr
  | ForkAgent pystr int pystr "pystr option"
  | KillAgent pystr int
  | JobBegins pystr
  | JobEnds pystr job_outcome int
  | JobStalls pystr pystr

fun control_act :: "control_op \<Rightarrow> control \<Rightarrow> control" where
  "control_act (SpawnBegin i now ty task parent label roots) c = snd (spawn_begin i now ty task parent label roots c)"
| "control_act (SpawnEnd i) c = snd (spawn_end i c)"
| "control_act (ForkAgent i now source ty) c = snd (fork_agent i now source ty c)"
| "control_act (KillAgent i now) c = snd (kill_agent i now c)"
| "control_act (JobBegins i) c = c\<lparr>ct_jobs := begin_job i (ct_jobs c)\<rparr>"
| "control_act (JobEnds i out now) c = end_agent_job i out now c"
| "control_act (JobStalls i place) c = c\<lparr>ct_jobs := stall_job i place (ct_jobs c)\<rparr>"

definition sent_ids :: "control \<Rightarrow> json list" where
  "sent_ids c = map (\<lambda>p. dget_null p ''task_id'') (ct_sent c)"

definition fresh_agent :: "pystr \<Rightarrow> control \<Rightarrow> bool" where
  "fresh_agent i c \<longleftrightarrow> agent_of i c = None \<and> job_of i (ct_jobs c) = None \<and> JStr i \<notin> set (sent_ids c)"

fun op_fresh :: "control_op \<Rightarrow> control \<Rightarrow> bool" where
  "op_fresh (SpawnBegin i now ty task parent label roots) c \<longleftrightarrow> fresh_agent i c"
| "op_fresh (ForkAgent i now source ty) c \<longleftrightarrow> fresh_agent i c"
| "op_fresh _ c \<longleftrightarrow> True"

fun is_fork :: "control_op \<Rightarrow> bool" where
  "is_fork (ForkAgent i now source ty) \<longleftrightarrow> True"
| "is_fork _ \<longleftrightarrow> False"

definition new_control :: "pystr \<Rightarrow> (pystr \<rightharpoonup> pystr \<times> pystr) \<Rightarrow> nat \<Rightarrow> bool \<Rightarrow> control" where
  "new_control session types limit callback =
     \<lparr>ct_session = session, ct_types = types, ct_max = limit, ct_agents = [], ct_threads = Map.empty,
      ct_jobs = empty_runtime session, ct_callback = callback, ct_sent = []\<rparr>"

inductive agents_reach :: "bool \<Rightarrow> control \<Rightarrow> bool" for forks where
  agents_start: "agents_reach forks (new_control session types limit callback)"
| agents_step: "agents_reach forks c \<Longrightarrow> op_fresh op c \<Longrightarrow> forks \<or> \<not> is_fork op \<Longrightarrow> agents_reach forks (control_act op c)"

subsection \<open>What every history keeps\<close>

lemma agent_of_put [simp]: "agent_of i (put_agent a c) = (if i = la_id a then Some a else agent_of i c)"
  by (simp add: agent_of_def put_agent_def update_conv')

lemma put_agent_keeps [simp]:
  "ct_session (put_agent a c) = ct_session c" "ct_threads (put_agent a c) = ct_threads c" "ct_jobs (put_agent a c) = ct_jobs c"
  "ct_sent (put_agent a c) = ct_sent c" "ct_max (put_agent a c) = ct_max c" "sent_ids (put_agent a c) = sent_ids c"
  by (simp_all add: put_agent_def sent_ids_def)

lemma agent_of_upd [simp]:
  "agent_of i (c\<lparr>ct_jobs := j\<rparr>) = agent_of i c" "agent_of i (c\<lparr>ct_threads := t\<rparr>) = agent_of i c" "agent_of i (c\<lparr>ct_sent := l\<rparr>) = agent_of i c"
  "sent_ids (c\<lparr>ct_jobs := j\<rparr>) = sent_ids c" "sent_ids (c\<lparr>ct_threads := t\<rparr>) = sent_ids c" "sent_ids (c\<lparr>ct_agents := g\<rparr>) = sent_ids c"
  by (simp_all add: agent_of_def sent_ids_def)

lemma agent_of_delete [simp]: "agent_of i (c\<lparr>ct_agents := AList.delete k (ct_agents c), ct_threads := t\<rparr>) = (if i = k then None else agent_of i c)"
  by (simp add: agent_of_def delete_conv')

lemma agent_of_delete' [simp]: "agent_of i (c\<lparr>ct_agents := AList.delete k (ct_agents c)\<rparr>) = (if i = k then None else agent_of i c)"
  by (simp add: agent_of_def delete_conv')

lemma job_session [simp]:
  "jt_session (begin_job i s) = jt_session s" "jt_session (snd (end_job i out now s)) = jt_session s"
  "jt_session (kill_job i now s) = jt_session s" "jt_session (stall_job i place s) = jt_session s"
  "jt_session (snd (start_job i now ty task parent roots s)) = jt_session s"
  by (auto simp: begin_job_def end_job_def kill_job_def stall_job_def start_job_def Let_def put_job_def store_status_def
      split: option.split task_state.split)

definition running_ids :: "control \<Rightarrow> pystr set" where
  "running_ids c = {i. \<exists>a. agent_of i c = Some a \<and> \<not> terminal_status (la_state a)}"

lemma running_count_card:
  assumes "distinct (map fst (ct_agents c))"
  shows "finite (running_ids c)" "running_count c = card (running_ids c)"
proof -
  let ?r = "filter (\<lambda>(i, a). \<not> terminal_status (la_state a)) (ct_agents c)"
  have "running_ids c = set (map fst ?r)"
    using assms by (force simp: running_ids_def agent_of_def)
  moreover have "distinct (map fst ?r)" using assms by (simp add: distinct_map_filter)
  ultimately show "finite (running_ids c)" "running_count c = card (running_ids c)"
    by (simp_all only: running_count_def distinct_card[of "map fst ?r", symmetric] length_map finite_set)
      (metis distinct_card length_map)
qed


definition control_ok :: "control \<Rightarrow> bool" where
  "control_ok c \<longleftrightarrow> distinct (map fst (ct_agents c)) \<and> jt_session (ct_jobs c) = ct_session c
     \<and> (\<forall>i a. agent_of i c = Some a \<longrightarrow> la_id a = i \<and> la_thread a = ct_session c @ '':'' @ i
          \<and> (\<not> la_emitted a \<longrightarrow> JStr i \<notin> set (sent_ids c)))
     \<and> (\<forall>t i. ct_threads c t = Some i \<longleftrightarrow> (\<exists>a. agent_of i c = Some a \<and> la_thread a = t))
     \<and> distinct (sent_ids c)"

lemma control_okD:
  assumes "control_ok c" "agent_of i c = Some a"
  shows "la_id a = i" "la_thread a = ct_session c @ '':'' @ i" "\<not> la_emitted a \<Longrightarrow> JStr i \<notin> set (sent_ids c)"
  using assms by (auto simp: control_ok_def)

lemma distinct_put: "distinct (map fst (ct_agents c)) \<Longrightarrow> distinct (map fst (ct_agents (put_agent a c)))"
  by (simp add: put_agent_def distinct_update)

lemma ok_put:
  assumes "control_ok c" "agent_of i c = Some a" "la_id a' = i" "la_thread a' = la_thread a"
    and "\<not> la_emitted a' \<Longrightarrow> JStr i \<notin> set (sent_ids c)"
  shows "control_ok (put_agent a' c)"
  using assms by (auto simp: control_ok_def distinct_put split: if_splits)

lemma ok_jobs: "control_ok c \<Longrightarrow> jt_session j = ct_session c \<Longrightarrow> control_ok (c\<lparr>ct_jobs := j\<rparr>)"
  by (simp add: control_ok_def)

lemma ok_register:
  assumes "control_ok c" "agent_of i c = None" "JStr i \<notin> set (sent_ids c)" "la_id a = i" "la_thread a = ct_session c @ '':'' @ i"
  shows "control_ok (register_agent a c)"
  using assms by (auto simp: control_ok_def register_agent_def distinct_put split: if_splits)

lemma ok_link: "control_ok c \<Longrightarrow> control_ok (link_agents p a now c)"
  unfolding link_agents_def by (rule ok_jobs) (simp_all add: control_ok_def)

lemma task_id_payload [simp]: "dget_null (completion_payload session a st) ''task_id'' = JStr (la_id a)"
  by (simp add: completion_payload_def)

lemma emit_cases:
  assumes "emit_completed st a c = (a', c')"
  obtains "la_emitted a" "a' = a" "c' = c"
  | "\<not> la_emitted a" "a' = a\<lparr>la_emitted := True\<rparr>" "c' = c"
  | p where "\<not> la_emitted a" "a' = a\<lparr>la_emitted := True\<rparr>" "dget_null p ''task_id'' = JStr (la_id a)" "c' = c\<lparr>ct_sent := ct_sent c @ [p]\<rparr>"
proof (cases "la_emitted a")
  case True
  then show ?thesis by (intro that(1)) (use assms in \<open>simp_all add: emit_completed_def\<close>)
next
  case False
  show ?thesis
  proof (cases "ct_callback c")
    case True
    from True False assms show ?thesis
      by (intro that(3)[OF _ _ task_id_payload, of "ct_session c" "completion_status st (la_state a)"]) (simp_all add: emit_completed_def)
  next
    case off: False
    show ?thesis by (rule that(2)) (use False off assms in \<open>simp_all add: emit_completed_def\<close>)
  qed
qed

lemma sent_ids_snoc [simp]: "sent_ids (c\<lparr>ct_sent := ct_sent c @ [p]\<rparr>) = sent_ids c @ [dget_null p ''task_id'']"
  by (simp add: sent_ids_def)

text \<open>The report of a registered agent, and of one that was just removed.\<close>

lemma ok_sent:
  assumes ok: "control_ok c" and new: "JStr i \<notin> set (sent_ids c)" and marked: "\<And>b. agent_of i c = Some b \<Longrightarrow> la_emitted b"
    and p: "dget_null p ''task_id'' = JStr i"
  shows "control_ok (c\<lparr>ct_sent := ct_sent c @ [p]\<rparr>)"
proof -
  have agents: "la_id b = j \<and> la_thread b = ct_session c @ '':'' @ j \<and> (\<not> la_emitted b \<longrightarrow> JStr j \<notin> set (sent_ids c @ [JStr i]))"
    if "agent_of j c = Some b" for j b
    using control_okD[OF ok that] marked that by (cases "j = i") auto
  show ?thesis
    using ok new agents unfolding control_ok_def sent_ids_snoc p by simp
qed

lemma ok_emit:
  assumes ok: "control_ok c" and a: "agent_of i c = Some a0" "la_id a = i" "la_thread a = la_thread a0" "la_emitted a = la_emitted a0"
    and e: "emit_completed st a c = (a', c')"
  shows "control_ok (put_agent a' c')"
  using e
proof (cases rule: emit_cases)
  case 1
  then show ?thesis using ok_put[OF ok a(1), of a'] a control_okD(3)[OF ok a(1)] by simp
next
  case 2
  then show ?thesis using ok_put[OF ok a(1), of a'] a by simp
next
  case (3 p)
  have fresh: "JStr i \<notin> set (sent_ids c)" using 3(1) a(4) control_okD(3)[OF ok a(1)] by simp
  have "control_ok (put_agent a' c)" using ok_put[OF ok a(1), of a'] 3 a by simp
  moreover have "put_agent a' c' = (put_agent a' c)\<lparr>ct_sent := ct_sent (put_agent a' c) @ [p]\<rparr>"
    unfolding 3(4) by (simp add: put_agent_def)
  moreover have "agent_of i (put_agent a' c) = Some b \<Longrightarrow> la_emitted b" for b
    using 3(2) a(2) by auto
  ultimately show ?thesis using ok_sent[of "put_agent a' c" i p] fresh 3(3) a(2) by simp
qed

lemma ok_delete:
  assumes ok: "control_ok c" and a: "agent_of i c = Some a"
  shows "control_ok (c\<lparr>ct_agents := AList.delete i (ct_agents c), ct_threads := (ct_threads c)(la_thread a := None)\<rparr>)"
proof -
  have thread: "agent_of j c = Some b \<Longrightarrow> la_thread b = la_thread a \<longleftrightarrow> j = i" for j b
    using control_okD(2)[OF ok] a by fastforce
  define c' where "c' = c\<lparr>ct_agents := AList.delete i (ct_agents c), ct_threads := (ct_threads c)(la_thread a := None)\<rparr>"
  have c': "agent_of j c' = (if j = i then None else agent_of j c)" "ct_session c' = ct_session c" "ct_jobs c' = ct_jobs c"
    "sent_ids c' = sent_ids c" "ct_threads c' = (ct_threads c)(la_thread a := None)" "distinct (map fst (ct_agents c'))" for j
    using ok by (simp_all add: c'_def sent_ids_def control_ok_def distinct_delete)
  have index: "ct_threads c' t = Some j \<longleftrightarrow> (\<exists>b. agent_of j c' = Some b \<and> la_thread b = t)" for t j
  proof -
    have "ct_threads c t = Some j \<longleftrightarrow> (\<exists>b. agent_of j c = Some b \<and> la_thread b = t)"
      using ok by (simp add: control_ok_def)
    then show ?thesis using thread a unfolding c' by auto
  qed
  show ?thesis
    using ok index unfolding control_ok_def c'_def[symmetric] c'(2-4) by (auto simp: c'(1,6))
qed

lemma ok_emit_gone:
  assumes ok: "control_ok c" and gone: "agent_of (la_id a) c = None" "\<not> la_emitted a \<Longrightarrow> JStr (la_id a) \<notin> set (sent_ids c)"
  shows "control_ok (snd (emit_completed st a c))"
proof -
  obtain a' c' where e: "emit_completed st a c = (a', c')" by (cases "emit_completed st a c") auto
  from e show ?thesis
  proof (cases rule: emit_cases)
    case (3 p)
    then show ?thesis using ok_sent[OF ok _ _ 3(3)] gone e by simp
  qed (use ok e in auto)
qed

lemma notify_cases:
  assumes ok: "control_ok c" and Some: "agent_of i c = Some a0"
  obtains (refused) a e where "notify_completed i status c = (Inl e, put_agent a c)" "la_id a = i" "la_thread a = la_thread a0"
      "la_emitted a = la_emitted a0" "la_state a = la_state a0"
  | (told) a st a' c' where "notify_completed i status c = (Inr (), put_agent a' c')"
      "emit_completed (Some status) (a\<lparr>la_state := st\<rparr>) c = (a', c')" "la_id a = i" "la_thread a = la_thread a0"
      "la_emitted a = la_emitted a0" "terminal_status (la_state a0) \<Longrightarrow> terminal_status st"
proof -
  define a where "a = (case job_of i (ct_jobs c) of
                 None \<Rightarrow> a0
               | Some job \<Rightarrow>
                   a0\<lparr>la_result := (case jr_result job of Some (x # s) \<Rightarrow> Some (x # s) | _ \<Rightarrow> la_result a0),
                      la_error := (case jr_error job of Some (x # s) \<Rightarrow> Some (x # s) | _ \<Rightarrow> la_error a0)\<rparr>)"
  have a: "la_id a = i" "la_thread a = la_thread a0" "la_emitted a = la_emitted a0" "la_state a = la_state a0"
    using control_okD(1)[OF ok Some] by (auto simp: a_def split: option.split)
  define r where "r = (if terminal_status (la_state a) then Inr (la_state a)
                    else case job_target status of None \<Rightarrow> Inr (la_state a) | Some t \<Rightarrow> status_transition (la_state a) t)"
  have eq: "notify_completed i status c = (case r of
      Inl e \<Rightarrow> (Inl e, put_agent a c)
    | Inr st \<Rightarrow> (case emit_completed (Some status) (a\<lparr>la_state := st\<rparr>) c of (a', c') \<Rightarrow> (Inr (), put_agent a' c')))"
    unfolding notify_completed_def Some option.case Let_def a_def[symmetric] r_def ..
  show ?thesis
  proof (cases r)
    case (Inl e)
    then show ?thesis using refused a eq by simp
  next
    case (Inr st)
    have st: "terminal_status (la_state a0) \<Longrightarrow> terminal_status st" using Inr a by (simp add: r_def)
    obtain a' c' where e: "emit_completed (Some status) (a\<lparr>la_state := st\<rparr>) c = (a', c')"
      by (cases "emit_completed (Some status) (a\<lparr>la_state := st\<rparr>) c") auto
    show ?thesis by (rule told[OF _ e a(1-3) st]) (simp_all add: eq Inr e)
  qed
qed

lemma ok_notify: "control_ok c \<Longrightarrow> control_ok (snd (notify_completed i status c))"
proof (cases "agent_of i c")
  case (Some a0)
  assume ok: "control_ok c"
  from ok Some show ?thesis
  proof (cases rule: notify_cases[where status = status])
    case (refused a e)
    then show ?thesis using ok_put[OF ok Some, of a] control_okD(3)[OF ok Some] by simp
  next
    case (told a st a' c')
    have "control_ok (put_agent a' c')" by (rule ok_emit[OF ok Some _ _ _ told(2)]) (use told in auto)
    then show ?thesis by (simp add: told)
  qed
qed (simp add: notify_completed_def)

lemma emit_keeps [simp]:
  "ct_agents (snd (emit_completed st a c)) = ct_agents c" "ct_max (snd (emit_completed st a c)) = ct_max c"
  "la_id (fst (emit_completed st a c)) = la_id a" "la_state (fst (emit_completed st a c)) = la_state a"
  by (auto simp: emit_completed_def)

lemma emit_agent_of [simp]: "agent_of i (snd (emit_completed st a c)) = agent_of i c"
  by (simp add: agent_of_def)

lemma ok_kill: 
  assumes ok: "control_ok c" shows "control_ok (snd (kill_agent i now c))"
proof -
  define c1 where "c1 = (if job_of i (ct_jobs c) = None then c else c\<lparr>ct_jobs := kill_job i now (ct_jobs c)\<rparr>)"
  have ok1: "control_ok c1" using ok ok_jobs[OF ok, of "kill_job i now (ct_jobs c)"] by (simp add: c1_def control_ok_def)
  show ?thesis
  proof (cases "agent_of i c1")
    case None
    then show ?thesis using ok1 by (simp add: kill_agent_def c1_def[symmetric])
  next
    case (Some a)
    define c2 where "c2 = c1\<lparr>ct_agents := AList.delete i (ct_agents c1), ct_threads := (ct_threads c1)(la_thread a := None)\<rparr>"
    have ok2: "control_ok c2" unfolding c2_def by (rule ok_delete[OF ok1 Some])
    have gone: "agent_of i c2 = None" "sent_ids c2 = sent_ids c1" by (simp_all add: c2_def sent_ids_def)
    show ?thesis
    proof (cases "status_transition (la_state a) ABORTED")
      case (Inl e)
      then show ?thesis using ok2 Some by (simp add: kill_agent_def c1_def[symmetric] c2_def[symmetric] Let_def)
    next
      case (Inr st)
      have "control_ok (snd (emit_completed (Some ''aborted'') (a\<lparr>la_state := st\<rparr>) c2))"
        by (rule ok_emit_gone[OF ok2]) (use gone control_okD[OF ok1 Some] in auto)
      then show ?thesis using Inr Some by (simp add: kill_agent_def c1_def[symmetric] c2_def[symmetric] Let_def)
    qed
  qed
qed

lemma ok_spawn_begin:
  assumes ok: "control_ok c" and new: "fresh_agent i c"
  shows "control_ok (snd (spawn_begin i now ty task parent label roots c))"
proof -
  obtain job jobs where s: "start_job i now ty task (or_text parent (ct_session c)) roots (ct_jobs c) = (job, jobs)"
    by (cases "start_job i now ty task (or_text parent (ct_session c)) roots (ct_jobs c)") auto
  have job: "jr_id job = i" "jr_thread job = ct_session c @ '':'' @ i" "jt_session jobs = ct_session c"
    using s ok job_session(5)[of i now ty task "or_text parent (ct_session c)" roots "ct_jobs c"]
    by (auto simp: start_job_def Let_def control_ok_def)
  let ?a = "new_agent (jr_id job) (jr_thread job) ty parent label (Some task)"
  have "control_ok (register_agent ?a (c\<lparr>ct_jobs := jobs\<rparr>))"
    by (rule ok_register[OF ok_jobs[OF ok job(3)], where i = i]) (use new job in \<open>simp_all add: fresh_agent_def new_agent_def\<close>)
  then show ?thesis using ok s by (auto simp: spawn_begin_def Let_def ok_link split: option.split)
qed

lemma ok_fork:
  assumes ok: "control_ok c" and new: "fresh_agent i c"
  shows "control_ok (snd (fork_agent i now source ty c))"
proof -
  have "control_ok (register_agent (new_agent i (ct_session c @ '':'' @ i) t p None None) c)" for t p
    by (rule ok_register[OF ok, where i = i]) (use new in \<open>simp_all add: fresh_agent_def new_agent_def\<close>)
  then show ?thesis using ok by (auto simp: fork_agent_def Let_def ok_link split: option.split)
qed

lemma ok_spawn_end: "control_ok c \<Longrightarrow> control_ok (snd (spawn_end i c))"
proof (cases "agent_of i c")
  case (Some a)
  assume ok: "control_ok c"
  have "control_ok (put_agent (a\<lparr>la_state := st\<rparr>) c)" for st
    by (rule ok_put[OF ok Some]) (use control_okD[OF ok Some] in simp_all)
  then show ?thesis using ok Some by (simp add: spawn_end_def split: sum.split)
qed (simp add: spawn_end_def)

lemma ok_session: "control_ok c \<Longrightarrow> jt_session (ct_jobs c) = ct_session c"
  by (simp add: control_ok_def)

lemma ok_act: "control_ok c \<Longrightarrow> op_fresh op c \<Longrightarrow> control_ok (control_act op c)"
proof (cases op)
  case (JobEnds i out now)
  assume ok: "control_ok c"
  have j: "control_ok (c\<lparr>ct_jobs := snd (end_job i out now (ct_jobs c))\<rparr>)"
    by (rule ok_jobs[OF ok]) (use ok in \<open>simp add: control_ok_def\<close>)
  obtain r jobs where e: "end_job i out now (ct_jobs c) = (r, jobs)" by (cases "end_job i out now (ct_jobs c)") auto
  show ?thesis using j by (cases r) (simp_all add: JobEnds end_agent_job_def e ok_notify)
qed (simp_all add: ok_spawn_begin ok_fork ok_kill ok_spawn_end ok_jobs ok_session)

lemma ok_reach: "agents_reach forks c \<Longrightarrow> control_ok c"
proof (induction rule: agents_reach.induct)
  case (agents_start session types limit callback)
  then show ?case by (auto simp: control_ok_def new_control_def empty_runtime_def agent_of_def sent_ids_def)
qed (simp add: ok_act)

subsection \<open>The limit\<close>

lemma running_put:
  "running_ids (put_agent a c) = (if terminal_status (la_state a) then running_ids c - {la_id a} else insert (la_id a) (running_ids c))"
  by (auto simp: running_ids_def split: if_splits)

lemma running_same: "ct_agents c' = ct_agents c \<Longrightarrow> running_ids c' = running_ids c"
  by (simp add: running_ids_def agent_of_def)

lemma running_kept:
  assumes "agent_of i c = Some a" "la_id a' = i" "terminal_status (la_state a) \<Longrightarrow> terminal_status (la_state a')"
  shows "running_ids (put_agent a' c) \<subseteq> running_ids c"
  using assms by (auto simp: running_put running_ids_def)

lemma moved_not_terminal: "status_transition s t = Inr u \<Longrightarrow> \<not> terminal_status s"
  by (auto simp: status_transition_Inr terminal_iff)

lemma running_spawn_end: "control_ok c \<Longrightarrow> running_ids (snd (spawn_end i c)) \<subseteq> running_ids c"
proof (cases "agent_of i c")
  case (Some a)
  assume ok: "control_ok c"
  have "running_ids (put_agent (a\<lparr>la_state := u\<rparr>) c) \<subseteq> running_ids c" if "status_transition (la_state a) THINKING = Inr u" for u
    by (rule running_kept[OF Some]) (use control_okD(1)[OF ok Some] moved_not_terminal[OF that] in simp_all)
  then show ?thesis using Some by (auto simp: spawn_end_def split: sum.split)
qed (simp add: spawn_end_def)

lemma running_kill: "running_ids (snd (kill_agent i now c)) \<subseteq> running_ids c"
proof -
  have emit: "running_ids (snd (emit_completed st a c)) = running_ids c" for st a c by (rule running_same) simp
  have jobs: "running_ids (c\<lparr>ct_jobs := j\<rparr>) = running_ids c" for j c by (rule running_same) simp
  have gone: "running_ids (c\<lparr>ct_agents := AList.delete i (ct_agents c), ct_threads := t\<rparr>) \<subseteq> running_ids c" for t c
    by (auto simp: running_ids_def)
  define c1 where "c1 = (if job_of i (ct_jobs c) = None then c else c\<lparr>ct_jobs := kill_job i now (ct_jobs c)\<rparr>)"
  have "running_ids c1 = running_ids c" by (simp add: c1_def jobs)
  then show ?thesis using gone[where c = c1]
    by (simp add: kill_agent_def c1_def[symmetric] Let_def emit split: option.split sum.split)
qed

lemma running_notify: "control_ok c \<Longrightarrow> running_ids (snd (notify_completed i status c)) \<subseteq> running_ids c"
proof (cases "agent_of i c")
  case (Some a0)
  assume ok: "control_ok c"
  from ok Some show ?thesis
  proof (cases rule: notify_cases[where status = status])
    case (refused a e)
    then show ?thesis using running_kept[OF Some, of a] by simp
  next
    case (told a st a' c')
    have k: "la_id a' = i" "la_state a' = st" "ct_agents c' = ct_agents c"
      using emit_keeps[of "Some status" "a\<lparr>la_state := st\<rparr>" c] told by simp_all
    have "running_ids (put_agent a' c') = running_ids (put_agent a' c)"
      by (rule running_same) (simp add: put_agent_def k)
    then show ?thesis using running_kept[OF Some k(1)] k(2) told by simp
  qed
qed (simp add: notify_completed_def)

lemma max_kept [simp]: "ct_max (control_act op c) = ct_max c"
  by (cases op) (auto simp: spawn_begin_def spawn_end_def fork_agent_def kill_agent_def end_agent_job_def notify_completed_def
      register_agent_def link_agents_def emit_completed_def Let_def split: option.split sum.split prod.split)

lemma running_spawn_begin:
  "running_ids (snd (spawn_begin i now ty task parent label roots c)) \<subseteq>
     (if running_count c < ct_max c then insert i (running_ids c) else running_ids c)"
proof (cases "running_count c < ct_max c \<and> ct_types c ty \<noteq> None")
  case True
  obtain job jobs where s: "start_job i now ty task (or_text parent (ct_session c)) roots (ct_jobs c) = (job, jobs)"
    by (cases "start_job i now ty task (or_text parent (ct_session c)) roots (ct_jobs c)") auto
  have job: "jr_id job = i" using s by (auto simp: start_job_def Let_def)
  let ?a = "new_agent (jr_id job) (jr_thread job) ty parent label (Some task)"
  have reg: "running_ids (register_agent ?a (c\<lparr>ct_jobs := jobs\<rparr>)) \<subseteq> insert i (running_ids c)"
    unfolding register_agent_def running_put by (auto simp: job new_agent_def running_ids_def)
  have link: "running_ids (link_agents p a now c) = running_ids c" for p a c
    by (rule running_same) (simp add: link_agents_def)
  show ?thesis using True s reg by (auto simp: spawn_begin_def Let_def link split: option.split)
qed (auto simp: spawn_begin_def Let_def)

lemma running_act:
  assumes ok: "control_ok c" and op: "\<not> is_fork op"
  shows "running_ids (control_act op c) \<subseteq> running_ids c
    \<or> running_count c < ct_max c \<and> (\<exists>i. running_ids (control_act op c) \<subseteq> insert i (running_ids c))"
proof -
  have jobs: "running_ids (c\<lparr>ct_jobs := j\<rparr>) = running_ids c" for j by (rule running_same) simp
  show ?thesis
  proof (cases op)
    case (SpawnBegin i now ty task parent label roots)
    then show ?thesis using running_spawn_begin[of i now ty task parent label roots c] by (auto split: if_splits)
  next
    case (JobEnds i out now)
    obtain r j where e: "end_job i out now (ct_jobs c) = (r, j)" by (cases "end_job i out now (ct_jobs c)") auto
    have "control_ok (c\<lparr>ct_jobs := snd (end_job i out now (ct_jobs c))\<rparr>)"
      by (rule ok_jobs[OF ok]) (simp add: ok_session[OF ok])
    then have "running_ids (snd (notify_completed i st (c\<lparr>ct_jobs := j\<rparr>))) \<subseteq> running_ids c" for st
      using running_notify[of "c\<lparr>ct_jobs := j\<rparr>"] by (simp add: e jobs)
    then show ?thesis by (cases r) (simp_all add: JobEnds end_agent_job_def e jobs)
  qed (use op running_spawn_end[OF ok] running_kill in \<open>simp_all add: jobs\<close>)
qed

text \<open>C10. No more sub-agents run than the limit of the session allows: whatever is spawned, killed, ends or stalls, in any order and
  interleaving, the agents that are not finished are at most \<open>max_concurrent\<close>.  (Forks are left out: they do not ask for room.)\<close>

theorem subagent_limit: "agents_reach False c \<Longrightarrow> running_count c \<le> ct_max c"
proof (induction rule: agents_reach.induct)
  case (agents_start session types limit callback)
  then show ?case by (simp add: running_count_def new_control_def)
next
  case (agents_step c op)
  have ok: "control_ok c" "control_ok (control_act op c)" using agents_step ok_reach ok_act by blast+
  have card: "finite (running_ids c)" "running_count c = card (running_ids c)" "running_count (control_act op c) = card (running_ids (control_act op c))"
    using running_count_card[of c] running_count_card[of "control_act op c"] ok by (auto simp: control_ok_def)
  consider "running_ids (control_act op c) \<subseteq> running_ids c"
    | i where "running_count c < ct_max c" "running_ids (control_act op c) \<subseteq> insert i (running_ids c)"
    using running_act[OF ok(1)] agents_step by blast
  then show ?case
  proof cases
    case 1
    then show ?thesis using card_mono[OF card(1) 1] card agents_step by simp
  next
    case (2 i)
    have "card (running_ids (control_act op c)) \<le> Suc (card (running_ids c))"
      using card_mono[OF _ 2(2)] card(1) card_insert_le_m1[of "Suc (card (running_ids c))" "running_ids c" i]
      by (simp add: order_trans)
    then show ?thesis using card 2 by simp
  qed
qed

definition demo_types :: "pystr \<rightharpoonup> pystr \<times> pystr" where
  "demo_types = [''code'' \<mapsto> (''code-agent'', ''Writes code'')]"

definition demo_control :: control where
  "demo_control = new_control ''app:s1'' demo_types 1 True"

definition demo_spawn :: "control_op list" where
  "demo_spawn = [SpawnBegin ''a'' 1 ''code'' ''fix it'' None None [], SpawnEnd ''a'', SpawnBegin ''b'' 2 ''code'' ''test it'' None None []]"

definition demo_run :: "control_op list" where
  "demo_run = [SpawnBegin ''a'' 1 ''code'' ''fix it'' None None [], SpawnEnd ''a'', JobBegins ''a'']"

fun ops_fresh :: "bool \<Rightarrow> control_op list \<Rightarrow> control \<Rightarrow> bool" where
  "ops_fresh forks [] c \<longleftrightarrow> True"
| "ops_fresh forks (op # ops) c \<longleftrightarrow> op_fresh op c \<and> (forks \<or> \<not> is_fork op) \<and> ops_fresh forks ops (control_act op c)"

lemma agents_reach_fold: "agents_reach forks c \<Longrightarrow> ops_fresh forks ops c \<Longrightarrow> agents_reach forks (fold control_act ops c)"
  by (induction ops arbitrary: c) (auto intro: agents_step)

lemma demo_control_reach: "agents_reach forks demo_control"
  unfolding demo_control_def by (rule agents_start)

lemma demo_spawn_reach: "agents_reach False (fold control_act demo_spawn demo_control)"
  by (rule agents_reach_fold[OF demo_control_reach]) code_simp

lemma demo_run_reach: "agents_reach False (fold control_act demo_run demo_control)"
  by (rule agents_reach_fold[OF demo_control_reach]) code_simp

theorem subagent_limit_witness:
  "running_count (fold control_act demo_spawn demo_control) \<le> ct_max (fold control_act demo_spawn demo_control)
   \<and> running_count (fold control_act demo_spawn demo_control) = 1
   \<and> agent_of ''b'' (fold control_act demo_spawn demo_control) = None"
proof (intro conjI)
  show "running_count (fold control_act demo_spawn demo_control) \<le> ct_max (fold control_act demo_spawn demo_control)"
    by (rule subagent_limit[OF demo_spawn_reach])
qed code_simp+

subsection \<open>The report\<close>

text \<open>C18. The frontend is told of the end of an agent at most once, forks included, and the index from threads to agents holds
  exactly the agents that are registered.\<close>

theorem completion_sent_once:
  "agents_reach forks c \<Longrightarrow>
     distinct (sent_ids c) \<and> (\<forall>t i. ct_threads c t = Some i \<longleftrightarrow> (\<exists>a. agent_of i c = Some a \<and> la_thread a = t))"
  using ok_reach[of forks c] unfolding control_ok_def by blast

theorem completion_sent_once_witness:
  "distinct (sent_ids (control_act (KillAgent ''a'' 9) (control_act (JobEnds ''a'' (Returned None) 8) (fold control_act demo_run demo_control))))
   \<and> sent_ids (control_act (KillAgent ''a'' 9) (control_act (JobEnds ''a'' (Returned None) 8) (fold control_act demo_run demo_control))) = [JStr ''a'']"
proof
  have "agents_reach False (control_act (KillAgent ''a'' 9) (control_act (JobEnds ''a'' (Returned None) 8) (fold control_act demo_run demo_control)))"
    by (rule agents_step[OF agents_step[OF demo_run_reach]]) simp_all
  from completion_sent_once[OF this]
  show "distinct (sent_ids (control_act (KillAgent ''a'' 9) (control_act (JobEnds ''a'' (Returned None) 8) (fold control_act demo_run demo_control))))" ..
qed code_simp

lemma end_job_running:
  assumes "jt_tasks s i = Some t" "t \<in> {TaskRunning, TaskCancelled, TaskStalled}" "job_of i s = Some job" "jr_id job = i"
  obtains s' job' where "end_job i out now s = (Some job', s')" "job_of i s' = Some job'" "job' = (settle out job)\<lparr>jr_completed := Some now\<rparr>"
    "jt_session s' = jt_session s"
proof -
  let ?j = "(settle out job)\<lparr>jr_completed := Some now\<rparr>"
  obtain s' where e: "end_job i out now s = (Some ?j, s')" "s' = (store_status ?j (put_job ?j s))\<lparr>jt_tasks := (jt_tasks (store_status ?j (put_job ?j s)))(i := None)\<rparr>"
    using assms by (simp add: end_job_def Let_def)
  have "job_of i s' = Some ?j" using assms(4) by (simp add: e(2) store_status_def job_of_put)
  moreover have "jt_session s' = jt_session s" using job_session(2)[of i out now s] e(1) by simp
  ultimately show ?thesis using that e(1) by blast
qed

text \<open>C22. A job that ends while its agent is at work is reported: the agent takes the state its job ended in, one message with that
  status goes to the frontend, and the agent's place is free again.\<close>

theorem job_end_is_reported:
  assumes "agents_reach forks c" "agent_of i c = Some a" "la_state a = THINKING" "\<not> la_emitted a" "ct_callback c"
    and "jt_tasks (ct_jobs c) i = Some t" "t \<in> {TaskRunning, TaskCancelled, TaskStalled}" "job_of i (ct_jobs c) = Some job" "jr_id job = i"
    and "job_target (jr_status (settle out job)) = Some target"
  shows "(\<exists>p. ct_sent (control_act (JobEnds i out now) c) = ct_sent c @ [p] \<and> dget_null p ''task_id'' = JStr i
      \<and> dget_null p ''status'' = JStr (if target = COMPLETED then ''ok'' else status_value target))
    \<and> get_status i (control_act (JobEnds i out now) c) = Inr target
    \<and> running_ids (control_act (JobEnds i out now) c) = running_ids c - {i}"
proof -
  have ok: "control_ok c" by (rule ok_reach[OF assms(1)])
  have ida: "la_id a = i" by (rule control_okD(1)[OF ok assms(2)])
  obtain s' job' where e: "end_job i out now (ct_jobs c) = (Some job', s')" "job_of i s' = Some job'"
      "job' = (settle out job)\<lparr>jr_completed := Some now\<rparr>"
    by (rule end_job_running[OF assms(6-9)])
  have st: "jr_status job' = jr_status (settle out job)" by (simp add: e(3))
  have move: "status_transition THINKING target = Inr target" "terminal_status target"
    using assms(10) by (auto simp: job_target_def status_transition_def terminal_status_def split: if_splits)
  define b where "b = a\<lparr>la_result := (case jr_result job' of Some (x # s) \<Rightarrow> Some (x # s) | _ \<Rightarrow> la_result a),
                      la_error := (case jr_error job' of Some (x # s) \<Rightarrow> Some (x # s) | _ \<Rightarrow> la_error a)\<rparr>"
  have b: "la_id b = i" "la_state b = THINKING" "la_emitted b = False" using ida assms(3,4) by (simp_all add: b_def)
  define p where "p = completion_payload (ct_session c) (b\<lparr>la_state := target\<rparr>) (completion_status (Some (jr_status (settle out job))) target)"
  have act: "control_act (JobEnds i out now) c =
      put_agent (b\<lparr>la_state := target, la_emitted := True\<rparr>) (c\<lparr>ct_jobs := s', ct_sent := ct_sent c @ [p]\<rparr>)"
    using assms(2,5,10) move e(2) b
    by (simp add: end_agent_job_def e(1) notify_completed_def st b_def[symmetric] Let_def emit_completed_def p_def assms(3) terminal_status_def)
  have status: "completion_status (Some (jr_status (settle out job))) target = (if target = COMPLETED then ''ok'' else status_value target)"
    using assms(10) by (auto simp: job_target_def completion_status_def split: if_splits)
  have sent: "\<exists>q. ct_sent (control_act (JobEnds i out now) c) = ct_sent c @ [q] \<and> dget_null q ''task_id'' = JStr i
      \<and> dget_null q ''status'' = JStr (if target = COMPLETED then ''ok'' else status_value target)"
    unfolding act by (rule exI[of _ p]) (simp add: p_def b status completion_payload_def)
  have "running_ids (c\<lparr>ct_jobs := s', ct_sent := ct_sent c @ [p]\<rparr>) = running_ids c" by (rule running_same) simp
  then have "running_ids (control_act (JobEnds i out now) c) = running_ids c - {i}"
    unfolding act running_put by (simp add: b move)
  moreover have "get_status i (control_act (JobEnds i out now) c) = Inr target"
    unfolding act by (simp add: get_status_def b)
  ultimately show ?thesis using sent by blast
qed

theorem job_end_is_reported_witness:
  "running_ids (control_act (JobEnds ''a'' (Returned (Some ''done'')) 8) (fold control_act demo_run demo_control)) =
     running_ids (fold control_act demo_run demo_control) - {''a''}"
proof -
  let ?c = "fold control_act demo_run demo_control"
  define a where "a = \<lparr>la_id = ''a'', la_thread = ''app:s1:a'', la_type = ''code'', la_state = THINKING, la_parent = None, la_label = None,
    la_task = Some ''fix it'', la_result = None, la_error = None, la_emitted = False\<rparr>"
  define job where "job = \<lparr>jr_id = ''a'', jr_agent_type = ''code'', jr_task = ''fix it'', jr_thread = ''app:s1:a'', jr_parent = ''app:s1'',
    jr_status = ''running'', jr_result = None, jr_error = None, jr_created = 1, jr_completed = None, aj_roots = []\<rparr>"
  have a: "agent_of ''a'' ?c = Some a" unfolding a_def by code_simp
  have job: "job_of ''a'' (ct_jobs ?c) = Some job" unfolding job_def by code_simp
  have t: "jt_tasks (ct_jobs ?c) ''a'' = Some TaskRunning" and cb: "ct_callback ?c" by code_simp+
  have target: "job_target (jr_status (settle (Returned (Some ''done'')) job)) = Some COMPLETED"
    by (simp add: settle_def job_target_def)
  show ?thesis
    using job_end_is_reported[OF demo_run_reach a _ _ cb t _ job _ target] by (simp add: a_def job_def)
qed

subsection \<open>What the model shows\<close>

definition demo_early :: "control_op list" where
  "demo_early = [SpawnBegin ''a'' 1 ''code'' ''fix it'' None None [], JobBegins ''a'', JobEnds ''a'' (Returned (Some ''done'')) 2, SpawnEnd ''a'']"

text \<open>A job that ends before \<open>spawn\<close> has finished (while it waits for the event or the hook) is lost to the control: the idle agent
  cannot become completed, the frontend is told nothing, and \<open>spawn\<close> then sets the agent thinking for ever, on one of the places.\<close>

theorem early_end_is_never_reported:
  "fst (notify_completed ''a'' ''completed'' (fold control_act (take 2 demo_early) demo_control))
     = Inl (ValueError ''Invalid agent state transition: idle -> completed'')
   \<and> ct_sent (fold control_act demo_early demo_control) = []
   \<and> get_status ''a'' (fold control_act demo_early demo_control) = Inr THINKING
   \<and> running_count (fold control_act demo_early demo_control) = ct_max (fold control_act demo_early demo_control)"
  by (intro conjI) code_simp+

text \<open>Killing an agent that has completed removes it and marks its job aborted, and then fails.\<close>

theorem kill_of_a_finished_agent_fails:
  "fst (kill_agent ''a'' 9 (control_act (JobEnds ''a'' (Returned (Some ''done'')) 8) (fold control_act demo_run demo_control)))
     = Inl (ValueError ''Invalid agent state transition: completed -> aborted'')
   \<and> agent_of ''a'' (control_act (KillAgent ''a'' 9) (control_act (JobEnds ''a'' (Returned (Some ''done'')) 8) (fold control_act demo_run demo_control))) = None
   \<and> map_option jr_status (job_of ''a'' (ct_jobs (control_act (KillAgent ''a'' 9)
        (control_act (JobEnds ''a'' (Returned (Some ''done'')) 8) (fold control_act demo_run demo_control))))) = Some ''aborted''"
  by (intro conjI) code_simp+

text \<open>A fork asks for no room, and the forked agent stays idle: it counts against the limit until it is killed.\<close>

theorem fork_passes_the_limit:
  "running_count (control_act (ForkAgent ''b'' 5 ''app:s1:a'' None) (fold control_act demo_run demo_control)) = 2
   \<and> ct_max (control_act (ForkAgent ''b'' 5 ''app:s1:a'' None) (fold control_act demo_run demo_control)) = 1
   \<and> get_status ''b'' (control_act (ForkAgent ''b'' 5 ''app:s1:a'' None) (fold control_act demo_run demo_control)) = Inr IDLE"
  by (intro conjI) code_simp+

end
