(* ===== verification/Downloads.thy ===== *)
theory Downloads
  imports JsonText
begin

text \<open>
  \<open>agent/tools/mcp_download_sink.py\<close>, first half: the errors of a download, who a download belongs to, the cleaning of file
  names, strict Base64, and the reading of a server's response.  Bytes are characters, a byte for each.  The digest
  (\<open>hashlib.sha256\<close>, in hexadecimal) is an argument.  The Chinese messages are written in English and the separator
  of the texts of an error is a semicolon; the code, the flag and the numbers of a message are those of the program.
\<close>

subsection \<open>Errors\<close>

text \<open>\<open>Escaped\<close> is a Python exception that is not one of the module's own.\<close>

datatype download_error =
    ServerError pystr
  | ProtocolError
  | LimitError
  | ChunkError
  | Base64Error
  | SizeMismatch
  | Sha256Mismatch
  | PathError
  | IoError
  | Pending pystr int "int option" int
  | Escaped py_error

fun error_code :: "download_error \<Rightarrow> pystr" where
  "error_code (ServerError t) = ''DOWNLOAD_SERVER_ERROR''"
| "error_code ProtocolError = ''DOWNLOAD_PROTOCOL_ERROR''"
| "error_code LimitError = ''DOWNLOAD_LIMIT_ERROR''"
| "error_code ChunkError = ''DOWNLOAD_CHUNK_ERROR''"
| "error_code Base64Error = ''DOWNLOAD_BASE64_ERROR''"
| "error_code SizeMismatch = ''DOWNLOAD_SIZE_MISMATCH''"
| "error_code Sha256Mismatch = ''DOWNLOAD_SHA256_MISMATCH''"
| "error_code PathError = ''DOWNLOAD_PATH_ERROR''"
| "error_code IoError = ''DOWNLOAD_IO_ERROR''"
| "error_code (Pending n r t i) = ''DOWNLOAD_PENDING''"
| "error_code (Escaped e) = ''''"

fun error_retryable :: "download_error \<Rightarrow> bool" where
  "error_retryable ProtocolError = False"
| "error_retryable PathError = False"
| "error_retryable _ = True"

fun error_message :: "download_error \<Rightarrow> pystr" where
  "error_message (ServerError t) = ''Download failed: the server reports an error.'' @ (if t = '''' then '''' else '' Reason: '' @ t @ ''.'')"
| "error_message ProtocolError = ''Download failed: the response does not follow the contract.''"
| "error_message LimitError = ''Download failed: the response exceeds the limit.''"
| "error_message ChunkError = ''Download failed: the chunks are not consistent.''"
| "error_message Base64Error = ''Download failed: the encoding is not valid.''"
| "error_message SizeMismatch = ''Download failed: the size is not the one declared.''"
| "error_message Sha256Mismatch = ''Download failed: the digest is not the one declared.''"
| "error_message PathError = ''Download failed: the name is not valid.''"
| "error_message IoError = ''Download failed: the file could not be written.''"
| "error_message (Pending n r t i) = ''Received '' @ int_str r @ (case t of None \<Rightarrow> '''' | Some k \<Rightarrow> ''/'' @ int_str k) @
     '' chunks; request chunk_index='' @ int_str i @ ''.''"
| "error_message (Escaped e) = ''''"

text \<open>What the model is told of an error, and of a download that waits for its next part.\<close>

fun error_dict :: "download_error \<Rightarrow> dict" where
  "error_dict (Pending n r t i) =
     [(''type'', JStr ''download_pending''), (''name'', JStr n), (''received_chunks'', JNum r),
      (''total_chunks'', case t of None \<Rightarrow> JNull | Some k \<Rightarrow> JNum k), (''next_chunk_index'', JNum i),
      (''message'', JStr (error_message (Pending n r t i)))]"
| "error_dict e =
     [(''type'', JStr ''download_error''), (''code'', JStr (error_code e)), (''message'', JStr (error_message e)),
      (''retryable'', JBool (error_retryable e))]"

type_synonym 'a download = "download_error + 'a"

fun bind_download :: "'a download \<Rightarrow> ('a \<Rightarrow> 'b download) \<Rightarrow> 'b download" where
  "bind_download (Inl e) f = Inl e"
| "bind_download (Inr x) f = f x"

lemma bind_download_Inr [simp]: "bind_download r f = Inr y \<longleftrightarrow> (\<exists>x. r = Inr x \<and> f x = Inr y)"
  by (cases r) auto

definition refuse_if :: "bool \<Rightarrow> download_error \<Rightarrow> unit download" where
  "refuse_if b e = (if b then Inl e else Inr ())"

lemma refuse_if_Inr [simp]: "refuse_if b e = Inr u \<longleftrightarrow> \<not> b"
  by (simp add: refuse_if_def)

subsection \<open>Which tools, which download\<close>

definition DOWNLOAD_TOOL_ALLOWLIST :: "(pystr \<times> pystr) list" where
  "DOWNLOAD_TOOL_ALLOWLIST =
     [(''miqroforge'', ''download_file''), (''miqroforge'', ''download_bulk''),
      (''miqroforge-slurm'', ''download_file''), (''miqroforge-slurm'', ''download_bulk'')]"

definition is_download_tool :: "pystr \<Rightarrow> pystr \<Rightarrow> bool" where
  "is_download_tool server_name tool_name \<longleftrightarrow> (server_name, tool_name) \<in> set DOWNLOAD_TOOL_ALLOWLIST"

definition TRANSPORT_ARG_KEYS :: "pystr list" where
  "TRANSPORT_ARG_KEYS = [''chunk_index'', ''chunkIndex'']"

definition MAX_ARTIFACT_BYTES :: nat where
  "MAX_ARTIFACT_BYTES = 256 * 1024 * 1024"

definition MAX_CHUNK_BASE64_CHARS :: nat where
  "MAX_CHUNK_BASE64_CHARS = 16 * 1024 * 1024"

definition utf8_char :: "char \<Rightarrow> pystr" where
  "utf8_char c = (let n = (of_char c :: nat) in if n < 128 then [c] else [char_of (192 + n div 64), char_of (128 + n mod 64)])"

definition utf8_encode :: "pystr \<Rightarrow> pystr" where
  "utf8_encode s = concat (map utf8_char s)"

definition business_args :: "dict \<Rightarrow> dict" where
  "business_args kwargs = filter (\<lambda>(k, v). \<not> py_startswith k ''_'' \<and> k \<notin> set TRANSPORT_ARG_KEYS) kwargs"

definition canonical_args_hash :: "(pystr \<Rightarrow> pystr) \<Rightarrow> dict \<Rightarrow> pystr" where
  "canonical_args_hash sha kwargs = take 16 (sha (utf8_encode (json_dumps_sorted (JDict (business_args kwargs)))))"

record artifact_identity =
  ai_session :: pystr
  ai_server :: pystr
  ai_tool :: pystr
  ai_args_hash :: pystr
  ai_filename :: pystr

definition artifact_key :: "(pystr \<Rightarrow> pystr) \<Rightarrow> artifact_identity \<Rightarrow> pystr" where
  "artifact_key sha i =
     take 32 (sha (utf8_encode (py_join ''|'' [ai_session i, ai_server i, ai_tool i, ai_args_hash i, ai_filename i])))"

subsection \<open>Names\<close>

definition ascii_letter :: "char \<Rightarrow> bool" where
  "ascii_letter c = (let n = (of_char c :: nat) in 65 \<le> n \<and> n \<le> 90 \<or> 97 \<le> n \<and> n \<le> 122)"

definition invalid_name_char :: "char \<Rightarrow> bool" where
  "invalid_name_char c \<longleftrightarrow> c \<in> set ''<>:|?*'' \<or> c = CHR 0x22 \<or> (of_char c :: nat) < 32"

text \<open>The reserved names in lower case: a stem is compared without regard to case.\<close>

definition RESERVED_WIN_NAMES :: "pystr list" where
  "RESERVED_WIN_NAMES =
     [''con'', ''prn'', ''aux'', ''nul''] @ map (\<lambda>i. ''com'' @ nat_str i) [1..<10] @ map (\<lambda>i. ''lpt'' @ nat_str i) [1..<10]"

definition path_like :: "pystr \<Rightarrow> bool" where
  "path_like name \<longleftrightarrow>
     CHR ''/'' \<in> set name \<or> CHR 0x5C \<in> set name
     \<or> (case name of a # b # r \<Rightarrow> ascii_letter a \<and> b = CHR '':'' | _ \<Rightarrow> False)
     \<or> name = ''.'' \<or> name = ''..'' \<or> set name \<subseteq> {CHR ''.''}"

definition sanitize_name :: "pystr \<Rightarrow> pystr download" where
  "sanitize_name raw =
     (let name = py_strip raw in
      if name = '''' then Inl PathError
      else if path_like name then Inl PathError
      else (let cleaned = py_strip (filter (\<lambda>c. \<not> invalid_name_char c) name) in
            if cleaned = '''' then Inl PathError
            else if py_lower (hd (py_split_ch (CHR ''.'') cleaned)) \<in> set RESERVED_WIN_NAMES then Inr (CHR ''_'' # cleaned)
            else Inr cleaned))"

subsection \<open>Base64\<close>

definition b64_val :: "char \<Rightarrow> nat option" where
  "b64_val c = (let n = (of_char c :: nat) in
     if 65 \<le> n \<and> n \<le> 90 then Some (n - 65)
     else if 97 \<le> n \<and> n \<le> 122 then Some (n - 71)
     else if 48 \<le> n \<and> n \<le> 57 then Some (n + 4)
     else if c = CHR ''+'' then Some 62
     else if c = CHR ''/'' then Some 63
     else None)"

definition b64_first :: "nat \<Rightarrow> nat \<Rightarrow> char" where
  "b64_first x y = char_of (4 * x + y div 16)"

definition b64_second :: "nat \<Rightarrow> nat \<Rightarrow> char" where
  "b64_second y z = char_of (16 * (y mod 16) + z div 4)"

definition b64_third :: "nat \<Rightarrow> nat \<Rightarrow> char" where
  "b64_third z w = char_of (64 * (z mod 4) + w)"

text \<open>\<open>base64.b64decode(s, validate=True)\<close> of Python 3.11: groups of four; the last may be padded; padding after a whole group
  is ignored.\<close>

fun b64_from :: "bool \<Rightarrow> pystr \<Rightarrow> pystr option" where
  "b64_from started [] = Some []"
| "b64_from started (a # s) =
     (if started \<and> (\<forall>c \<in> set (a # s). c = CHR ''='') then Some []
      else case s of
        b # c # d # rest \<Rightarrow>
          (case (b64_val a, b64_val b) of
             (Some x, Some y) \<Rightarrow>
               if c = CHR ''='' then (if d = CHR ''='' \<and> rest = [] then Some [b64_first x y] else None)
               else (case b64_val c of
                  None \<Rightarrow> None
                | Some z \<Rightarrow>
                    if d = CHR ''='' then (if rest = [] then Some [b64_first x y, b64_second y z] else None)
                    else (case b64_val d of
                       None \<Rightarrow> None
                     | Some w \<Rightarrow> map_option (\<lambda>t. b64_first x y # b64_second y z # b64_third z w # t) (b64_from True rest)))
           | _ \<Rightarrow> None)
      | _ \<Rightarrow> None)"

definition b64decode :: "pystr \<Rightarrow> pystr option" where
  "b64decode s = b64_from False s"

subsection \<open>The response\<close>

text \<open>A result of the protocol: its error flag, the structured content, and of each block its text if it has one.\<close>

record mcp_result =
  mr_is_error :: bool
  mr_structured :: json
  mr_blocks :: "pystr option list"

record parsed_chunk =
  pc_index :: int
  pc_total :: "int option"
  pc_content :: pystr
  pc_success :: "bool option"

record parsed_response =
  pr_success :: bool
  pr_explicit_error :: bool
  pr_name :: "pystr option"
  pr_size :: "int option"
  pr_sha :: "pystr option"
  pr_request :: "pystr option"
  pr_chunks :: "parsed_chunk list"
  pr_structured :: bool
  pr_error_text :: "pystr option"

definition multi_chunk :: "parsed_response \<Rightarrow> bool" where
  "multi_chunk p \<longleftrightarrow> 1 < length (pr_chunks p)
     \<or> list_ex (\<lambda>c. 0 < pc_index c \<or> 1 < (case pc_total c of None \<Rightarrow> 1 | Some t \<Rightarrow> if t = 0 then 1 else t)) (pr_chunks p)"

definition SIZE_KEYS :: "pystr list" where "SIZE_KEYS = [''size_bytes'', ''size'', ''byte_size'']"
definition SHA_KEYS :: "pystr list" where "SHA_KEYS = [''sha256'', ''sha'', ''hash'']"
definition B64_KEYS :: "pystr list" where "B64_KEYS = [''content_base64'', ''base64'', ''data_b64'']"
definition NAME_KEYS :: "pystr list" where "NAME_KEYS = [''name'', ''suggested_filename'', ''filename'', ''file_name'']"
definition INDEX_KEYS :: "pystr list" where "INDEX_KEYS = [''chunk_index'', ''chunkIndex'', ''index'']"
definition TOTAL_KEYS :: "pystr list" where "TOTAL_KEYS = [''total_chunks'', ''totalChunks'', ''total'', ''chunk_total'']"
definition REQUEST_KEYS :: "pystr list" where "REQUEST_KEYS = [''request_id'', ''requestId'', ''transfer_id'', ''transferId'']"
definition OK_KEYS :: "pystr list" where "OK_KEYS = [''success'', ''ok'']"
definition ERROR_KEYS :: "pystr list" where "ERROR_KEYS = [''error'', ''message'', ''reason'']"

text \<open>The value of the first key that is there, also when that value is \<open>None\<close>.\<close>

fun first_key :: "dict \<Rightarrow> pystr list \<Rightarrow> json" where
  "first_key d [] = JNull"
| "first_key d (k # ks) = (case dget d k of Some v \<Rightarrow> v | None \<Rightarrow> first_key d ks)"

text \<open>\<open>str.isdigit\<close> is true of the superscripts one, two and three, which \<open>int\<close> does not read, and \<open>int\<close> reads at most 4300
  digits.\<close>

definition isdigit_char :: "char \<Rightarrow> bool" where
  "isdigit_char c \<longleftrightarrow> py_isdigit c \<or> (of_char c :: nat) \<in> {178, 179, 185}"

fun as_size :: "json \<Rightarrow> int option download" where
  "as_size (JNum n) = Inr (Some n)"
| "as_size (JStr s) =
     (let t = py_strip s in
      if t = '''' \<or> (\<exists>c \<in> set t. \<not> isdigit_char c) then Inr None
      else if (\<forall>c \<in> set t. py_isdigit c) \<and> length t \<le> 4300 then Inr (Some (int (parse_nat t)))
      else Inl (Escaped (ValueError ''invalid literal for int()'')))"
| "as_size _ = Inr None"

fun as_bool_flag :: "json \<Rightarrow> bool option" where
  "as_bool_flag (JBool b) = Some b"
| "as_bool_flag _ = None"

definition looks_like_artifact_dict :: "json \<Rightarrow> bool" where
  "looks_like_artifact_dict payload \<longleftrightarrow>
     (case payload of
        JDict d \<Rightarrow> list_ex (dhas d) B64_KEYS \<or> (case dget d ''chunks'' of Some (JList xs) \<Rightarrow> xs \<noteq> [] | _ \<Rightarrow> False)
      | _ \<Rightarrow> False)"

definition looks_like_error_dict :: "dict \<Rightarrow> bool" where
  "looks_like_error_dict d \<longleftrightarrow> first_key d OK_KEYS = JBool False \<or> first_key d ERROR_KEYS \<noteq> JNull"

definition explicit_error :: "bool \<Rightarrow> pystr option \<Rightarrow> parsed_response" where
  "explicit_error structured text =
     \<lparr>pr_success = False, pr_explicit_error = True, pr_name = None, pr_size = None, pr_sha = None, pr_request = None,
      pr_chunks = [], pr_structured = structured, pr_error_text = text\<rparr>"

definition str_unless_null :: "json \<Rightarrow> pystr option" where
  "str_unless_null v = (if v = JNull then None else Some (py_str v))"

definition error_text_of :: "dict \<Rightarrow> pystr option" where
  "error_text_of d = map_option (take 200) (str_unless_null (first_key d ERROR_KEYS))"

text \<open>\<open>x or y\<close> for a number that may be missing.\<close>

definition or_total :: "int option \<Rightarrow> int option \<Rightarrow> int option" where
  "or_total x y = (case x of None \<Rightarrow> y | Some n \<Rightarrow> if n = 0 then y else Some n)"

definition chunk_of :: "int option \<Rightarrow> nat \<Rightarrow> json \<Rightarrow> parsed_chunk download" where
  "chunk_of outer_total n item =
     (case item of
        JDict d \<Rightarrow>
          bind_download (as_size (first_key d INDEX_KEYS)) (\<lambda>index.
          bind_download (as_size (first_key d TOTAL_KEYS)) (\<lambda>total.
            Inr \<lparr>pc_index = (case index of Some i \<Rightarrow> i | None \<Rightarrow> int n), pc_total = or_total total outer_total,
                 pc_content = (case first_key d B64_KEYS of JStr s \<Rightarrow> s | _ \<Rightarrow> ''''),
                 pc_success = as_bool_flag (first_key d OK_KEYS)\<rparr>))
      | _ \<Rightarrow> Inl ProtocolError)"

fun chunks_of :: "int option \<Rightarrow> nat \<Rightarrow> json list \<Rightarrow> parsed_chunk list download" where
  "chunks_of outer_total n [] = Inr []"
| "chunks_of outer_total n (x # xs) =
     bind_download (chunk_of outer_total n x) (\<lambda>c. bind_download (chunks_of outer_total (Suc n) xs) (\<lambda>cs. Inr (c # cs)))"

definition chunk_list :: "dict \<Rightarrow> int option \<Rightarrow> parsed_chunk list download" where
  "chunk_list d outer_total =
     (case dget d ''chunks'' of
        Some (JList xs) \<Rightarrow> chunks_of outer_total 0 xs
      | _ \<Rightarrow>
          (case first_key d B64_KEYS of
             JStr (b # b64) \<Rightarrow>
               bind_download (as_size (first_key d INDEX_KEYS)) (\<lambda>index.
                 Inr [\<lparr>pc_index = (case index of Some i \<Rightarrow> i | None \<Rightarrow> 0),
                       pc_total = (if outer_total \<noteq> None \<or> index \<noteq> None then outer_total else Some 1),
                       pc_content = b # b64, pc_success = None\<rparr>])
           | _ \<Rightarrow> Inr []))"

definition normalize_artifact_dict :: "bool \<Rightarrow> dict \<Rightarrow> parsed_response download" where
  "normalize_artifact_dict structured d =
     (if first_key d OK_KEYS = JBool False then Inr (explicit_error structured (error_text_of d))
      else
        bind_download (as_size (first_key d SIZE_KEYS)) (\<lambda>size.
        bind_download (as_size (first_key d TOTAL_KEYS)) (\<lambda>outer_total.
        bind_download (chunk_list d outer_total) (\<lambda>chunks.
          Inr \<lparr>pr_success = True, pr_explicit_error = False, pr_name = str_unless_null (first_key d NAME_KEYS), pr_size = size,
               pr_sha = map_option py_lower (str_unless_null (first_key d SHA_KEYS)),
               pr_request = str_unless_null (first_key d REQUEST_KEYS), pr_chunks = chunks, pr_structured = structured,
               pr_error_text = None\<rparr>))))"

definition parse_json_payload :: "pystr \<Rightarrow> parsed_response option download" where
  "parse_json_payload raw =
     (if py_strip raw = '''' then Inr None
      else case json_loads raw of
        None \<Rightarrow> Inr None
      | Some payload \<Rightarrow>
          if looks_like_artifact_dict payload
          then bind_download (normalize_artifact_dict False (the_jdict payload)) (\<lambda>p. Inr (Some p))
          else (case payload of
             JDict d \<Rightarrow>
               if first_key d ERROR_KEYS \<noteq> JNull \<or> first_key d OK_KEYS = JBool False
               then Inr (Some (explicit_error False (error_text_of d)))
               else Inr None
           | _ \<Rightarrow> Inr None))"

definition text_from_blocks :: "mcp_result \<Rightarrow> pystr list" where
  "text_from_blocks r = List.map_filter id (mr_blocks r)"

fun first_payload :: "pystr list \<Rightarrow> parsed_response download" where
  "first_payload [] = Inl ProtocolError"
| "first_payload (t # ts) = bind_download (parse_json_payload t) (\<lambda>p. case p of Some x \<Rightarrow> Inr x | None \<Rightarrow> first_payload ts)"

definition parse_content :: "pystr list \<Rightarrow> parsed_response download" where
  "parse_content texts =
     (if texts = [] then Inl ProtocolError
      else bind_download (parse_json_payload (py_join [CHR 0x0A] texts)) (\<lambda>p. case p of Some x \<Rightarrow> Inr x | None \<Rightarrow> first_payload texts))"

definition parse_mcp_result :: "mcp_result \<Rightarrow> parsed_response download" where
  "parse_mcp_result r =
     (let texts = text_from_blocks r in
      if mr_is_error r
      then (let text = take 200 (py_join '';'' (filter (\<lambda>t. py_strip t \<noteq> '''') texts))
            in Inr (explicit_error False (if text = '''' then None else Some text)))
      else case mr_structured r of
        JDict d \<Rightarrow>
          bind_download (if texts = [] then Inr None else parse_json_payload (py_join [CHR 0x0A] texts)) (\<lambda>content.
            if looks_like_artifact_dict (JDict d) \<or> looks_like_error_dict d
            then bind_download (normalize_artifact_dict True d) (\<lambda>p.
                   case content of
                     Some c \<Rightarrow> if pr_explicit_error c \<noteq> pr_explicit_error p then Inl ProtocolError else Inr p
                   | None \<Rightarrow> Inr p)
            else parse_content texts)
      | _ \<Rightarrow> parse_content texts)"

end
