(* ===== verification/DownloadSink.thy ===== *)
theory DownloadSink
  imports Downloads
begin

text \<open>
  \<open>agent/tools/mcp_download_sink.py\<close>, second half: where a download is stored, and the sink that takes the responses of a
  server, joins chunks, checks them and commits a file.

  The disk holds the files of the download directories and of their staging directories, by directory and name; a download
  directory also holds the directory \<open>.staging\<close> and is itself the name \<open>.\<close>.  The disk works: a failing write is not modelled.
  A sink works on a response without interruption, since downloads of one artifact exclude one another, those of different
  artifacts have different staging files, and the choice of a name is a critical section.
\<close>

record disk =
  dk_files :: "((pystr \<times> pystr) \<times> pystr) list"
  dk_staging :: "((pystr \<times> pystr) \<times> pystr) list"

definition file_at :: "disk \<Rightarrow> pystr \<Rightarrow> pystr \<Rightarrow> pystr option" where
  "file_at d dir name = map_of (dk_files d) (dir, name)"

definition write_file :: "pystr \<Rightarrow> pystr \<Rightarrow> pystr \<Rightarrow> disk \<Rightarrow> disk" where
  "write_file dir name content d = d\<lparr>dk_files := AList.update (dir, name) content (dk_files d)\<rparr>"

definition unlink_file :: "pystr \<Rightarrow> pystr \<Rightarrow> disk \<Rightarrow> disk" where
  "unlink_file dir name d = d\<lparr>dk_files := AList.delete (dir, name) (dk_files d)\<rparr>"

definition staged :: "disk \<Rightarrow> pystr \<Rightarrow> pystr \<Rightarrow> pystr option" where
  "staged d dir name = map_of (dk_staging d) (dir, name)"

definition write_staged :: "pystr \<Rightarrow> pystr \<Rightarrow> pystr \<Rightarrow> disk \<Rightarrow> disk" where
  "write_staged dir name content d = d\<lparr>dk_staging := AList.update (dir, name) content (dk_staging d)\<rparr>"

definition unlink_staged :: "pystr \<Rightarrow> pystr \<Rightarrow> disk \<Rightarrow> disk" where
  "unlink_staged dir name d = d\<lparr>dk_staging := AList.delete (dir, name) (dk_staging d)\<rparr>"

text \<open>Does the path exist: a file, or one of the two directories.\<close>

definition name_taken :: "disk \<Rightarrow> pystr \<Rightarrow> pystr \<Rightarrow> bool" where
  "name_taken d dir name \<longleftrightarrow> file_at d dir name \<noteq> None \<or> name = ''.'' \<or> name = ''.staging''"

subsection \<open>Sidecars\<close>

definition sidecar_name :: "pystr \<Rightarrow> pystr" where
  "sidecar_name name = name @ ''.download.json''"

definition part_name :: "pystr \<Rightarrow> pystr" where
  "part_name name = name @ ''.part''"

text \<open>\<open>_atomic_write\<close>: the temporary file takes the place of whatever had its name, and is gone after the rename.\<close>

definition atomic_write :: "pystr \<Rightarrow> pystr \<Rightarrow> pystr \<Rightarrow> disk \<Rightarrow> disk" where
  "atomic_write dir name content d = write_file dir name content (unlink_file dir (part_name name) d)"

fun utf8_decode :: "pystr \<Rightarrow> pystr option" where
  "utf8_decode [] = Some []"
| "utf8_decode (c # s) =
     (let n = (of_char c :: nat) in
      if n < 128 then map_option (\<lambda>t. c # t) (utf8_decode s)
      else case s of
        [] \<Rightarrow> None
      | e # r \<Rightarrow>
          (let m = (of_char e :: nat) in
           if 194 \<le> n \<and> n \<le> 195 \<and> 128 \<le> m \<and> m < 192
           then map_option (\<lambda>t. char_of (64 * (n - 192) + (m - 128)) # t) (utf8_decode r)
           else None))"

record artifact =
  ar_identity :: artifact_identity
  ar_dir :: pystr
  ar_name :: pystr
  ar_size :: nat
  ar_sha :: pystr
  ar_request :: "pystr option"
  ar_turn :: pystr
  ar_call :: pystr

definition artifact_dict :: "artifact \<Rightarrow> dict" where
  "artifact_dict a =
     [(''type'', JStr ''download_artifact''), (''name'', JStr (ar_name a)), (''path'', JStr (ar_dir a @ ''/'' @ ar_name a)),
      (''size_bytes'', JNum (int (ar_size a))), (''sha256'', JStr (ar_sha a))]"

definition opt_json :: "pystr option \<Rightarrow> json" where
  "opt_json x = (case x of None \<Rightarrow> JNull | Some s \<Rightarrow> JStr s)"

definition sidecar_dict :: "(pystr \<Rightarrow> pystr) \<Rightarrow> pystr \<Rightarrow> artifact \<Rightarrow> dict" where
  "sidecar_dict sha now a =
     [(''schema_version'', JNum 1), (''type'', JStr ''download_artifact''), (''artifact_key'', JStr (artifact_key sha (ar_identity a))),
      (''name'', JStr (ar_name a)), (''size_bytes'', JNum (int (ar_size a))), (''sha256'', JStr (ar_sha a)),
      (''server_name'', JStr (ai_server (ar_identity a))), (''tool_name'', JStr (ai_tool (ar_identity a))),
      (''request_id'', opt_json (ar_request a)), (''session_key'', JStr (ai_session (ar_identity a))),
      (''turn_id'', JStr (ar_turn a)), (''tool_call_id'', JStr (ar_call a)), (''completed_at'', JStr now)]"

definition write_sidecar :: "(pystr \<Rightarrow> pystr) \<Rightarrow> pystr \<Rightarrow> artifact \<Rightarrow> disk \<Rightarrow> disk" where
  "write_sidecar sha now a d =
     atomic_write (ar_dir a) (sidecar_name (ar_name a)) (utf8_encode (json_dumps_indent (JDict (sidecar_dict sha now a)))) d"

text \<open>A missing or broken sidecar is none.  That of the directory itself lies outside it.\<close>

definition read_sidecar :: "disk \<Rightarrow> pystr \<Rightarrow> pystr \<Rightarrow> dict option" where
  "read_sidecar d dir name =
     (if name = ''.'' then None
      else case file_at d dir (sidecar_name name) of
        None \<Rightarrow> None
      | Some content \<Rightarrow>
          (case utf8_decode content of
             None \<Rightarrow> None
           | Some text \<Rightarrow> (case json_loads text of Some (JDict x) \<Rightarrow> Some x | _ \<Rightarrow> None)))"

subsection \<open>The place of a file\<close>

definition candidate_name :: "pystr \<Rightarrow> nat \<Rightarrow> pystr" where
  "candidate_name name index =
     (let k = py_rfind_ch (CHR ''.'') name;
          base = (if k = -1 then name else take (nat k) name);
          suffix = (if k = -1 then '''' else drop (nat k) name)
      in base @ '' ('' @ nat_str index @ '')'' @ suffix)"

lemma candidate_inj: "candidate_name name i = candidate_name name j \<longleftrightarrow> i = j"
  by (simp add: candidate_name_def Let_def)

lemma taken_finite: "finite {j. name_taken d dir (candidate_name name j)}"
proof -
  have "{j. name_taken d dir (candidate_name name j)} \<subseteq>
      candidate_name name -` (snd ` fst ` set (dk_files d) \<union> {''.'', ''.staging''})"
    by (force simp: name_taken_def file_at_def dest: map_of_SomeD)
  moreover have "finite (candidate_name name -` (snd ` fst ` set (dk_files d) \<union> {''.'', ''.staging''}))"
    by (rule finite_vimageI) (auto intro: injI simp: candidate_inj)
  ultimately show ?thesis by (rule finite_subset)
qed

text \<open>The search for a free name ends: only finitely many names are taken.\<close>

function unique_from :: "disk \<Rightarrow> pystr \<Rightarrow> pystr \<Rightarrow> nat \<Rightarrow> pystr" where
  "unique_from d dir name index =
     (if name_taken d dir (candidate_name name index) then unique_from d dir name (Suc index) else candidate_name name index)"
  by pat_completeness auto

termination
proof (relation "measure (\<lambda>(d, dir, name, index). card {j. index \<le> j \<and> name_taken d dir (candidate_name name j)})")
  fix d dir name index
  assume "name_taken d dir (candidate_name name index)"
  then have "index \<in> {j. index \<le> j \<and> name_taken d dir (candidate_name name j)} - {j. Suc index \<le> j \<and> name_taken d dir (candidate_name name j)}"
    by simp
  then have "{j. Suc index \<le> j \<and> name_taken d dir (candidate_name name j)} \<subset> {j. index \<le> j \<and> name_taken d dir (candidate_name name j)}"
    by (intro psubsetI subsetI) (simp, blast)
  moreover have "finite {j. index \<le> j \<and> name_taken d dir (candidate_name name j)}"
    by (rule finite_subset[OF _ taken_finite[of d dir name]]) auto
  ultimately show "((d, dir, name, Suc index), (d, dir, name, index)) \<in>
      measure (\<lambda>(d, dir, name, index). card {j. index \<le> j \<and> name_taken d dir (candidate_name name j)})"
    by (simp add: psubset_card_mono)
qed simp

declare unique_from.simps [simp del]

definition unique_name :: "disk \<Rightarrow> pystr \<Rightarrow> pystr \<Rightarrow> pystr" where
  "unique_name d dir name = unique_from d dir name 1"

text \<open>A name stays below the directory when it is not that of its parent.\<close>

definition ensure_contained :: "pystr \<Rightarrow> pystr download" where
  "ensure_contained name = (if name = ''..'' then Inl PathError else Inr name)"

definition owned_by :: "(pystr \<Rightarrow> pystr) \<Rightarrow> disk \<Rightarrow> pystr \<Rightarrow> pystr \<Rightarrow> artifact_identity \<Rightarrow> bool" where
  "owned_by sha d dir name i \<longleftrightarrow>
     (case read_sidecar d dir name of None \<Rightarrow> False | Some x \<Rightarrow> dget x ''artifact_key'' = Some (JStr (artifact_key sha i)))"

text \<open>The name, whether the file that has it is the one wanted, and the disk.\<close>

definition plan_final_path ::
  "(pystr \<Rightarrow> pystr) \<Rightarrow> pystr \<Rightarrow> artifact_identity \<Rightarrow> nat \<Rightarrow> pystr \<Rightarrow> disk \<Rightarrow> (pystr \<times> bool \<times> disk) download" where
  "plan_final_path sha dir i n digest d =
     bind_download (ensure_contained (ai_filename i)) (\<lambda>plain.
       if \<not> name_taken d dir plain then Inr (plain, False, unlink_file dir (sidecar_name plain) d)
       else if (case file_at d dir plain of None \<Rightarrow> False | Some c \<Rightarrow> length c = n \<and> sha c = digest) then Inr (plain, True, d)
       else if owned_by sha d dir plain i then Inr (plain, False, d)
       else bind_download (ensure_contained (unique_name d dir plain)) (\<lambda>name. Inr (name, False, d)))"
subsection \<open>The sink\<close>

record transfer =
  tr_identity :: artifact_identity
  tr_request :: "pystr option"
  tr_dir :: pystr
  tr_total :: "int option"
  tr_next :: int
  tr_received :: nat
  tr_seen :: "int list"
  tr_size :: "int option"
  tr_sha :: "pystr option"

record sink =
  sk_active :: "(pystr \<times> transfer) list"
  sk_swept :: "pystr list"
  sk_disk :: disk

definition staging_name :: "pystr \<Rightarrow> pystr" where
  "staging_name key = key @ ''.part''"

definition meta_name :: "pystr \<Rightarrow> pystr" where
  "meta_name key = key @ ''.json''"

definition transfer_key :: "(pystr \<Rightarrow> pystr) \<Rightarrow> transfer \<Rightarrow> pystr" where
  "transfer_key sha t = artifact_key sha (tr_identity t)"

definition active_of :: "pystr \<Rightarrow> sink \<Rightarrow> transfer option" where
  "active_of key s = map_of (sk_active s) key"

definition put_active :: "pystr \<Rightarrow> transfer \<Rightarrow> sink \<Rightarrow> sink" where
  "put_active key t s = s\<lparr>sk_active := AList.update key t (sk_active s)\<rparr>"

definition on_disk :: "(disk \<Rightarrow> disk) \<Rightarrow> sink \<Rightarrow> sink" where
  "on_disk f s = s\<lparr>sk_disk := f (sk_disk s)\<rparr>"

definition opt_num :: "int option \<Rightarrow> json" where
  "opt_num x = (case x of None \<Rightarrow> JNull | Some n \<Rightarrow> JNum n)"

definition write_meta :: "(pystr \<Rightarrow> pystr) \<Rightarrow> transfer \<Rightarrow> disk \<Rightarrow> disk" where
  "write_meta sha t d =
     (let key = transfer_key sha t;
          payload = [(''schema_version'', JNum 1), (''artifact_key'', JStr key), (''session_key'', JStr (ai_session (tr_identity t))),
            (''server_name'', JStr (ai_server (tr_identity t))), (''tool_name'', JStr (ai_tool (tr_identity t))),
            (''filename'', JStr (ai_filename (tr_identity t))), (''request_id'', opt_json (tr_request t)),
            (''next_chunk_index'', JNum (tr_next t)), (''total_chunks'', opt_num (tr_total t)), (''expected_size'', opt_num (tr_size t)),
            (''expected_sha256'', opt_json (tr_sha t))]
      in write_staged (tr_dir t) (meta_name key) (utf8_encode (json_dumps_indent (JDict payload)))
           (unlink_staged (tr_dir t) (part_name (meta_name key)) d))"

definition unlink_both :: "pystr \<Rightarrow> pystr \<Rightarrow> disk \<Rightarrow> disk" where
  "unlink_both dir key d = unlink_staged dir (meta_name key) (unlink_staged dir (staging_name key) d)"

definition drop_staging :: "(pystr \<Rightarrow> pystr) \<Rightarrow> transfer \<Rightarrow> sink \<Rightarrow> sink" where
  "drop_staging sha t s =
     (let key = transfer_key sha t in on_disk (unlink_both (tr_dir t) key) (s\<lparr>sk_active := AList.delete key (sk_active s)\<rparr>))"

definition drop_transfer :: "(pystr \<Rightarrow> pystr) \<Rightarrow> pystr \<Rightarrow> artifact_identity \<Rightarrow> sink \<Rightarrow> sink" where
  "drop_transfer sha dir i s =
     (let key = artifact_key sha i; s1 = s\<lparr>sk_active := AList.delete key (sk_active s)\<rparr>
      in case active_of key s of
           Some t \<Rightarrow> drop_staging sha t s1
         | None \<Rightarrow> on_disk (unlink_both dir key) s1)"

definition same_request :: "artifact_identity \<Rightarrow> artifact_identity \<Rightarrow> bool" where
  "same_request i j \<longleftrightarrow>
     ai_session i = ai_session j \<and> ai_server i = ai_server j \<and> ai_tool i = ai_tool j \<and> ai_args_hash i = ai_args_hash j"

definition drop_active_for :: "(pystr \<Rightarrow> pystr) \<Rightarrow> artifact_identity \<Rightarrow> sink \<Rightarrow> sink" where
  "drop_active_for sha i s =
     fold (\<lambda>t. if same_request (tr_identity t) i then drop_staging sha t else id) (map snd (sk_active s)) s"

definition sweep_stale_once :: "pystr \<Rightarrow> sink \<Rightarrow> sink" where
  "sweep_stale_once dir s =
     (if dir \<in> set (sk_swept s) then s
      else on_disk (\<lambda>d. d\<lparr>dk_staging := filter (\<lambda>((x, name), c). x \<noteq> dir) (dk_staging d)\<rparr>) (s\<lparr>sk_swept := dir # sk_swept s\<rparr>))"

text \<open>The staged file becomes the file of that name; a directory cannot be replaced.\<close>

definition commit_staged :: "pystr \<Rightarrow> pystr \<Rightarrow> pystr \<Rightarrow> pystr \<Rightarrow> pystr \<Rightarrow> disk \<Rightarrow> disk download" where
  "commit_staged from key dir name content d =
     (if name = ''.staging'' then Inl IoError
      else Inr (write_file dir name content (unlink_staged from (staging_name key) d)))"

definition size_differs :: "int option \<Rightarrow> nat \<Rightarrow> bool" where
  "size_differs declared n \<longleftrightarrow> (case declared of None \<Rightarrow> False | Some k \<Rightarrow> k \<noteq> int n)"

definition sha_differs :: "pystr option \<Rightarrow> pystr \<Rightarrow> bool" where
  "sha_differs declared h \<longleftrightarrow> (case declared of None \<Rightarrow> False | Some k \<Rightarrow> k \<noteq> '''' \<and> k \<noteq> h)"

definition check_content :: "(pystr \<Rightarrow> pystr) \<Rightarrow> int option \<Rightarrow> pystr option \<Rightarrow> pystr \<Rightarrow> unit download" where
  "check_content sha declared_size declared_sha content =
     (if declared_size = None \<and> declared_sha = None then Inl ProtocolError
      else if size_differs declared_size (length content) then Inl SizeMismatch
      else if sha_differs declared_sha (sha content) then Inl Sha256Mismatch
      else Inr ())"

definition or_request :: "pystr option \<Rightarrow> pystr option \<Rightarrow> pystr option" where
  "or_request x y = (case x of Some (c # r) \<Rightarrow> Some (c # r) | _ \<Rightarrow> y)"

subsection \<open>A response in one piece\<close>

definition single_content :: "parsed_response \<Rightarrow> pystr download" where
  "single_content p =
     (case pr_chunks p of
        [] \<Rightarrow> Inl ProtocolError
      | c # cs \<Rightarrow>
          if pc_index c \<noteq> 0 then Inl ProtocolError
          else if (case pc_total c of None \<Rightarrow> False | Some n \<Rightarrow> n \<noteq> 1) then Inl ProtocolError
          else if MAX_CHUNK_BASE64_CHARS < length (pc_content c) then Inl LimitError
          else case b64decode (pc_content c) of None \<Rightarrow> Inl Base64Error | Some content \<Rightarrow> Inr content)"

definition made_artifact ::
  "(pystr \<Rightarrow> pystr) \<Rightarrow> artifact_identity \<Rightarrow> pystr \<Rightarrow> pystr \<Rightarrow> pystr \<Rightarrow> pystr option \<Rightarrow> pystr \<Rightarrow> pystr \<Rightarrow> artifact" where
  "made_artifact sha i dir name content request turn call =
     \<lparr>ar_identity = i, ar_dir = dir, ar_name = name, ar_size = length content, ar_sha = sha content, ar_request = request,
      ar_turn = turn, ar_call = call\<rparr>"

text \<open>A file that is reused gets a sidecar when it has none.\<close>

definition deliver_sidecar :: "(pystr \<Rightarrow> pystr) \<Rightarrow> pystr \<Rightarrow> artifact \<Rightarrow> disk \<Rightarrow> disk" where
  "deliver_sidecar sha now a d =
     (if read_sidecar d (ar_dir a) (ar_name a) = None then write_sidecar sha now a d else d)"

definition materialize_single ::
  "(pystr \<Rightarrow> pystr) \<Rightarrow> pystr \<Rightarrow> parsed_response \<Rightarrow> artifact_identity \<Rightarrow> pystr \<Rightarrow> pystr \<Rightarrow> pystr \<Rightarrow> disk \<Rightarrow> artifact download \<times> disk" where
  "materialize_single sha now p i dir turn call d =
     (let key = artifact_key sha i in
      case bind_download (single_content p) (\<lambda>content. bind_download (check_content sha (pr_size p) (pr_sha p) content) (\<lambda>_. Inr content)) of
        Inl e \<Rightarrow> (Inl e, d)
      | Inr content \<Rightarrow>
          (let d1 = write_staged dir (staging_name key) content d in
           case plan_final_path sha dir i (length content) (sha content) d1 of
             Inl e \<Rightarrow> (Inl e, d1)
           | Inr (name, reuse, d2) \<Rightarrow>
               (let a = made_artifact sha i dir name content (pr_request p) turn call in
                if reuse then (Inr a, deliver_sidecar sha now a (unlink_staged dir (staging_name key) d2))
                else (case commit_staged dir key dir name content d2 of
                        Inl e \<Rightarrow> (Inl e, d2)
                      | Inr d3 \<Rightarrow> (Inr a, write_sidecar sha now a d3)))))"

subsection \<open>A response in chunks\<close>

definition chunk_refused :: "parsed_response \<Rightarrow> parsed_chunk \<Rightarrow> transfer \<Rightarrow> bool" where
  "chunk_refused p c t \<longleftrightarrow>
     pc_index c < 0
     \<or> (case pc_total c of None \<Rightarrow> False | Some n \<Rightarrow> n < 1)
     \<or> (case (if pc_total c \<noteq> None then pc_total c else tr_total t) of None \<Rightarrow> False | Some n \<Rightarrow> n \<le> pc_index c)
     \<or> pc_success c = Some False \<or> \<not> pr_success p
     \<or> pc_index c \<noteq> tr_next t
     \<or> pc_index c \<in> set (tr_seen t)
     \<or> (case (pc_total c, tr_total t) of (Some n, Some m) \<Rightarrow> n \<noteq> m | _ \<Rightarrow> False)"

definition append_staged :: "pystr \<Rightarrow> pystr \<Rightarrow> pystr \<Rightarrow> disk \<Rightarrow> disk" where
  "append_staged dir name content d =
     write_staged dir name ((case staged d dir name of None \<Rightarrow> [] | Some old \<Rightarrow> old) @ content) d"

definition accept_one_chunk ::
  "(pystr \<Rightarrow> pystr) \<Rightarrow> parsed_response \<Rightarrow> parsed_chunk \<Rightarrow> transfer \<times> disk \<Rightarrow> (transfer \<times> disk) download" where
  "accept_one_chunk sha p c = (\<lambda>(t, d).
     if chunk_refused p c t then Inl ChunkError
     else if MAX_CHUNK_BASE64_CHARS < length (pc_content c) then Inl LimitError
     else case b64decode (pc_content c) of
            None \<Rightarrow> Inl Base64Error
          | Some content \<Rightarrow>
              if MAX_ARTIFACT_BYTES < tr_received t + length content then Inl LimitError
              else (let t1 = t\<lparr>tr_total := (if tr_total t = None then pc_total c else tr_total t),
                              tr_received := tr_received t + length content, tr_seen := pc_index c # tr_seen t,
                              tr_next := pc_index c + 1\<rparr>
                    in Inr (t1, write_meta sha t1 (append_staged (tr_dir t) (staging_name (transfer_key sha t)) content d))))"

fun accept_chunks ::
  "(pystr \<Rightarrow> pystr) \<Rightarrow> parsed_response \<Rightarrow> parsed_chunk list \<Rightarrow> transfer \<times> disk \<Rightarrow> (transfer \<times> disk) download" where
  "accept_chunks sha p [] td = Inr td"
| "accept_chunks sha p (c # cs) td = bind_download (accept_one_chunk sha p c td) (accept_chunks sha p cs)"

definition new_transfer :: "parsed_response \<Rightarrow> artifact_identity \<Rightarrow> pystr \<Rightarrow> transfer download" where
  "new_transfer p i dir =
     (let hint = pc_total (hd (pr_chunks p)) in
      if list_ex (\<lambda>c. pc_total c \<noteq> None \<and> pc_total c \<noteq> hint) (pr_chunks p) then Inl ChunkError
      else if pc_index (hd (pr_chunks p)) \<noteq> 0 then Inl ChunkError
      else case hint of
             None \<Rightarrow> Inl ChunkError
           | Some n \<Rightarrow>
               if n < 1 then Inl ChunkError
               else Inr \<lparr>tr_identity = i, tr_request = pr_request p, tr_dir = dir, tr_total = Some n, tr_next = 0, tr_received = 0,
                         tr_seen = [], tr_size = None, tr_sha = None\<rparr>)"

definition note_metadata :: "parsed_response \<Rightarrow> pystr \<Rightarrow> transfer \<Rightarrow> transfer download" where
  "note_metadata p filename t =
     bind_download (case pr_size p of
         None \<Rightarrow> Inr t
       | Some n \<Rightarrow>
           if int MAX_ARTIFACT_BYTES < n then Inl LimitError
           else if tr_size t = None then Inr (t\<lparr>tr_size := Some n\<rparr>)
           else if tr_size t \<noteq> Some n then Inl ChunkError else Inr t) (\<lambda>t1.
     bind_download (case pr_sha p of
         None \<Rightarrow> Inr t1
       | Some h \<Rightarrow> if tr_sha t1 = None then Inr (t1\<lparr>tr_sha := Some h\<rparr>)
                  else if tr_sha t1 \<noteq> Some h then Inl ChunkError else Inr t1) (\<lambda>t2.
     case pr_name p of
       None \<Rightarrow> Inr t2
     | Some n \<Rightarrow> bind_download (sanitize_name n) (\<lambda>x. if x \<noteq> filename then Inl ChunkError else Inr t2)))"

definition finalize_transfer ::
  "(pystr \<Rightarrow> pystr) \<Rightarrow> pystr \<Rightarrow> transfer \<Rightarrow> pystr \<Rightarrow> parsed_response \<Rightarrow> pystr \<Rightarrow> pystr \<Rightarrow> sink \<Rightarrow> artifact download \<times> sink" where
  "finalize_transfer sha now t dir p turn call s =
     (let key = transfer_key sha t; request = or_request (pr_request p) (tr_request t) in
      if tr_size t = None \<and> tr_sha t = None then (Inl ProtocolError, s)
      else case staged (sk_disk s) (tr_dir t) (staging_name key) of
        None \<Rightarrow> (Inl IoError, s)
      | Some content \<Rightarrow>
          (case check_content sha (tr_size t) (tr_sha t) content of
             Inl e \<Rightarrow> (Inl e, s)
           | Inr _ \<Rightarrow>
               (case plan_final_path sha dir (tr_identity t) (length content) (sha content) (sk_disk s) of
                  Inl e \<Rightarrow> (Inl e, s)
                | Inr (name, reuse, d2) \<Rightarrow>
                    if reuse
                    then (Inr (made_artifact sha (tr_identity t) dir name content request turn call),
                          on_disk (deliver_sidecar sha now (made_artifact sha (tr_identity t) dir name content (pr_request p) turn call))
                            (drop_staging sha t (s\<lparr>sk_disk := d2\<rparr>)))
                    else (case commit_staged (tr_dir t) key dir name content d2 of
                            Inl e \<Rightarrow> (Inl e, s\<lparr>sk_disk := d2\<rparr>)
                          | Inr d3 \<Rightarrow>
                              (let a = made_artifact sha (tr_identity t) dir name content request turn call
                               in (Inr a, on_disk (write_sidecar sha now a) (drop_staging sha t (s\<lparr>sk_disk := d3\<rparr>))))))))"

definition accept_inner ::
  "(pystr \<Rightarrow> pystr) \<Rightarrow> pystr \<Rightarrow> parsed_response \<Rightarrow> artifact_identity \<Rightarrow> pystr \<Rightarrow> pystr \<Rightarrow> pystr \<Rightarrow> sink \<Rightarrow> artifact download \<times> sink" where
  "accept_inner sha now p i dir turn call s =
     (let key = artifact_key sha i in
      case (case active_of key s of
              Some t \<Rightarrow> Inr (t, sk_disk s)
            | None \<Rightarrow> bind_download (new_transfer p i dir) (\<lambda>t. Inr (t, write_meta sha t (sk_disk s)))) of
        Inl e \<Rightarrow> (Inl e, s)
      | Inr (t0, d0) \<Rightarrow>
          (case bind_download (accept_chunks sha p (pr_chunks p) (t0, d0)) (\<lambda>(t, d). bind_download (note_metadata p (ai_filename i) t) (\<lambda>t'. Inr (t', d))) of
             Inl e \<Rightarrow> (Inl e, (put_active key t0 s)\<lparr>sk_disk := d0\<rparr>)
           | Inr (t, d) \<Rightarrow>
               (let s1 = (put_active key t s)\<lparr>sk_disk := d\<rparr> in
                if (case tr_total t of None \<Rightarrow> False | Some n \<Rightarrow> n \<le> tr_next t)
                then finalize_transfer sha now t dir p turn call s1
                else (Inl (Pending (ai_filename i) (tr_next t) (tr_total t) (tr_next t)), s1))))"

definition accept_response ::
  "(pystr \<Rightarrow> pystr) \<Rightarrow> pystr \<Rightarrow> parsed_response \<Rightarrow> artifact_identity \<Rightarrow> pystr \<Rightarrow> pystr \<Rightarrow> pystr \<Rightarrow> sink \<Rightarrow> artifact download \<times> sink" where
  "accept_response sha now p i dir turn call s =
     (case accept_inner sha now p i dir turn call s of
        (Inr a, s1) \<Rightarrow> (Inr a, s1)
      | (Inl e, s1) \<Rightarrow> (Inl e, (case e of Pending n r t x \<Rightarrow> s1 | _ \<Rightarrow> drop_transfer sha dir i s1)))"

subsection \<open>The entry\<close>

definition request_name :: "dict \<Rightarrow> pystr" where
  "request_name kwargs = py_str (jor (jor (dget_null kwargs ''name'') (dget_null kwargs ''filename'')) (JStr ''download.bin''))"

definition download_name :: "parsed_response \<Rightarrow> dict \<Rightarrow> pystr download" where
  "download_name p kwargs =
     bind_download (case pr_name p of Some (c # r) \<Rightarrow> Inr (c # r) | _ \<Rightarrow> sanitize_name (request_name kwargs)) sanitize_name"

definition materialize ::
  "(pystr \<Rightarrow> pystr) \<Rightarrow> (pystr \<Rightarrow> pystr) \<Rightarrow> pystr \<Rightarrow> mcp_result \<Rightarrow> pystr \<Rightarrow> pystr \<Rightarrow> pystr \<Rightarrow> dict \<Rightarrow> pystr \<Rightarrow> pystr \<Rightarrow> sink
     \<Rightarrow> artifact download \<times> sink" where
  "materialize sha dir_of now result session server tool kwargs turn call s0 =
     (let dir = dir_of session; s = sweep_stale_once dir s0 in
      case parse_mcp_result result of
        Inl e \<Rightarrow> (Inl e, s)
      | Inr p \<Rightarrow>
          (case download_name p kwargs of
             Inl e \<Rightarrow> (Inl e, s)
           | Inr filename \<Rightarrow>
               (let i = \<lparr>ai_session = session, ai_server = server, ai_tool = tool, ai_args_hash = canonical_args_hash sha kwargs,
                         ai_filename = filename\<rparr> in
                if pr_explicit_error p
                then (Inl (ServerError (case pr_error_text p of None \<Rightarrow> '''' | Some t \<Rightarrow> t)),
                      (if active_of (artifact_key sha i) s \<noteq> None then drop_transfer sha dir i s else drop_active_for sha i s))
                else if multi_chunk p then accept_response sha now p i dir turn call s
                else (case materialize_single sha now p i dir turn call (sk_disk s) of (r, d) \<Rightarrow> (r, s\<lparr>sk_disk := d\<rparr>)))))"

text \<open>What the tool's wrapper returns to the model; an exception that is not one of a download is not caught there.\<close>

definition materialize_download ::
  "(pystr \<Rightarrow> pystr) \<Rightarrow> (pystr \<Rightarrow> pystr) \<Rightarrow> pystr \<Rightarrow> mcp_result \<Rightarrow> pystr \<Rightarrow> pystr \<Rightarrow> pystr \<Rightarrow> dict \<Rightarrow> pystr \<Rightarrow> pystr \<Rightarrow> sink
     \<Rightarrow> dict result \<times> sink" where
  "materialize_download sha dir_of now result session server tool kwargs turn call s =
     (case materialize sha dir_of now result session server tool kwargs turn call s of
        (Inr a, s1) \<Rightarrow> (Inr (artifact_dict a), s1)
      | (Inl (Escaped e), s1) \<Rightarrow> (Inl e, s1)
      | (Inl e, s1) \<Rightarrow> (Inr (error_dict e), s1))"

end
