(* ===== verification/DownloadFacts.thy ===== *)
theory DownloadFacts
  imports DownloadSink
begin

text \<open>
  What a download does and does not: a file that is reported as delivered has the size and the digest that were declared, a
  failed download changes no file, files of others are kept, chunks are joined in order, a transfer stays within its bounds.
\<close>

subsection \<open>The disk\<close>

lemma file_at_write [simp]:
  "file_at (write_file dir name c d) x n = (if x = dir \<and> n = name then Some c else file_at d x n)"
  by (simp add: file_at_def write_file_def update_conv')

lemma file_at_unlink [simp]:
  "file_at (unlink_file dir name d) x n = (if x = dir \<and> n = name then None else file_at d x n)"
  by (simp add: file_at_def unlink_file_def delete_conv')

lemma files_staging [simp]:
  "dk_files (write_staged dir name c d) = dk_files d" "dk_files (unlink_staged dir name d) = dk_files d"
  "dk_files (unlink_both dir key d) = dk_files d" "dk_files (append_staged dir name c d) = dk_files d" "dk_files (write_meta sha t d) = dk_files d"
  by (simp_all add: write_staged_def unlink_staged_def unlink_both_def append_staged_def write_meta_def Let_def)

lemma staged_files [simp]:
  "staged (write_file dir name c d) x n = staged d x n" "staged (unlink_file dir name d) x n = staged d x n"
  by (simp_all add: staged_def write_file_def unlink_file_def)

lemma staged_write [simp]:
  "staged (write_staged dir name c d) x n = (if x = dir \<and> n = name then Some c else staged d x n)"
  "staged (unlink_staged dir name d) x n = (if x = dir \<and> n = name then None else staged d x n)"
  by (simp_all add: staged_def write_staged_def unlink_staged_def update_conv' delete_conv')

lemma file_at_files: "dk_files d = dk_files e \<Longrightarrow> file_at d = file_at e"
  by (simp add: file_at_def fun_eq_iff)

lemma file_at_staging [simp]:
  "file_at (write_staged dir name c d) = file_at d" "file_at (unlink_staged dir name d) = file_at d"
  "file_at (unlink_both dir key d) = file_at d" "file_at (append_staged dir name c d) = file_at d" "file_at (write_meta sha t d) = file_at d"
  by (rule file_at_files, simp)+

lemma on_disk_simps [simp]:
  "sk_disk (on_disk f s) = f (sk_disk s)" "sk_active (on_disk f s) = sk_active s" "sk_swept (on_disk f s) = sk_swept s"
  "active_of key (on_disk f s) = active_of key s"
  by (simp_all add: on_disk_def active_of_def)

lemma names_differ [simp]:
  "sidecar_name n \<noteq> n" "part_name n \<noteq> n" "part_name (sidecar_name n) \<noteq> n" "n \<noteq> sidecar_name n" "n \<noteq> part_name n" "n \<noteq> part_name (sidecar_name n)"
  by (simp_all add: sidecar_name_def part_name_def)

lemma file_at_sidecar:
  "file_at (write_sidecar sha now a d) x n =
     (if x = ar_dir a \<and> n = sidecar_name (ar_name a) then Some (utf8_encode (json_dumps_indent (JDict (sidecar_dict sha now a))))
      else if x = ar_dir a \<and> n = part_name (sidecar_name (ar_name a)) then None else file_at d x n)"
  by (simp add: write_sidecar_def atomic_write_def)

lemma file_at_deliver:
  "n \<noteq> sidecar_name (ar_name a) \<and> n \<noteq> part_name (sidecar_name (ar_name a)) \<or> x \<noteq> ar_dir a \<Longrightarrow>
     file_at (deliver_sidecar sha now a d) x n = file_at d x n"
  by (auto simp: deliver_sidecar_def file_at_sidecar)

lemma made_artifact_simps [simp]:
  "ar_identity (made_artifact sha i dir name c rq turn call) = i" "ar_dir (made_artifact sha i dir name c rq turn call) = dir"
  "ar_name (made_artifact sha i dir name c rq turn call) = name" "ar_size (made_artifact sha i dir name c rq turn call) = length c"
  "ar_sha (made_artifact sha i dir name c rq turn call) = sha c"
  by (simp_all add: made_artifact_def)

lemma owned_files: "dk_files d = dk_files e \<Longrightarrow> owned_by sha d dir name i = owned_by sha e dir name i"
  by (simp add: owned_by_def read_sidecar_def file_at_files[of d e])

lemma taken_files: "dk_files d = dk_files e \<Longrightarrow> name_taken d dir name = name_taken e dir name"
  by (simp add: name_taken_def file_at_files[of d e])

subsection \<open>The place of a file\<close>

lemma unique_from_free: "\<not> name_taken d dir (unique_from d dir name index)"
proof (induction d dir name index rule: unique_from.induct)
  case (1 d dir name index)
  then show ?case by (subst unique_from.simps) simp
qed

lemma unique_from_candidate: "\<exists>k. unique_from d dir name index = candidate_name name k"
proof (induction d dir name index rule: unique_from.induct)
  case (1 d dir name index)
  then show ?case by (subst unique_from.simps) (cases "name_taken d dir (candidate_name name index)", auto)
qed

text \<open>The cases of the choice: a free name, the wanted file, an own file, a new name.\<close>

lemma plan_cases:
  assumes "plan_final_path sha dir i n digest d = Inr (name, reuse, d')"
  obtains (free) "name = ai_filename i" "\<not> reuse" "\<not> name_taken d dir name" "d' = unlink_file dir (sidecar_name name) d"
  | (reuse) c where "name = ai_filename i" "reuse" "file_at d dir name = Some c" "length c = n" "sha c = digest" "d' = d"
  | (own) "name = ai_filename i" "\<not> reuse" "owned_by sha d dir name i" "d' = d"
  | (new) "name = unique_name d dir (ai_filename i)" "\<not> reuse" "\<not> name_taken d dir name" "d' = d"
proof -
  let ?plain = "ai_filename i"
  have plain: "?plain \<noteq> ''..''" using assms by (auto simp: plan_final_path_def ensure_contained_def)
  consider (a) "\<not> name_taken d dir ?plain"
    | (b) c where "name_taken d dir ?plain" "file_at d dir ?plain = Some c" "length c = n" "sha c = digest"
    | (c) "name_taken d dir ?plain" "case file_at d dir ?plain of None \<Rightarrow> True | Some c \<Rightarrow> \<not> (length c = n \<and> sha c = digest)"
    by (cases "file_at d dir ?plain") auto
  then show ?thesis
  proof cases
    case a
    then show ?thesis using assms plain by (intro free) (auto simp: plan_final_path_def ensure_contained_def)
  next
    case (b c)
    then have "name = ?plain \<and> reuse \<and> d' = d" using assms plain by (simp add: plan_final_path_def ensure_contained_def)
    then show ?thesis using b by (intro reuse) auto
  next
    case c
    then have no: "(case file_at d dir ?plain of None \<Rightarrow> False | Some c \<Rightarrow> length c = n \<and> sha c = digest) = False"
      by (simp split: option.splits)
    show ?thesis
    proof (cases "owned_by sha d dir ?plain i")
      case True
      then have "name = ?plain \<and> \<not> reuse \<and> d' = d"
        using assms plain no c(1) unfolding plan_final_path_def ensure_contained_def by (simp only: bind_download.simps if_True if_False) simp
      then show ?thesis using True by (intro own) auto
    next
      case False
      then have "name = unique_name d dir ?plain \<and> \<not> reuse \<and> d' = d"
        using assms plain no c(1) unfolding plan_final_path_def ensure_contained_def by (auto split: if_splits)
      then show ?thesis using unique_from_free[of d dir ?plain 1] by (intro new) (auto simp: unique_name_def)
    qed
  qed
qed

lemma plan_name: "plan_final_path sha dir i n digest d = Inr (name, reuse, d') \<Longrightarrow> name \<noteq> ''..''"
  by (auto simp: plan_final_path_def ensure_contained_def split: if_splits)


subsection \<open>One delivery\<close>

text \<open>What both ways of delivering do to the files: \<open>d\<close> is the disk on which the place was chosen.\<close>

definition delivery ::
  "(pystr \<Rightarrow> pystr) \<Rightarrow> pystr \<Rightarrow> artifact_identity \<Rightarrow> pystr \<Rightarrow> pystr \<Rightarrow> artifact \<Rightarrow> disk \<Rightarrow> disk \<Rightarrow> bool" where
  "delivery sha now i dir content a d d' \<longleftrightarrow>
     (\<exists>reuse d2 a0. plan_final_path sha dir i (length content) (sha content) d = Inr (ar_name a, reuse, d2)
        \<and> ar_identity a = i \<and> ar_dir a = dir \<and> ar_size a = length content \<and> ar_sha a = sha content
        \<and> ar_identity a0 = i \<and> ar_dir a0 = dir \<and> ar_name a0 = ar_name a
        \<and> file_at d' = (if reuse then file_at (deliver_sidecar sha now a0 d2)
             else file_at (write_sidecar sha now a0 (write_file dir (ar_name a) content d2))))"

lemma delivery_file:
  assumes "delivery sha now i dir content a d d'"
  shows "\<exists>c. file_at d' dir (ar_name a) = Some c \<and> length c = ar_size a \<and> sha c = ar_sha a"
proof -
  obtain reuse d2 a0 where p: "plan_final_path sha dir i (length content) (sha content) d = Inr (ar_name a, reuse, d2)"
    and a: "ar_size a = length content" "ar_sha a = sha content" "ar_dir a0 = dir" "ar_name a0 = ar_name a"
    and f: "file_at d' = (if reuse then file_at (deliver_sidecar sha now a0 d2)
             else file_at (write_sidecar sha now a0 (write_file dir (ar_name a) content d2)))"
    using assms unfolding delivery_def by blast
  show ?thesis
  proof (cases reuse)
    case False
    then show ?thesis using a by (simp add: f file_at_sidecar)
  next
    case True
    from p True show ?thesis
      by (cases rule: plan_cases) (use a in \<open>simp_all add: f file_at_deliver\<close>)
  qed
qed


lemma delivery_cong:
  assumes "dk_files d = dk_files e" "delivery sha now i dir content a e d'" "file_at e x m = Some c"
  shows "file_at d x m = Some c" "owned_by sha e dir m i = owned_by sha d dir m i"
  using assms by (simp_all add: file_at_files[of d e] owned_files[of d e])

lemma check_content_Inr:
  "check_content sha declared_size declared_sha content = Inr () \<longleftrightarrow>
     (declared_size \<noteq> None \<or> declared_sha \<noteq> None) \<and> \<not> size_differs declared_size (length content) \<and> \<not> sha_differs declared_sha (sha content)"
  by (auto simp: check_content_def)

lemma commit_Inr: "commit_staged from key dir name content d = Inr d' \<Longrightarrow> d' = write_file dir name content (unlink_staged from (staging_name key) d)"
  by (auto simp: commit_staged_def split: if_splits)

lemma commit_Inl:
  assumes "commit_staged from key dir name content d2 = Inl e" "plan_final_path sha dir i n digest d = Inr (name, reuse, d2)"
  shows "d2 = d"
  using assms(2)
proof (cases rule: plan_cases)
  case free
  then show ?thesis using assms(1) by (auto simp: commit_staged_def name_taken_def split: if_splits)
qed simp_all

text \<open>A response in one piece fails and changes no file, or is delivered.\<close>

lemma single_cases:
  assumes "materialize_single sha now p i dir turn call d = (r, d')"
  obtains (failed) e where "r = Inl e" "dk_files d' = dk_files d"
  | (delivered) a content e where "r = Inr a" "check_content sha (pr_size p) (pr_sha p) content = Inr ()" "single_content p = Inr content"
      "dk_files e = dk_files d" "delivery sha now i dir content a e d'"
proof (cases "bind_download (single_content p) (\<lambda>content. bind_download (check_content sha (pr_size p) (pr_sha p) content) (\<lambda>_. Inr content))")
  case (Inl e)
  then have "r = Inl e" "d' = d" using assms by (simp_all add: materialize_single_def Let_def)
  then show ?thesis using failed by simp
next
  case (Inr content)
  then have ok: "check_content sha (pr_size p) (pr_sha p) content = Inr ()" "single_content p = Inr content" by auto
  let ?key = "artifact_key sha i"
  let ?d1 = "write_staged dir (staging_name ?key) content d"
  show ?thesis
  proof (cases "plan_final_path sha dir i (length content) (sha content) ?d1")
    case (Inl e)
    then have "r = Inl e" "d' = ?d1" using assms Inr by (simp_all add: materialize_single_def Let_def)
    then show ?thesis using failed by simp
  next
    case plan: (Inr q)
    obtain name reuse d2 where q: "q = (name, reuse, d2)" by (cases q) auto
    let ?a = "made_artifact sha i dir name content (pr_request p) turn call"
    have m: "materialize_single sha now p i dir turn call d =
        (if reuse then (Inr ?a, deliver_sidecar sha now ?a (unlink_staged dir (staging_name ?key) d2))
         else (case commit_staged dir ?key dir name content d2 of
                 Inl e \<Rightarrow> (Inl e, d2) | Inr d3 \<Rightarrow> (Inr ?a, write_sidecar sha now ?a d3)))"
      using Inr plan q by (simp add: materialize_single_def Let_def)
    show ?thesis
    proof (cases "reuse \<or> name \<noteq> ''.staging''")
      case False
      then have c: "commit_staged dir ?key dir name content d2 = Inl IoError" by (simp add: commit_staged_def)
      have "d2 = ?d1" by (rule commit_Inl[OF c plan[unfolded q]])
      then have "r = Inl IoError" "d' = ?d1" using assms m False c by simp_all
      then show ?thesis using failed by simp
    next
      case True
      have same: "file_at (deliver_sidecar sha now ?a (unlink_staged dir (staging_name ?key) d2)) = file_at (deliver_sidecar sha now ?a d2)"
        "file_at (write_sidecar sha now ?a (write_file dir name content (unlink_staged dir (staging_name ?key) d2))) =
          file_at (write_sidecar sha now ?a (write_file dir name content d2))"
        by (simp_all add: fun_eq_iff deliver_sidecar_def read_sidecar_def file_at_sidecar)
      have r: "r = Inr ?a"
        "d' = (if reuse then deliver_sidecar sha now ?a (unlink_staged dir (staging_name ?key) d2)
               else write_sidecar sha now ?a (write_file dir name content (unlink_staged dir (staging_name ?key) d2)))"
        using assms m True by (auto simp: commit_staged_def split: if_splits)
      show ?thesis
      proof (rule delivered[OF r(1) ok, of ?d1])
        show "delivery sha now i dir content ?a ?d1 d'"
          unfolding delivery_def by (rule exI[of _ reuse], rule exI[of _ d2], rule exI[of _ ?a]) (use plan q r same in simp)
      qed simp
    qed
  qed
qed


subsection \<open>Chunks\<close>

lemma drop_files [simp]:
  "dk_files (sk_disk (drop_staging sha t s)) = dk_files (sk_disk s)" "dk_files (sk_disk (drop_transfer sha dir i s)) = dk_files (sk_disk s)"
  by (simp_all add: drop_staging_def drop_transfer_def Let_def split: option.split)

lemma drop_active_files [simp]: "dk_files (sk_disk (drop_active_for sha i s)) = dk_files (sk_disk s)"
proof -
  have "dk_files (sk_disk (fold (\<lambda>t. if same_request (tr_identity t) i then drop_staging sha t else id) ts s)) = dk_files (sk_disk s)" for ts
    by (induction ts arbitrary: s) simp_all
  then show ?thesis by (simp add: drop_active_for_def)
qed

lemma sweep_files [simp]: "dk_files (sk_disk (sweep_stale_once dir s)) = dk_files (sk_disk s)"
  by (simp add: sweep_stale_once_def)

lemma accept_one_Inr:
  assumes "accept_one_chunk sha p c (t, d) = Inr (t', d')"
  obtains content where "\<not> chunk_refused p c t" "b64decode (pc_content c) = Some content" "tr_received t + length content \<le> MAX_ARTIFACT_BYTES"
    "t' = t\<lparr>tr_total := (if tr_total t = None then pc_total c else tr_total t),
            tr_received := tr_received t + length content, tr_seen := pc_index c # tr_seen t, tr_next := pc_index c + 1\<rparr>"
    "d' = write_meta sha t' (append_staged (tr_dir t) (staging_name (transfer_key sha t)) content d)"
proof -
  have ok: "\<not> chunk_refused p c t" "\<not> MAX_CHUNK_BASE64_CHARS < length (pc_content c)"
    using assms unfolding accept_one_chunk_def by (auto simp only: prod.case split: if_splits)
  then obtain content where c: "b64decode (pc_content c) = Some content"
    using assms unfolding accept_one_chunk_def by (cases "b64decode (pc_content c)") auto
  then have fits: "tr_received t + length content \<le> MAX_ARTIFACT_BYTES"
    using assms ok unfolding accept_one_chunk_def by (auto split: if_splits)
  show ?thesis
    by (rule that[OF ok(1) c fits]) (use assms ok c fits in \<open>auto simp: accept_one_chunk_def Let_def\<close>)
qed

lemma accept_one_files: "accept_one_chunk sha p c (t, d) = Inr (t', d') \<Longrightarrow> dk_files d' = dk_files d"
  by (elim accept_one_Inr) simp

lemma accept_chunks_files: "accept_chunks sha p cs (t, d) = Inr (t', d') \<Longrightarrow> dk_files d' = dk_files d"
  by (induction cs arbitrary: t d) (auto dest!: accept_one_files)

lemma note_metadata_Inr:
  assumes "note_metadata p filename t = Inr t'"
  shows "t' = t\<lparr>tr_size := (if pr_size p = None then tr_size t else pr_size p), tr_sha := (if pr_sha p = None then tr_sha t else pr_sha p)\<rparr>"
proof -
  obtain t1 t2 where t1: "(case pr_size p of None \<Rightarrow> Inr t
       | Some n \<Rightarrow>
           if int MAX_ARTIFACT_BYTES < n then Inl LimitError
           else if tr_size t = None then Inr (t\<lparr>tr_size := Some n\<rparr>)
           else if tr_size t \<noteq> Some n then Inl ChunkError else Inr t) = Inr t1"
    and t2: "(case pr_sha p of None \<Rightarrow> Inr t1
       | Some h \<Rightarrow> if tr_sha t1 = None then Inr (t1\<lparr>tr_sha := Some h\<rparr>)
                  else if tr_sha t1 \<noteq> Some h then Inl ChunkError else Inr t1) = Inr t2"
    and name: "(case pr_name p of None \<Rightarrow> Inr t2
       | Some n \<Rightarrow> bind_download (sanitize_name n) (\<lambda>x. if x \<noteq> filename then Inl ChunkError else Inr t2)) = Inr t'"
    using assms unfolding note_metadata_def bind_download_Inr by blast
  have t': "t' = t2" using name by (cases "pr_name p") (auto split: if_splits)
  have "t1 = t\<lparr>tr_size := (if pr_size p = None then tr_size t else pr_size p)\<rparr>"
    using t1 by (cases "pr_size p") (auto split: if_splits)
  moreover have "t2 = t1\<lparr>tr_sha := (if pr_sha p = None then tr_sha t1 else pr_sha p)\<rparr>"
    using t2 by (cases "pr_sha p") (auto split: if_splits)
  ultimately show ?thesis using t' by simp
qed

lemma finalize_cases:
  assumes "finalize_transfer sha now t dir p turn call s = (r, s')"
  obtains (failed) e where "r = Inl e" "dk_files (sk_disk s') = dk_files (sk_disk s)" "\<And>n k m x. e \<noteq> Pending n k m x"
      "sk_active s' = sk_active s"
  | (delivered) a content where "r = Inr a" "check_content sha (tr_size t) (tr_sha t) content = Inr ()"
      "staged (sk_disk s) (tr_dir t) (staging_name (transfer_key sha t)) = Some content"
      "delivery sha now (tr_identity t) dir content a (sk_disk s) (sk_disk s')" "sk_active s' = AList.delete (transfer_key sha t) (sk_active s)"
proof -
  let ?key = "transfer_key sha t" and ?request = "or_request (pr_request p) (tr_request t)"
  note f = finalize_transfer_def[of sha now t dir p turn call s, unfolded Let_def]
  show ?thesis
  proof (cases "staged (sk_disk s) (tr_dir t) (staging_name ?key)")
    case None
    then show ?thesis using assms failed by (auto simp: f split: if_splits)
  next
    case st: (Some content)
    show ?thesis
    proof (cases "check_content sha (tr_size t) (tr_sha t) content")
      case (Inl e)
      have "e \<noteq> Pending n k m x" for n k m x using Inl by (auto simp: check_content_def split: if_splits)
      then show ?thesis using assms st Inl failed by (auto simp: f split: if_splits)
    next
      case ok: (Inr u)
      have some: "\<not> (tr_size t = None \<and> tr_sha t = None)" using ok check_content_Inr[of sha "tr_size t" "tr_sha t" content] by simp
      show ?thesis
      proof (cases "plan_final_path sha dir (tr_identity t) (length content) (sha content) (sk_disk s)")
        case (Inl e)
        have e: "e \<noteq> Pending n k m x" for n k m x
          using Inl by (auto simp: plan_final_path_def ensure_contained_def split: if_splits)
        have "r = Inl e" "s' = s" using assms st ok some Inl by (simp_all add: f)
        then show ?thesis using failed e by simp
      next
        case plan: (Inr q)
        obtain name reuse d2 where q: "q = (name, reuse, d2)" by (cases q) auto
        let ?a = "made_artifact sha (tr_identity t) dir name content ?request turn call"
        let ?b = "made_artifact sha (tr_identity t) dir name content (pr_request p) turn call"
        have m: "(r, s') = (if reuse then (Inr ?a, on_disk (deliver_sidecar sha now ?b) (drop_staging sha t (s\<lparr>sk_disk := d2\<rparr>)))
             else case commit_staged (tr_dir t) ?key dir name content d2 of
                Inl e \<Rightarrow> (Inl e, s\<lparr>sk_disk := d2\<rparr>)
              | Inr d3 \<Rightarrow> (Inr ?a, on_disk (write_sidecar sha now ?a) (drop_staging sha t (s\<lparr>sk_disk := d3\<rparr>))))"
          using assms st ok some plan q by (simp add: f)
        show ?thesis
        proof (cases "reuse \<or> name \<noteq> ''.staging''")
          case False
          then have c: "commit_staged (tr_dir t) ?key dir name content d2 = Inl IoError" by (simp add: commit_staged_def)
          have "d2 = sk_disk s" by (rule commit_Inl[OF c plan[unfolded q]])
          then have "r = Inl IoError" "s' = s" using m False c by simp_all
          then show ?thesis using failed by simp
        next
          case True
          let ?d3 = "write_file dir name content (unlink_staged (tr_dir t) (staging_name ?key) d2)"
          have r: "r = Inr ?a" "s' = (if reuse then on_disk (deliver_sidecar sha now ?b) (drop_staging sha t (s\<lparr>sk_disk := d2\<rparr>))
               else on_disk (write_sidecar sha now ?a) (drop_staging sha t (s\<lparr>sk_disk := ?d3\<rparr>)))"
            using m True by (auto simp: commit_staged_def split: if_splits)
          have same: "file_at (deliver_sidecar sha now b (unlink_both x k d)) = file_at (deliver_sidecar sha now b d)"
            "file_at (write_sidecar sha now b (unlink_both x k d)) = file_at (write_sidecar sha now b d)"
            "file_at (write_sidecar sha now b (write_file dir name c (unlink_staged x k d))) = file_at (write_sidecar sha now b (write_file dir name c d))"
            for b x k d c by (simp_all add: fun_eq_iff deliver_sidecar_def read_sidecar_def file_at_sidecar)
          show ?thesis
          proof (rule delivered[OF r(1) _ st])
            show "check_content sha (tr_size t) (tr_sha t) content = Inr ()" using ok by simp
            show "delivery sha now (tr_identity t) dir content ?a (sk_disk s) (sk_disk s')"
              unfolding delivery_def
              by (rule exI[of _ reuse], rule exI[of _ d2], rule exI[of _ "if reuse then ?b else ?a"])
                (use plan q r(2) same in \<open>simp add: drop_staging_def Let_def\<close>)
            show "sk_active s' = AList.delete ?key (sk_active s)" using r(2) by (simp add: drop_staging_def Let_def)
          qed
        qed
      qed
    qed
  qed
qed


definition transfer_ok :: "(pystr \<Rightarrow> pystr) \<Rightarrow> pystr \<Rightarrow> transfer \<Rightarrow> bool" where
  "transfer_ok sha key t \<longleftrightarrow>
     transfer_key sha t = key \<and> 0 \<le> tr_next t \<and> (\<exists>n. tr_total t = Some n \<and> tr_next t \<le> n)
     \<and> set (tr_seen t) = {0..<tr_next t} \<and> tr_received t \<le> MAX_ARTIFACT_BYTES"

lemma accept_one_ok:
  assumes "accept_one_chunk sha p c (t, d) = Inr (t', d')" "transfer_ok sha key t"
  shows "transfer_ok sha key t'" "tr_dir t' = tr_dir t" "tr_identity t' = tr_identity t"
proof -
  obtain content where c: "\<not> chunk_refused p c t" and "b64decode (pc_content c) = Some content"
    and fits: "tr_received t + length content \<le> MAX_ARTIFACT_BYTES"
    and t': "t' = t\<lparr>tr_total := (if tr_total t = None then pc_total c else tr_total t),
            tr_received := tr_received t + length content, tr_seen := pc_index c # tr_seen t, tr_next := pc_index c + 1\<rparr>"
    and "d' = write_meta sha t' (append_staged (tr_dir t) (staging_name (transfer_key sha t)) content d)"
    by (rule accept_one_Inr[OF assms(1)])
  from assms(2) obtain n where n: "tr_total t = Some n" "tr_next t \<le> n" "0 \<le> tr_next t" "set (tr_seen t) = {0..<tr_next t}" "transfer_key sha t = key"
    by (auto simp: transfer_ok_def)
  have next_is: "pc_index c = tr_next t" using c by (simp add: chunk_refused_def)
  have "pc_index c < n" using c n(1) by (cases "pc_total c") (auto simp: chunk_refused_def)
  moreover have "insert (tr_next t) {0..<tr_next t} = {0..<tr_next t + 1}" using n(3) by auto
  ultimately show "transfer_ok sha key t'" "tr_dir t' = tr_dir t" "tr_identity t' = tr_identity t"
    using n fits next_is by (simp_all add: t' transfer_ok_def transfer_key_def)
qed

lemma accept_chunks_ok:
  assumes "accept_chunks sha p cs (t, d) = Inr (t', d')" "transfer_ok sha key t"
  shows "transfer_ok sha key t' \<and> tr_dir t' = tr_dir t \<and> tr_identity t' = tr_identity t"
  using assms
proof (induction cs arbitrary: t d)
  case (Cons c cs)
  then obtain t1 d1 where c: "accept_one_chunk sha p c (t, d) = Inr (t1, d1)" and cs: "accept_chunks sha p cs (t1, d1) = Inr (t', d')"
    by auto
  show ?case using Cons.IH[OF cs accept_one_ok(1)[OF c Cons.prems(2)]] accept_one_ok(2,3)[OF c Cons.prems(2)] by simp
qed simp

lemma new_transfer_ok:
  assumes "new_transfer p i dir = Inr t"
  shows "transfer_ok sha (artifact_key sha i) t" "tr_dir t = dir" "tr_identity t = i"
  using assms by (auto simp: new_transfer_def transfer_ok_def transfer_key_def Let_def split: if_splits option.splits)

text \<open>The transfers of a sink: each is stored under its own key, in the directory of its session, and waits for chunks.\<close>

definition sink_ok :: "(pystr \<Rightarrow> pystr) \<Rightarrow> (pystr \<Rightarrow> pystr) \<Rightarrow> sink \<Rightarrow> bool" where
  "sink_ok sha dir_of s \<longleftrightarrow>
     (\<forall>key t. active_of key s = Some t \<longrightarrow>
        transfer_ok sha key t \<and> Some (tr_next t) \<noteq> tr_total t \<and> tr_dir t = dir_of (ai_session (tr_identity t)))"

definition fewer :: "sink \<Rightarrow> sink \<Rightarrow> bool" where
  "fewer s' s \<longleftrightarrow> (\<forall>key t. active_of key s' = Some t \<longrightarrow> active_of key s = Some t)"

lemma sink_ok_fewer: "sink_ok sha dir_of s \<Longrightarrow> fewer s' s \<Longrightarrow> sink_ok sha dir_of s'"
  by (auto simp: sink_ok_def fewer_def)

lemma active_simps [simp]:
  "active_of k (put_active key t s) = (if k = key then Some t else active_of k s)"
  "active_of k (s\<lparr>sk_disk := d\<rparr>) = active_of k s"
  "active_of k (s\<lparr>sk_active := AList.delete key (sk_active s)\<rparr>) = (if k = key then None else active_of k s)"
  "active_of k (drop_staging sha t s) = (if k = transfer_key sha t then None else active_of k s)"
  by (simp_all add: active_of_def put_active_def update_conv' delete_conv' drop_staging_def Let_def on_disk_def)

lemma drop_transfer_active:
  "active_of k (drop_transfer sha dir i s) = Some t \<Longrightarrow> active_of k s = Some t \<and> k \<noteq> artifact_key sha i"
  by (auto simp: drop_transfer_def Let_def split: option.splits if_splits)

lemma drop_active_fewer: "fewer (drop_active_for sha i s) s"
proof -
  have "active_of k (fold (\<lambda>t. if same_request (tr_identity t) i then drop_staging sha t else id) ts s) = Some t \<Longrightarrow> active_of k s = Some t" for ts k t
  proof (induction ts arbitrary: s)
    case (Cons a ts)
    have "active_of k ((if same_request (tr_identity a) i then drop_staging sha a else id) s) = Some t"
      by (rule Cons.IH) (use Cons.prems in \<open>simp only: fold_Cons o_apply\<close>)
    then show ?case by (auto split: if_splits)
  qed simp
  then show ?thesis by (simp add: fewer_def drop_active_for_def)
qed

lemma active_start:
  assumes "(case active_of (artifact_key sha i) s of
              Some t \<Rightarrow> Inr (t, sk_disk s)
            | None \<Rightarrow> bind_download (new_transfer p i dir) (\<lambda>t. Inr (t, write_meta sha t (sk_disk s)))) = Inr (t0, d0)"
    and "sink_ok sha dir_of s" "dir = dir_of (ai_session i)"
  shows "transfer_ok sha (artifact_key sha i) t0" "tr_dir t0 = dir_of (ai_session (tr_identity t0))" "dk_files d0 = dk_files (sk_disk s)"
    "tr_identity t0 = i \<or> (\<exists>x. active_of (artifact_key sha i) s = Some x \<and> tr_identity t0 = tr_identity x)"
  using assms new_transfer_ok(1)[of p i dir t0 sha] new_transfer_ok(2,3)[of p i dir t0] by (auto simp: sink_ok_def split: option.splits)

definition is_pending :: "download_error \<Rightarrow> bool" where
  "is_pending e \<longleftrightarrow> (case e of Pending n k m x \<Rightarrow> True | _ \<Rightarrow> False)"

lemma is_pending_simps [simp]:
  "\<not> is_pending LimitError" "\<not> is_pending ChunkError" "\<not> is_pending PathError" "\<not> is_pending Base64Error" "is_pending (Pending n k m x)"
  by (simp_all add: is_pending_def)

lemma accept_response_Inl:
  "accept_inner sha now p i dir turn call s = (Inl e, s1) \<Longrightarrow> \<not> is_pending e \<Longrightarrow>
     accept_response sha now p i dir turn call s = (Inl e, drop_transfer sha dir i s1)"
  by (cases e) (simp_all add: accept_response_def is_pending_def)

lemma start_not_pending:
  "(case x of Some t \<Rightarrow> Inr (t, d) | None \<Rightarrow> bind_download (new_transfer p i dir) (\<lambda>t. Inr (t, f t))) = Inl e \<Longrightarrow> \<not> is_pending e"
  by (cases x; cases "new_transfer p i dir") (auto simp: new_transfer_def Let_def is_pending_def split: option.splits if_splits)

lemma one_not_pending: "accept_one_chunk sha p c (t, d) = Inl e \<Longrightarrow> \<not> is_pending e"
  by (auto simp: accept_one_chunk_def Let_def is_pending_def split: option.splits if_splits)

lemma chunks_not_pending: "accept_chunks sha p cs (t, d) = Inl e \<Longrightarrow> \<not> is_pending e"
proof (induction cs arbitrary: t d)
  case (Cons c cs)
  then show ?case by (cases "accept_one_chunk sha p c (t, d)") (auto dest: one_not_pending)
qed simp

lemma sanitize_not_pending: "sanitize_name n = Inl e \<Longrightarrow> e = PathError"
  by (auto simp: sanitize_name_def Let_def split: if_splits)

lemma metadata_not_pending:
  assumes "note_metadata p f t = Inl e" shows "\<not> is_pending e"
proof -
  have name: "bind_download (sanitize_name n) (\<lambda>x. if x \<noteq> f then Inl ChunkError else Inr u) = Inl e \<Longrightarrow> \<not> is_pending e" for n and u :: transfer
    by (cases "sanitize_name n") (auto dest: sanitize_not_pending split: if_splits)
  define N where "N u = (case pr_name p of None \<Rightarrow> Inr u | Some n \<Rightarrow> bind_download (sanitize_name n) (\<lambda>x. if x \<noteq> f then Inl ChunkError else Inr u))"
    for u :: transfer
  have last: "N u = Inl e \<Longrightarrow> \<not> is_pending e" for u
    using name unfolding N_def by (cases "pr_name p") auto
  define M where "M v = bind_download (case pr_sha p of None \<Rightarrow> Inr v
       | Some h \<Rightarrow> if tr_sha v = None then Inr (v\<lparr>tr_sha := Some h\<rparr>) else if tr_sha v \<noteq> Some h then Inl ChunkError else Inr v) N" for v
  have mid: "\<not> is_pending e" if "M v = Inl e" for v
  proof (cases "pr_sha p")
    case None
    then show ?thesis using that last[of v] by (simp add: M_def)
  next
    case (Some h)
    then show ?thesis using that last[of v] last[of "v\<lparr>tr_sha := Some h\<rparr>"] unfolding M_def
      by (cases "tr_sha v = None"; cases "tr_sha v = Some h") auto
  qed
  have whole: "note_metadata p f t = bind_download (case pr_size p of None \<Rightarrow> Inr t
       | Some n \<Rightarrow> if int MAX_ARTIFACT_BYTES < n then Inl LimitError
           else if tr_size t = None then Inr (t\<lparr>tr_size := Some n\<rparr>) else if tr_size t \<noteq> Some n then Inl ChunkError else Inr t) M"
    unfolding note_metadata_def M_def[abs_def] N_def[abs_def] ..
  show ?thesis
  proof (cases "pr_size p")
    case None
    then show ?thesis using assms mid[of t] by (simp add: whole)
  next
    case (Some n)
    then show ?thesis using assms mid[of t] mid[of "t\<lparr>tr_size := Some n\<rparr>"] unfolding whole
      by (cases "int MAX_ARTIFACT_BYTES < n"; cases "tr_size t = None"; cases "tr_size t = Some n") auto
  qed
qed

text \<open>A response with chunks: more is needed, it fails, or the file is delivered.\<close>

lemma accept_cases:
  assumes "accept_response sha now p i dir turn call s = (r, s')" and ok: "sink_ok sha dir_of s" "dir = dir_of (ai_session i)"
  obtains (pending) t :: transfer where "r = Inl (Pending (ai_filename i) (tr_next t) (tr_total t) (tr_next t))" "sk_active s' = AList.update (artifact_key sha i) t (sk_active s)"
      "dk_files (sk_disk s') = dk_files (sk_disk s)" "transfer_ok sha (artifact_key sha i) t" "Some (tr_next t) \<noteq> tr_total t"
      "tr_dir t = dir_of (ai_session (tr_identity t))"
      "tr_identity t = i \<or> (\<exists>x. active_of (artifact_key sha i) s = Some x \<and> tr_identity t = tr_identity x)"
  | (failed) e s1 where "r = Inl e" "s' = drop_transfer sha dir i s1" "\<not> is_pending e" "dk_files (sk_disk s') = dk_files (sk_disk s)"
      "\<And>k. k \<noteq> artifact_key sha i \<Longrightarrow> active_of k s1 = active_of k s"
  | (delivered) a content e and t :: transfer where "r = Inr a" "check_content sha (tr_size t) (tr_sha t) content = Inr ()"
      "pr_size p \<noteq> None \<Longrightarrow> tr_size t = pr_size p" "pr_sha p \<noteq> None \<Longrightarrow> tr_sha t = pr_sha p"
      "dk_files e = dk_files (sk_disk s)" "delivery sha now (tr_identity t) dir content a e (sk_disk s')"
      "\<And>k x. active_of k s' = Some x \<Longrightarrow> active_of k s = Some x \<and> k \<noteq> artifact_key sha i"
      "tr_identity t = i \<or> (\<exists>x. active_of (artifact_key sha i) s = Some x \<and> tr_identity t = tr_identity x)"
proof -
  let ?key = "artifact_key sha i"
  obtain r1 s1 where inner: "accept_inner sha now p i dir turn call s = (r1, s1)" by (cases "accept_inner sha now p i dir turn call s") auto
  let ?start = "case active_of ?key s of
              Some t \<Rightarrow> Inr (t, sk_disk s)
            | None \<Rightarrow> bind_download (new_transfer p i dir) (\<lambda>t. Inr (t, write_meta sha t (sk_disk s)))"
  show ?thesis
  proof (cases "?start")
    case (Inl e)
    then have i1: "r1 = Inl e" "s1 = s" using inner by (simp_all add: accept_inner_def Let_def)
    have "r = Inl e" "s' = drop_transfer sha dir i s"
      using assms(1) accept_response_Inl[OF inner[unfolded i1]] start_not_pending[OF Inl] by simp_all
    then show ?thesis using failed start_not_pending[OF Inl] by simp
  next
    case start: (Inr td)
    obtain t0 d0 where td: "td = (t0, d0)" by (cases td)
    note t0 = active_start[OF start[unfolded td] ok]
    let ?go = "bind_download (accept_chunks sha p (pr_chunks p) (t0, d0)) (\<lambda>(t, d). bind_download (note_metadata p (ai_filename i) t) (\<lambda>t'. Inr (t', d)))"
    show ?thesis
    proof (cases ?go)
      case (Inl e)
      have np: "\<not> is_pending e"
      proof (cases "accept_chunks sha p (pr_chunks p) (t0, d0)")
        case (Inr td')
        then show ?thesis using Inl by (cases td'; cases "note_metadata p (ai_filename i) (fst td')") (auto dest: metadata_not_pending)
      qed (use Inl in \<open>auto dest: chunks_not_pending\<close>)
      have i1: "r1 = Inl e" "s1 = (put_active ?key t0 s)\<lparr>sk_disk := d0\<rparr>" using inner start td Inl by (simp_all add: accept_inner_def Let_def)
      have "r = Inl e" "s' = drop_transfer sha dir i s1"
        using assms(1) accept_response_Inl[OF inner[unfolded i1] np] i1 by simp_all
      then show ?thesis using failed[of e s1] np t0(3) i1 by simp
    next
      case go: (Inr q)
      obtain t d where q: "q = (t, d)" by (cases q)
      then obtain t1 where chunks: "accept_chunks sha p (pr_chunks p) (t0, d0) = Inr (t1, d)" and note_: "note_metadata p (ai_filename i) t1 = Inr t"
        using go by auto
      note c = accept_chunks_ok[OF chunks t0(1)] and m = note_metadata_Inr[OF note_]
      have "transfer_ok sha ?key t1" "tr_dir t1 = dir_of (ai_session (tr_identity t1))" using c t0(2) by simp_all
      then have t: "transfer_ok sha ?key t" "tr_dir t = dir_of (ai_session (tr_identity t))"
        unfolding m transfer_ok_def transfer_key_def by simp_all
      have who: "tr_identity t = i \<or> (\<exists>x. active_of ?key s = Some x \<and> tr_identity t = tr_identity x)"
        using c t0(4) unfolding m by simp
      have files: "dk_files d = dk_files (sk_disk s)" using accept_chunks_files[OF chunks] t0(3) by simp
      let ?s1 = "(put_active ?key t s)\<lparr>sk_disk := d\<rparr>"
      have i1: "(r1, s1) = (if (case tr_total t of None \<Rightarrow> False | Some n \<Rightarrow> n \<le> tr_next t) then finalize_transfer sha now t dir p turn call ?s1
          else (Inl (Pending (ai_filename i) (tr_next t) (tr_total t) (tr_next t)), ?s1))"
        using inner start td go q by (simp add: accept_inner_def Let_def)
      show ?thesis
      proof (cases "case tr_total t of None \<Rightarrow> False | Some n \<Rightarrow> n \<le> tr_next t")
        case False
        then have "r = Inl (Pending (ai_filename i) (tr_next t) (tr_total t) (tr_next t))" "s' = ?s1"
          using assms(1) inner i1 by (simp_all add: accept_response_def)
        moreover have "Some (tr_next t) \<noteq> tr_total t" using False by (cases "tr_total t") auto
        ultimately show ?thesis using pending[of t] t files who by (simp add: put_active_def)
      next
        case True
        then have fin: "finalize_transfer sha now t dir p turn call ?s1 = (r1, s1)" using i1 by simp
        from fin show ?thesis
        proof (cases rule: finalize_cases)
          case (failed e)
          then have np: "\<not> is_pending e" by (cases e) (auto simp: is_pending_def)
          have "r = Inl e" "s' = drop_transfer sha dir i s1"
            using assms(1) accept_response_Inl[OF inner[unfolded failed(1)] np] by simp_all
          then show ?thesis using that(2)[of e s1] np failed files by (simp add: active_of_def put_active_def update_conv')
        next
          case (delivered a content)
          have "r = Inr a" and "s' = s1" using assms(1) inner delivered(1) by (simp_all add: accept_response_def)
          have key: "transfer_key sha t = ?key" using t(1) by (simp add: transfer_ok_def)
          have gone: "active_of k s1 = (if k = ?key then None else active_of k s)" for k
            using delivered(5) by (simp add: active_of_def put_active_def update_conv' delete_conv' key)
          show ?thesis
          proof (rule that(3)[OF \<open>r = Inr a\<close> delivered(2)])
            show "pr_size p \<noteq> None \<Longrightarrow> tr_size t = pr_size p" "pr_sha p \<noteq> None \<Longrightarrow> tr_sha t = pr_sha p" unfolding m by auto
            show "dk_files d = dk_files (sk_disk s)" by (rule files)
            show "delivery sha now (tr_identity t) dir content a d (sk_disk s')" using delivered(4) \<open>s' = s1\<close> by simp
            show "active_of k s' = Some x \<Longrightarrow> active_of k s = Some x \<and> k \<noteq> ?key" for k x
              using gone[of k] \<open>s' = s1\<close> by (simp split: if_splits)
            show "tr_identity t = i \<or> (\<exists>x. active_of ?key s = Some x \<and> tr_identity t = tr_identity x)" by (rule who)
          qed
        qed
      qed
    qed
  qed
qed


subsection \<open>The sink as a whole\<close>

lemma sweep_active [simp]: "active_of k (sweep_stale_once dir s) = active_of k s"
  by (simp add: sweep_stale_once_def active_of_def)

lemma sink_ok_sweep [simp]: "sink_ok sha dir_of (sweep_stale_once dir s) = sink_ok sha dir_of s"
  by (simp add: sink_ok_def)

definition request_identity :: "(pystr \<Rightarrow> pystr) \<Rightarrow> pystr \<Rightarrow> pystr \<Rightarrow> pystr \<Rightarrow> dict \<Rightarrow> pystr \<Rightarrow> artifact_identity" where
  "request_identity sha session server tool kwargs filename =
     \<lparr>ai_session = session, ai_server = server, ai_tool = tool, ai_args_hash = canonical_args_hash sha kwargs, ai_filename = filename\<rparr>"

lemma materialize_cases:
  assumes "materialize sha dir_of now result session server tool kwargs turn call s = (r, s')"
  obtains (refused) e where "r = Inl e" "dk_files (sk_disk s') = dk_files (sk_disk s)" "fewer s' s"
      "parse_mcp_result result = Inl e \<or> (\<exists>p. parse_mcp_result result = Inr p \<and> (pr_explicit_error p \<or> download_name p kwargs = Inl e))"
  | (chunks) p filename where "parse_mcp_result result = Inr p" "\<not> pr_explicit_error p" "download_name p kwargs = Inr filename"
      "accept_response sha now p (request_identity sha session server tool kwargs filename) (dir_of session) turn call
         (sweep_stale_once (dir_of session) s) = (r, s')"
  | (whole) p filename d where "parse_mcp_result result = Inr p" "\<not> pr_explicit_error p" "download_name p kwargs = Inr filename"
      "materialize_single sha now p (request_identity sha session server tool kwargs filename) (dir_of session) turn call (sk_disk (sweep_stale_once (dir_of session) s)) = (r, d)"
      "s' = (sweep_stale_once (dir_of session) s)\<lparr>sk_disk := d\<rparr>"
proof -
  let ?s = "sweep_stale_once (dir_of session) s"
  note m = materialize_def[of sha dir_of now result session server tool kwargs turn call s, folded request_identity_def, unfolded Let_def]
  have same: "fewer ?s s" by (simp add: fewer_def)
  show ?thesis
  proof (cases "parse_mcp_result result")
    case (Inl e)
    then have "r = Inl e" "s' = ?s" using assms by (simp_all add: m)
    then show ?thesis using refused[of e] same Inl by simp
  next
    case p: (Inr p)
    show ?thesis
    proof (cases "download_name p kwargs")
      case (Inl e)
      then have "r = Inl e" "s' = ?s" using assms p by (simp_all add: m)
      then show ?thesis using refused[of e] same p Inl by simp
    next
      case name: (Inr filename)
      let ?i = "request_identity sha session server tool kwargs filename"
      show ?thesis
      proof (cases "pr_explicit_error p")
        case True
        let ?e = "ServerError (case pr_error_text p of None \<Rightarrow> '''' | Some t \<Rightarrow> t)"
        have "r = Inl ?e" "s' = (if active_of (artifact_key sha ?i) ?s \<noteq> None then drop_transfer sha (dir_of session) ?i ?s else drop_active_for sha ?i ?s)"
          using assms p name True by (simp_all add: m)
        moreover have "fewer (drop_transfer sha (dir_of session) ?i ?s) s" "fewer (drop_active_for sha ?i ?s) s"
          using drop_active_fewer[of sha ?i ?s] by (auto simp: fewer_def dest: drop_transfer_active)
        ultimately show ?thesis using refused[of ?e] p True by simp
      next
        case False
        show ?thesis
        proof (cases "multi_chunk p")
          case True
          then show ?thesis using assms p name False chunks[of p filename] by (simp add: m)
        next
          case no: False
          obtain d where "materialize_single sha now p ?i (dir_of session) turn call (sk_disk ?s) = (r, d)" "s' = ?s\<lparr>sk_disk := d\<rparr>"
            using assms p name False no by (simp add: m split: prod.splits)
          then show ?thesis using whole[of p filename d] p name False by simp
        qed
      qed
    qed
  qed
qed

lemma sink_ok_materialize:
  assumes "sink_ok sha dir_of s"
  shows "sink_ok sha dir_of (snd (materialize sha dir_of now result session server tool kwargs turn call s))"
proof -
  obtain r s' where m: "materialize sha dir_of now result session server tool kwargs turn call s = (r, s')"
    by (cases "materialize sha dir_of now result session server tool kwargs turn call s")
  from m have "sink_ok sha dir_of s'"
  proof (cases rule: materialize_cases)
    case (refused e)
    then show ?thesis using sink_ok_fewer[OF assms] by simp
  next
    case (whole p filename d)
    then show ?thesis using assms sink_ok_sweep[of sha dir_of "dir_of session" s] by (simp add: sink_ok_def)
  next
    case (chunks p filename)
    let ?i = "request_identity sha session server tool kwargs filename"
    let ?s = "sweep_stale_once (dir_of session) s"
    have ok: "sink_ok sha dir_of ?s" using assms by simp
    have dir: "dir_of session = dir_of (ai_session ?i)" by (simp add: request_identity_def)
    from chunks(4) ok dir show ?thesis
    proof (cases rule: accept_cases)
      case (pending t)
      then have "active_of k s' = (if k = artifact_key sha ?i then Some t else active_of k ?s)" for k
        by (simp add: active_of_def update_conv')
      then show ?thesis using ok pending(4-6) by (auto simp: sink_ok_def)
    next
      case (failed e s1)
      have "active_of k s' = Some t \<Longrightarrow> active_of k ?s = Some t" for k t
        using drop_transfer_active[of k sha "dir_of session" ?i s1 t] failed(2,5) by auto
      then show ?thesis using sink_ok_fewer[OF ok] by (simp add: fewer_def)
    next
      case (delivered a content e t)
      then show ?thesis using sink_ok_fewer[OF ok] by (simp add: fewer_def)
    qed
  qed
  then show ?thesis by (simp add: m)
qed

text \<open>The histories of a sink: it starts empty, takes responses, and everything else may change the disk between them.\<close>

inductive sink_reach :: "(pystr \<Rightarrow> pystr) \<Rightarrow> (pystr \<Rightarrow> pystr) \<Rightarrow> sink \<Rightarrow> bool" for sha dir_of where
  fresh_sink: "sink_reach sha dir_of \<lparr>sk_active = [], sk_swept = [], sk_disk = d\<rparr>"
| takes: "sink_reach sha dir_of s \<Longrightarrow>
    sink_reach sha dir_of (snd (materialize sha dir_of now result session server tool kwargs turn call s))"
| others: "sink_reach sha dir_of s \<Longrightarrow> sink_reach sha dir_of (s\<lparr>sk_disk := d\<rparr>)"

lemma sink_ok_reach: "sink_reach sha dir_of s \<Longrightarrow> sink_ok sha dir_of s"
  by (induction rule: sink_reach.induct) (auto simp: sink_ok_materialize, simp_all add: sink_ok_def active_of_def)

text \<open>A transfer in progress, after any responses and any changes of the disk by others: it is stored under the key of its own
  artifact, has received exactly the chunks before the next one, is not complete, and holds at most 256 MiB.\<close>

theorem transfer_bounds:
  assumes "sink_reach sha dir_of s" "active_of key s = Some t"
  shows "artifact_key sha (tr_identity t) = key \<and> set (tr_seen t) = {0..<tr_next t} \<and> tr_received t \<le> 256 * 1024 * 1024
    \<and> (\<exists>n. tr_total t = Some n \<and> 0 \<le> tr_next t \<and> tr_next t < n)"
proof -
  have "transfer_ok sha key t" "Some (tr_next t) \<noteq> tr_total t" using sink_ok_reach[OF assms(1)] assms(2) by (auto simp: sink_ok_def)
  then show ?thesis by (auto simp: transfer_ok_def transfer_key_def MAX_ARTIFACT_BYTES_def)
qed

text \<open>C12. A file that is reported as delivered is there: it has the size and the digest of the report, and they are those the
  response declares, where it declares any (an empty digest declares none).\<close>

theorem delivered_is_verified:
  assumes "sink_reach sha dir_of s" "materialize sha dir_of now result session server tool kwargs turn call s = (Inr a, s')"
  shows "\<exists>c p. file_at (sk_disk s') (ar_dir a) (ar_name a) = Some c \<and> length c = ar_size a \<and> sha c = ar_sha a
    \<and> parse_mcp_result result = Inr p \<and> \<not> pr_explicit_error p
    \<and> pr_size p \<in> {None, Some (int (ar_size a))} \<and> pr_sha p \<in> {None, Some '''', Some (ar_sha a)}"
proof -
  have checked: "n \<in> {None, Some (int (ar_size a))} \<and> h \<in> {None, Some '''', Some (ar_sha a)}"
    if "check_content sha n h content = Inr ()" "ar_size a = length content" "ar_sha a = sha content" for n h content
    using that by (cases n; cases h) (auto simp: check_content_Inr size_differs_def sha_differs_def)
  have parts: "ar_size a = length content \<and> ar_sha a = sha content \<and> ar_dir a = dir" if "delivery sha now i dir content a d d'" for now i dir content d d'
    using that by (auto simp: delivery_def)
  from assms(2) show ?thesis
  proof (cases rule: materialize_cases)
    case (whole p filename d)
    from whole(4) show ?thesis
    proof (cases rule: single_cases)
      case (delivered b content e)
      then have ab: "a = b" by simp
      show ?thesis using delivery_file[OF delivered(5)] checked[OF delivered(2)] parts[OF delivered(5)[folded ab]] whole ab by auto
    qed simp
  next
    case (chunks p filename)
    let ?i = "request_identity sha session server tool kwargs filename"
    have ok: "sink_ok sha dir_of (sweep_stale_once (dir_of session) s)" using sink_ok_reach[OF assms(1)] by simp
    have dir: "dir_of session = dir_of (ai_session ?i)" by (simp add: request_identity_def)
    from chunks(4) ok dir show ?thesis
    proof (cases rule: accept_cases)
      case (delivered b content e t)
      then have ab: "a = b" by simp
      have c: "tr_size t \<in> {None, Some (int (ar_size a))} \<and> tr_sha t \<in> {None, Some '''', Some (ar_sha a)}"
        using checked[OF delivered(2)] parts[OF delivered(6)[folded ab]] by simp
      have "pr_size p \<in> {None, Some (int (ar_size a))}" using c delivered(3) by (cases "pr_size p") auto
      moreover have "pr_sha p \<in> {None, Some '''', Some (ar_sha a)}" using c delivered(4) by (cases "pr_sha p") auto
      ultimately show ?thesis using delivery_file[OF delivered(6)] parts[OF delivered(6)[folded ab]] chunks ab by auto
    qed simp_all
  qed simp
qed




subsection \<open>Names\<close>

lemma sanitize_Inr:
  assumes "sanitize_name raw = Inr n"
  obtains cleaned where "cleaned \<noteq> ''''" "n = cleaned \<or> n = CHR ''_'' # cleaned" "set cleaned \<subseteq> set raw - {c. invalid_name_char c}"
    "CHR ''/'' \<notin> set cleaned" "CHR 0x5C \<notin> set cleaned"
    "n = cleaned \<longrightarrow> py_lower (hd (py_split_ch (CHR ''.'') cleaned)) \<notin> set RESERVED_WIN_NAMES"
proof -
  let ?c = "py_strip (filter (\<lambda>c. \<not> invalid_name_char c) (py_strip raw))"
  have strip: "set (py_strip s) \<subseteq> set s" for s
    using set_py_rstrip_of[of py_isspace "dropWhile py_isspace s"] set_dropWhileD by (fastforce simp: py_strip_def)
  have p: "\<not> path_like (py_strip raw)" "?c \<noteq> ''''"
    using assms by (auto simp: sanitize_name_def Let_def split: if_splits)
  have n: "n = (if py_lower (hd (py_split_ch (CHR ''.'') ?c)) \<in> set RESERVED_WIN_NAMES then CHR ''_'' # ?c else ?c)"
    using assms by (auto simp: sanitize_name_def Let_def split: if_splits)
  have sub: "set ?c \<subseteq> set (py_strip raw) - {c. invalid_name_char c}" using strip[of "filter (\<lambda>c. \<not> invalid_name_char c) (py_strip raw)"] by auto
  have "CHR ''/'' \<notin> set (py_strip raw)" "CHR 0x5C \<notin> set (py_strip raw)" using p(1) by (auto simp: path_like_def)
  then have seps: "CHR ''/'' \<notin> set ?c" "CHR 0x5C \<notin> set ?c" using sub by blast+
  show ?thesis
  proof (rule that[OF p(2) _ _ seps])
    show "n = ?c \<or> n = CHR ''_'' # ?c" unfolding n by (simp del: filter_filter)
    show "set ?c \<subseteq> set raw - {c. invalid_name_char c}" using sub strip[of raw] by blast
    show "n = ?c \<longrightarrow> py_lower (hd (py_split_ch (CHR ''.'') ?c)) \<notin> set RESERVED_WIN_NAMES"
      using n by (cases "py_lower (hd (py_split_ch (CHR ''.'') ?c)) \<in> set RESERVED_WIN_NAMES") simp_all
  qed
qed

text \<open>A name that is accepted names a file: it is not empty, has no separator, no colon, no other character that Windows
  refuses and no control character, and is not one of the device names, whatever its extension.\<close>

theorem sanitized_name_is_plain:
  assumes "sanitize_name raw = Inr n"
  shows "n \<noteq> '''' \<and> CHR ''/'' \<notin> set n \<and> CHR 0x5C \<notin> set n \<and> (\<forall>c \<in> set n. \<not> invalid_name_char c)
    \<and> py_lower (hd (py_split_ch (CHR ''.'') n)) \<notin> set RESERVED_WIN_NAMES"
proof -
  obtain cleaned where c: "cleaned \<noteq> ''''" "n = cleaned \<or> n = CHR ''_'' # cleaned" "set cleaned \<subseteq> set raw - {c. invalid_name_char c}"
    "CHR ''/'' \<notin> set cleaned" "CHR 0x5C \<notin> set cleaned"
    "n = cleaned \<longrightarrow> py_lower (hd (py_split_ch (CHR ''.'') cleaned)) \<notin> set RESERVED_WIN_NAMES"
    by (rule sanitize_Inr[OF assms])
  have under: "\<not> invalid_name_char (CHR ''_'')" by (simp add: invalid_name_char_def)
  have stem: "py_lower (hd (py_split_ch (CHR ''.'') n)) \<notin> set RESERVED_WIN_NAMES" if "n = CHR ''_'' # cleaned"
  proof -
    have "\<exists>w. hd (py_split_ch (CHR ''.'') n) = CHR ''_'' # w"
      unfolding that by (cases "py_split_ch (CHR ''.'') cleaned") simp_all
    then have "hd (py_lower (hd (py_split_ch (CHR ''.'') n))) = CHR ''_''" by (auto simp: py_lower_def py_lower_char_def)
    moreover have "\<forall>r \<in> set RESERVED_WIN_NAMES. hd r \<noteq> CHR ''_''" by (auto simp: RESERVED_WIN_NAMES_def)
    ultimately show ?thesis by metis
  qed
  show ?thesis
  proof (cases "n = cleaned")
    case True
    then show ?thesis using c by auto
  next
    case False
    then have n: "n = CHR ''_'' # cleaned" using c(2) by simp
    have "CHR ''/'' \<notin> set n" "CHR 0x5C \<notin> set n" "\<forall>c \<in> set n. \<not> invalid_name_char c" using c(3-5) under unfolding n by auto
    then show ?thesis using stem[OF n] unfolding n by simp
  qed
qed

theorem sanitized_name_is_plain_witness:
  "sanitize_name '' CON.txt '' = Inr ''_CON.txt'' \<and> CHR ''/'' \<notin> set ''_CON.txt''
   \<and> sanitize_name ''a/b'' = Inl PathError \<and> sanitize_name ''c:x'' = Inl PathError"
proof -
  have s: "sanitize_name '' CON.txt '' = Inr ''_CON.txt''" by code_simp
  have "sanitize_name ''a/b'' = Inl PathError" "sanitize_name ''c:x'' = Inl PathError" by code_simp+
  then show ?thesis using sanitized_name_is_plain[OF s] s by simp
qed

subsection \<open>Who a download belongs to\<close>

lemma business_dset:
  "py_startswith k ''_'' \<or> k \<in> set TRANSPORT_ARG_KEYS \<Longrightarrow> business_args (dset k v d) = business_args d"
  unfolding business_args_def dset_def by (induction d) auto

text \<open>The identity of a download does not depend on which chunk is asked for, nor on the keys the runtime adds: all calls for
  the chunks of one file have the same key.\<close>

theorem identity_is_stable:
  assumes "py_startswith k ''_'' \<or> k \<in> set TRANSPORT_ARG_KEYS"
  shows "request_identity sha session server tool (dset k v kwargs) filename = request_identity sha session server tool kwargs filename"
  using business_dset[OF assms] by (simp add: request_identity_def canonical_args_hash_def)

theorem identity_is_stable_witness:
  "request_identity id ''s'' ''miqroforge'' ''download_file'' (dset ''chunk_index'' (JNum 1) [(''path'', JStr ''/a''), (''chunk_index'', JNum 0)]) ''a''
     = request_identity id ''s'' ''miqroforge'' ''download_file'' [(''path'', JStr ''/a''), (''chunk_index'', JNum 0)] ''a''"
  by (rule identity_is_stable) (simp add: TRANSPORT_ARG_KEYS_def)


subsection \<open>A delivered file stays in the directory\<close>

definition plain_name :: "pystr \<Rightarrow> bool" where
  "plain_name n \<longleftrightarrow> n \<noteq> '''' \<and> CHR ''/'' \<notin> set n \<and> CHR 0x5C \<notin> set n"

lemma download_name_plain: "download_name p kwargs = Inr n \<Longrightarrow> plain_name n"
  using sanitized_name_is_plain by (auto simp: download_name_def plain_name_def)

lemma nat_str_plain: "c \<in> set (nat_str n) \<Longrightarrow> c \<noteq> CHR ''/'' \<and> c \<noteq> CHR 0x5C"
  using nat_str_digits[of c n] by (auto simp: py_isdigit_def)

lemma candidate_plain: "plain_name n \<Longrightarrow> plain_name (candidate_name n k)"
  unfolding plain_name_def candidate_name_def Let_def
  using nat_str_plain by (auto dest: in_set_takeD in_set_dropD)

lemma plan_plain:
  assumes "plan_final_path sha dir i n digest d = Inr (name, reuse, d')" "plain_name (ai_filename i)"
  shows "plain_name name"
  using assms(1)
proof (cases rule: plan_cases)
  case new
  then show ?thesis using unique_from_candidate[of d dir "ai_filename i" 1] candidate_plain[OF assms(2)]
    by (auto simp: unique_name_def)
qed (use assms(2) in simp_all)

definition names_ok :: "sink \<Rightarrow> bool" where
  "names_ok s \<longleftrightarrow> (\<forall>key t. active_of key s = Some t \<longrightarrow> plain_name (ai_filename (tr_identity t)))"

lemma names_ok_fewer: "names_ok s \<Longrightarrow> fewer s' s \<Longrightarrow> names_ok s'"
  by (auto simp: names_ok_def fewer_def)

lemma names_ok_materialize:
  assumes "sink_ok sha dir_of s" "names_ok s" "materialize sha dir_of now result session server tool kwargs turn call s = (r, s')"
  shows "names_ok s'" "\<And>a. r = Inr a \<Longrightarrow> plain_name (ar_name a) \<and> ar_name a \<noteq> ''..'' \<and> ar_dir a = dir_of session"
proof -
  have *: "names_ok s' \<and> (\<forall>a. r = Inr a \<longrightarrow> plain_name (ar_name a) \<and> ar_name a \<noteq> ''..'' \<and> ar_dir a = dir_of session)"
    using assms(3)
  proof (cases rule: materialize_cases)
    case (refused e)
    then show ?thesis using names_ok_fewer[OF assms(2)] by simp
  next
    case (whole p filename d)
    have "names_ok s'" using whole(5) names_ok_fewer[OF assms(2), of s'] by (simp add: fewer_def)
    have i: "plain_name (ai_filename (request_identity sha session server tool kwargs filename))"
      using download_name_plain[OF whole(3)] by (simp add: request_identity_def)
    from whole(4) show ?thesis
      by (cases rule: single_cases) (use \<open>names_ok s'\<close> i in \<open>auto simp: delivery_def dest: plan_plain plan_name\<close>)
  next
    case (chunks p filename)
    let ?i = "request_identity sha session server tool kwargs filename"
    let ?s = "sweep_stale_once (dir_of session) s"
    have ok: "sink_ok sha dir_of ?s" and dir: "dir_of session = dir_of (ai_session ?i)" using assms(1) by (simp_all add: request_identity_def)
    have names: "names_ok ?s" using names_ok_fewer[OF assms(2)] by (simp add: fewer_def)
    have i: "plain_name (ai_filename ?i)" using download_name_plain[OF chunks(3)] by (simp add: request_identity_def)
    from chunks(4) ok dir show ?thesis
    proof (cases rule: accept_cases)
      case (pending t)
      have "active_of k s' = (if k = artifact_key sha ?i then Some t else active_of k ?s)" for k
        using pending(2) by (simp add: active_of_def update_conv')
      moreover have "plain_name (ai_filename (tr_identity t))" using pending(7) i names by (auto simp: names_ok_def)
      ultimately show ?thesis using pending(1) names by (auto simp: names_ok_def)
    next
      case (failed e s1)
      have "active_of k s' = Some t \<Longrightarrow> active_of k ?s = Some t" for k t
        using drop_transfer_active[of k sha "dir_of session" ?i s1 t] failed(2,5) by auto
      then show ?thesis using names_ok_fewer[OF names] failed(1) by (simp add: fewer_def)
    next
      case (delivered a content e t)
      have "plain_name (ai_filename (tr_identity t))" using delivered(8) i names by (auto simp: names_ok_def)
      then have "plain_name (ar_name a) \<and> ar_name a \<noteq> ''..'' \<and> ar_dir a = dir_of session"
        using delivered(6) by (auto simp: delivery_def dest: plan_plain plan_name)
      moreover have "names_ok s'" using names_ok_fewer[OF names] delivered(7) by (simp add: fewer_def)
      ultimately show ?thesis using delivered(1) by simp
    qed
  qed
  then show "names_ok s'" "\<And>a. r = Inr a \<Longrightarrow> plain_name (ar_name a) \<and> ar_name a \<noteq> ''..'' \<and> ar_dir a = dir_of session" by blast+
qed

lemma names_ok_reach: "sink_reach sha dir_of s \<Longrightarrow> names_ok s"
proof (induction rule: sink_reach.induct)
  case (fresh_sink d)
  then show ?case by (simp add: names_ok_def active_of_def)
next
  case (takes s now result session server tool kwargs turn call)
  obtain r s' where "materialize sha dir_of now result session server tool kwargs turn call s = (r, s')"
    by (cases "materialize sha dir_of now result session server tool kwargs turn call s")
  then show ?case using names_ok_materialize(1)[OF sink_ok_reach[OF takes.hyps] takes.IH] by simp
next
  case (others s d)
  then show ?case by (simp add: names_ok_def)
qed

text \<open>A delivered file is a file of the session's download directory: its name has no separator and is not that of the parent.\<close>

theorem delivered_in_directory:
  assumes "sink_reach sha dir_of s" "materialize sha dir_of now result session server tool kwargs turn call s = (Inr a, s')"
  shows "ar_dir a = dir_of session \<and> ar_name a \<noteq> '''' \<and> ar_name a \<noteq> ''..'' \<and> CHR ''/'' \<notin> set (ar_name a) \<and> CHR 0x5C \<notin> set (ar_name a)"
  using names_ok_materialize(2)[OF sink_ok_reach[OF assms(1)] names_ok_reach[OF assms(1)] assms(2)] by (simp add: plain_name_def)


subsection \<open>The sidecar\<close>

lemma utf8_char_cases: "n < 256 \<Longrightarrow> 128 \<le> n \<Longrightarrow> 194 \<le> 192 + n div 64 \<and> 192 + n div 64 \<le> 195 \<and> 64 * (n div 64) + n mod 64 = (n::nat)"
  by auto

lemma utf8_decode_char: "utf8_decode (utf8_char c @ s) = map_option (\<lambda>t. c # t) (utf8_decode s)"
proof -
  define n where "n = (of_char c :: nat)"
  have n: "n < 256" "char_of n = c" by (simp_all add: n_def)
  show ?thesis
  proof (cases "n < 128")
    case True
    then show ?thesis by (simp add: utf8_char_def n_def[symmetric] Let_def)
  next
    case False
    define a where "a = 192 + n div 64"
    define b where "b = 128 + n mod 64"
    have a: "a < 256" "194 \<le> a" "a \<le> 195" "64 * (a - 192) + (b - 128) = n" and b: "b < 256" "128 \<le> b" "b < 192"
      using False n(1) utf8_char_cases[of n] by (auto simp: a_def b_def)
    have "utf8_char c = [char_of a, char_of b]" using False by (simp add: utf8_char_def Let_def n_def a_def b_def)
    then show ?thesis using a b n(2) by (simp add: of_char_of Let_def)
  qed
qed

lemma utf8_roundtrip: "utf8_decode (utf8_encode s) = Some s"
  by (induction s) (simp_all add: utf8_encode_def utf8_decode_char)

lemma sidecar_read_back:
  assumes "ar_name a \<noteq> ''.''"
  shows "read_sidecar (write_sidecar sha now a d) (ar_dir a) (ar_name a) = Some (sidecar_dict sha now a)"
proof -
  have "wf_json (JDict (sidecar_dict sha now a))"
    by (simp add: sidecar_dict_def opt_json_def split: option.split)
  then show ?thesis using assms by (simp add: read_sidecar_def file_at_sidecar utf8_roundtrip json_loads_indent)
qed

lemma owned_file_at: "file_at d = file_at e \<Longrightarrow> owned_by sha d = owned_by sha e"
  by (simp add: fun_eq_iff owned_by_def read_sidecar_def)

lemma delivery_owned:
  assumes "delivery sha now i dir content a d d'" "file_at d dir (ar_name a) = None"
  shows "owned_by sha d' dir (ar_name a) (ar_identity a) \<and> file_at d' dir (ar_name a) = Some content"
proof -
  obtain reuse d2 a0 where p: "plan_final_path sha dir i (length content) (sha content) d = Inr (ar_name a, reuse, d2)"
    and a: "ar_identity a = i" "ar_identity a0 = i" "ar_dir a0 = dir" "ar_name a0 = ar_name a"
    and f: "file_at d' = (if reuse then file_at (deliver_sidecar sha now a0 d2)
             else file_at (write_sidecar sha now a0 (write_file dir (ar_name a) content d2)))"
    using assms(1) unfolding delivery_def by blast
  from p have r: "\<not> reuse \<and> ar_name a \<noteq> ''.''"
    by (cases rule: plan_cases) (use assms(2) in \<open>auto simp: name_taken_def owned_by_def read_sidecar_def\<close>)
  then have fw: "file_at d' = file_at (write_sidecar sha now a0 (write_file dir (ar_name a) content d2))" by (simp add: f)
  have "owned_by sha (write_sidecar sha now a0 (write_file dir (ar_name a) content d2)) dir (ar_name a) i"
    using sidecar_read_back[of a0 sha now] r a by (simp add: owned_by_def sidecar_dict_def)
  moreover have "owned_by sha d' = owned_by sha (write_sidecar sha now a0 (write_file dir (ar_name a) content d2))"
    by (rule owned_file_at[OF fw])
  ultimately show ?thesis using a by (simp add: fw file_at_sidecar)
qed

text \<open>What is delivered under a new name is owned: the sidecar, written as JSON in UTF-8, is read back as that of this artifact.\<close>

theorem delivery_leaves_proof:
  assumes "sink_reach sha dir_of s" "materialize sha dir_of now result session server tool kwargs turn call s = (Inr a, s')"
    and "file_at (sk_disk s) (ar_dir a) (ar_name a) = None"
  shows "owned_by sha (sk_disk s') (ar_dir a) (ar_name a) (ar_identity a)"
proof -
  have own: ?thesis if d: "delivery sha now i dir content a e (sk_disk s')" and e: "dk_files e = dk_files (sk_disk s)" for i dir content e
  proof -
    have "ar_dir a = dir" using d by (auto simp: delivery_def)
    then show ?thesis using delivery_owned[OF d] assms(3) by (simp add: file_at_files[OF e])
  qed
  from assms(2) show ?thesis
  proof (cases rule: materialize_cases)
    case (whole p filename d)
    from whole(4) show ?thesis by (cases rule: single_cases) (use own whole(5) in auto)
  next
    case (chunks p filename)
    let ?i = "request_identity sha session server tool kwargs filename"
    have ok: "sink_ok sha dir_of (sweep_stale_once (dir_of session) s)" using sink_ok_reach[OF assms(1)] by simp
    have dir: "dir_of session = dir_of (ai_session ?i)" by (simp add: request_identity_def)
    from chunks(4) ok dir show ?thesis by (cases rule: accept_cases) (use own in auto)
  qed simp
qed


subsection \<open>Chunks in order\<close>

text \<open>The response for one chunk of a file that comes in \<open>n\<close> chunks.\<close>

definition part_response :: "nat \<Rightarrow> int option \<Rightarrow> pystr option \<Rightarrow> (nat \<Rightarrow> pystr) \<Rightarrow> nat \<Rightarrow> parsed_response" where
  "part_response n sz digest encoded k =
     \<lparr>pr_success = True, pr_explicit_error = False, pr_name = None, pr_size = sz, pr_sha = digest, pr_request = None,
      pr_chunks = [\<lparr>pc_index = int k, pc_total = Some (int n), pc_content = encoded k, pc_success = None\<rparr>], pr_structured = True,
      pr_error_text = None\<rparr>"

primrec receive_parts ::
  "(pystr \<Rightarrow> pystr) \<Rightarrow> pystr \<Rightarrow> (nat \<Rightarrow> parsed_response) \<Rightarrow> artifact_identity \<Rightarrow> pystr \<Rightarrow> nat \<Rightarrow> sink \<Rightarrow> sink" where
  "receive_parts sha now p i dir 0 s = s"
| "receive_parts sha now p i dir (Suc k) s = snd (accept_response sha now (p k) i dir '''' '''' (receive_parts sha now p i dir k s))"

lemma staging_names [simp]:
  "staging_name k \<noteq> meta_name k" "staging_name k \<noteq> part_name (meta_name k)" "meta_name k \<noteq> staging_name k" "part_name (meta_name k) \<noteq> staging_name k"
  by (simp_all add: staging_name_def meta_name_def part_name_def)

lemma staged_meta [simp]: "staged (write_meta sha t d) dir (staging_name (transfer_key sha t)) = staged d dir (staging_name (transfer_key sha t))"
  by (simp add: write_meta_def Let_def)

lemma staged_append [simp]:
  "staged (append_staged dir n c d) dir n = Some ((case staged d dir n of None \<Rightarrow> [] | Some old \<Rightarrow> old) @ c)"
  by (simp add: append_staged_def)

definition part_state ::
  "nat \<Rightarrow> int option \<Rightarrow> pystr option \<Rightarrow> (nat \<Rightarrow> pystr) \<Rightarrow> artifact_identity \<Rightarrow> pystr \<Rightarrow> nat \<Rightarrow> transfer \<Rightarrow> bool" where
  "part_state n sz digest decoded i dir k t \<longleftrightarrow>
     tr_identity t = i \<and> tr_dir t = dir \<and> tr_total t = Some (int n) \<and> tr_next t = int k
     \<and> tr_received t = length (concat (map decoded [0..<k])) \<and> set (tr_seen t) = {0..<int k}
     \<and> tr_size t = (if k = 0 then None else sz) \<and> tr_sha t = (if k = 0 then None else digest)"

text \<open>One chunk is joined.\<close>

lemma part_joined:
  assumes t: "part_state n sz digest decoded i dir k t" and k: "k < n"
    and d: "staged d dir (staging_name (artifact_key sha i)) = (if k = 0 then None else Some (concat (map decoded [0..<k])))"
    and enc: "b64decode (encoded k) = Some (decoded k)" "length (encoded k) \<le> MAX_CHUNK_BASE64_CHARS"
    and fits: "length (concat (map decoded [0..<n])) \<le> MAX_ARTIFACT_BYTES" and sz: "sz = None \<or> sz = Some (int (length (concat (map decoded [0..<n]))))"
  obtains t' d' where "bind_download (accept_chunks sha (part_response n sz digest encoded k) (pr_chunks (part_response n sz digest encoded k)) (t, d))
      (\<lambda>(t, d). bind_download (note_metadata (part_response n sz digest encoded k) f t) (\<lambda>t'. Inr (t', d))) = Inr (t', d')"
    "part_state n sz digest decoded i dir (Suc k) t'" "staged d' dir (staging_name (artifact_key sha i)) = Some (concat (map decoded [0..<Suc k]))"
    "dk_files d' = dk_files d"
proof -
  let ?p = "part_response n sz digest encoded k"
  let ?c = "\<lparr>pc_index = int k, pc_total = Some (int n), pc_content = encoded k, pc_success = None\<rparr>"
  let ?t1 = "t\<lparr>tr_total := Some (int n), tr_received := tr_received t + length (decoded k), tr_seen := int k # tr_seen t, tr_next := int k + 1\<rparr>"
  let ?d1 = "write_meta sha ?t1 (append_staged dir (staging_name (artifact_key sha i)) (decoded k) d)"
  have "length (concat (map decoded [0..<k])) + length (decoded k) \<le> length (concat (map decoded [0..<n]))"
  proof -
    have "[0..<n] = [0..<Suc k] @ [Suc k..<n]" using k by (metis Suc_leI le_add_diff_inverse upt_add_eq_append zero_le)
    then show ?thesis by simp
  qed
  then have room: "tr_received t + length (decoded k) \<le> MAX_ARTIFACT_BYTES" using t fits by (simp add: part_state_def)
  have "\<not> chunk_refused ?p ?c t" using t k by (simp add: chunk_refused_def part_state_def part_response_def)
  then have one: "accept_one_chunk sha ?p ?c (t, d) = Inr (?t1, ?d1)"
    using t enc room by (simp add: accept_one_chunk_def part_state_def transfer_key_def Let_def)
  let ?t2 = "?t1\<lparr>tr_size := sz, tr_sha := digest\<rparr>"
  have meta: "note_metadata ?p f ?t1 = Inr ?t2"
    using t sz fits by (cases sz; cases digest) (auto simp: note_metadata_def part_response_def part_state_def)
  have key: "transfer_key sha ?t1 = artifact_key sha i" using t by (simp add: transfer_key_def part_state_def)
  show ?thesis
  proof (rule that[of ?t2 ?d1])
    show "bind_download (accept_chunks sha ?p (pr_chunks ?p) (t, d)) (\<lambda>(t, d). bind_download (note_metadata ?p f t) (\<lambda>t'. Inr (t', d))) = Inr (?t2, ?d1)"
      using one meta by (simp add: part_response_def)
    have "insert (int k) {0..<int k} = {0..<1 + int k}" by auto
    then show "part_state n sz digest decoded i dir (Suc k) ?t2" using t by (simp add: part_state_def)
    show "staged ?d1 dir (staging_name (artifact_key sha i)) = Some (concat (map decoded [0..<Suc k]))"
      using d staged_meta[of sha ?t1 "append_staged dir (staging_name (artifact_key sha i)) (decoded k) d" dir] by (simp add: key)
  qed simp
qed


definition parts_received ::
  "(pystr \<Rightarrow> pystr) \<Rightarrow> nat \<Rightarrow> int option \<Rightarrow> pystr option \<Rightarrow> (nat \<Rightarrow> pystr) \<Rightarrow> artifact_identity \<Rightarrow> pystr \<Rightarrow> nat \<Rightarrow> disk \<Rightarrow> sink \<Rightarrow> bool" where
  "parts_received sha n sz digest decoded i dir k d s \<longleftrightarrow>
     dk_files (sk_disk s) = dk_files d
     \<and> staged (sk_disk s) dir (staging_name (artifact_key sha i)) = (if k = 0 then None else Some (concat (map decoded [0..<k])))
     \<and> (if k = 0 then active_of (artifact_key sha i) s = None
        else \<exists>t. active_of (artifact_key sha i) s = Some t \<and> part_state n sz digest decoded i dir k t)"

lemma part_accepted:
  assumes s: "parts_received sha n sz digest decoded i dir k d s" and k: "k < n"
    and enc: "b64decode (encoded k) = Some (decoded k)" "length (encoded k) \<le> MAX_CHUNK_BASE64_CHARS"
    and fits: "length (concat (map decoded [0..<n])) \<le> MAX_ARTIFACT_BYTES" and sz: "sz = None \<or> sz = Some (int (length (concat (map decoded [0..<n]))))"
  obtains t s1 where "accept_inner sha now (part_response n sz digest encoded k) i dir turn call s =
      (if Suc k < n then (Inl (Pending (ai_filename i) (int (Suc k)) (Some (int n)) (int (Suc k))), s1)
       else finalize_transfer sha now t dir (part_response n sz digest encoded k) turn call s1)"
    "parts_received sha n sz digest decoded i dir (Suc k) d s1" "part_state n sz digest decoded i dir (Suc k) t"
proof -
  let ?p = "part_response n sz digest encoded k" and ?key = "artifact_key sha i"
  obtain t0 d0 where start: "(case active_of ?key s of
              Some t \<Rightarrow> Inr (t, sk_disk s)
            | None \<Rightarrow> bind_download (new_transfer ?p i dir) (\<lambda>t. Inr (t, write_meta sha t (sk_disk s)))) = Inr (t0, d0)"
    and t0: "part_state n sz digest decoded i dir k t0"
    and d0: "staged d0 dir (staging_name ?key) = (if k = 0 then None else Some (concat (map decoded [0..<k])))" "dk_files d0 = dk_files d"
  proof (cases "k = 0")
    case False
    then show ?thesis using s that by (auto simp: parts_received_def)
  next
    case True
    let ?t = "\<lparr>tr_identity = i, tr_request = None, tr_dir = dir, tr_total = Some (int n), tr_next = 0, tr_received = 0, tr_seen = [],
      tr_size = None, tr_sha = None\<rparr>"
    have new: "new_transfer ?p i dir = Inr ?t" using k True by (simp add: new_transfer_def part_response_def)
    have st: "staged (write_meta sha ?t (sk_disk s)) dir (staging_name ?key) = None"
      using s True staged_meta[of sha ?t "sk_disk s" dir] by (simp add: parts_received_def transfer_key_def)
    show ?thesis
      by (rule that[of ?t "write_meta sha ?t (sk_disk s)"]) (use s True new st in \<open>simp_all add: parts_received_def part_state_def\<close>)
  qed
  obtain t d1 where go: "bind_download (accept_chunks sha ?p (pr_chunks ?p) (t0, d0))
      (\<lambda>(t, d). bind_download (note_metadata ?p (ai_filename i) t) (\<lambda>t'. Inr (t', d))) = Inr (t, d1)"
    and t: "part_state n sz digest decoded i dir (Suc k) t" "staged d1 dir (staging_name ?key) = Some (concat (map decoded [0..<Suc k]))"
      "dk_files d1 = dk_files d0"
    by (rule part_joined[where encoded = encoded and decoded = decoded, OF t0 k d0(1) enc fits sz])
  let ?s1 = "(put_active ?key t s)\<lparr>sk_disk := d1\<rparr>"
  have total: "tr_total t = Some (int n)" "tr_next t = int (Suc k)" using t(1) by (simp_all add: part_state_def)
  have "accept_inner sha now ?p i dir turn call s =
      (if int n \<le> int (Suc k) then finalize_transfer sha now t dir ?p turn call ?s1
       else (Inl (Pending (ai_filename i) (int (Suc k)) (Some (int n)) (int (Suc k))), ?s1))"
    unfolding accept_inner_def Let_def start sum.case prod.case go total option.case ..
  then have "accept_inner sha now ?p i dir turn call s =
      (if Suc k < n then (Inl (Pending (ai_filename i) (int (Suc k)) (Some (int n)) (int (Suc k))), ?s1)
       else finalize_transfer sha now t dir ?p turn call ?s1)"
    using k by (simp split: if_splits)
  moreover have "parts_received sha n sz digest decoded i dir (Suc k) d ?s1" using t d0(2) by (simp add: parts_received_def)
  ultimately show ?thesis using that t(1) by blast
qed

text \<open>C24. A file that comes in \<open>n\<close> chunks, asked for one by one: every chunk but the last is answered by the number of the next,
  and the last one delivers the bytes of all chunks in order, under the name of the file when that is free.\<close>

theorem chunks_are_joined:
  assumes n: "0 < n" and enc: "\<And>k. k < n \<Longrightarrow> b64decode (encoded k) = Some (decoded k) \<and> length (encoded k) \<le> 16 * 1024 * 1024"
    and fits: "length (concat (map decoded [0..<n])) \<le> 256 * 1024 * 1024"
    and sz: "sz = Some (int (length (concat (map decoded [0..<n]))))" and digest: "digest = None \<or> digest = Some (sha (concat (map decoded [0..<n])))"
    and start: "active_of (artifact_key sha i) s = None" "staged (sk_disk s) dir (staging_name (artifact_key sha i)) = None"
    and free: "\<not> name_taken (sk_disk s) dir (ai_filename i)" "ai_filename i \<noteq> ''..''"
  shows "(\<forall>k. Suc k < n \<longrightarrow>
      fst (accept_response sha now (part_response n sz digest encoded k) i dir '''' '''' (receive_parts sha now (part_response n sz digest encoded) i dir k s))
        = Inl (Pending (ai_filename i) (int (Suc k)) (Some (int n)) (int (Suc k))))
    \<and> (\<exists>a. fst (accept_response sha now (part_response n sz digest encoded (n - 1)) i dir '''' ''''
             (receive_parts sha now (part_response n sz digest encoded) i dir (n - 1) s)) = Inr a \<and> ar_name a = ai_filename i)
    \<and> file_at (sk_disk (receive_parts sha now (part_response n sz digest encoded) i dir n s)) dir (ai_filename i)
        = Some (concat (map decoded [0..<n]))"
proof -
  let ?p = "part_response n sz digest encoded" and ?key = "artifact_key sha i"
  let ?r = "\<lambda>k. receive_parts sha now ?p i dir k s"
  have fits': "length (concat (map decoded [0..<n])) \<le> MAX_ARTIFACT_BYTES" and enc': "\<And>k. k < n \<Longrightarrow> length (encoded k) \<le> MAX_CHUNK_BASE64_CHARS"
    and sz': "sz = None \<or> sz = Some (int (length (concat (map decoded [0..<n]))))"
    using fits enc sz by (simp_all add: MAX_ARTIFACT_BYTES_def MAX_CHUNK_BASE64_CHARS_def)
  have received: "parts_received sha n sz digest decoded i dir k (sk_disk s) (?r k)" if "k < n" for k
    using that
  proof (induction k)
    case 0
    then show ?case using start by (simp add: parts_received_def)
  next
    case (Suc k)
    then have k: "k < n" and IH: "parts_received sha n sz digest decoded i dir k (sk_disk s) (?r k)" by simp_all
    obtain t s1 where a: "accept_inner sha now (?p k) i dir '''' '''' (?r k) =
        (if Suc k < n then (Inl (Pending (ai_filename i) (int (Suc k)) (Some (int n)) (int (Suc k))), s1)
         else finalize_transfer sha now t dir (?p k) '''' '''' s1)"
      and s1: "parts_received sha n sz digest decoded i dir (Suc k) (sk_disk s) s1" "part_state n sz digest decoded i dir (Suc k) t"
      by (rule part_accepted[where encoded = encoded and decoded = decoded, OF IH k conjunct1[OF enc[OF k]] enc'[OF k] fits' sz'])
    have "?r (Suc k) = s1" using a Suc.prems by (simp add: accept_response_def)
    then show ?case using s1(1) by simp
  qed
  have pend: "fst (accept_response sha now (?p k) i dir '''' '''' (?r k)) = Inl (Pending (ai_filename i) (int (Suc k)) (Some (int n)) (int (Suc k)))"
    if "Suc k < n" for k
  proof -
    have k: "k < n" using that by simp
    obtain t s1 where a: "accept_inner sha now (?p k) i dir '''' '''' (?r k) =
        (if Suc k < n then (Inl (Pending (ai_filename i) (int (Suc k)) (Some (int n)) (int (Suc k))), s1)
         else finalize_transfer sha now t dir (?p k) '''' '''' s1)"
      and "parts_received sha n sz digest decoded i dir (Suc k) (sk_disk s) s1" "part_state n sz digest decoded i dir (Suc k) t"
      by (rule part_accepted[where encoded = encoded and decoded = decoded, OF received[OF k] k conjunct1[OF enc[OF k]] enc'[OF k] fits' sz'])
    then show ?thesis using that by (simp add: accept_response_def)
  qed
  obtain k where k: "n = Suc k" using n by (cases n) auto
  then have kn: "k < n" by simp
  obtain t s1 where a: "accept_inner sha now (?p k) i dir '''' '''' (?r k) =
        (if Suc k < n then (Inl (Pending (ai_filename i) (int (Suc k)) (Some (int n)) (int (Suc k))), s1)
         else finalize_transfer sha now t dir (?p k) '''' '''' s1)"
      and s1: "parts_received sha n sz digest decoded i dir (Suc k) (sk_disk s) s1" and t: "part_state n sz digest decoded i dir (Suc k) t"
    by (rule part_accepted[where encoded = encoded and decoded = decoded, OF received[OF kn] kn conjunct1[OF enc[OF kn]] enc'[OF kn] fits' sz'])
  let ?c = "concat (map decoded [0..<n])"
  let ?d2 = "unlink_file dir (sidecar_name (ai_filename i)) (sk_disk s1)"
  have files: "dk_files (sk_disk s1) = dk_files (sk_disk s)" and st: "staged (sk_disk s1) (tr_dir t) (staging_name (transfer_key sha t)) = Some ?c"
    using s1 t k by (simp_all add: parts_received_def part_state_def transfer_key_def)
  have ok: "check_content sha (tr_size t) (tr_sha t) ?c = Inr ()"
    using t sz digest k by (auto simp: check_content_Inr part_state_def size_differs_def sha_differs_def)
  have plan: "plan_final_path sha dir (tr_identity t) (length ?c) (sha ?c) (sk_disk s1) = Inr (ai_filename i, False, ?d2)"
    using free t by (simp add: plan_final_path_def ensure_contained_def part_state_def taken_files[OF files])
  have some: "\<not> (tr_size t = None \<and> tr_sha t = None)" using t sz by (simp add: part_state_def)
  have commit: "commit_staged (tr_dir t) (transfer_key sha t) dir (ai_filename i) ?c ?d2 =
      Inr (write_file dir (ai_filename i) ?c (unlink_staged (tr_dir t) (staging_name (transfer_key sha t)) ?d2))"
    using free by (simp add: commit_staged_def name_taken_def)
  define a where "a = made_artifact sha (tr_identity t) dir (ai_filename i) ?c (or_request (pr_request (?p k)) (tr_request t)) '''' ''''"
  define s2 where "s2 = on_disk (write_sidecar sha now a) (drop_staging sha t
      (s1\<lparr>sk_disk := write_file dir (ai_filename i) ?c (unlink_staged (tr_dir t) (staging_name (transfer_key sha t)) ?d2)\<rparr>))"
  have "finalize_transfer sha now t dir (?p k) '''' '''' s1 = (Inr a, s2)"
    unfolding finalize_transfer_def Let_def st option.case ok sum.case plan prod.case commit a_def s2_def using some by simp
  then have acc: "accept_response sha now (?p k) i dir '''' '''' (?r k) = (Inr a, s2)" using a k by (simp add: accept_response_def)
  have "file_at (sk_disk s2) dir (ai_filename i) = Some ?c"
    by (simp add: s2_def drop_staging_def Let_def file_at_sidecar a_def)
  moreover have "ar_name a = ai_filename i" by (simp add: a_def)
  ultimately show ?thesis using pend acc k by simp
qed

end
