(* ===== verification/DownloadExamples.thy ===== *)
theory DownloadExamples
  imports DownloadFacts "HOL-Library.Code_Target_Nat"
begin

text \<open>
  Downloads with concrete responses: the properties at work, and where the sink does not do what it means to.  The digest of a
  text is the text itself, and the directory of a session has its name.
\<close>

definition reply :: "dict \<Rightarrow> mcp_result" where
  "reply d = \<lparr>mr_is_error = False, mr_structured = JDict d, mr_blocks = []\<rparr>"

definition server_failure :: mcp_result where
  "server_failure = \<lparr>mr_is_error = True, mr_structured = JNull, mr_blocks = [Some ''gone'']\<rparr>"

definition get :: "mcp_result \<Rightarrow> dict \<Rightarrow> sink \<Rightarrow> artifact download \<times> sink" where
  "get r kwargs s = materialize id id ''now'' r ''s'' ''miqroforge'' ''download_file'' kwargs ''t'' ''c'' s"

definition empty_disk :: disk where
  "empty_disk = \<lparr>dk_files = [], dk_staging = []\<rparr>"

definition new_sink :: "disk \<Rightarrow> sink" where
  "new_sink d = \<lparr>sk_active = [], sk_swept = [], sk_disk = d\<rparr>"

definition abc :: mcp_result where
  "abc = reply [(''name'', JStr ''a.txt''), (''content_base64'', JStr ''QUJD''), (''size_bytes'', JNum 3)]"

definition abc_part :: "int \<Rightarrow> mcp_result" where
  "abc_part k = reply [(''name'', JStr ''a.txt''), (''content_base64'', JStr ''QUJD''), (''size_bytes'', JNum 6), (''chunk_index'', JNum k), (''total_chunks'', JNum 2)]"

definition with_foreign :: sink where
  "with_foreign = new_sink \<lparr>dk_files = [((''s'', ''a.txt''), ''mine'')], dk_staging = []\<rparr>"

lemma new_sink_reach: "sink_reach id id (new_sink d)"
  unfolding new_sink_def by (rule fresh_sink)

lemma get_reach: "sink_reach id id s \<Longrightarrow> sink_reach id id (snd (get r kwargs s))"
  unfolding get_def by (rule takes)

subsection \<open>The properties at work\<close>

theorem transfer_bounds_witness:
  "\<exists>key t. active_of key (snd (get (abc_part 0) [] (new_sink empty_disk))) = Some t
     \<and> set (tr_seen t) = {0..<tr_next t} \<and> tr_next t = 1 \<and> tr_received t \<le> 256 * 1024 * 1024"
proof -
  let ?s = "snd (get (abc_part 0) [] (new_sink empty_disk))"
  have "map_option tr_next (active_of (take 32 ''s|miqroforge|download_file|{}|a.txt'') ?s) = Some 1" by code_simp
  then obtain t where t: "active_of (take 32 ''s|miqroforge|download_file|{}|a.txt'') ?s = Some t" "tr_next t = 1" by blast
  show ?thesis using transfer_bounds[OF get_reach[OF new_sink_reach] t(1)] t by blast
qed

theorem delivered_is_verified_witness:
  "\<exists>a s'. get abc [] (new_sink empty_disk) = (Inr a, s') \<and> file_at (sk_disk s') ''s'' ''a.txt'' = Some ''ABC''
     \<and> length ''ABC'' = ar_size a \<and> id ''ABC'' = ar_sha a"
proof -
  obtain r s' where g: "get abc [] (new_sink empty_disk) = (r, s')" by (cases "get abc [] (new_sink empty_disk)")
  have r: "(case fst (get abc [] (new_sink empty_disk)) of Inr a \<Rightarrow> ar_dir a = ''s'' \<and> ar_name a = ''a.txt'' | Inl e \<Rightarrow> False)"
    "file_at (sk_disk (snd (get abc [] (new_sink empty_disk)))) ''s'' ''a.txt'' = Some ''ABC''"
    by code_simp+
  then obtain a where a: "r = Inr a" "ar_dir a = ''s''" "ar_name a = ''a.txt''" using g by (cases r) auto
  from delivered_is_verified[OF new_sink_reach g[unfolded get_def a(1)]]
  have checked: "length ''ABC'' = ar_size a" "id ''ABC'' = ar_sha a" using r(2) a g by auto
  show ?thesis
  proof (intro exI[of _ a] exI[of _ s'] conjI checked)
    show "get abc [] (new_sink empty_disk) = (Inr a, s')" using g a by simp
    show "file_at (sk_disk s') ''s'' ''a.txt'' = Some ''ABC''" using g r(2) by simp
  qed
qed



theorem chunks_are_joined_witness:
  "file_at (sk_disk (receive_parts id ''now'' (part_response 2 (Some 6) None (\<lambda>k. ''QUJD''))
      \<lparr>ai_session = ''s'', ai_server = ''m'', ai_tool = ''d'', ai_args_hash = '''', ai_filename = ''a.txt''\<rparr> ''s'' 2 (new_sink empty_disk)))
     ''s'' ''a.txt'' = Some ''ABCABC''"
proof -
  let ?i = "\<lparr>ai_session = ''s'', ai_server = ''m'', ai_tool = ''d'', ai_args_hash = '''', ai_filename = ''a.txt''\<rparr>"
  have d: "b64decode ''QUJD'' = Some ''ABC''" by code_simp
  have m: "concat (map (\<lambda>k. ''ABC'') [0..<2::nat]) = ''ABCABC''" by (simp add: numeral_2_eq_2)
  have s: "active_of (artifact_key id ?i) (new_sink empty_disk) = None" "staged (sk_disk (new_sink empty_disk)) ''s'' (staging_name (artifact_key id ?i)) = None"
    "\<not> name_taken (sk_disk (new_sink empty_disk)) ''s'' (ai_filename ?i)"
    by (simp_all add: active_of_def staged_def name_taken_def file_at_def new_sink_def empty_disk_def)
  show ?thesis
    using chunks_are_joined[where n = 2 and encoded = "\<lambda>k. ''QUJD''" and decoded = "\<lambda>k. ''ABC''" and sz = "Some 6" and digest = None and sha = id
        and i = ?i and dir = "''s''" and s = "new_sink empty_disk" and now = "''now''"] d s
    unfolding m by simp
qed

theorem delivered_in_directory_witness:
  "\<exists>a s'. get abc [] (new_sink empty_disk) = (Inr a, s') \<and> ar_dir a = ''s'' \<and> CHR ''/'' \<notin> set (ar_name a) \<and> ar_name a \<noteq> ''..''"
proof -
  obtain r s' where g: "get abc [] (new_sink empty_disk) = (r, s')" by (cases "get abc [] (new_sink empty_disk)")
  have "(case fst (get abc [] (new_sink empty_disk)) of Inr a \<Rightarrow> True | Inl e \<Rightarrow> False)" by code_simp
  then obtain a where a: "r = Inr a" using g by (cases r) auto
  show ?thesis using delivered_in_directory[OF new_sink_reach g[unfolded get_def a]] g a by auto
qed

theorem delivery_leaves_proof_witness:
  "\<exists>a s'. get abc [] (new_sink empty_disk) = (Inr a, s') \<and> owned_by id (sk_disk s') (ar_dir a) (ar_name a) (ar_identity a)"
proof -
  obtain r s' where g: "get abc [] (new_sink empty_disk) = (r, s')" by (cases "get abc [] (new_sink empty_disk)")
  have "(case fst (get abc [] (new_sink empty_disk)) of Inr a \<Rightarrow> True | Inl e \<Rightarrow> False)" by code_simp
  then obtain a where a: "r = Inr a" using g by (cases r) auto
  have "file_at (sk_disk (new_sink empty_disk)) (ar_dir a) (ar_name a) = None" by (simp add: file_at_def new_sink_def empty_disk_def)
  then show ?thesis using delivery_leaves_proof[OF new_sink_reach g[unfolded get_def a]] g a by auto
qed

subsection \<open>Where the sink does not do what it means to\<close>

text \<open>A response with an empty digest and no size is delivered although nothing can be checked.\<close>

theorem empty_digest_checks_nothing:
  "case fst (get (reply [(''name'', JStr ''a.txt''), (''content_base64'', JStr ''QUJD''), (''sha256'', JStr '''')]) [] (new_sink empty_disk)) of
     Inr a \<Rightarrow> ar_name a = ''a.txt'' | Inl e \<Rightarrow> False"
  by code_simp

text \<open>The cleaning of a name can make the very name it means to refuse; the second guard stops the file.\<close>

theorem cleaning_makes_parent:
  "sanitize_name ''.<.'' = Inr ''..'' \<and> sanitize_name ''..'' = Inl PathError
   \<and> fst (get (reply [(''name'', JStr ''.<.''), (''content_base64'', JStr ''QUJD''), (''size_bytes'', JNum 3)]) [] (new_sink empty_disk)) = Inl PathError"
  by (intro conjI) code_simp+

text \<open>The same download again, next to a foreign file of its name, makes another copy each time.\<close>

theorem retries_pile_up:
  "(case fst (get abc [] with_foreign) of Inr a \<Rightarrow> ar_name a = ''a (1).txt'' | Inl e \<Rightarrow> False)
   \<and> (case fst (get abc [] (snd (get abc [] with_foreign))) of Inr a \<Rightarrow> ar_name a = ''a (2).txt'' | Inl e \<Rightarrow> False)"
  by (intro conjI) code_simp+

definition json_file :: mcp_result where
  "json_file = reply [(''name'', JStr ''a.txt.download.json''), (''content_base64'', JStr ''QUJD''), (''size_bytes'', JNum 3)]"

text \<open>A delivered file that has the name of a sidecar is overwritten when the other file arrives.\<close>

theorem sidecar_replaces_a_file:
  "file_at (sk_disk (snd (get json_file [] (new_sink empty_disk)))) ''s'' ''a.txt.download.json'' = Some ''ABC''
   \<and> file_at (sk_disk (snd (get abc [] (snd (get json_file [] (new_sink empty_disk)))))) ''s'' ''a.txt.download.json'' \<noteq> Some ''ABC''"
  by (intro conjI) code_simp+

text \<open>The first use of another sink on the same directory removes what a transfer has staged; its next chunk then fails.\<close>

theorem other_sink_sweeps_the_transfer:
  "fst (get (abc_part 0) [] (new_sink empty_disk)) = Inl (Pending ''a.txt'' 1 (Some 2) 1)
   \<and> fst (get (abc_part 1) [] (snd (get (abc_part 0) [] (new_sink empty_disk)))) \<noteq> Inl SizeMismatch
   \<and> fst (get (abc_part 1) [] ((snd (get (abc_part 0) [] (new_sink empty_disk)))
        \<lparr>sk_disk := sk_disk (sweep_stale_once ''s'' (new_sink (sk_disk (snd (get (abc_part 0) [] (new_sink empty_disk)))))) \<rparr>)) = Inl SizeMismatch"
  by (intro conjI) code_simp+

text \<open>The error of a server is reported as a bad name when the request names the file by its path, and the transfer is not dropped.\<close>

theorem server_error_is_hidden:
  "fst (get server_failure [(''filename'', JStr ''/data/a.txt'')] (new_sink empty_disk)) = Inl PathError
   \<and> fst (get server_failure [] (new_sink empty_disk)) = Inl (ServerError ''gone'')"
  by (intro conjI) code_simp+

text \<open>A size that is written with a superscript digit raises an exception that no one turns into an error of the download.\<close>

theorem superscript_size_escapes:
  "fst (materialize_download id id ''now'' (reply [(''name'', JStr ''a.txt''), (''content_base64'', JStr ''QUJD''), (''size_bytes'', JStr [CHR 0xB2])])
      ''s'' ''miqroforge'' ''download_file'' [] ''t'' ''c'' (new_sink empty_disk)) = Inl (ValueError ''invalid literal for int()'')"
  by code_simp

end
