(* ===== verification/Spec2Isabelle.thy ===== *)
theory Spec2Isabelle
  imports EventBus ExecPolicy CollabPolicy TurnGuards UserInput Turns Orchestrator ApplyPatch Compressor KunLoopFacts GuardFacts CommandApproval ToolRepair Resilience AgentControl DownloadExamples
begin

text \<open>
  A verification development for the agent runtime of MiqroForge Desktop (the Python package
  \<open>miqi\<close>).  The runtime runs turns of an agent: a turn calls a model, the model asks for tool calls, and
  every tool call passes hooks, a permission check, possibly a question to the user, the choice of a sandbox
  and the execution.  The KUN runtime keeps threads and turns in files, publishes what happens on an event
  bus, and suspends turns at two gates that wait for the user.

  \<^bold>\<open>Theories and the code they model\<close>

  \<^item> \<open>PyStr\<close>, \<open>PyJson\<close>, \<open>JsonText\<close>: the part of Python the code uses.  A \<open>str\<close> is a string of code points below
    256, a dictionary an association list in insertion order, a value of \<open>json.loads\<close> the datatype \<open>json\<close>
    (without floating-point numbers), an exception a value of \<open>py_error\<close>; \<open>json.dumps\<close> and the parser with
    their round trip.
  \<^item> \<open>EventBus\<close>: \<open>kun_runtime/event_bus.py\<close>, \<open>event_recorder.py\<close>.  Sequence numbers, history, subscribers.
  \<^item> \<open>ExecPolicy\<close>, \<open>CollabPolicy\<close>, \<open>Permission\<close>: \<open>execution/exec_policy.py\<close>, \<open>approval_policy.py\<close>,
    \<open>collab_policy.py\<close>, \<open>permission_engine.py\<close>.  From a tool call to a verdict.
  \<^item> \<open>SandboxPolicy\<close>, \<open>Hooks\<close>, \<open>ToolBase\<close>, \<open>ToolArgs\<close>, \<open>Orchestrator\<close>: \<open>execution/sandbox_policy.py\<close>,
    \<open>hook_runtime.py\<close>, \<open>orchestrator.py\<close>, \<open>agent/tools/base.py\<close>, \<open>registry.py\<close>, \<open>write_grants.py\<close>.  The
    pipeline of one tool call and the approvals it waits for.
  \<^item> \<open>TurnGuards\<close>: \<open>kun_runtime/tool_storm_breaker.py\<close>, \<open>cancellation.py\<close>, \<open>usage.py\<close>,
    \<open>agent/iteration_budget.py\<close>.  What bounds a turn.
  \<^item> \<open>Gates\<close>, \<open>UserInput\<close>: \<open>kun_runtime/approval_gate.py\<close>, \<open>user_input_gate.py\<close>.  Suspended requests, settled
    once; the locale \<open>resolve_once\<close> is their contract and that of the orchestrator's futures.
  \<^item> \<open>Stores\<close>, \<open>Services\<close>, \<open>Turns\<close>: \<open>kun_runtime/stores.py\<close>, \<open>thread_service.py\<close>, \<open>turn_service.py\<close>.  Files on
    disk, the services over them, the life of a turn; the locale \<open>record_store\<close> is the store's contract.

  \<^item> \<open>ApplyPatch\<close>: \<open>agent/tools/apply_patch.py\<close>.  The parser of unified diffs, the search for a hunk's place and
    the replacement.
  \<^item> \<open>ContextRuntime\<close>, \<open>PairRepair\<close>, \<open>Compressor\<close>: \<open>runtime/context_runtime.py\<close>, \<open>agent/context_compressor.py\<close>.
    Token estimates, trimming, pairing of calls and results, compression of a long history.
  \<^item> \<open>KunModel\<close>, \<open>KunHistory\<close>: \<open>kun_runtime/model_client.py\<close>, \<open>context_estimator.py\<close>, \<open>compactor.py\<close>,
    \<open>history_repair.py\<close>.  From the items of a thread to a request the provider accepts.
  \<^item> \<open>ToolHost\<close>: \<open>kun_runtime/tool_host.py\<close>, \<open>agent/tools/ask_user_confirm.py\<close>.  One tool call of the KUN runtime:
    allow list, approval, collaboration gate, confirmation card, the body.
  \<^item> \<open>KunLoop\<close>, \<open>KunLoopFacts\<close>: \<open>kun_runtime/loop.py\<close>, \<open>agent/agent_mode.py\<close>.  The loop of a turn: steering, the
    stream, compaction, dispatch in batches, budgets, how a turn ends; the locales \<open>lp_frame\<close> and
    \<open>lp_tools_frame\<close> are the contract of an action that keeps a relation between states.
  \<^item> \<open>PyRegex\<close>, \<open>GuardPaths\<close>, \<open>CommandGuard\<close>, \<open>GuardFacts\<close>: \<open>agent/command_guard.py\<close>.  What a shell command would
    do to the file system, and whether the session may.
  \<^item> \<open>CommandApproval\<close>: \<open>agent/command_approval.py\<close>.  The patterns of dangerous commands and the approvals that are
    remembered for a session or for ever.
  \<^item> \<open>ToolRepair\<close>: \<open>agent/tool_call_repair.py\<close>, \<open>history_hygiene.py\<close>, \<open>token_economy.py\<close>, \<open>auto_model_router.py\<close>.
    Arguments a model has wrapped or broken, outputs that are shortened before a request, the choice of a model.
  \<^item> \<open>Resilience\<close>: \<open>providers/resilience.py\<close>, \<open>providers/fallback.py\<close>.  The kinds of failure of a provider, the retry
    loop and its waits, the chain of providers that are asked in turn.
  \<^item> \<open>AgentGraph\<close>, \<open>AgentJobs\<close>, \<open>AgentControl\<close>: \<open>runtime/agent_status.py\<close>, \<open>agent_graph_store.py\<close>, \<open>agent_jobs.py\<close>,
    \<open>agent_control.py\<close>.  Sub-agents: the states of an agent, the tables of jobs and spawn edges, the jobs with their
    watchdog and their restart, spawning and killing under a limit, the report of the end.  An operation of a history is one
    step between two suspensions; \<open>agents_reach\<close> are the states any interleaving of them leads to.
  \<^item> \<open>Downloads\<close>, \<open>DownloadSink\<close>, \<open>DownloadFacts\<close>, \<open>DownloadExamples\<close>: \<open>agent/tools/mcp_download_sink.py\<close>.  What a
    server answers, whom a download belongs to, the joining of chunks, the checks, the place of the file and its sidecar; the
    state is a \<open>sink\<close> with its transfers and the disk, and \<open>sink_reach\<close> are its states after any responses, whatever
    others do to the disk in between.

  \<^bold>\<open>Conventions\<close>

  A coroutine is cut at the places where it waits for somebody else; everything between two such places is one
  step, as in the single-threaded event loop.  The clock, random identifiers, digests, the bodies of tools
  and hooks and the file system beyond the modelled files are arguments.  Texts for the user that are Chinese in
  the source have an English stand-in, since their characters are outside the modelled code points; no
  modelled decision reads them.

  \<^bold>\<open>Termination\<close>

  The retry loop of the orchestrator is bounded by its retry counter, the schema check by the depth of the
  schema, the masking of texts by their length, the rounds of a turn by the mode of its thread, the dispatch of
  tool calls by the calls left, the retries of a provider by the attempts allowed, the chain by the providers left, the walk
  over the spawn edges by the agents not yet visited, the search for a free file name by the names taken; every definition is a total function, none uses fuel.

  \<^bold>\<open>Not modelled\<close>

  The desktop application (TypeScript), the bridge and channel processes, the command line and the terminal
  interface, document converters, provider adapters, the shell and file tools' bodies, the bubblewrap adapter and
  the databases are input and output around the modelled core; the manifest lists them.  Of the modelled modules the legacy
  loop \<open>_run_agent\<close> of the agent control, which only runs without a job runtime, and the reading of \<open>Retry-After\<close>
  (floating-point text and dates) are left out; the disk of the download sink is one that works.
\<close>

end
